(* ===== verification/Prelude.thy ===== *)
theory Prelude
  imports Main "HOL-Library.Word" "HOL-Library.Multiset"
begin

text \<open>
  What every component theory shares: the three-way comparison of
  \<^verbatim>\<open>std::cmp::Ordering\<close> with the lexicographic order it induces on lists, the
  interface of a guarded transition system (initial states, steps, an invariant), and
  the result type of fallible Rust code. The named collections gather the rewrite rules
  that carry the component proofs.
\<close>

named_theorems rust_simps \<open>unfolding rules of the Rust standard library operations\<close>
named_theorems step_simps \<open>unfolding rules of state transitions\<close>

section \<open>Results\<close>

text \<open>
  \<^verbatim>\<open>Result<T, E>\<close> is a sum with the error on the left, \<^verbatim>\<open>Option<T>\<close> is
  \<open>'a option\<close>. The \<^verbatim>\<open>?\<close> operator is a case distinction.
\<close>

type_synonym ('e, 'a) result = "'e + 'a"

abbreviation Ok :: "'a \<Rightarrow> ('e, 'a) result" where
  "Ok \<equiv> Inr"

abbreviation Err :: "'e \<Rightarrow> ('e, 'a) result" where
  "Err \<equiv> Inl"

definition is_ok :: "('e, 'a) result \<Rightarrow> bool" where
  "is_ok r = (case r of Inl _ \<Rightarrow> False | Inr _ \<Rightarrow> True)"

lemma is_ok_simps [simp]: "is_ok (Inr x)" "\<not> is_ok (Inl e)"
  by (simp_all add: is_ok_def)

definition ensure :: "bool \<Rightarrow> 'e \<Rightarrow> ('e, unit) result" where
  "ensure b e = (if b then Inr () else Inl e)"

lemma ensure_simps [simp]:
  "ensure True e = Inr ()" "ensure False e = Inl e"
  by (simp_all add: ensure_def)

lemma ensure_eq_Inr [simp]: "ensure b e = Inr u \<longleftrightarrow> b"
  by (simp add: ensure_def)

definition and_then :: "('e, 'a) result \<Rightarrow> ('a \<Rightarrow> ('e, 'b) result) \<Rightarrow> ('e, 'b) result" where
  "and_then r f = (case r of Inl e \<Rightarrow> Inl e | Inr x \<Rightarrow> f x)"

lemma and_then_simps [simp]:
  "and_then (Inl e) f = Inl e" "and_then (Inr x) f = f x"
  by (simp_all add: and_then_def)

lemma and_then_eq_Inr: "and_then r f = Inr y \<longleftrightarrow> (\<exists>x. r = Inr x \<and> f x = Inr y)"
  by (cases r) auto

lemma and_then_eq_Inl:
  "and_then r f = Inl e \<longleftrightarrow> r = Inl e \<or> (\<exists>x. r = Inr x \<and> f x = Inl e)"
  by (cases r) auto

section \<open>Three-way comparison\<close>

text \<open>\<^verbatim>\<open>std::cmp::Ordering\<close> and its combinators.\<close>

datatype ordering = Less | Equal | Greater

fun reverse_ord :: "ordering \<Rightarrow> ordering" where
  "reverse_ord Less = Greater"
| "reverse_ord Equal = Equal"
| "reverse_ord Greater = Less"

lemma reverse_ord_reverse [simp]: "reverse_ord (reverse_ord x) = x"
  by (cases x) simp_all

lemma reverse_ord_eq_iff [simp]:
  "reverse_ord x = Less \<longleftrightarrow> x = Greater"
  "reverse_ord x = Greater \<longleftrightarrow> x = Less"
  "reverse_ord x = Equal \<longleftrightarrow> x = Equal"
  by (cases x; simp)+

definition then_ord :: "ordering \<Rightarrow> ordering \<Rightarrow> ordering" where
  "then_ord a b = (if a = Equal then b else a)"

definition cmp_nat :: "nat \<Rightarrow> nat \<Rightarrow> ordering" where
  "cmp_nat x y = (if x < y then Less else if x = y then Equal else Greater)"

lemma cmp_nat_simps [simp]:
  "cmp_nat x y = Less \<longleftrightarrow> x < y"
  "cmp_nat x y = Equal \<longleftrightarrow> x = y"
  "cmp_nat x y = Greater \<longleftrightarrow> y < x"
  by (auto simp: cmp_nat_def)

text \<open>The lexicographic order on slices: a proper prefix is smaller.\<close>

fun lex_cmp :: "('a \<Rightarrow> 'a \<Rightarrow> ordering) \<Rightarrow> 'a list \<Rightarrow> 'a list \<Rightarrow> ordering" where
  "lex_cmp c [] [] = Equal"
| "lex_cmp c [] (y # ys) = Less"
| "lex_cmp c (x # xs) [] = Greater"
| "lex_cmp c (x # xs) (y # ys) =
     (case c x y of Less \<Rightarrow> Less | Greater \<Rightarrow> Greater | Equal \<Rightarrow> lex_cmp c xs ys)"

text \<open>
  The contract of a total three-way comparison. Strings, version identifiers and
  pre-release lists all implement it, each from the one below.
\<close>

locale three_way =
  fixes cmp :: "'a \<Rightarrow> 'a \<Rightarrow> ordering"
  assumes cmp_Equal: "cmp x y = Equal \<longleftrightarrow> x = y"
    and cmp_reverse: "cmp y x = reverse_ord (cmp x y)"
    and cmp_Less_trans: "cmp x y = Less \<Longrightarrow> cmp y z = Less \<Longrightarrow> cmp x z = Less"
begin

lemma cmp_refl: "cmp x x = Equal"
  by (simp add: cmp_Equal)

lemma cmp_Greater: "cmp x y = Greater \<longleftrightarrow> cmp y x = Less"
  by (simp add: cmp_reverse [where x = x and y = y])

lemma cmp_Less_asym: "cmp x y = Less \<Longrightarrow> cmp y x \<noteq> Less"
  by (simp add: cmp_reverse [where x = x and y = y])

lemma cmp_total: "cmp x y = Less \<or> x = y \<or> cmp y x = Less"
  using cmp_Equal cmp_Greater by (cases "cmp x y") auto

lemma lex_Equal: "lex_cmp cmp xs ys = Equal \<longleftrightarrow> xs = ys"
proof (induction xs arbitrary: ys)
  case Nil
  then show ?case by (cases ys) simp_all
next
  case (Cons x xs)
  show ?case
  proof (cases ys)
    case Nil
    then show ?thesis by simp
  next
    case (Cons y ys')
    then show ?thesis
      using Cons.IH [of ys'] cmp_Equal [of x y] by (cases "cmp x y") auto
  qed
qed

lemma lex_reverse: "lex_cmp cmp ys xs = reverse_ord (lex_cmp cmp xs ys)"
proof (induction xs arbitrary: ys)
  case Nil
  then show ?case by (cases ys) simp_all
next
  case (Cons x xs)
  show ?case
  proof (cases ys)
    case Nil
    then show ?thesis by simp
  next
    case (Cons y ys')
    then show ?thesis
      using Cons.IH [of ys'] cmp_reverse [where x = x and y = y]
      by (cases "cmp x y") simp_all
  qed
qed

lemma lex_Less_trans:
  "lex_cmp cmp xs ys = Less \<Longrightarrow> lex_cmp cmp ys zs = Less \<Longrightarrow> lex_cmp cmp xs zs = Less"
proof (induction xs arbitrary: ys zs)
  case Nil
  then show ?case by (cases ys; cases zs) simp_all
next
  case (Cons x xs)
  from Cons.prems obtain y ys' where ys: "ys = y # ys'" by (cases ys) auto
  from Cons.prems ys obtain z zs' where zs: "zs = z # zs'" by (cases zs) auto
  show ?case
  proof (cases "cmp x y")
    case Less
    have "cmp x z = Less"
      using Less Cons.prems ys zs
      by (cases "cmp y z") (auto intro: cmp_Less_trans dest: cmp_Equal [THEN iffD1])
    then show ?thesis by (simp add: zs)
  next
    case Equal
    then have "x = y" by (simp add: cmp_Equal)
    with Cons.prems ys zs Cons.IH [of ys' zs'] show ?thesis
      by (cases "cmp y z") (auto simp: cmp_refl)
  next
    case Greater
    with Cons.prems ys show ?thesis by simp
  qed
qed

lemma lex_three_way: "three_way (lex_cmp cmp)"
  by unfold_locales (auto simp: lex_Equal intro: lex_reverse lex_Less_trans)

end

interpretation nat_cmp: three_way cmp_nat
  by unfold_locales (auto simp: cmp_nat_def split: if_splits)

section \<open>Guarded transition systems\<close>

text \<open>
  The states a system can get into: the least predicate that holds of the initial
  states and is closed under the steps. A component instantiates it with its own
  initial states and step relation.
\<close>

inductive reach :: "('s \<Rightarrow> bool) \<Rightarrow> ('s \<Rightarrow> 's \<Rightarrow> bool) \<Rightarrow> 's \<Rightarrow> bool"
  for init :: "'s \<Rightarrow> bool" and step :: "'s \<Rightarrow> 's \<Rightarrow> bool" where
  reach_init: "init s \<Longrightarrow> reach init step s"
| reach_step: "reach init step s \<Longrightarrow> step s t \<Longrightarrow> reach init step t"

text \<open>
  The contract of an inductive invariant. The component that provides the transitions
  discharges the two laws; every reachable state then satisfies the invariant.
\<close>

locale guarded_system =
  fixes init :: "'s \<Rightarrow> bool"
    and step :: "'s \<Rightarrow> 's \<Rightarrow> bool"
    and inv :: "'s \<Rightarrow> bool"
  assumes inv_init: "init s \<Longrightarrow> inv s"
    and inv_step: "inv s \<Longrightarrow> step s t \<Longrightarrow> inv t"
begin

lemma reach_inv: "reach init step s \<Longrightarrow> inv s"
  by (induction rule: reach.induct) (auto intro: inv_init inv_step)

lemma reach_inv_steps: "step\<^sup>*\<^sup>* s t \<Longrightarrow> inv s \<Longrightarrow> inv t"
  by (induction rule: rtranclp_induct) (auto intro: inv_step)

end

text \<open>
  A quantity that no step decreases, a generation counter for instance: it is monotone
  along every run.
\<close>

locale monotone_system =
  fixes step :: "'s \<Rightarrow> 's \<Rightarrow> bool" and measure_of :: "'s \<Rightarrow> nat"
  assumes measure_step: "step s t \<Longrightarrow> measure_of s \<le> measure_of t"
begin

lemma measure_mono: "step\<^sup>*\<^sup>* s t \<Longrightarrow> measure_of s \<le> measure_of t"
  by (induction rule: rtranclp_induct) (auto dest: measure_step)

end

section \<open>Maps, options and lists\<close>

lemma map_upd_dom_finite [simp]: "finite (dom (m(k \<mapsto> v))) = finite (dom m)"
  by simp

lemma find_eq_Some_iff_hd:
  "List.find P xs = Some x \<Longrightarrow> P x \<and> x \<in> set xs"
  by (induction xs) (auto split: if_splits)

text \<open>\<^verbatim>\<open>Vec::remove\<close> at the first position that satisfies a predicate.\<close>

fun remove_first :: "('a \<Rightarrow> bool) \<Rightarrow> 'a list \<Rightarrow> ('a \<times> 'a list) option" where
  "remove_first P [] = None"
| "remove_first P (x # xs) =
     (if P x then Some (x, xs)
      else map_option (\<lambda>(y, ys). (y, x # ys)) (remove_first P xs))"

lemma remove_first_Some:
  "remove_first P xs = Some (y, ys) \<Longrightarrow> P y \<and> mset xs = add_mset y (mset ys)"
  by (induction xs arbitrary: y ys) (auto split: if_splits)

lemma remove_first_None [simp]: "remove_first P xs = None \<longleftrightarrow> (\<forall>x \<in> set xs. \<not> P x)"
  by (induction xs) auto

text \<open>\<^verbatim>\<open>collect::<Option<Vec<_>>>()\<close>: every element or nothing.\<close>

fun collect_opt :: "'a option list \<Rightarrow> 'a list option" where
  "collect_opt [] = Some []"
| "collect_opt (x # xs) =
     (case x of None \<Rightarrow> None | Some y \<Rightarrow> map_option ((#) y) (collect_opt xs))"

lemma collect_opt_Some: "collect_opt xs = Some ys \<longleftrightarrow> xs = map Some ys"
  by (induction xs arbitrary: ys) (auto split: option.splits)

lemma collect_opt_map_Some:
  "collect_opt (map f xs) = Some ys \<longleftrightarrow> list_all2 (\<lambda>x y. f x = Some y) xs ys"
proof (induction xs arbitrary: ys)
  case Nil
  then show ?case by auto
next
  case (Cons x xs)
  then show ?case by (cases ys) (auto split: option.splits)
qed

end
