(* ===== verification/RustStr.thy ===== *)
theory RustStr
  imports Prelude
begin

text \<open>
  The string operations of the Rust standard library that the source uses. A
  \<^verbatim>\<open>String\<close> or \<^verbatim>\<open>&str\<close> is the HOL \<open>string\<close> of its UTF-8 bytes, so that
  \<^verbatim>\<open>len()\<close> is \<open>length\<close> and the byte predicates apply as they are. Operations
  that look at characters (\<^verbatim>\<open>chars().count()\<close>, \<^verbatim>\<open>trim()\<close>,
  \<^verbatim>\<open>char::is_control\<close>) decode the multi-byte sequences they need.
\<close>

section \<open>Bytes\<close>

abbreviation byte :: "char \<Rightarrow> nat" where
  "byte c \<equiv> of_char c"

text \<open>A string literal given by its UTF-8 bytes.\<close>

definition utf8 :: "nat list \<Rightarrow> string" where
  "utf8 bs = map char_of bs"

definition is_ascii_digit :: "char \<Rightarrow> bool" where
  "is_ascii_digit c \<longleftrightarrow> 48 \<le> byte c \<and> byte c \<le> 57"

definition is_ascii_lowercase :: "char \<Rightarrow> bool" where
  "is_ascii_lowercase c \<longleftrightarrow> 97 \<le> byte c \<and> byte c \<le> 122"

definition is_ascii_uppercase :: "char \<Rightarrow> bool" where
  "is_ascii_uppercase c \<longleftrightarrow> 65 \<le> byte c \<and> byte c \<le> 90"

definition is_ascii_alphabetic :: "char \<Rightarrow> bool" where
  "is_ascii_alphabetic c \<longleftrightarrow> is_ascii_lowercase c \<or> is_ascii_uppercase c"

definition is_ascii_alphanumeric :: "char \<Rightarrow> bool" where
  "is_ascii_alphanumeric c \<longleftrightarrow> is_ascii_alphabetic c \<or> is_ascii_digit c"

definition is_ascii_hexdigit :: "char \<Rightarrow> bool" where
  "is_ascii_hexdigit c \<longleftrightarrow> is_ascii_digit c
     \<or> 97 \<le> byte c \<and> byte c \<le> 102 \<or> 65 \<le> byte c \<and> byte c \<le> 70"

definition to_ascii_uppercase_byte :: "char \<Rightarrow> char" where
  "to_ascii_uppercase_byte c = (if is_ascii_lowercase c then char_of (byte c - 32) else c)"

definition to_ascii_uppercase :: "string \<Rightarrow> string" where
  "to_ascii_uppercase s = map to_ascii_uppercase_byte s"

lemmas ascii_defs [rust_simps] = is_ascii_digit_def is_ascii_lowercase_def
  is_ascii_uppercase_def is_ascii_alphabetic_def is_ascii_alphanumeric_def
  is_ascii_hexdigit_def

lemma byte_inject: "byte c = byte d \<longleftrightarrow> c = d"
  by simp

section \<open>Comparison\<close>

definition byte_cmp :: "char \<Rightarrow> char \<Rightarrow> ordering" where
  "byte_cmp c d = cmp_nat (byte c) (byte d)"

definition str_cmp :: "string \<Rightarrow> string \<Rightarrow> ordering" where
  "str_cmp = lex_cmp byte_cmp"

interpretation byte_ord: three_way byte_cmp
proof
  show "byte_cmp x y = Equal \<longleftrightarrow> x = y" for x y
    by (simp add: byte_cmp_def)
  show "byte_cmp y x = reverse_ord (byte_cmp x y)" for x y
    unfolding byte_cmp_def by (rule nat_cmp.cmp_reverse)
  show "byte_cmp x y = Less \<Longrightarrow> byte_cmp y z = Less \<Longrightarrow> byte_cmp x z = Less" for x y z
    unfolding byte_cmp_def by (rule nat_cmp.cmp_Less_trans)
qed

interpretation str_ord: three_way str_cmp
  unfolding str_cmp_def by (rule byte_ord.lex_three_way)

section \<open>Searching and splitting\<close>

definition starts_with :: "string \<Rightarrow> string \<Rightarrow> bool" where
  "starts_with s p \<longleftrightarrow> take (length p) s = p"

definition ends_with :: "string \<Rightarrow> string \<Rightarrow> bool" where
  "ends_with s p \<longleftrightarrow> length p \<le> length s \<and> drop (length s - length p) s = p"

lemma starts_with_iff: "starts_with s p \<longleftrightarrow> (\<exists>t. s = p @ t)"
  by (metis append_eq_conv_conj append_take_drop_id starts_with_def)

lemma ends_with_iff: "ends_with s p \<longleftrightarrow> (\<exists>t. s = t @ p)"
  by (metis append_eq_conv_conj append_take_drop_id diff_diff_cancel ends_with_def
      length_append length_drop le_add2 add_diff_cancel_right')

text \<open>\<^verbatim>\<open>str::split(char)\<close>: never empty, one segment more than separators.\<close>

fun split_on :: "char \<Rightarrow> string \<Rightarrow> string list" where
  "split_on c [] = [[]]"
| "split_on c (x # xs) =
     (if x = c then [] # split_on c xs
      else (case split_on c xs of s # ss \<Rightarrow> (x # s) # ss | [] \<Rightarrow> [[x]]))"

fun join_on :: "char \<Rightarrow> string list \<Rightarrow> string" where
  "join_on c [] = []"
| "join_on c [s] = s"
| "join_on c (s # t # ss) = s @ c # join_on c (t # ss)"

text \<open>\<^verbatim>\<open>str::split_once(char)\<close>: around the first separator.\<close>

fun split_once :: "char \<Rightarrow> string \<Rightarrow> (string \<times> string) option" where
  "split_once c [] = None"
| "split_once c (x # xs) =
     (if x = c then Some ([], xs) else map_option (\<lambda>(a, b). (x # a, b)) (split_once c xs))"

lemma split_on_ne [simp]: "split_on c s \<noteq> []"
  by (induction s) (auto split: list.splits)

lemma split_on_Cons_neq:
  "x \<noteq> c \<Longrightarrow> split_on c (x # xs) = (x # hd (split_on c xs)) # tl (split_on c xs)"
  by (auto split: list.splits)

lemma split_on_no_sep: "s \<in> set (split_on c t) \<Longrightarrow> c \<notin> set s"
proof (induction t arbitrary: s)
  case Nil
  then show ?case by simp
next
  case (Cons x xs)
  then show ?case
    using split_on_ne [of c xs] by (cases "split_on c xs") (auto split: if_splits)
qed

lemma split_on_set: "s \<in> set (split_on c t) \<Longrightarrow> set s \<subseteq> set t"
proof (induction t arbitrary: s)
  case Nil
  then show ?case by simp
next
  case (Cons x xs)
  then show ?case
    using split_on_ne [of c xs]
    by (cases "split_on c xs") (fastforce split: if_splits)+
qed

lemma join_split [simp]: "join_on c (split_on c s) = s"
proof (induction s)
  case (Cons x xs)
  then show ?case
    by (cases "split_on c xs"; cases "tl (split_on c xs)") (auto split: list.splits)
qed simp

lemma split_on_id: "c \<notin> set s \<Longrightarrow> split_on c s = [s]"
  by (induction s) (auto split: list.splits)

lemma split_on_append: "c \<notin> set s \<Longrightarrow> split_on c (s @ c # t) = s # split_on c t"
  by (induction s) (auto split: list.splits)

lemma split_join:
  "ss \<noteq> [] \<Longrightarrow> (\<forall>s \<in> set ss. c \<notin> set s) \<Longrightarrow> split_on c (join_on c ss) = ss"
  by (induction c ss rule: join_on.induct) (auto simp: split_on_id split_on_append)

lemma split_once_None: "split_once c s = None \<longleftrightarrow> c \<notin> set s"
  by (induction s) auto

lemma split_once_absent [simp]: "c \<notin> set s \<Longrightarrow> split_once c s = None"
  by (simp add: split_once_None)

lemma split_once_Some: "split_once c s = Some (a, b) \<longleftrightarrow> s = a @ c # b \<and> c \<notin> set a"
proof (induction s arbitrary: a)
  case Nil
  then show ?case by simp
next
  case (Cons x xs)
  then show ?case by (cases a) auto
qed

lemma split_once_append [simp]: "c \<notin> set a \<Longrightarrow> split_once c (a @ c # b) = Some (a, b)"
  by (simp add: split_once_Some)

section \<open>Numbers\<close>

definition digit_val :: "char \<Rightarrow> nat" where
  "digit_val c = byte c - 48"

definition dec_val :: "string \<Rightarrow> nat" where
  "dec_val s = foldl (\<lambda>n c. 10 * n + digit_val c) 0 s"

text \<open>
  \<^verbatim>\<open>str::parse\<close> for an unsigned type with the given maximum: an optional plus sign,
  then at least one digit and nothing else; an overflowing value is an error.
\<close>

definition parse_unsigned :: "nat \<Rightarrow> string \<Rightarrow> nat option" where
  "parse_unsigned mx s =
     (let ds = (case s of c # cs \<Rightarrow> if c = CHR ''+'' then cs else s | [] \<Rightarrow> [])
      in if ds \<noteq> [] \<and> (\<forall>c \<in> set ds. is_ascii_digit c) \<and> dec_val ds \<le> mx
         then Some (dec_val ds) else None)"

definition u64_max :: nat where "u64_max = 18446744073709551615"

definition parse_u64 :: "string \<Rightarrow> nat option" where
  "parse_u64 = parse_unsigned u64_max"

definition parse_u8 :: "string \<Rightarrow> nat option" where
  "parse_u8 = parse_unsigned 255"

lemma dec_val_append: "dec_val (s @ t) = dec_val s * 10 ^ length t + dec_val t"
proof (induction t rule: rev_induct)
  case Nil
  then show ?case by (simp add: dec_val_def)
next
  case (snoc c t)
  then show ?case by (simp add: dec_val_def algebra_simps)
qed

lemma dec_val_Nil [simp]: "dec_val [] = 0"
  by (simp add: dec_val_def)

lemma dec_val_Cons: "dec_val (c # s) = digit_val c * 10 ^ length s + dec_val s"
  using dec_val_append [of "[c]" s] by (simp add: dec_val_def)

lemma digit_val_less: "is_ascii_digit c \<Longrightarrow> digit_val c < 10"
  unfolding is_ascii_digit_def digit_val_def by linarith

lemma digit_val_inject:
  assumes "is_ascii_digit c" "is_ascii_digit d"
  shows "digit_val c = digit_val d \<longleftrightarrow> c = d"
proof -
  have "digit_val c = digit_val d \<longleftrightarrow> byte c = byte d"
    using assms unfolding is_ascii_digit_def digit_val_def by linarith
  then show ?thesis by (simp only: byte_inject)
qed

lemma dec_val_bound: "(\<forall>c \<in> set s. is_ascii_digit c) \<Longrightarrow> dec_val s < 10 ^ length s"
proof (induction s)
  case Nil
  then show ?case by simp
next
  case (Cons c s)
  then have "digit_val c \<le> 9" "dec_val s < 10 ^ length s"
    using digit_val_less [of c] by auto
  moreover have "digit_val c * 10 ^ length s \<le> 9 * 10 ^ length s"
    using \<open>digit_val c \<le> 9\<close> by (rule mult_right_mono) simp
  ultimately have "digit_val c * 10 ^ length s + dec_val s < 10 * 10 ^ length s"
    by linarith
  then show ?case by (simp add: dec_val_Cons)
qed

text \<open>
  Equal-length digit strings compare lexicographically as their values do.
\<close>

lemma str_cmp_dec_val:
  assumes "length s = length t" "\<forall>c \<in> set s. is_ascii_digit c" "\<forall>c \<in> set t. is_ascii_digit c"
  shows "str_cmp s t = cmp_nat (dec_val s) (dec_val t)"
  using assms
proof (induction s t rule: list_induct2)
  case Nil
  then show ?case by (simp add: str_cmp_def cmp_nat_def)
next
  case (Cons c s d t)
  let ?p = "10 ^ length t :: nat"
  have bnd: "dec_val s < ?p" "dec_val t < ?p"
    using Cons.prems Cons.hyps dec_val_bound by fastforce+
  have less: "a * ?p + m < b * ?p + n" if "a < b" "m < ?p" for a b m n :: nat
  proof -
    have "a * ?p + m < (a + 1) * ?p" using that by simp
    also have "\<dots> \<le> b * ?p" using that by (intro mult_right_mono) auto
    finally show ?thesis by simp
  qed
  have dg: "is_ascii_digit c" "is_ascii_digit d" using Cons.prems by auto
  then have cd: "byte c < byte d \<longleftrightarrow> digit_val c < digit_val d"
       "byte d < byte c \<longleftrightarrow> digit_val d < digit_val c"
    unfolding is_ascii_digit_def digit_val_def by linarith+
  consider "digit_val c < digit_val d" | "c = d" | "digit_val d < digit_val c"
    using dg digit_val_inject [of c d] by linarith
  then show ?case
  proof cases
    case 1
    with less [OF 1 bnd(1), of "dec_val t"] cd show ?thesis
      by (simp add: str_cmp_def byte_cmp_def dec_val_Cons Cons.hyps cmp_nat_def)
  next
    case 2
    with Cons show ?thesis
      by (simp add: str_cmp_def byte_cmp_def dec_val_Cons cmp_nat_def)
  next
    case 3
    then have "c \<noteq> d" by auto
    with 3 less [OF 3 bnd(2), of "dec_val s"] cd show ?thesis
      by (simp add: str_cmp_def byte_cmp_def dec_val_Cons Cons.hyps cmp_nat_def)
  qed
qed

section \<open>Characters\<close>

text \<open>
  \<^verbatim>\<open>s.chars().count()\<close>: the bytes of a UTF-8 string that are not continuation bytes.
\<close>

definition is_continuation :: "char \<Rightarrow> bool" where
  "is_continuation c \<longleftrightarrow> 128 \<le> byte c \<and> byte c < 192"

definition chars_count :: "string \<Rightarrow> nat" where
  "chars_count s = length (filter (\<lambda>c. \<not> is_continuation c) s)"

lemma chars_count_le: "chars_count s \<le> length s"
  by (simp add: chars_count_def)

text \<open>
  The Unicode White\_Space characters, by the length of their encoding at the front of
  a byte string (0 when the string does not start with one).
\<close>

fun ws_prefix :: "nat list \<Rightarrow> nat" where
  "ws_prefix (a # b # c # bs) =
     (if 9 \<le> a \<and> a \<le> 13 \<or> a = 32 then 1
      else if a = 194 \<and> (b = 133 \<or> b = 160) then 2
      else if a = 225 \<and> b = 154 \<and> c = 128 then 3
      else if a = 226 \<and> b = 128
         \<and> (128 \<le> c \<and> c \<le> 138 \<or> c = 168 \<or> c = 169 \<or> c = 175) then 3
      else if a = 226 \<and> b = 129 \<and> c = 159 then 3
      else if a = 227 \<and> b = 128 \<and> c = 128 then 3
      else 0)"
| "ws_prefix [a, b] =
     (if 9 \<le> a \<and> a \<le> 13 \<or> a = 32 then 1
      else if a = 194 \<and> (b = 133 \<or> b = 160) then 2 else 0)"
| "ws_prefix [a] = (if 9 \<le> a \<and> a \<le> 13 \<or> a = 32 then 1 else 0)"
| "ws_prefix [] = 0"

lemma ws_prefix_le: "ws_prefix bs \<le> length bs"
  by (induction bs rule: ws_prefix.induct) auto

function trim_start_bytes :: "string \<Rightarrow> string" where
  "trim_start_bytes s =
     (let n = ws_prefix (map byte s)
      in if n = 0 then s else trim_start_bytes (drop n s))"
  by pat_completeness auto
termination
proof (relation "measure length", simp, goal_cases)
  case (1 s n)
  then show ?case using ws_prefix_le [of "map byte s"] by simp
qed

declare trim_start_bytes.simps [simp del]

text \<open>Trailing white space: the encodings read backwards from the end.\<close>

fun ws_suffix :: "nat list \<Rightarrow> nat" where
  "ws_suffix (a # b # c # bs) =
     (if 9 \<le> a \<and> a \<le> 13 \<or> a = 32 then 1
      else if b = 194 \<and> (a = 133 \<or> a = 160) then 2
      else if c = 225 \<and> b = 154 \<and> a = 128 then 3
      else if c = 226 \<and> b = 128
         \<and> (128 \<le> a \<and> a \<le> 138 \<or> a = 168 \<or> a = 169 \<or> a = 175) then 3
      else if c = 226 \<and> b = 129 \<and> a = 159 then 3
      else if c = 227 \<and> b = 128 \<and> a = 128 then 3
      else 0)"
| "ws_suffix [a, b] =
     (if 9 \<le> a \<and> a \<le> 13 \<or> a = 32 then 1
      else if b = 194 \<and> (a = 133 \<or> a = 160) then 2 else 0)"
| "ws_suffix [a] = (if 9 \<le> a \<and> a \<le> 13 \<or> a = 32 then 1 else 0)"
| "ws_suffix [] = 0"

lemma ws_suffix_le: "ws_suffix bs \<le> length bs"
  by (induction bs rule: ws_suffix.induct) auto

function trim_end_rev :: "string \<Rightarrow> string" where
  "trim_end_rev s =
     (let n = ws_suffix (map byte s)
      in if n = 0 then s else trim_end_rev (drop n s))"
  by pat_completeness auto
termination
proof (relation "measure length", simp, goal_cases)
  case (1 s n)
  then show ?case using ws_suffix_le [of "map byte s"] by simp
qed

declare trim_end_rev.simps [simp del]

definition trim :: "string \<Rightarrow> string" where
  "trim s = rev (trim_end_rev (rev (trim_start_bytes s)))"

text \<open>\<^verbatim>\<open>s.chars().any(char::is_control)\<close>: C0, DEL and C1 control characters.\<close>

fun any_control :: "string \<Rightarrow> bool" where
  "any_control [] = False"
| "any_control (c # cs) =
     (byte c < 32 \<or> byte c = 127
      \<or> byte c = 194 \<and> (case cs of d # _ \<Rightarrow> 128 \<le> byte d \<and> byte d \<le> 159 | [] \<Rightarrow> False)
      \<or> any_control cs)"

text \<open>Trimming only ever removes a prefix and a suffix.\<close>

lemma trim_start_suffix: "\<exists>p. s = p @ trim_start_bytes s"
proof (induction s rule: trim_start_bytes.induct)
  case (1 s)
  let ?n = "ws_prefix (map byte s)"
  show ?case
  proof (cases "?n = 0")
    case True
    then show ?thesis by (subst trim_start_bytes.simps) simp
  next
    case False
    with "1.IH" [OF refl] obtain p where "drop ?n s = p @ trim_start_bytes (drop ?n s)"
      by blast
    then have "s = (take ?n s @ p) @ trim_start_bytes (drop ?n s)"
      by (metis append_assoc append_take_drop_id)
    then have "\<exists>q. s = q @ trim_start_bytes (drop ?n s)" by blast
    with False show ?thesis by (simp add: trim_start_bytes.simps [of s] Let_def)
  qed
qed

lemma trim_end_suffix: "\<exists>p. s = p @ trim_end_rev s"
proof (induction s rule: trim_end_rev.induct)
  case (1 s)
  let ?n = "ws_suffix (map byte s)"
  show ?case
  proof (cases "?n = 0")
    case True
    then show ?thesis by (subst trim_end_rev.simps) simp
  next
    case False
    with "1.IH" [OF refl] obtain p where "drop ?n s = p @ trim_end_rev (drop ?n s)"
      by blast
    then have "s = (take ?n s @ p) @ trim_end_rev (drop ?n s)"
      by (metis append_assoc append_take_drop_id)
    then have "\<exists>q. s = q @ trim_end_rev (drop ?n s)" by blast
    with False show ?thesis by (simp add: trim_end_rev.simps [of s] Let_def)
  qed
qed

lemma trim_infix: "\<exists>p q. s = p @ trim s @ q"
proof -
  obtain p where p: "s = p @ trim_start_bytes s"
    using trim_start_suffix by blast
  obtain q where "rev (trim_start_bytes s) = q @ trim_end_rev (rev (trim_start_bytes s))"
    using trim_end_suffix by blast
  then have "trim_start_bytes s = trim s @ rev q"
    unfolding trim_def by (metis rev_append rev_rev_ident)
  with p show ?thesis by metis
qed

lemma trim_length: "length (trim s) \<le> length s"
proof -
  obtain p q where "s = p @ trim s @ q" using trim_infix by blast
  then have "length s = length p + length (trim s) + length q"
    by (metis add.assoc length_append)
  then show ?thesis by simp
qed

lemma trim_Nil [simp]: "trim [] = []"
  using trim_length [of "[]"] by simp

text \<open>Trimming a second time changes nothing.\<close>

lemma ws_prefix_append: "ws_prefix bs \<noteq> 0 \<Longrightarrow> ws_prefix (bs @ cs) \<noteq> 0"
proof (induction bs rule: ws_prefix.induct)
  case (2 a b)
  then show ?case by (cases cs) (auto split: if_splits)
next
  case (3 a)
  then show ?case by (cases cs rule: ws_prefix.cases) (auto split: if_splits)
qed (auto split: if_splits)

lemma trim_start_done: "ws_prefix (map byte (trim_start_bytes s)) = 0"
proof (induction s rule: trim_start_bytes.induct)
  case (1 s)
  then show ?case by (cases "ws_prefix (map byte s) = 0") (simp_all add: trim_start_bytes.simps [of s] Let_def)
qed

lemma trim_end_done: "ws_suffix (map byte (trim_end_rev s)) = 0"
proof (induction s rule: trim_end_rev.induct)
  case (1 s)
  then show ?case by (cases "ws_suffix (map byte s) = 0") (simp_all add: trim_end_rev.simps [of s] Let_def)
qed

lemma trim_idem [simp]: "trim (trim s) = trim s"
proof -
  obtain q where "rev (trim_start_bytes s) = q @ trim_end_rev (rev (trim_start_bytes s))"
    using trim_end_suffix by blast
  then have s: "trim_start_bytes s = trim s @ rev q"
    unfolding trim_def by (metis rev_append rev_rev_ident)
  have "ws_prefix (map byte (trim s)) = 0"
  proof (rule ccontr)
    assume "ws_prefix (map byte (trim s)) \<noteq> 0"
    then have "ws_prefix (map byte (trim s) @ map byte (rev q)) \<noteq> 0" by (rule ws_prefix_append)
    then show False using trim_start_done [of s] s by simp
  qed
  then have "trim_start_bytes (trim s) = trim s" by (subst trim_start_bytes.simps) simp
  moreover have "trim_end_rev (rev (trim s)) = rev (trim s)"
    using trim_end_done [of "rev (trim_start_bytes s)"] by (subst trim_end_rev.simps) (simp add: trim_def)
  ultimately show ?thesis by (simp add: trim_def [of "trim s"])
qed

end
