(* ===== verification/Semver.thy ===== *)
theory Semver
  imports RustStr
begin

text \<open>
  SemVer 2.0.0 parsing and precedence (\<^verbatim>\<open>updater/src/manifest/semver.rs\<close>), and the
  minimum-updater gate that consumes it (\<^verbatim>\<open>updater/src/upgrade/mod.rs\<close>). The parser is
  characterised by a grammar written as a renderer; the comparison is compared with the
  precedence of the specification.
\<close>

section \<open>Data\<close>

datatype version_identifier = Numeric string | Alphanumeric string

record semver =
  major :: string
  minor :: string
  patch :: string
  pre :: "version_identifier list option"

section \<open>Parsing\<close>

definition parse_numeric :: "string \<Rightarrow> version_identifier option" where
  "parse_numeric ident =
     (if ident = [] \<or> \<not> (\<forall>b \<in> set ident. is_ascii_digit b) then None
      else if 1 < length ident \<and> starts_with ident ''0'' then None
      else Some (Numeric ident))"

definition parse_pre_identifier :: "string \<Rightarrow> version_identifier option" where
  "parse_pre_identifier ident =
     (if ident = [] \<or> \<not> (\<forall>b \<in> set ident. is_ascii_alphanumeric b \<or> b = CHR ''-'') then None
      else if \<forall>b \<in> set ident. is_ascii_digit b then parse_numeric ident
      else Some (Alphanumeric ident))"

definition valid_build_ident :: "string \<Rightarrow> bool" where
  "valid_build_ident ident \<longleftrightarrow>
     ident \<noteq> [] \<and> (\<forall>b \<in> set ident. is_ascii_alphanumeric b \<or> b = CHR ''-'')"

fun num_text :: "version_identifier \<Rightarrow> string" where
  "num_text (Numeric s) = s"
| "num_text (Alphanumeric s) = s"

definition semver_parse :: "string \<Rightarrow> semver option" where
  "semver_parse s =
     (let (core_pre, build) =
        (case split_once CHR ''+'' s of Some (c, b) \<Rightarrow> (c, Some b) | None \<Rightarrow> (s, None));
          build_ok = (case build of None \<Rightarrow> True
            | Some b \<Rightarrow> b \<noteq> [] \<and> (\<forall>i \<in> set (split_on CHR ''.'' b). valid_build_ident i))
      in if \<not> build_ok then None
         else
           (let (core, pre') =
              (case split_once CHR ''-'' core_pre of Some (c, p) \<Rightarrow> (c, Some p)
               | None \<Rightarrow> (core_pre, None))
            in case split_on CHR ''.'' core of
                 [ma, mi, pa] \<Rightarrow>
                   (case (parse_numeric ma, parse_numeric mi, parse_numeric pa) of
                      (Some ma', Some mi', Some pa') \<Rightarrow>
                        (case pre' of
                           None \<Rightarrow> Some \<lparr>major = num_text ma', minor = num_text mi',
                                         patch = num_text pa', pre = None\<rparr>
                         | Some p \<Rightarrow>
                             (case collect_opt (map parse_pre_identifier (split_on CHR ''.'' p)) of
                                None \<Rightarrow> None
                              | Some ids \<Rightarrow> Some \<lparr>major = num_text ma', minor = num_text mi',
                                                  patch = num_text pa', pre = Some ids\<rparr>))
                    | _ \<Rightarrow> None)
               | _ \<Rightarrow> None))"

section \<open>Comparison\<close>

definition unwrap_or :: "'a option \<Rightarrow> 'a \<Rightarrow> 'a" where
  "unwrap_or x d = (case x of None \<Rightarrow> d | Some y \<Rightarrow> y)"

definition semver_core :: "semver \<Rightarrow> nat \<times> nat \<times> nat" where
  "semver_core v = (unwrap_or (parse_u64 (major v)) 0, unwrap_or (parse_u64 (minor v)) 0,
                    unwrap_or (parse_u64 (patch v)) 0)"

text \<open>The derived order on a tuple of integers.\<close>

definition core_lt :: "nat \<times> nat \<times> nat \<Rightarrow> nat \<times> nat \<times> nat \<Rightarrow> bool" where
  "core_lt x y = (case (x, y) of ((a, b, c), (d, e, f)) \<Rightarrow>
     a < d \<or> a = d \<and> (b < e \<or> b = e \<and> c < f))"

fun ident_lt :: "version_identifier \<Rightarrow> version_identifier \<Rightarrow> ordering" where
  "ident_lt (Numeric x) (Numeric y) = then_ord (cmp_nat (length x) (length y)) (str_cmp x y)"
| "ident_lt (Numeric _) (Alphanumeric _) = Less"
| "ident_lt (Alphanumeric _) (Numeric _) = Greater"
| "ident_lt (Alphanumeric x) (Alphanumeric y) = str_cmp x y"

text \<open>
  The loop over \<open>0..n\<close> with \<open>pa.get(i)\<close> and \<open>pb.get(i)\<close>: index \<open>i\<close> walks down both
  lists together, and the loop is left at the first difference.
\<close>

fun pre_lt :: "version_identifier list \<Rightarrow> version_identifier list \<Rightarrow> bool" where
  "pre_lt [] [] = False"
| "pre_lt [] (_ # _) = True"
| "pre_lt (_ # _) [] = False"
| "pre_lt (x # xs) (y # ys) =
     (case ident_lt x y of Less \<Rightarrow> True | Greater \<Rightarrow> False | Equal \<Rightarrow> pre_lt xs ys)"

definition semver_is_lt :: "semver \<Rightarrow> semver \<Rightarrow> bool" where
  "semver_is_lt a b =
     (if semver_core a \<noteq> semver_core b then core_lt (semver_core a) (semver_core b)
      else case (pre a, pre b) of
        (Some pa, Some pb) \<Rightarrow> pre_lt pa pb
      | (Some _, None) \<Rightarrow> True
      | (None, Some _) \<Rightarrow> False
      | (None, None) \<Rightarrow> False)"

text \<open>
  The minimum-version gate. \<^verbatim>\<open>env!("CARGO_PKG_VERSION")\<close> is fixed at build time, so
  the running version is an argument. Error messages are left out; the code is kept.
\<close>

datatype version_gate_error = UPDATER_TOO_OLD | SCHEMA_INCOMPATIBLE

definition check_minimum_updater_version ::
    "string \<Rightarrow> string \<Rightarrow> (version_gate_error, unit) result" where
  "check_minimum_updater_version current minimum =
     (case (semver_parse current, semver_parse minimum) of
        (Some c, Some m) \<Rightarrow> if \<not> semver_is_lt c m then Ok () else Err UPDATER_TOO_OLD
      | _ \<Rightarrow> Err SCHEMA_INCOMPATIBLE)"

section \<open>The grammar\<close>

fun wf_ident :: "version_identifier \<Rightarrow> bool" where
  "wf_ident (Numeric s) \<longleftrightarrow>
     s \<noteq> [] \<and> (\<forall>b \<in> set s. is_ascii_digit b) \<and> (hd s = CHR ''0'' \<longrightarrow> s = ''0'')"
| "wf_ident (Alphanumeric s) \<longleftrightarrow>
     valid_build_ident s \<and> \<not> (\<forall>b \<in> set s. is_ascii_digit b)"

definition wf_semver :: "semver \<Rightarrow> bool" where
  "wf_semver v \<longleftrightarrow>
     wf_ident (Numeric (major v)) \<and> wf_ident (Numeric (minor v)) \<and> wf_ident (Numeric (patch v))
     \<and> (case pre v of None \<Rightarrow> True | Some ids \<Rightarrow> ids \<noteq> [] \<and> list_all wf_ident ids)"

definition wf_build :: "string list option \<Rightarrow> bool" where
  "wf_build b = (case b of None \<Rightarrow> True | Some ids \<Rightarrow> ids \<noteq> [] \<and> list_all valid_build_ident ids)"

definition render_core :: "semver \<Rightarrow> string" where
  "render_core v = join_on CHR ''.'' [major v, minor v, patch v]"

definition render_semver :: "semver \<Rightarrow> string list option \<Rightarrow> string" where
  "render_semver v build =
     render_core v
     @ (case pre v of None \<Rightarrow> [] | Some ids \<Rightarrow> CHR ''-'' # join_on CHR ''.'' (map num_text ids))
     @ (case build of None \<Rightarrow> [] | Some ids \<Rightarrow> CHR ''+'' # join_on CHR ''.'' ids)"

text \<open>What evaluates the parser and the comparison on closed strings.\<close>

lemmas semver_eval = semver_parse_def semver_is_lt_def semver_core_def core_lt_def
  parse_numeric_def parse_pre_identifier_def parse_u64_def parse_unsigned_def u64_max_def
  dec_val_def digit_val_def unwrap_or_def starts_with_def valid_build_ident_def
  ascii_defs str_cmp_def byte_cmp_def cmp_nat_def then_ord_def

subsection \<open>Characters of the pieces\<close>

lemma digits_no_sep:
  assumes "\<forall>b \<in> set s. is_ascii_digit b"
  shows "CHR ''.'' \<notin> set s" "CHR ''-'' \<notin> set s" "CHR ''+'' \<notin> set s"
proof -
  have "\<not> is_ascii_digit CHR ''.''" "\<not> is_ascii_digit CHR ''-''" "\<not> is_ascii_digit CHR ''+''"
    by (simp_all add: is_ascii_digit_def)
  with assms show "CHR ''.'' \<notin> set s" "CHR ''-'' \<notin> set s" "CHR ''+'' \<notin> set s" by blast+
qed

lemma valid_build_no_sep:
  assumes "valid_build_ident s"
  shows "CHR ''.'' \<notin> set s" "CHR ''+'' \<notin> set s"
proof -
  have "\<not> is_ascii_alphanumeric CHR ''.''" "\<not> is_ascii_alphanumeric CHR ''+''"
    by (simp_all add: ascii_defs)
  with assms show "CHR ''.'' \<notin> set s" "CHR ''+'' \<notin> set s"
    unfolding valid_build_ident_def by blast+
qed

lemma digit_alnum: "is_ascii_digit b \<Longrightarrow> is_ascii_alphanumeric b"
  by (simp add: is_ascii_alphanumeric_def)

lemma parse_numeric_iff:
  "parse_numeric s = Some i \<longleftrightarrow> i = Numeric s \<and> wf_ident (Numeric s)"
proof (cases s)
  case Nil
  then show ?thesis by (simp add: parse_numeric_def)
next
  case (Cons c cs)
  then show ?thesis by (cases cs) (auto simp: parse_numeric_def starts_with_def)
qed

lemma parse_pre_identifier_iff:
  "parse_pre_identifier s = Some i \<longleftrightarrow> num_text i = s \<and> wf_ident i"
proof (cases "\<forall>b \<in> set s. is_ascii_digit b")
  case True
  then show ?thesis
    by (cases i) (auto simp: parse_pre_identifier_def parse_numeric_iff digit_alnum)
next
  case False
  then show ?thesis
    by (cases i) (auto simp: parse_pre_identifier_def valid_build_ident_def)
qed

lemma set_join_on: "set (join_on c ss) \<subseteq> insert c (\<Union>(set ` set ss))"
  by (induction c ss rule: join_on.induct) auto

lemma wf_ident_no_sep:
  assumes "wf_ident i"
  shows "CHR ''.'' \<notin> set (num_text i)" "CHR ''+'' \<notin> set (num_text i)"
  using assms by (cases i; simp add: valid_build_no_sep digits_no_sep)+

lemma wf_core_no_sep:
  assumes "wf_semver v" "s \<in> {major v, minor v, patch v}"
  shows "CHR ''.'' \<notin> set s" "CHR ''-'' \<notin> set s" "CHR ''+'' \<notin> set s"
  using assms digits_no_sep [of s] by (auto simp: wf_semver_def)

lemma render_core_chars:
  assumes "wf_semver v"
  shows "CHR ''+'' \<notin> set (render_core v)" "CHR ''-'' \<notin> set (render_core v)"
  using wf_core_no_sep [OF assms] by (simp_all add: render_core_def)

lemma split_render_core:
  assumes "wf_semver v"
  shows "split_on CHR ''.'' (render_core v) = [major v, minor v, patch v]"
  unfolding render_core_def
  using wf_core_no_sep(1) [OF assms] by (intro split_join) simp_all

lemma join_no_plus:
  assumes "list_all wf_ident ids"
  shows "CHR ''+'' \<notin> set (join_on CHR ''.'' (map num_text ids))"
proof
  assume "CHR ''+'' \<in> set (join_on CHR ''.'' (map num_text ids))"
  then obtain i where "i \<in> set ids" "CHR ''+'' \<in> set (num_text i)"
    using set_join_on [of "CHR ''.''" "map num_text ids"] by auto
  with assms wf_ident_no_sep show False by (auto simp: list_all_iff)
qed

lemma list_all2_pre: "list_all2 (\<lambda>s i. parse_pre_identifier s = Some i) ss ids
    \<longleftrightarrow> ss = map num_text ids \<and> list_all wf_ident ids"
proof (induction ss arbitrary: ids)
  case Nil
  then show ?case by auto
next
  case (Cons s ss)
  then show ?case by (cases ids) (auto simp: parse_pre_identifier_iff)
qed

lemma split_pre:
  assumes "ids \<noteq> []" "list_all wf_ident ids"
  shows "split_on CHR ''.'' (join_on CHR ''.'' (map num_text ids)) = map num_text ids"
  using assms wf_ident_no_sep(1) by (intro split_join) (auto simp: list_all_iff)

lemma split_build:
  assumes "ids \<noteq> []" "list_all valid_build_ident ids"
  shows "split_on CHR ''.'' (join_on CHR ''.'' ids) = ids"
  using assms valid_build_no_sep(1) by (intro split_join) (auto simp: list_all_iff)

subsection \<open>The parser implements the grammar\<close>

lemma parse_numeric_wf [simp]: "wf_ident (Numeric s) \<Longrightarrow> parse_numeric s = Some (Numeric s)"
  by (simp add: parse_numeric_iff)

definition pre_part :: "semver \<Rightarrow> string" where
  "pre_part v = (case pre v of None \<Rightarrow> [] | Some ids \<Rightarrow> CHR ''-'' # join_on CHR ''.'' (map num_text ids))"

lemma pre_part_no_plus: "wf_semver v \<Longrightarrow> CHR ''+'' \<notin> set (pre_part v)"
  by (auto simp: pre_part_def wf_semver_def join_no_plus split: option.splits)

lemma split_pre_part:
  assumes "wf_semver v"
  shows "split_once CHR ''-'' (render_core v @ pre_part v) =
    (case pre v of None \<Rightarrow> None
     | Some ids \<Rightarrow> Some (render_core v, join_on CHR ''.'' (map num_text ids)))"
  using render_core_chars [OF assms] by (auto simp: pre_part_def split: option.splits)

lemma split_build_part:
  assumes "wf_semver v"
  shows "split_once CHR ''+'' (render_semver v b) =
    (case b of None \<Rightarrow> None
     | Some ids \<Rightarrow> Some (render_core v @ pre_part v, join_on CHR ''.'' ids))"
  using render_core_chars [OF assms] pre_part_no_plus [OF assms]
    split_once_append [of "CHR ''+''" "render_core v @ pre_part v"]
  by (auto simp: render_semver_def simp flip: pre_part_def split: option.splits)

lemma join_on_ne: "ids \<noteq> [] \<Longrightarrow> list_all valid_build_ident ids \<Longrightarrow> join_on c ids \<noteq> []"
  by (cases "(c, ids)" rule: join_on.cases) (auto simp: valid_build_ident_def)

lemma semver_parse_render:
  assumes v: "wf_semver v" and b: "wf_build b"
  shows "semver_parse (render_semver v b) = Some v"
proof -
  have core: "parse_numeric (major v) = Some (Numeric (major v))"
    "parse_numeric (minor v) = Some (Numeric (minor v))"
    "parse_numeric (patch v) = Some (Numeric (patch v))"
    using v by (simp_all add: wf_semver_def)
  have ids: "collect_opt (map (parse_pre_identifier \<circ> num_text) is) = Some is"
    if "list_all wf_ident is" for "is"
    using that by (simp add: collect_opt_Some list_all_iff parse_pre_identifier_iff)
  show ?thesis
  proof (cases b)
    case None
    have r: "render_semver v None = render_core v @ pre_part v"
      by (simp add: render_semver_def pre_part_def)
    have sp: "split_once CHR ''+'' (render_core v @ pre_part v) = None"
      using split_build_part [OF v, of None] r by simp
    show ?thesis
    proof (cases "pre v")
      case None
      with sp split_pre_part [OF v] show ?thesis
        unfolding \<open>b = None\<close> r semver_parse_def
        by (simp add: split_render_core [OF v] core pre_part_def)
    next
      case (Some pids)
      with v have "pids \<noteq> []" "list_all wf_ident pids" by (simp_all add: wf_semver_def)
      with sp split_pre_part [OF v] Some show ?thesis
        unfolding \<open>b = None\<close> r semver_parse_def
        by (simp add: split_render_core [OF v] core split_pre ids)
    qed
  next
    case (Some bs)
    with b have bs: "bs \<noteq> []" "list_all valid_build_ident bs"
      by (simp_all add: wf_build_def)
    have ok: "join_on CHR ''.'' bs \<noteq> []" using join_on_ne bs by blast
    have sp: "split_once CHR ''+'' (render_semver v b)
        = Some (render_core v @ pre_part v, join_on CHR ''.'' bs)"
      using split_build_part [OF v, of b] Some by simp
    have all: "\<forall>i \<in> set bs. valid_build_ident i" using bs by (simp add: list_all_iff)
    show ?thesis
    proof (cases "pre v")
      case None
      then have "pre_part v = []" by (simp add: pre_part_def)
      with sp split_pre_part [OF v] None all ok show ?thesis
        unfolding semver_parse_def
        by (simp add: split_render_core [OF v] core split_build [OF bs])
    next
      case (Some pids)
      with v have "pids \<noteq> []" "list_all wf_ident pids" by (simp_all add: wf_semver_def)
      with sp split_pre_part [OF v] Some all ok show ?thesis
        unfolding semver_parse_def
        by (simp add: split_render_core [OF v] core split_build [OF bs] split_pre ids)
    qed
  qed
qed

lemma split_once_cases:
  "(case split_once c s of Some (a, b) \<Rightarrow> (a, Some b) | None \<Rightarrow> (s, None)) = (x, y)
   \<Longrightarrow> s = x @ (case y of None \<Rightarrow> [] | Some t \<Rightarrow> c # t)"
  by (auto simp: split_once_Some split: option.splits)

lemma semver_parse_sound:
  assumes "semver_parse s = Some v"
  shows "wf_semver v \<and> (\<exists>b. wf_build b \<and> s = render_semver v b)"
proof -
  obtain cp bd where cb: "(case split_once CHR ''+'' s of Some (c, b) \<Rightarrow> (c, Some b)
      | None \<Rightarrow> (s, None)) = (cp, bd)" by fastforce
  obtain core pr where cpp: "(case split_once CHR ''-'' cp of Some (c, p) \<Rightarrow> (c, Some p)
      | None \<Rightarrow> (cp, None)) = (core, pr)" by fastforce
  from assms cb have bok: "case bd of None \<Rightarrow> True
      | Some b \<Rightarrow> b \<noteq> [] \<and> (\<forall>i \<in> set (split_on CHR ''.'' b). valid_build_ident i)"
    by (simp add: semver_parse_def Let_def split: if_splits)
  from assms cb cpp bok obtain ma mi pa where
    core: "split_on CHR ''.'' core = [ma, mi, pa]"
    and nums: "parse_numeric ma \<noteq> None" "parse_numeric mi \<noteq> None" "parse_numeric pa \<noteq> None"
    and rest: "case pr of
        None \<Rightarrow> v = \<lparr>major = ma, minor = mi, patch = pa, pre = None\<rparr>
      | Some p \<Rightarrow> \<exists>ids. collect_opt (map parse_pre_identifier (split_on CHR ''.'' p)) = Some ids
          \<and> v = \<lparr>major = ma, minor = mi, patch = pa, pre = Some ids\<rparr>"
    by (auto simp: semver_parse_def Let_def parse_numeric_iff
        split: list.splits option.splits)
  have core': "core = join_on CHR ''.'' [ma, mi, pa]"
    by (metis core join_split)
  have v: "major v = ma" "minor v = mi" "patch v = pa"
    using rest by (auto split: option.splits)
  have pr: "case pr of None \<Rightarrow> pre v = None
      | Some p \<Rightarrow> \<exists>ids. pre v = Some ids \<and> ids \<noteq> [] \<and> list_all wf_ident ids
                   \<and> p = join_on CHR ''.'' (map num_text ids)"
  proof (cases pr)
    case None
    with rest show ?thesis by simp
  next
    case (Some p)
    with rest obtain ids where ids: "pre v = Some ids"
      "split_on CHR ''.'' p = map num_text ids" "list_all wf_ident ids"
      by (auto simp: collect_opt_map_Some list_all2_pre)
    moreover have "ids \<noteq> []" using ids(2) split_on_ne [of "CHR ''.''" p] by auto
    moreover have "p = join_on CHR ''.'' (map num_text ids)" by (metis ids(2) join_split)
    ultimately show ?thesis using Some by auto
  qed
  have wf: "wf_semver v"
    using nums pr v by (auto simp: wf_semver_def parse_numeric_iff split: option.splits)
  have cp: "cp = render_core v @ pre_part v"
    using split_once_cases [OF cpp] pr core' v
    by (auto simp: render_core_def pre_part_def split: option.splits)
  define b where "b = map_option (split_on CHR ''.'') bd"
  have "wf_build b"
    using bok by (auto simp: b_def wf_build_def list_all_iff split: option.splits)
  moreover have "s = render_semver v b"
    using split_once_cases [OF cb] cp
    by (auto simp: render_semver_def b_def simp flip: pre_part_def split: option.splits)
  ultimately show ?thesis using wf by blast
qed

text \<open>
  The parser accepts exactly the SemVer 2.0.0 grammar and returns the version the
  text denotes: a string parses to a version if and only if that version is well formed
  (no leading zeros, no empty identifier) and the string is its rendering followed by an
  optional valid build suffix, which is discarded.
\<close>

theorem semver_parse_iff_grammar:
  "semver_parse s = Some v \<longleftrightarrow> wf_semver v \<and> (\<exists>b. wf_build b \<and> s = render_semver v b)"
  using semver_parse_sound semver_parse_render by metis

section \<open>Precedence\<close>

subsection \<open>Identifiers are totally ordered\<close>

lemma then_ord_simps [simp]:
  "then_ord Equal b = b" "then_ord Less b = Less" "then_ord Greater b = Greater"
  by (simp_all add: then_ord_def)

lemma then_ord_Equal: "then_ord a b = Equal \<longleftrightarrow> a = Equal \<and> b = Equal"
  by (simp add: then_ord_def)

lemma then_ord_Less: "then_ord a b = Less \<longleftrightarrow> a = Less \<or> a = Equal \<and> b = Less"
  by (auto simp: then_ord_def)

lemma then_ord_reverse: "reverse_ord (then_ord a b) = then_ord (reverse_ord a) (reverse_ord b)"
  by (cases a) simp_all

interpretation ident_ord: three_way ident_lt
proof
  fix x y z :: version_identifier
  show "ident_lt x y = Equal \<longleftrightarrow> x = y"
    by (cases x; cases y) (auto simp: then_ord_Equal str_ord.cmp_Equal)
  show "ident_lt y x = reverse_ord (ident_lt x y)"
  proof (cases x; cases y)
    fix s t assume "x = Numeric s" "y = Numeric t"
    then show ?thesis
      by (simp add: then_ord_reverse flip: nat_cmp.cmp_reverse str_ord.cmp_reverse)
  next
    fix s t assume "x = Alphanumeric s" "y = Alphanumeric t"
    then show ?thesis by (simp flip: str_ord.cmp_reverse)
  qed simp_all
  show "ident_lt x y = Less \<Longrightarrow> ident_lt y z = Less \<Longrightarrow> ident_lt x z = Less"
    by (cases x; cases y; cases z) (auto simp: then_ord_Less intro: str_ord.cmp_Less_trans)
qed

interpretation pre_ord: three_way "lex_cmp ident_lt"
  by (rule ident_ord.lex_three_way)

lemma pre_lt_lex: "pre_lt xs ys \<longleftrightarrow> lex_cmp ident_lt xs ys = Less"
  by (induction xs ys rule: pre_lt.induct) (auto split: ordering.splits)

text \<open>
  The comparison is a strict weak order on all versions, whatever the strings in
  their fields: irreflexive, asymmetric and transitive, and two versions are
  incomparable exactly when their parsed cores and their pre-release lists are equal.
\<close>

theorem semver_is_lt_strict_weak_order:
  "\<not> semver_is_lt a a
   \<and> (semver_is_lt a b \<longrightarrow> \<not> semver_is_lt b a)
   \<and> (semver_is_lt a b \<and> semver_is_lt b c \<longrightarrow> semver_is_lt a c)
   \<and> (\<not> semver_is_lt a b \<and> \<not> semver_is_lt b a \<longleftrightarrow>
        semver_core a = semver_core b \<and> pre a = pre b)"
proof -
  have lt: "semver_is_lt a b \<longleftrightarrow> core_lt (semver_core a) (semver_core b)
      \<or> semver_core a = semver_core b \<and> (case pre a of None \<Rightarrow> False
          | Some p \<Rightarrow> (case pre b of None \<Rightarrow> True | Some q \<Rightarrow> lex_cmp ident_lt p q = Less))"
    for a b
    by (auto simp: semver_is_lt_def core_lt_def pre_lt_lex split: prod.splits option.splits)
  have core: "\<not> core_lt x x" "core_lt x y \<Longrightarrow> \<not> core_lt y x"
      "core_lt x y \<Longrightarrow> core_lt y z \<Longrightarrow> core_lt x z" "core_lt x y \<or> x = y \<or> core_lt y x" for x y z
    by (auto simp: core_lt_def split: prod.splits)
  have "\<not> semver_is_lt a a"
    by (auto simp: lt core(1) pre_ord.cmp_refl split: option.splits)
  moreover have "semver_is_lt a b \<longrightarrow> \<not> semver_is_lt b a"
    by (auto simp: lt core(1) dest: core(2) pre_ord.cmp_Less_asym split: option.splits)
  moreover have "semver_is_lt a b \<and> semver_is_lt b c \<longrightarrow> semver_is_lt a c"
    by (auto simp: lt intro: core(3) pre_ord.cmp_Less_trans split: option.splits)
  moreover have "\<not> semver_is_lt a b \<and> \<not> semver_is_lt b a \<longleftrightarrow>
      semver_core a = semver_core b \<and> pre a = pre b"
  proof (cases "semver_core a = semver_core b")
    case True
    have "\<not> lex_cmp ident_lt p q = Less \<and> \<not> lex_cmp ident_lt q p = Less \<longleftrightarrow> p = q" for p q
      using pre_ord.cmp_total [of p q] pre_ord.cmp_refl by auto
    with True show ?thesis by (auto simp: lt core(1) split: option.splits)
  next
    case False
    then show ?thesis using core(4) [of "semver_core a" "semver_core b"] by (auto simp: lt)
  qed
  ultimately show ?thesis by blast
qed

subsection \<open>Agreement with the specification\<close>

text \<open>Section 11 of SemVer 2.0.0, over the values the identifiers denote.\<close>

fun sem_ident_cmp :: "version_identifier \<Rightarrow> version_identifier \<Rightarrow> ordering" where
  "sem_ident_cmp (Numeric x) (Numeric y) = cmp_nat (dec_val x) (dec_val y)"
| "sem_ident_cmp (Numeric _) (Alphanumeric _) = Less"
| "sem_ident_cmp (Alphanumeric _) (Numeric _) = Greater"
| "sem_ident_cmp (Alphanumeric x) (Alphanumeric y) = str_cmp x y"

definition sem_core :: "semver \<Rightarrow> nat \<times> nat \<times> nat" where
  "sem_core v = (dec_val (major v), dec_val (minor v), dec_val (patch v))"

definition sem_precedes :: "semver \<Rightarrow> semver \<Rightarrow> bool" where
  "sem_precedes a b \<longleftrightarrow> core_lt (sem_core a) (sem_core b)
     \<or> sem_core a = sem_core b \<and>
       (case (pre a, pre b) of
          (Some p, Some q) \<Rightarrow> lex_cmp sem_ident_cmp p q = Less
        | (Some _, None) \<Rightarrow> True
        | _ \<Rightarrow> False)"

definition core_fits :: "semver \<Rightarrow> bool" where
  "core_fits v \<longleftrightarrow> dec_val (major v) \<le> u64_max \<and> dec_val (minor v) \<le> u64_max
     \<and> dec_val (patch v) \<le> u64_max"

lemma digit_val_0: "digit_val CHR ''0'' = 0"
  by (simp add: digit_val_def)

lemma dec_val_lower:
  assumes "wf_ident (Numeric s)" "1 < length s"
  shows "10 ^ (length s - 1) \<le> dec_val s"
proof (cases s)
  case Nil
  with assms show ?thesis by simp
next
  case (Cons c cs)
  with assms have "is_ascii_digit c" "c \<noteq> CHR ''0''" by auto
  then have "digit_val c \<noteq> 0"
    using digit_val_inject [of c "CHR ''0''"] by (simp add: digit_val_0 is_ascii_digit_def)
  then have "1 * 10 ^ length cs \<le> digit_val c * 10 ^ length cs"
    by (intro mult_right_mono) auto
  then have "10 ^ length cs \<le> digit_val c * 10 ^ length cs + dec_val cs" by linarith
  then show ?thesis by (simp add: Cons dec_val_Cons)
qed

lemma shorter_numeric_less:
  assumes "wf_ident (Numeric s)" "wf_ident (Numeric t)" "length s < length t"
  shows "dec_val s < dec_val t"
proof -
  have "dec_val s < 10 ^ length s" using assms dec_val_bound by auto
  also have "\<dots> \<le> 10 ^ (length t - 1)" using assms by (intro power_increasing) auto
  also have "\<dots> \<le> dec_val t"
    using assms by (intro dec_val_lower) (auto simp flip: length_greater_0_conv)
  finally show ?thesis .
qed

lemma numeric_cmp:
  assumes "wf_ident (Numeric s)" "wf_ident (Numeric t)"
  shows "then_ord (cmp_nat (length s) (length t)) (str_cmp s t) = cmp_nat (dec_val s) (dec_val t)"
proof -
  consider "length s < length t" | "length s = length t" | "length t < length s" by linarith
  then show ?thesis
  proof cases
    case 1
    with shorter_numeric_less [OF assms] show ?thesis by (simp add: cmp_nat_def)
  next
    case 2
    with assms str_cmp_dec_val [of s t] show ?thesis by (simp add: cmp_nat_def)
  next
    case 3
    with shorter_numeric_less [OF assms(2,1)] show ?thesis by (simp add: cmp_nat_def)
  qed
qed

lemma ident_lt_sem: "wf_ident x \<Longrightarrow> wf_ident y \<Longrightarrow> ident_lt x y = sem_ident_cmp x y"
  by (cases x; cases y) (simp_all add: numeric_cmp del: wf_ident.simps(1))

lemma pre_lt_sem:
  "list_all wf_ident xs \<Longrightarrow> list_all wf_ident ys \<Longrightarrow>
   lex_cmp ident_lt xs ys = lex_cmp sem_ident_cmp xs ys"
  by (induction ident_lt xs ys rule: lex_cmp.induct)
    (auto simp: ident_lt_sem split: ordering.splits)

lemma parse_u64_digits:
  assumes "wf_ident (Numeric s)" "dec_val s \<le> u64_max"
  shows "parse_u64 s = Some (dec_val s)"
proof -
  have "is_ascii_digit (hd s)" using assms by (cases s) auto
  then have "hd s \<noteq> CHR ''+''" by (auto simp: is_ascii_digit_def)
  with assms show ?thesis
    by (cases s) (auto simp: parse_u64_def parse_unsigned_def)
qed

lemma semver_core_fits: "wf_semver v \<Longrightarrow> core_fits v \<Longrightarrow> semver_core v = sem_core v"
  by (simp add: semver_core_def sem_core_def wf_semver_def core_fits_def unwrap_or_def
      parse_u64_digits del: wf_ident.simps(1))

theorem semver_is_lt_strict_weak_order_witness:
  "semver_is_lt \<lparr>major = ''1'', minor = ''0'', patch = ''0'', pre = Some [Alphanumeric ''rc'']\<rparr>
     \<lparr>major = ''2'', minor = ''0'', patch = ''0'', pre = None\<rparr>"
proof -
  let ?a = "\<lparr>major = ''1'', minor = ''0'', patch = ''0'', pre = Some [Alphanumeric ''rc'']\<rparr>"
  let ?b = "\<lparr>major = ''1'', minor = ''0'', patch = ''0'', pre = None\<rparr>"
  let ?c = "\<lparr>major = ''2'', minor = ''0'', patch = ''0'', pre = None\<rparr>"
  have "semver_is_lt ?a ?b" "semver_is_lt ?b ?c" by (simp_all add: semver_eval)
  then show ?thesis using semver_is_lt_strict_weak_order [of ?a ?b ?c] by blast
qed

text \<open>
  C37. On parsed versions whose three core numbers fit in 64 bits, the comparison is the
  precedence of SemVer 2.0.0: numeric identifiers by value although the code compares
  (length, text) and the values may be arbitrarily large, numeric below alphanumeric,
  alphanumeric by bytes, a longer list above its prefix, a pre-release below its release.
\<close>

theorem semver_is_lt_precedence:
  assumes "wf_semver a" "wf_semver b" "core_fits a" "core_fits b"
  shows "semver_is_lt a b \<longleftrightarrow> sem_precedes a b"
  using assms
  by (auto simp: semver_is_lt_def sem_precedes_def semver_core_fits wf_semver_def pre_lt_lex
      pre_lt_sem core_lt_def split: option.splits prod.splits)

theorem semver_is_lt_precedence_witness:
  "semver_is_lt \<lparr>major = ''1'', minor = ''0'', patch = ''0'', pre = Some [Numeric ''9'']\<rparr>
      \<lparr>major = ''1'', minor = ''0'', patch = ''0'', pre = Some [Numeric ''10'']\<rparr>"
proof -
  let ?a = "\<lparr>major = ''1'', minor = ''0'', patch = ''0'', pre = Some [Numeric ''9'']\<rparr>"
  let ?b = "\<lparr>major = ''1'', minor = ''0'', patch = ''0'', pre = Some [Numeric ''10'']\<rparr>"
  have "wf_semver ?a" "wf_semver ?b" "core_fits ?a" "core_fits ?b" "sem_precedes ?a ?b"
    by (simp_all add: semver_eval wf_semver_def core_fits_def sem_precedes_def sem_core_def)
  then show ?thesis using semver_is_lt_precedence [of ?a ?b] by blast
qed

text \<open>
  Outside that range the comparison is wrong: a core number above \<open>2 ^ 64 - 1\<close>
  fails to parse as an integer and counts as 0, so version 18446744073709551616.0.0,
  which the parser accepts, compares below 1.0.0, and the minimum-version gate lets a
  1.0.0 updater run a release that demands it.
\<close>

theorem semver_core_overflow_counts_as_zero:
  "\<exists>a b. semver_parse ''18446744073709551616.0.0'' = Some a \<and> semver_parse ''1.0.0'' = Some b
     \<and> sem_precedes b a \<and> semver_is_lt a b
     \<and> check_minimum_updater_version ''1.0.0'' ''18446744073709551616.0.0'' = Ok ()"
proof -
  let ?a = "\<lparr>major = ''18446744073709551616'', minor = ''0'', patch = ''0'', pre = None\<rparr>"
  let ?b = "\<lparr>major = ''1'', minor = ''0'', patch = ''0'', pre = None\<rparr>"
  have a: "semver_parse ''18446744073709551616.0.0'' = Some ?a" by (simp add: semver_eval)
  have b: "semver_parse ''1.0.0'' = Some ?b" by (simp add: semver_eval)
  have prec: "sem_precedes ?b ?a"
    by (simp add: semver_eval sem_precedes_def sem_core_def)
  have lt: "semver_is_lt ?a ?b" "\<not> semver_is_lt ?b ?a" by (simp_all add: semver_eval)
  with a b have "check_minimum_updater_version ''1.0.0'' ''18446744073709551616.0.0'' = Ok ()"
    by (simp add: check_minimum_updater_version_def)
  with a b prec lt show ?thesis by blast
qed

end
