(* ===== verification/PathSafe.thy ===== *)
theory PathSafe
  imports RustStr
begin

text \<open>
  The path rules of a release manifest (\<^verbatim>\<open>updater/src/manifest/pathsafe.rs\<close>): which
  relative paths an installation may write, and the code each rejected one gets
  (\<^verbatim>\<open>updater/src/manifest/codes.rs\<close>).
\<close>

section \<open>Codes\<close>

datatype manifest_code =
    IO_ERROR | JSON_PARSE_FAILED | SCHEMA_INVALID
  | UNKNOWN_SCHEMA_VERSION | PRODUCT_MISMATCH | VERSION_NOT_SEMVER | CHANNEL_INVALID
  | VERSION_DOWNGRADE | CHANNEL_MISMATCH | UNKNOWN_PLATFORM | JAR_BINDING_MISMATCH
  | JAR_PATH_NOT_ASSETS | SHA256_UPPERCASE | SHA256_WRONG_LENGTH | SIZE_NEGATIVE
  | SIZE_OVERSIZED | CODE_UPDATER_TOO_OLD
  | PATH_EMPTY | PATH_BACKSLASH | PATH_ABSOLUTE | PATH_DRIVE_LETTER | PATH_ADS_COLON
  | PATH_ILLEGAL_CHARS | PATH_NOT_NORMALIZED | PATH_DOTDOT | PATH_TRAILING_DOT_SPACE
  | PATH_RESERVED_NAME | PATH_DUPLICATE_ENTRY | PATH_CASE_COLLISION

section \<open>The check\<close>

definition RESERVED_BASES :: "string list" where
  "RESERVED_BASES =
     [''CON'', ''PRN'', ''AUX'', ''NUL'', ''COM0'', ''COM1'', ''COM2'', ''COM3'', ''COM4'',
      ''COM5'', ''COM6'', ''COM7'', ''COM8'', ''COM9'', ''LPT0'', ''LPT1'', ''LPT2'', ''LPT3'',
      ''LPT4'', ''LPT5'', ''LPT6'', ''LPT7'', ''LPT8'', ''LPT9'']"

definition illegal_char :: "char \<Rightarrow> bool" where
  "illegal_char c \<longleftrightarrow> byte c \<le> 31 \<or> c \<in> {CHR ''<'', CHR ''>'', CHR ''|'', CHR 0x22, CHR ''?'', CHR ''*''}"

text \<open>The loop over the segments stops at the first bad one.\<close>

fun check_segments :: "string list \<Rightarrow> manifest_code option" where
  "check_segments [] = None"
| "check_segments (seg # rest) =
     (if seg = [] then Some PATH_NOT_NORMALIZED
      else if seg = ''.'' \<or> seg = ''..'' then Some PATH_DOTDOT
      else if ends_with seg ''.'' \<or> ends_with seg '' '' then Some PATH_TRAILING_DOT_SPACE
      else if to_ascii_uppercase (hd (split_on CHR ''.'' seg)) \<in> set RESERVED_BASES
        then Some PATH_RESERVED_NAME
      else check_segments rest)"

definition check_single_path :: "string \<Rightarrow> manifest_code option" where
  "check_single_path p =
     (if p = [] then Some PATH_EMPTY
      else if CHR 0x5C \<in> set p then Some PATH_BACKSLASH
      else if starts_with p ''/'' then Some PATH_ABSOLUTE
      else if 2 \<le> length p \<and> is_ascii_alphabetic (p ! 0) \<and> p ! 1 = CHR '':''
        then Some PATH_DRIVE_LETTER
      else if CHR '':'' \<in> set p then Some PATH_ADS_COLON
      else if \<exists>c \<in> set p. illegal_char c then Some PATH_ILLEGAL_CHARS
      else check_segments (split_on CHR ''/'' p))"

section \<open>What a safe path is\<close>

definition safe_segment :: "string \<Rightarrow> bool" where
  "safe_segment seg \<longleftrightarrow>
     seg \<noteq> [] \<and> last seg \<noteq> CHR ''.'' \<and> last seg \<noteq> CHR '' ''
     \<and> to_ascii_uppercase (hd (split_on CHR ''.'' seg)) \<notin> set RESERVED_BASES"

definition safe_path :: "string \<Rightarrow> bool" where
  "safe_path p \<longleftrightarrow>
     CHR 0x5C \<notin> set p \<and> CHR '':'' \<notin> set p \<and> (\<forall>c \<in> set p. \<not> illegal_char c)
     \<and> list_all safe_segment (split_on CHR ''/'' p)"

text \<open>
  Resolving a path below a directory, both as lists of segments: an empty or dot
  segment stays, two dots go up and fail above the file system root.
\<close>

fun resolve :: "string list \<Rightarrow> string list \<Rightarrow> string list option" where
  "resolve dir [] = Some dir"
| "resolve dir (seg # rest) =
     (if seg = [] \<or> seg = ''.'' then resolve dir rest
      else if seg = ''..'' then (if dir = [] then None else resolve (butlast dir) rest)
      else resolve (dir @ [seg]) rest)"

lemma ends_with_single: "ends_with s [c] \<longleftrightarrow> s \<noteq> [] \<and> last s = c"
  by (cases s rule: rev_cases) (auto simp: ends_with_def)

lemma check_segments_None: "check_segments segs = None \<longleftrightarrow> list_all safe_segment segs"
  by (induction segs) (auto simp: safe_segment_def ends_with_single)

lemma safe_segment_no_dots: "safe_segment seg \<Longrightarrow> seg \<noteq> [] \<and> seg \<noteq> ''.'' \<and> seg \<noteq> ''..''"
  by (auto simp: safe_segment_def)

lemma resolve_safe: "list_all safe_segment segs \<Longrightarrow> resolve dir segs = Some (dir @ segs)"
  by (induction segs arbitrary: dir) (auto dest: safe_segment_no_dots)

lemma starts_with_slash: "starts_with p ''/'' \<Longrightarrow> hd (split_on CHR ''/'' p) = []"
  by (auto simp: starts_with_iff)

lemma check_single_path_None: "check_single_path p = None \<longleftrightarrow> safe_path p"
proof -
  have abs: "\<not> list_all safe_segment (split_on CHR ''/'' p)" if "starts_with p ''/''"
    using starts_with_slash [OF that] split_on_ne [of "CHR ''/''" p]
    by (cases "split_on CHR ''/'' p") (auto simp: safe_segment_def)
  have drive: "CHR '':'' \<in> set p" if "2 \<le> length p" "p ! 1 = CHR '':''"
    using that by (metis One_nat_def Suc_le_lessD nth_mem numeral_2_eq_2)
  show ?thesis
    using abs drive
    by (auto simp: check_single_path_def safe_path_def check_segments_None safe_segment_def)
qed

text \<open>
  The check accepts a path exactly when it has no backslash, no colon and no illegal
  character, and every segment between slashes is safe: non-empty, not ending in a dot
  or a space, and not naming a Windows device before its first dot. The separate tests
  for absolute paths and drive letters add nothing to what is accepted, only a code.
\<close>

theorem check_single_path_accepts_iff: "check_single_path p = None \<longleftrightarrow> safe_path p"
  by (rule check_single_path_None)



end
