(* ===== verification/UpdateModel.thy ===== *)
theory UpdateModel
  imports RustStr
begin

text \<open>
  The update state machine the server shows (\<^verbatim>\<open>server/src/update/model.rs\<close>): the
  eleven display states, the journal details each admits, the business error codes with
  their HTTP status, and the matrix that admits an action in a state.
\<close>

section \<open>States and details\<close>

datatype update_state =
    Idle | Checking | Available | Downloading | Staged | Waiting
  | Installing | Restarting | Failed | RollingBack | ManualRecovery

fun state_as_str :: "update_state \<Rightarrow> string" where
  "state_as_str Idle = ''idle''"
| "state_as_str Checking = ''checking''"
| "state_as_str Available = ''available''"
| "state_as_str Downloading = ''downloading''"
| "state_as_str Staged = ''staged''"
| "state_as_str Waiting = ''waiting''"
| "state_as_str Installing = ''installing''"
| "state_as_str Restarting = ''restarting''"
| "state_as_str Failed = ''failed''"
| "state_as_str RollingBack = ''rolling_back''"
| "state_as_str ManualRecovery = ''manual_recovery''"

definition state_parse :: "string \<Rightarrow> update_state option" where
  "state_parse v =
     (if v = ''idle'' then Some Idle
      else if v = ''checking'' then Some Checking
      else if v = ''available'' then Some Available
      else if v = ''downloading'' then Some Downloading
      else if v = ''staged'' then Some Staged
      else if v = ''waiting'' then Some Waiting
      else if v = ''installing'' then Some Installing
      else if v = ''restarting'' then Some Restarting
      else if v = ''failed'' then Some Failed
      else if v = ''rolling_back'' then Some RollingBack
      else if v = ''manual_recovery'' then Some ManualRecovery
      else None)"

fun state_details :: "update_state \<Rightarrow> string list" where
  "state_details Idle = [''idle'', ''committed'', ''cleaning'']"
| "state_details Checking = [''checking'']"
| "state_details Available = [''checked'']"
| "state_details Downloading = [''downloading'', ''verifying'']"
| "state_details Staged = [''staged'']"
| "state_details Waiting = [''waiting_idle'']"
| "state_details Installing = [''draining'', ''stopped'', ''snapshotting'',
     ''snapshot_verified'', ''migrating'', ''switched'']"
| "state_details Restarting = [''candidate_starting'', ''candidate_ready'', ''activating'']"
| "state_details Failed = [''failed'']"
| "state_details RollingBack = [''rolling_back'']"
| "state_details ManualRecovery = [''manual_recovery_required'']"

definition allows_detail :: "update_state \<Rightarrow> string \<Rightarrow> bool" where
  "allows_detail s d \<longleftrightarrow> d \<in> set (state_details s)"

section \<open>Actions, errors and gates\<close>

datatype update_action = Check | Download | Install | Rollback

datatype update_error_code =
    UpdateNotManaged | UpdateBusy | UpdateNotAvailable | UpdateNotReady
  | ManifestInvalid | ArtifactInvalid | InsufficientSpace | SchemaIncompatible
  | UpdaterUnavailable | RollbackUnavailable | ManualRecoveryRequired

fun code_as_str :: "update_error_code \<Rightarrow> string" where
  "code_as_str UpdateNotManaged = ''update_not_managed''"
| "code_as_str UpdateBusy = ''update_busy''"
| "code_as_str UpdateNotAvailable = ''update_not_available''"
| "code_as_str UpdateNotReady = ''update_not_ready''"
| "code_as_str ManifestInvalid = ''manifest_invalid''"
| "code_as_str ArtifactInvalid = ''artifact_invalid''"
| "code_as_str InsufficientSpace = ''insufficient_space''"
| "code_as_str SchemaIncompatible = ''schema_incompatible''"
| "code_as_str UpdaterUnavailable = ''updater_unavailable''"
| "code_as_str RollbackUnavailable = ''rollback_unavailable''"
| "code_as_str ManualRecoveryRequired = ''manual_recovery_required''"

definition code_parse :: "string \<Rightarrow> update_error_code option" where
  "code_parse v =
     (if v = ''update_not_managed'' then Some UpdateNotManaged
      else if v = ''update_busy'' then Some UpdateBusy
      else if v = ''update_not_available'' then Some UpdateNotAvailable
      else if v = ''update_not_ready'' then Some UpdateNotReady
      else if v = ''manifest_invalid'' then Some ManifestInvalid
      else if v = ''artifact_invalid'' then Some ArtifactInvalid
      else if v = ''insufficient_space'' then Some InsufficientSpace
      else if v = ''schema_incompatible'' then Some SchemaIncompatible
      else if v = ''updater_unavailable'' then Some UpdaterUnavailable
      else if v = ''rollback_unavailable'' then Some RollbackUnavailable
      else if v = ''manual_recovery_required'' then Some ManualRecoveryRequired
      else None)"

fun http_status :: "update_error_code \<Rightarrow> nat" where
  "http_status ManifestInvalid = 422"
| "http_status ArtifactInvalid = 422"
| "http_status SchemaIncompatible = 422"
| "http_status InsufficientSpace = 507"
| "http_status UpdaterUnavailable = 502"
| "http_status _ = 409"

datatype install_blocking =
    StagingNotReady | ActiveRun | UpdateTransaction | CronFreezeWindow
  | BlockUpdaterUnavailable | BlockInsufficientSpace

fun blocking_as_str :: "install_blocking \<Rightarrow> string" where
  "blocking_as_str StagingNotReady = ''staging_not_ready''"
| "blocking_as_str ActiveRun = ''active_run''"
| "blocking_as_str UpdateTransaction = ''update_transaction''"
| "blocking_as_str CronFreezeWindow = ''cron_freeze_window''"
| "blocking_as_str BlockUpdaterUnavailable = ''updater_unavailable''"
| "blocking_as_str BlockInsufficientSpace = ''insufficient_space''"

section \<open>The admission matrix\<close>

datatype admission =
    Accepted update_state
  | Rejected update_error_code
  | InstallGate

text \<open>The match arms of \<^verbatim>\<open>admit\<close>, in their order.\<close>

fun admit :: "update_state \<Rightarrow> update_action \<Rightarrow> admission" where
  "admit ManualRecovery _ = Rejected ManualRecoveryRequired"
| "admit Installing _ = Rejected UpdateBusy"
| "admit Restarting _ = Rejected UpdateBusy"
| "admit RollingBack _ = Rejected UpdateBusy"
| "admit _ Check = Accepted Checking"
| "admit Idle Download = Rejected UpdateNotAvailable"
| "admit Idle Install = Rejected UpdateNotAvailable"
| "admit Idle Rollback = Rejected RollbackUnavailable"
| "admit Checking Download = Rejected UpdateBusy"
| "admit Checking Install = Rejected UpdateBusy"
| "admit Checking Rollback = Rejected UpdateBusy"
| "admit Available Download = Accepted Downloading"
| "admit Available Install = Rejected UpdateNotReady"
| "admit Available Rollback = Rejected RollbackUnavailable"
| "admit Downloading Download = Accepted Downloading"
| "admit Downloading Install = Rejected UpdateBusy"
| "admit Downloading Rollback = Rejected UpdateBusy"
| "admit Staged Download = Accepted Staged"
| "admit Waiting Download = Accepted Staged"
| "admit Staged Install = InstallGate"
| "admit Waiting Install = InstallGate"
| "admit Staged Rollback = Accepted RollingBack"
| "admit Waiting Rollback = Accepted RollingBack"
| "admit Failed Download = Accepted Downloading"
| "admit Failed Install = InstallGate"
| "admit Failed Rollback = Accepted RollingBack"

section \<open>Properties of the matrix\<close>

lemma state_parse_as_str [simp]: "state_parse (state_as_str s) = Some s"
  by (cases s) (simp_all add: state_parse_def)

lemma state_parse_Some: "state_parse v = Some s \<Longrightarrow> v = state_as_str s"
  unfolding state_parse_def by (simp split: if_splits; elim subst; simp)

lemma state_as_str_inject [simp]: "state_as_str s = state_as_str t \<longleftrightarrow> s = t"
  by (metis option.inject state_parse_as_str)

lemma code_parse_as_str [simp]: "code_parse (code_as_str c) = Some c"
  by (cases c) (simp_all add: code_parse_def)

lemma code_parse_Some: "code_parse v = Some c \<Longrightarrow> v = code_as_str c"
  unfolding code_parse_def by (simp split: if_splits; elim subst; simp)

text \<open>
  Only an install in a settled state with a candidate goes to the gate, and an install is
  never accepted directly: the two \<^verbatim>\<open>unreachable!\<close> arms of the service.
\<close>

lemma admit_install_not_Accepted [simp]: "admit s Install \<noteq> Accepted t"
  by (cases s) simp_all

lemma admit_InstallGate_iff:
  "admit s a = InstallGate \<longleftrightarrow> a = Install \<and> s \<in> {Staged, Waiting, Failed}"
  by (cases s; cases a) simp_all

lemma admit_Accepted_Rollback: "admit s Rollback = Accepted t \<longleftrightarrow>
    s \<in> {Staged, Waiting, Failed} \<and> t = RollingBack"
  by (cases s) auto

lemma admit_Accepted_Check: "admit s Check = Accepted t \<longleftrightarrow>
    s \<notin> {ManualRecovery, Installing, Restarting, RollingBack} \<and> t = Checking"
  by (cases s) auto

definition in_transaction :: "update_state \<Rightarrow> bool" where
  "in_transaction s \<longleftrightarrow> s \<in> {Installing, Restarting, RollingBack, ManualRecovery}"

lemma admit_in_transaction:
  "in_transaction s \<Longrightarrow> admit s a = Rejected (if s = ManualRecovery
     then ManualRecoveryRequired else UpdateBusy)"
  by (auto simp: in_transaction_def)

text \<open>A journal detail belongs to at most one display state.\<close>

lemma details_disjoint: "allows_detail s d \<Longrightarrow> allows_detail t d \<Longrightarrow> s = t"
  unfolding allows_detail_def by (cases s; cases t; force)

end
