(* ===== verification/Json.thy ===== *)
theory Json
  imports RustStr
begin

text \<open>
  The values of \<^verbatim>\<open>serde_json\<close>, which the wire bodies of the program are built
  from. Objects are the default \<^verbatim>\<open>BTreeMap\<close>: an association list in strictly
  ascending key order, kept so by \<open>obj_insert\<close>. Parsing and printing text is the
  crate's business and is a parameter wherever a component needs it.
\<close>

section \<open>Ordered association lists\<close>

text \<open>\<^verbatim>\<open>BTreeMap::insert\<close> over any three-way comparison.\<close>

fun ins_by :: "('k \<Rightarrow> 'k \<Rightarrow> ordering) \<Rightarrow> 'k \<Rightarrow> 'v \<Rightarrow> ('k \<times> 'v) list \<Rightarrow> ('k \<times> 'v) list" where
  "ins_by c k v [] = [(k, v)]"
| "ins_by c k v ((k', v') # m) =
     (case c k k' of
        Less \<Rightarrow> (k, v) # (k', v') # m
      | Equal \<Rightarrow> (k, v) # m
      | Greater \<Rightarrow> (k', v') # ins_by c k v m)"

fun del_by :: "('k \<Rightarrow> 'k \<Rightarrow> ordering) \<Rightarrow> 'k \<Rightarrow> ('k \<times> 'v) list \<Rightarrow> ('k \<times> 'v) list" where
  "del_by c k [] = []"
| "del_by c k ((k', v') # m) = (if c k k' = Equal then m else (k', v') # del_by c k m)"

fun keys_sorted :: "('k \<Rightarrow> 'k \<Rightarrow> ordering) \<Rightarrow> ('k \<times> 'v) list \<Rightarrow> bool" where
  "keys_sorted c [] = True"
| "keys_sorted c ((k, v) # m) =
     ((\<forall>(k', v') \<in> set m. c k k' = Less) \<and> keys_sorted c m)"

context three_way begin

lemma keys_sorted_notin: "keys_sorted cmp ((k, v) # m) \<Longrightarrow> k \<notin> fst ` set m"
  by (auto simp: cmp_refl split_beta dest!: bspec)

lemma ins_keys: "fst ` set (ins_by cmp k v m) = insert k (fst ` set m)"
proof (induction m)
  case (Cons p m)
  then show ?case
    by (cases p; cases "cmp k (fst p)") (auto simp: cmp_Equal cmp_refl insert_commute)
qed simp

lemma ins_sorted: "keys_sorted cmp m \<Longrightarrow> keys_sorted cmp (ins_by cmp k v m)"
proof (induction m)
  case Nil
  then show ?case by simp
next
  case (Cons p m)
  obtain k' v' where p: "p = (k', v')" by fastforce
  show ?case
  proof (cases "cmp k k'")
    case Less
    then show ?thesis using Cons.prems p by (auto intro: cmp_Less_trans)
  next
    case Equal
    then show ?thesis using Cons.prems p by (auto simp: cmp_Equal cmp_refl)
  next
    case Greater
    have "\<forall>q \<in> set (ins_by cmp k v m). cmp k' (fst q) = Less"
    proof
      fix q assume "q \<in> set (ins_by cmp k v m)"
      then have "fst q \<in> insert k (fst ` set m)" using ins_keys by fast
      then show "cmp k' (fst q) = Less"
        using Cons.prems p Greater by (auto simp: cmp_Greater)
    qed
    then show ?thesis using Cons p Greater by (simp add: split_beta)
  qed
qed

lemma ins_get: "keys_sorted cmp m \<Longrightarrow> map_of (ins_by cmp k v m) = (map_of m)(k \<mapsto> v)"
proof (induction m)
  case Nil
  then show ?case by simp
next
  case (Cons p m)
  obtain k' v' where p: "p = (k', v')" by fastforce
  show ?case
  proof (cases "cmp k k'")
    case Greater
    then have "k \<noteq> k'" by (auto simp: cmp_refl)
    then show ?thesis using Cons p Greater by (auto simp: fun_eq_iff)
  qed (use Cons p in \<open>auto simp: cmp_Equal cmp_refl fun_eq_iff\<close>)
qed

lemma del_get: "keys_sorted cmp m \<Longrightarrow> map_of (del_by cmp k m) = (map_of m)(k := None)"
proof (induction m)
  case Nil
  then show ?case by simp
next
  case (Cons p m)
  obtain k' v' where p: "p = (k', v')" by fastforce
  show ?case
  proof (cases "k = k'")
    case True
    then have "map_of m k = None"
      using keys_sorted_notin Cons.prems p by (simp add: map_of_eq_None_iff)
    then show ?thesis using True p by (auto simp: cmp_refl)
  next
    case False
    then show ?thesis using Cons p by (auto simp: cmp_Equal fun_upd_twist)
  qed
qed

lemma del_subset: "set (del_by cmp k m) \<subseteq> set m"
  by (induction m) (auto split: if_splits)

lemma del_sorted: "keys_sorted cmp m \<Longrightarrow> keys_sorted cmp (del_by cmp k m)"
  using del_subset by (induction m) fastforce+

lemma sorted_distinct: "keys_sorted cmp m \<Longrightarrow> distinct (map fst m)"
proof (induction m)
  case (Cons p m)
  then show ?case using keys_sorted_notin by (cases p) auto
qed simp

end

section \<open>Values\<close>

text \<open>
  \<^verbatim>\<open>Number\<close> keeps unsigned, negative and floating values apart; a float is its
  64-bit pattern.
\<close>

datatype json_number = PosInt nat | NegInt int | FloatBits "64 word"

datatype json =
    JNull
  | JBool bool
  | JNumber json_number
  | JString string
  | JArray "json list"
  | JObject "(string \<times> json) list"

definition obj_insert :: "string \<Rightarrow> json \<Rightarrow> (string \<times> json) list \<Rightarrow> (string \<times> json) list" where
  "obj_insert k v m = ins_by str_cmp k v m"

definition obj_remove :: "string \<Rightarrow> (string \<times> json) list \<Rightarrow> (string \<times> json) list" where
  "obj_remove k m = del_by str_cmp k m"

text \<open>The \<^verbatim>\<open>json!\<close> macro on an object literal: the fields inserted in turn.\<close>

definition json_object :: "(string \<times> json) list \<Rightarrow> json" where
  "json_object fs = JObject (foldl (\<lambda>m (k, v). obj_insert k v m) [] fs)"

text \<open>\<^verbatim>\<open>Value::get\<close> with a string key, and the typed readers.\<close>

fun json_get :: "string \<Rightarrow> json \<Rightarrow> json option" where
  "json_get k (JObject m) = map_of m k"
| "json_get k _ = None"

fun as_str :: "json \<Rightarrow> string option" where
  "as_str (JString s) = Some s"
| "as_str _ = None"

fun as_bool :: "json \<Rightarrow> bool option" where
  "as_bool (JBool b) = Some b"
| "as_bool _ = None"

fun as_object :: "json \<Rightarrow> (string \<times> json) list option" where
  "as_object (JObject m) = Some m"
| "as_object _ = None"

fun as_array :: "json \<Rightarrow> json list option" where
  "as_array (JArray xs) = Some xs"
| "as_array _ = None"

fun as_u64 :: "json \<Rightarrow> nat option" where
  "as_u64 (JNumber (PosInt n)) = Some n"
| "as_u64 _ = None"

definition i64_max :: int where "i64_max = 9223372036854775807"

fun as_i64 :: "json \<Rightarrow> int option" where
  "as_i64 (JNumber (PosInt n)) = (if int n \<le> i64_max then Some (int n) else None)"
| "as_i64 (JNumber (NegInt i)) = Some i"
| "as_i64 _ = None"

text \<open>An \<^verbatim>\<open>i64\<close> and an \<^verbatim>\<open>Option<String>\<close> as values.\<close>

definition json_int :: "int \<Rightarrow> json" where
  "json_int i = JNumber (if 0 \<le> i then PosInt (nat i) else NegInt i)"

definition json_opt_str :: "string option \<Rightarrow> json" where
  "json_opt_str s = (case s of None \<Rightarrow> JNull | Some t \<Rightarrow> JString t)"

lemma as_i64_json_int [simp]: "i \<le> i64_max \<Longrightarrow> as_i64 (json_int i) = Some i"
  by (simp add: json_int_def)

lemma json_object_sorted: "\<exists>m. json_object fs = JObject m \<and> keys_sorted str_cmp m"
proof -
  have "keys_sorted str_cmp m \<Longrightarrow> keys_sorted str_cmp (foldl (\<lambda>m (k, v). obj_insert k v m) m fs)"
    for m
    by (induction fs arbitrary: m) (auto simp: obj_insert_def str_ord.ins_sorted)
  then show ?thesis by (simp add: json_object_def)
qed

text \<open>Reading a field of an object literal: the last field written under that key.\<close>

lemma json_get_object: "json_get k (json_object fs) = map_of (rev fs) k"
proof -
  have "keys_sorted str_cmp m \<Longrightarrow>
      map_of (foldl (\<lambda>m (k, v). obj_insert k v m) m fs) = map_of m ++ map_of (rev fs)" for m
  proof (induction fs arbitrary: m)
    case (Cons p fs)
    then show ?case
      by (cases p) (auto simp: obj_insert_def str_ord.ins_sorted str_ord.ins_get fun_eq_iff
          map_add_def split: option.splits)
  qed simp
  from this [of "[]"] show ?thesis by (simp add: json_object_def)
qed

end
