(* ===== verification/UpdatePolicy.thy ===== *)
theory UpdatePolicy
  imports UpdateModel Json
begin

text \<open>
  The update policy (\<^verbatim>\<open>server/src/update/policy.rs\<close>), the idle summary the install
  gate reads (\<^verbatim>\<open>workload.rs\<close>) and the coordinator's decision table
  (\<^verbatim>\<open>coordinator.rs\<close>, \<^verbatim>\<open>decide\<close>).
\<close>

section \<open>Policy\<close>

datatype update_strategy = Off | Notify | Auto

fun strategy_as_str :: "update_strategy \<Rightarrow> string" where
  "strategy_as_str Off = ''off''"
| "strategy_as_str Notify = ''notify''"
| "strategy_as_str Auto = ''auto''"

definition strategy_parse :: "string \<Rightarrow> update_strategy option" where
  "strategy_parse v =
     (if v = ''off'' then Some Off
      else if v = ''notify'' then Some Notify
      else if v = ''auto'' then Some Auto
      else None)"

record maintenance_window =
  mw_start :: string
  mw_end :: string

definition default_window :: maintenance_window where
  "default_window = \<lparr>mw_start = ''02:00'', mw_end = ''06:00''\<rparr>"

text \<open>
  \<^verbatim>\<open>parse_hh_mm\<close>. The two \<^verbatim>\<open>get\<close> ranges fail only when a bound is inside a
  character, which the parse of the two bytes rejects anyway.
\<close>

definition parse_hh_mm :: "string \<Rightarrow> (nat \<times> nat) option" where
  "parse_hh_mm v =
     (if length v \<noteq> 5 \<or> v ! 2 \<noteq> CHR '':'' then None
      else case parse_u8 (take 2 v) of
          None \<Rightarrow> None
        | Some hh \<Rightarrow>
            (case parse_u8 (take 2 (drop 3 v)) of
               None \<Rightarrow> None
             | Some mm \<Rightarrow>
                 if 23 < hh \<or> 59 < mm \<or> \<not> (\<forall>c \<in> set v. byte c < 128) then None
                 else Some (hh, mm)))"

record update_policy =
  strategy :: update_strategy
  window :: maintenance_window
  freeze_minutes :: int

definition default_policy :: update_policy where
  "default_policy = \<lparr>strategy = Notify, window = default_window, freeze_minutes = 30\<rparr>"

record update_config =
  cfg_strategy :: string
  cfg_window_start :: string
  cfg_window_end :: string
  cfg_freeze_minutes :: int

definition from_config :: "update_config \<Rightarrow> update_policy" where
  "from_config cfg =
     \<lparr>strategy = (case strategy_parse (cfg_strategy cfg) of Some s \<Rightarrow> s | None \<Rightarrow> Notify),
      window = \<lparr>mw_start = cfg_window_start cfg, mw_end = cfg_window_end cfg\<rparr>,
      freeze_minutes = cfg_freeze_minutes cfg\<rparr>"

definition validate_field :: "update_policy \<Rightarrow> string option" where
  "validate_field p =
     (if parse_hh_mm (mw_start (window p)) = None then Some ''maintenance_window''
      else if parse_hh_mm (mw_end (window p)) = None then Some ''maintenance_window''
      else if mw_start (window p) = mw_end (window p) then Some ''maintenance_window''
      else if \<not> (0 \<le> freeze_minutes p \<and> freeze_minutes p \<le> 1440)
        then Some ''freeze_window_minutes''
      else None)"

definition minutes_of :: "nat \<times> nat \<Rightarrow> int" where
  "minutes_of hm = int (fst hm) * 60 + int (snd hm)"

definition window_bound :: "nat \<times> nat \<Rightarrow> string \<Rightarrow> int" where
  "window_bound d v = minutes_of (case parse_hh_mm v of Some hm \<Rightarrow> hm | None \<Rightarrow> d)"

definition in_maintenance_window :: "update_policy \<Rightarrow> int \<Rightarrow> bool" where
  "in_maintenance_window p now_minutes =
     (let start = window_bound (2, 0) (mw_start (window p));
          stop = window_bound (6, 0) (mw_end (window p));
          t = now_minutes mod (24 * 60)
      in if start < stop then start \<le> t \<and> t < stop
         else start \<le> t \<or> t < stop)"

text \<open>
  \<^verbatim>\<open>PolicyStore\<close>: the policy in force and the content of the state file. The file is
  read as \<open>Some\<close> of its parse (\<open>None\<close> for a missing or unreadable file); the outcome of
  the atomic write is a parameter of \<open>store_replace\<close>.
\<close>

record policy_store =
  current :: update_policy
  persisted :: "(unit, update_policy) result option"

definition load_blocking ::
  "(unit, update_policy) result option \<Rightarrow> update_policy \<Rightarrow> policy_store" where
  "load_blocking file baseline =
     \<lparr>current =
        (case file of
           Some (Inr saved) \<Rightarrow> if validate_field saved = None then saved else baseline
         | Some (Inl _) \<Rightarrow> baseline
         | None \<Rightarrow> baseline),
      persisted = file\<rparr>"

definition store_replace ::
  "bool \<Rightarrow> update_policy \<Rightarrow> policy_store \<Rightarrow> (string, update_policy) result \<times> policy_store" where
  "store_replace write_ok p st =
     (case validate_field p of
        Some field \<Rightarrow> (Inl field, st)
      | None \<Rightarrow>
          (Inr p, st\<lparr>current := p,
                     persisted := (if write_ok then Some (Inr p) else persisted st)\<rparr>))"

definition policy_to_json :: "update_policy \<Rightarrow> json" where
  "policy_to_json p = json_object
     [(''strategy'', JString (strategy_as_str (strategy p))),
      (''maintenance_window'', json_object
         [(''start'', JString (mw_start (window p))),
          (''end'', JString (mw_end (window p)))]),
      (''freeze_window_minutes'', json_int (freeze_minutes p))]"

section \<open>Workload\<close>

record workload =
  active_runs :: nat
  viewers :: nat
  update_transactions :: nat
  next_cron_secs :: "int option"

definition cron_in_freeze :: "int option \<Rightarrow> int \<Rightarrow> bool" where
  "cron_in_freeze secs freeze =
     (case secs of None \<Rightarrow> False | Some n \<Rightarrow> n \<le> freeze * 60)"

definition install_blockings :: "workload \<Rightarrow> int \<Rightarrow> install_blocking list" where
  "install_blockings w freeze =
     (if 0 < active_runs w then [ActiveRun] else [])
     @ (if 0 < update_transactions w then [UpdateTransaction] else [])
     @ (if cron_in_freeze (next_cron_secs w) freeze then [CronFreezeWindow] else [])"

definition auto_install_ready :: "workload \<Rightarrow> bool \<Rightarrow> int \<Rightarrow> bool" where
  "auto_install_ready w in_window freeze \<longleftrightarrow>
     in_window \<and> active_runs w = 0 \<and> viewers w = 0 \<and> update_transactions w = 0
     \<and> \<not> cron_in_freeze (next_cron_secs w) freeze"

text \<open>\<^verbatim>\<open>WorkloadSource::snapshot\<close> from the live counts.\<close>

definition workload_of :: "nat \<Rightarrow> nat option \<Rightarrow> bool \<Rightarrow> int option \<Rightarrow> workload" where
  "workload_of runs viewer_map busy wakeup =
     \<lparr>active_runs = runs,
      viewers = (case viewer_map of Some n \<Rightarrow> n | None \<Rightarrow> 0),
      update_transactions = (if busy then 1 else 0),
      next_cron_secs = wakeup\<rparr>"

section \<open>The coordinator's decision\<close>

datatype tick = TickNoop | TickCheck | TickDownload | TickInstall

fun decide :: "update_strategy \<Rightarrow> bool \<Rightarrow> update_state \<Rightarrow> workload \<Rightarrow> int \<Rightarrow> tick" where
  "decide Off _ _ _ _ = TickNoop"
| "decide Notify _ s _ _ =
     (case s of
        Idle \<Rightarrow> TickCheck
      | Failed \<Rightarrow> TickCheck
      | Available \<Rightarrow> TickDownload
      | _ \<Rightarrow> TickNoop)"
| "decide Auto in_window s w freeze =
     (case s of
        Idle \<Rightarrow> TickCheck
      | Failed \<Rightarrow> TickCheck
      | Available \<Rightarrow> TickDownload
      | Staged \<Rightarrow> (if auto_install_ready w in_window freeze then TickInstall else TickNoop)
      | Waiting \<Rightarrow> (if auto_install_ready w in_window freeze then TickInstall else TickNoop)
      | _ \<Rightarrow> TickNoop)"

section \<open>Properties\<close>

lemma strategy_parse_as_str [simp]: "strategy_parse (strategy_as_str s) = Some s"
  by (cases s) (simp_all add: strategy_parse_def)

lemma parse_hh_mm_bounds: "parse_hh_mm v = Some (hh, mm) \<Longrightarrow> hh \<le> 23 \<and> mm \<le> 59"
  by (auto simp: parse_hh_mm_def split: if_splits option.splits)

lemmas hh_mm_eval = parse_hh_mm_def parse_u8_def parse_unsigned_def dec_val_def
  digit_val_def is_ascii_digit_def

lemma window_bound_range:
  "fst d \<le> 23 \<Longrightarrow> snd d \<le> 59 \<Longrightarrow>
    0 \<le> window_bound d v \<and> window_bound d v < 1440"
proof (cases "parse_hh_mm v")
  case (Some hm)
  then show ?thesis
    using parse_hh_mm_bounds [of v "fst hm" "snd hm"] by (simp add: window_bound_def minutes_of_def)
qed (simp add: window_bound_def minutes_of_def)

text \<open>The minutes from \<open>a\<close> forward to \<open>b\<close> on the clock face.\<close>

definition clock_dist :: "int \<Rightarrow> int \<Rightarrow> int" where
  "clock_dist a b = (b - a) mod 1440"

lemma clock_dist_cases:
  "0 \<le> a \<Longrightarrow> a < 1440 \<Longrightarrow> 0 \<le> b \<Longrightarrow> b < 1440 \<Longrightarrow>
   clock_dist a b = (if a \<le> b then b - a else b - a + 1440)"
proof (cases "a \<le> b")
  case False
  assume "0 \<le> a" "a < 1440" "0 \<le> b" "b < 1440"
  have "(b - a) mod 1440 = (b - a + 1440) mod 1440" by simp
  also have "\<dots> = b - a + 1440"
    using False \<open>a < 1440\<close> \<open>0 \<le> b\<close> by (intro mod_pos_pos_trivial) auto
  finally show ?thesis using False by (simp add: clock_dist_def)
qed (simp add: clock_dist_def)

lemma install_ready_imp_unblocked:
  "auto_install_ready w b f \<Longrightarrow> install_blockings w f = []"
  by (simp add: auto_install_ready_def install_blockings_def)

lemma decide_Install_iff:
  "decide st b s w f = TickInstall \<longleftrightarrow>
     st = Auto \<and> s \<in> {Staged, Waiting} \<and> auto_install_ready w b f"
  by (cases st; cases s) auto

text \<open>
  The maintenance window is a half-open arc of the clock: the current minute is in
  the window exactly when, going forward from the start, it is met before the end. This
  holds for windows within a day and across midnight alike; equal bounds, which
  \<^verbatim>\<open>validate_field\<close> means to reject, make the window the whole day.
\<close>

theorem in_maintenance_window_arc:
  "in_maintenance_window p now \<longleftrightarrow>
     (let s = window_bound (2, 0) (mw_start (window p));
          e = window_bound (6, 0) (mw_end (window p))
      in s = e \<or> clock_dist s (now mod 1440) < clock_dist s e)"
proof -
  define s where "s = window_bound (2, 0) (mw_start (window p))"
  define e where "e = window_bound (6, 0) (mw_end (window p))"
  define t where "t = now mod 1440"
  have "0 \<le> s \<and> s < 1440" "0 \<le> e \<and> e < 1440" "0 \<le> t \<and> t < 1440"
    unfolding s_def e_def t_def using window_bound_range by simp_all
  then show ?thesis
    unfolding in_maintenance_window_def Let_def
    by (simp flip: s_def e_def t_def add: clock_dist_cases)
qed


text \<open>
  Equal bounds slip through the validation: \<^verbatim>\<open>u8::from_str\<close> reads a plus sign, so
  \<open>+5:00\<close> is another spelling of \<open>05:00\<close>. Such a policy is accepted, and its window is
  open at every minute of the day.
\<close>

theorem equal_bounds_accepted_and_always_open:
  "validate_field \<lparr>strategy = Auto, window = \<lparr>mw_start = ''05:00'', mw_end = ''+5:00''\<rparr>,
     freeze_minutes = 30\<rparr> = None
   \<and> (\<forall>now. in_maintenance_window \<lparr>strategy = Auto,
         window = \<lparr>mw_start = ''05:00'', mw_end = ''+5:00''\<rparr>, freeze_minutes = 30\<rparr> now)"
proof -
  have p: "parse_hh_mm ''05:00'' = Some (5, 0)" "parse_hh_mm ''+5:00'' = Some (5, 0)"
    by (simp_all add: hh_mm_eval)
  show ?thesis
    by (auto simp: validate_field_def in_maintenance_window_def window_bound_def p Let_def)
qed

text \<open>
  A replaced policy survives a restart: what an accepted replacement returns is in
  force at once, and when the write went through a reload takes it over whatever the
  configuration says. A rejected one leaves the store as it was.
\<close>

theorem replace_then_reload:
  assumes "store_replace wok p st = (r, st')"
  shows "(case r of
      Inl field \<Rightarrow> validate_field p = Some field \<and> st' = st
    | Inr q \<Rightarrow> q = p \<and> validate_field p = None \<and> current st' = p
        \<and> (wok \<longrightarrow> (\<forall>baseline. current (load_blocking (persisted st') baseline) = p)))"
  using assms by (auto simp: store_replace_def load_blocking_def split: option.splits)

theorem replace_then_reload_witness:
  "\<exists>st'. store_replace True default_policy (load_blocking None default_policy)
      = (Inr default_policy, st')
    \<and> current (load_blocking (persisted st') (default_policy\<lparr>strategy := Off\<rparr>)) = default_policy"
proof -
  have v: "validate_field default_policy = None"
    by (simp add: validate_field_def default_policy_def default_window_def hh_mm_eval)
  then obtain st' where s: "store_replace True default_policy (load_blocking None default_policy)
      = (Inr default_policy, st')"
    by (simp add: store_replace_def)
  from replace_then_reload [OF s] s show ?thesis by auto
qed

end
