(* ===== verification/ActivationGate.thy ===== *)
theory ActivationGate
  imports RustStr
begin

text \<open>
  The startup gate of a candidate server (\<^verbatim>\<open>server/src/update/gate.rs\<close>) and the
  barrier that holds back new work while an update is applied
  (\<^verbatim>\<open>server/src/update/barrier.rs\<close>).
\<close>

section \<open>The activation gate\<close>

text \<open>The process-wide stage, an \<^verbatim>\<open>AtomicU8\<close>.\<close>

definition STAGE_STARTING :: nat where "STAGE_STARTING = 0"
definition STAGE_MAINTENANCE_GATE :: nat where "STAGE_MAINTENANCE_GATE = 1"
definition STAGE_READY :: nat where "STAGE_READY = 2"

definition stage_str :: "nat \<Rightarrow> string" where
  "stage_str stage =
     (if stage = STAGE_STARTING then ''starting''
      else if stage = STAGE_MAINTENANCE_GATE then ''maintenance_gate''
      else ''ready'')"

datatype ip_addr = V4 nat nat nat nat | V6 "nat list"

text \<open>\<^verbatim>\<open>IpAddr::is_loopback\<close>: 127/8, or exactly ::1 (eight segments).\<close>

fun is_loopback :: "ip_addr \<Rightarrow> bool" where
  "is_loopback (V4 a b c d) \<longleftrightarrow> a = 127"
| "is_loopback (V6 segs) \<longleftrightarrow> segs = [0, 0, 0, 0, 0, 0, 0, 1]"

datatype activate_reject = BadToken | NotLoopback

record startup_gate =
  enabled :: bool
  token :: "string option"
  activated :: bool

text \<open>\<^verbatim>\<open>from_env\<close>: both variables, absent or with their value.\<close>

definition gate_new :: "bool \<Rightarrow> string option \<Rightarrow> startup_gate" where
  "gate_new e t = \<lparr>enabled = e, token = t, activated = False\<rparr>"

definition from_env :: "string option \<Rightarrow> string option \<Rightarrow> startup_gate" where
  "from_env gate_var token_var =
     (let e = (case gate_var of Some v \<Rightarrow> trim v = ''1'' | None \<Rightarrow> False);
          t = (case token_var of
                 None \<Rightarrow> None
               | Some v \<Rightarrow> if trim v \<noteq> [] then Some (trim v) else None)
      in gate_new e t)"

definition is_active :: "startup_gate \<Rightarrow> bool" where
  "is_active g \<longleftrightarrow> \<not> enabled g \<or> activated g"

text \<open>The accumulator of the constant-time comparison is a \<^verbatim>\<open>u8\<close>.\<close>

definition xor_acc :: "8 word \<Rightarrow> char \<times> char \<Rightarrow> 8 word" where
  "xor_acc acc xy =
     or acc (xor (word_of_nat (byte (fst xy))) (word_of_nat (byte (snd xy))))"

definition constant_time_eq :: "string \<Rightarrow> string \<Rightarrow> bool" where
  "constant_time_eq a b =
     (if length a \<noteq> length b then False else foldl xor_acc 0 (zip a b) = 0)"

definition verify ::
  "startup_gate \<Rightarrow> ip_addr option \<Rightarrow> string option \<Rightarrow> (activate_reject, unit) result" where
  "verify g remote header_token =
     (if \<not> (case remote of Some ip \<Rightarrow> is_loopback ip | None \<Rightarrow> False) then Inl NotLoopback
      else
        let expected = (case token g of Some t \<Rightarrow> t | None \<Rightarrow> []);
            provided = (case header_token of Some h \<Rightarrow> trim h | None \<Rightarrow> [])
        in if expected = [] \<or> provided = [] \<or> \<not> constant_time_eq expected provided
           then Inl BadToken else Inr ())"

definition activate :: "startup_gate \<Rightarrow> bool \<times> startup_gate" where
  "activate g =
     (if \<not> enabled g then (True, g)
      else if \<not> activated g then (True, g\<lparr>activated := True\<rparr>)
      else (False, g))"

section \<open>The update barrier\<close>

text \<open>The two statics: the paused flag and the number of live media activities.\<close>

record barrier =
  paused :: bool
  active :: nat

definition reservation_ok :: "barrier \<Rightarrow> bool" where
  "reservation_ok b \<longleftrightarrow> \<not> paused b"

definition freeze_if_idle :: "bool \<Rightarrow> barrier \<Rightarrow> bool \<times> barrier" where
  "freeze_if_idle check b =
     (if paused b \<or> active b \<noteq> 0 \<or> \<not> check then (False, b) else (True, b\<lparr>paused := True\<rparr>))"

definition pause :: "barrier \<Rightarrow> barrier" where
  "pause b = b\<lparr>paused := True\<rparr>"

definition resume :: "barrier \<Rightarrow> barrier" where
  "resume b = b\<lparr>paused := False\<rparr>"

text \<open>\<^verbatim>\<open>activity()\<close> takes a reservation and counts; dropping the guard uncounts.\<close>

definition activity :: "barrier \<Rightarrow> barrier option" where
  "activity b = (if reservation_ok b then Some (b\<lparr>active := active b + 1\<rparr>) else None)"

definition activity_drop :: "barrier \<Rightarrow> barrier" where
  "activity_drop b = b\<lparr>active := active b - 1\<rparr>"

text \<open>Whether the middleware turns a request away with 503.\<close>

datatype http_method = GET | HEAD | OtherMethod string

definition middleware_blocks :: "barrier \<Rightarrow> http_method \<Rightarrow> string \<Rightarrow> bool" where
  "middleware_blocks b m path \<longleftrightarrow>
     paused b
     \<and> (starts_with path ''/ws/'' \<or> m \<notin> {GET, HEAD})
     \<and> path \<notin> {''/api/system/activate'', ''/api/system/commit'', ''/api/system/update/plugins''}
     \<and> path \<noteq> ''/api/shutdown'' \<and> path \<noteq> ''/api/login'' \<and> path \<noteq> ''/api/logout''"

section \<open>Properties of the gate\<close>

lemma or_eq_0_iff: "or a b = 0 \<longleftrightarrow> a = 0 \<and> b = (0 :: 8 word)"
  by (auto simp: bit_eq_iff bit_or_iff)

lemma xor_byte_0: "xor (word_of_nat (byte c)) (word_of_nat (byte d)) = (0 :: 8 word) \<longleftrightarrow> c = d"
proof -
  have "xor x y = 0 \<longleftrightarrow> x = y" for x y :: "8 word"
    by (auto simp: bit_eq_iff bit_xor_iff)
  moreover have "(word_of_nat (byte c) :: 8 word) = word_of_nat (byte d) \<longleftrightarrow> byte c = byte d"
    by (simp add: word_of_nat_eq_iff take_bit_nat_eq_self)
  ultimately show ?thesis by simp
qed

lemma foldl_xor_acc_0:
  "foldl xor_acc acc ps = 0 \<longleftrightarrow> acc = 0 \<and> (\<forall>(x, y) \<in> set ps. x = y)"
  by (induction ps arbitrary: acc) (auto simp: xor_acc_def or_eq_0_iff xor_byte_0)

lemma constant_time_eq_iff: "constant_time_eq a b \<longleftrightarrow> a = b"
proof (cases "length a = length b")
  case True
  then show ?thesis
    by (induction a b rule: list_induct2)
      (auto simp: constant_time_eq_def foldl_xor_acc_0 xor_acc_def or_eq_0_iff xor_byte_0)
qed (auto simp: constant_time_eq_def)

text \<open>
  C33. The gate opens to exactly one kind of request: one from the loopback interface
  whose trimmed header equals the configured, non-empty token. Without a token it never
  opens, the comparison over xor-ed bytes is string equality, and once opened it stays
  open.
\<close>

theorem activation_requires_loopback_and_token:
  "verify g remote header = Inr () \<longleftrightarrow>
     (\<exists>ip t h. remote = Some ip \<and> is_loopback ip \<and> token g = Some t \<and> t \<noteq> []
        \<and> header = Some h \<and> trim h = t)"
  by (auto simp: verify_def constant_time_eq_iff Let_def split: option.splits if_splits)

end
