(* ===== verification/UpdateService.thy ===== *)
theory UpdateService
  imports UpdatePolicy ActivationGate
begin

text \<open>
  The update service (\<^verbatim>\<open>server/src/update/service.rs\<close>), its status and error values
  (\<^verbatim>\<open>ipc.rs\<close>) and the coordinator's tick (\<^verbatim>\<open>coordinator.rs\<close>). The state is the
  service's own fields with the statics of the barrier and the audit log. The controller
  is an interface to the launcher: the replies of its calls, the clock and the idle
  summary are arguments of the operations.
\<close>

section \<open>Messages\<close>

definition NOT_MANAGED_MESSAGE :: string where
  "NOT_MANAGED_MESSAGE = utf8
    [229, 189, 147, 229, 137, 141, 233, 131, 168, 231, 189, 178, 230, 168, 161, 229, 188,
     143, 228, 184, 141, 229, 143, 151, 229, 141, 135, 231, 186, 167, 229, 153, 168, 230,
     137, 152, 231, 174, 161, 239, 188, 136, 231, 155, 180, 232, 183, 145, 230, 168, 161,
     229, 188, 143, 232, 175, 183, 230, 137, 139, 229, 138, 168, 230, 155, 191, 230, 141,
     162, 231, 168, 139, 229, 186, 143, 239, 188, 137]"

definition BUSY_MESSAGE :: string where
  "BUSY_MESSAGE = utf8
    [229, 183, 178, 230, 156, 137, 229, 141, 135, 231, 186, 167, 47, 229, 155, 158, 230, 187,
     154, 228, 186, 139, 229, 138, 161, 232, 191, 155, 232, 161, 140, 228, 184, 173, 239,
     188, 140, 232, 175, 183, 231, 173, 137, 229, 190, 133, 229, 133, 182, 231, 187, 147,
     230, 157, 159, 229, 144, 142, 229, 134, 141, 232, 175, 149]"

definition NO_CANDIDATE_MESSAGE :: string where
  "NO_CANDIDATE_MESSAGE = utf8
    [229, 189, 147, 229, 137, 141, 230, 178, 161, 230, 156, 137, 229, 143, 175, 230, 137,
     167, 232, 161, 140, 231, 154, 132, 230, 155, 180, 230, 150, 176, 229, 128, 153, 233,
     128, 137, 239, 188, 140, 232, 175, 183, 229, 133, 136, 230, 137, 167, 232, 161, 140,
     230, 163, 128, 230, 159, 165, 230, 155, 180, 230, 150, 176]"

definition NO_ROLLBACK_MESSAGE :: string where
  "NO_ROLLBACK_MESSAGE = utf8
    [230, 178, 161, 230, 156, 137, 229, 143, 175, 231, 148, 168, 231, 154, 132, 232, 135,
     170, 229, 138, 168, 229, 155, 158, 230, 187, 154, 231, 130, 185, 239, 188, 136, 232,
     135, 170, 229, 138, 168, 229, 155, 158, 230, 187, 154, 228, 187, 133, 230, 137, 191,
     232, 175, 186, 230, 143, 144, 228, 186, 164, 228, 185, 139, 229, 137, 141, 231, 154,
     132, 228, 186, 139, 229, 138, 161, 239, 188, 137]"

definition MANUAL_RECOVERY_MESSAGE :: string where
  "MANUAL_RECOVERY_MESSAGE = utf8
    [229, 141, 135, 231, 186, 167, 228, 184, 142, 232, 135, 170, 229, 138, 168, 229, 155,
     158, 230, 187, 154, 229, 157, 135, 229, 164, 177, 232, 180, 165, 239, 188, 140, 232,
     175, 183, 230, 140, 137, 231, 187, 180, 230, 138, 164, 230, 137, 139, 229, 134, 140,
     230, 137, 167, 232, 161, 140, 228, 186, 186, 229, 183, 165, 230, 129, 162, 229, 164, 141]"

definition REJECTED_MESSAGE :: string where
  "REJECTED_MESSAGE = utf8
    [230, 155, 180, 230, 150, 176, 232, 175, 183, 230, 177, 130, 232, 162, 171, 230, 139,
     146, 231, 187, 157]"

definition APPLY_STARTED_MESSAGE :: string where
  "APPLY_STARTED_MESSAGE = utf8
    [229, 183, 178, 229, 188, 128, 229, 167, 139, 229, 174, 137, 232, 163, 133, 239, 188,
     140, 230, 151, 160, 230, 179, 149, 229, 143, 150, 230, 182, 136]"

definition CHECK_FIRST_MESSAGE :: string where
  "CHECK_FIRST_MESSAGE = utf8
    [232, 175, 183, 229, 133, 136, 230, 163, 128, 230, 159, 165, 229, 143, 175, 231, 148,
     168, 230, 155, 180, 230, 150, 176]"

definition APPLY_PINNED_MESSAGE :: string where
  "APPLY_PINNED_MESSAGE = utf8
    [229, 183, 178, 233, 162, 132, 231, 186, 166, 230, 155, 180, 230, 150, 176, 239, 188,
     140, 232, 175, 183, 229, 133, 136, 229, 143, 150, 230, 182, 136, 233, 162, 132, 231,
     186, 166, 229, 134, 141, 230, 163, 128, 230, 159, 165]"

definition STAGING_MESSAGE :: string where
  "STAGING_MESSAGE = utf8
    [229, 174, 137, 232, 163, 133, 230, 157, 161, 228, 187, 182, 230, 156, 170, 230, 187,
     161, 232, 182, 179, 239, 188, 154, 230, 150, 176, 231, 187, 132, 228, 187, 182, 229,
     176, 154, 230, 156, 170, 229, 174, 140, 230, 149, 180, 228, 184, 139, 232, 189, 189,
     227, 128, 129, 230, 160, 161, 233, 170, 140, 229, 185, 182, 229, 135, 134, 229, 164,
     135, 229, 176, 177, 231, 187, 170]"

definition BLOCKING_MESSAGE :: string where
  "BLOCKING_MESSAGE = utf8
    [229, 174, 137, 232, 163, 133, 230, 157, 161, 228, 187, 182, 230, 156, 170, 230, 187,
     161, 232, 182, 179, 239, 188, 140, 232, 175, 166, 232, 167, 129, 32, 98, 108, 111, 99,
     107, 105, 110, 103, 32, 229, 136, 151, 232, 161, 168, 239, 188, 155, 230, 187, 161, 232,
     182, 179, 229, 144, 142, 229, 143, 175, 233, 135, 141, 232, 175, 149]"

definition STILL_ACTIVE_MESSAGE :: string where
  "STILL_ACTIVE_MESSAGE = utf8
    [228, 187, 141, 230, 156, 137, 230, 180, 187, 229, 138, 168, 232, 191, 144, 232, 161,
     140, 227, 128, 129, 229, 189, 149, 229, 136, 182, 230, 136, 150, 229, 170, 146, 228,
     189, 147, 232, 190, 147, 229, 135, 186, 239, 188, 140, 232, 175, 183, 231, 187, 147,
     230, 157, 159, 229, 144, 142, 230, 155, 180, 230, 150, 176]"

definition PAUSED_MESSAGE :: string where
  "PAUSED_MESSAGE = utf8
    [232, 189, 175, 228, 187, 182, 230, 155, 180, 230, 150, 176, 228, 184, 173, 239, 188,
     140, 230, 154, 130, 228, 184, 141, 230, 142, 165, 229, 143, 151, 230, 150, 176, 231,
     154, 132, 230, 147, 141, 228, 189, 156]"

section \<open>Status and error values\<close>

record candidate =
  cand_version :: string
  cand_channel :: string
  cand_published_at :: "string option"
  cand_size_bytes :: "int option"
  cand_release_notes_url :: "string option"

record progress =
  bytes_done :: int
  bytes_total :: int

record last_error =
  le_code :: string
  le_message :: string

record update_status =
  us_state :: "update_state option"
  us_detail :: "string option"
  us_update_id :: "string option"
  us_candidate :: "candidate option"
  us_progress :: "progress option"
  us_last_error :: "last_error option"

definition empty_status :: update_status where
  "empty_status = \<lparr>us_state = None, us_detail = None, us_update_id = None,
     us_candidate = None, us_progress = None, us_last_error = None\<rparr>"

record update_error =
  ue_code :: update_error_code
  ue_message :: string
  ue_details :: "json option"

definition update_error_new :: "update_error_code \<Rightarrow> string \<Rightarrow> update_error" where
  "update_error_new c m = \<lparr>ue_code = c, ue_message = m, ue_details = None\<rparr>"

definition candidate_to_http_json :: "candidate \<Rightarrow> json" where
  "candidate_to_http_json c = json_object
     [(''version'', JString (cand_version c)),
      (''channel'', JString (cand_channel c)),
      (''published_at'', json_opt_str (cand_published_at c)),
      (''size_bytes'', (case cand_size_bytes c of Some n \<Rightarrow> json_int n | None \<Rightarrow> JNull)),
      (''release_notes_url'', json_opt_str (cand_release_notes_url c))]"

text \<open>
  The derived deserialisation of a struct from a value: from an object by field name, or
  from an array by position. A field is required or defaults to \<open>None\<close>; an array with
  elements left over is an error.
\<close>

definition struct_field :: "string list \<Rightarrow> string \<Rightarrow> json \<Rightarrow> json option" where
  "struct_field names k v =
     (case v of
        JObject m \<Rightarrow> map_of m k
      | JArray xs \<Rightarrow> map_of (zip names xs) k
      | _ \<Rightarrow> None)"

definition struct_shape :: "string list \<Rightarrow> json \<Rightarrow> bool" where
  "struct_shape names v =
     (case v of JObject m \<Rightarrow> True | JArray xs \<Rightarrow> length xs \<le> length names | _ \<Rightarrow> False)"

definition req_str :: "json option \<Rightarrow> string option" where
  "req_str v = (case v of Some (JString s) \<Rightarrow> Some s | _ \<Rightarrow> None)"

definition req_i64 :: "json option \<Rightarrow> int option" where
  "req_i64 v = (case v of Some w \<Rightarrow> as_i64 w | None \<Rightarrow> None)"

text \<open>\<^verbatim>\<open>Option<T>\<close> with a default: outer \<open>None\<close> is the error.\<close>

definition opt_str :: "json option \<Rightarrow> string option option" where
  "opt_str v =
     (case v of
        None \<Rightarrow> Some None
      | Some JNull \<Rightarrow> Some None
      | Some (JString s) \<Rightarrow> Some (Some s)
      | _ \<Rightarrow> None)"

definition opt_i64 :: "json option \<Rightarrow> int option option" where
  "opt_i64 v =
     (case v of
        None \<Rightarrow> Some None
      | Some w \<Rightarrow> if w = JNull then Some None else map_option Some (as_i64 w))"

definition candidate_fields :: "string list" where
  "candidate_fields =
     [''version'', ''channel'', ''published_at'', ''size_bytes'', ''release_notes_url'']"

definition candidate_from_value :: "json \<Rightarrow> candidate option" where
  "candidate_from_value v =
     (let f = (\<lambda>k. struct_field candidate_fields k v)
      in if \<not> struct_shape candidate_fields v then None
         else case (req_str (f ''version''), req_str (f ''channel''),
                    opt_str (f ''published_at''), opt_i64 (f ''size_bytes''),
                    opt_str (f ''release_notes_url'')) of
           (Some a, Some b, Some c, Some d, Some e) \<Rightarrow>
             Some \<lparr>cand_version = a, cand_channel = b, cand_published_at = c,
                   cand_size_bytes = d, cand_release_notes_url = e\<rparr>
         | _ \<Rightarrow> None)"

definition progress_from_value :: "json \<Rightarrow> progress option" where
  "progress_from_value v =
     (let f = (\<lambda>k. struct_field [''bytes_done'', ''bytes_total''] k v)
      in if \<not> struct_shape [''bytes_done'', ''bytes_total''] v then None
         else case (req_i64 (f ''bytes_done''), req_i64 (f ''bytes_total'')) of
           (Some a, Some b) \<Rightarrow> Some \<lparr>bytes_done = a, bytes_total = b\<rparr>
         | _ \<Rightarrow> None)"

definition last_error_from_value :: "json \<Rightarrow> last_error option" where
  "last_error_from_value v =
     (let f = (\<lambda>k. struct_field [''code'', ''message''] k v)
      in if \<not> struct_shape [''code'', ''message''] v then None
         else case (req_str (f ''code''), req_str (f ''message'')) of
           (Some a, Some b) \<Rightarrow> Some \<lparr>le_code = a, le_message = b\<rparr>
         | _ \<Rightarrow> None)"

text \<open>An optional block: absent and null are \<open>None\<close>, a malformed one is an error.\<close>

definition optional_block :: "(json \<Rightarrow> 'a option) \<Rightarrow> json option \<Rightarrow> 'a option option" where
  "optional_block parse v =
     (case v of
        None \<Rightarrow> Some None
      | Some w \<Rightarrow> if w = JNull then Some None else map_option Some (parse w))"

text \<open>
  \<^verbatim>\<open>parse_status_update_block\<close>; the error says which block is malformed (the crate's
  text that follows is not modelled).
\<close>

definition parse_status_update_block :: "json \<Rightarrow> (string, update_status) result" where
  "parse_status_update_block res =
     (case json_get ''update'' res of
        None \<Rightarrow> Inr empty_status
      | Some block \<Rightarrow>
          if block = JNull then Inr empty_status
          else
            let state = Option.bind (Option.bind (json_get ''state'' block) as_str) state_parse
            in case optional_block candidate_from_value (json_get ''candidate'' block) of
                 None \<Rightarrow> Inl ''candidate block''
               | Some cand \<Rightarrow>
                   (case optional_block progress_from_value (json_get ''progress'' block) of
                      None \<Rightarrow> Inl ''progress block''
                    | Some prog \<Rightarrow>
                        (case optional_block last_error_from_value
                                (json_get ''last_error'' block) of
                           None \<Rightarrow> Inl ''last_error block''
                         | Some le \<Rightarrow>
                             Inr \<lparr>us_state = state,
                                  us_detail = Option.bind (json_get ''detail'' block) as_str,
                                  us_update_id =
                                    Option.bind (json_get ''update_id'' block) as_str,
                                  us_candidate = cand,
                                  us_progress = prog,
                                  us_last_error = le\<rparr>)))"

section \<open>Bodies\<close>

fun default_detail :: "update_state \<Rightarrow> string" where
  "default_detail Idle = ''idle''"
| "default_detail Checking = ''checking''"
| "default_detail Available = ''checked''"
| "default_detail Downloading = ''downloading''"
| "default_detail Staged = ''staged''"
| "default_detail Waiting = ''waiting_idle''"
| "default_detail Installing = ''draining''"
| "default_detail Restarting = ''candidate_starting''"
| "default_detail Failed = ''failed''"
| "default_detail RollingBack = ''rolling_back''"
| "default_detail ManualRecovery = ''manual_recovery_required''"

fun code_default_message :: "update_error_code \<Rightarrow> string" where
  "code_default_message UpdateNotManaged = NOT_MANAGED_MESSAGE"
| "code_default_message UpdateBusy = BUSY_MESSAGE"
| "code_default_message UpdateNotAvailable = NO_CANDIDATE_MESSAGE"
| "code_default_message RollbackUnavailable = NO_ROLLBACK_MESSAGE"
| "code_default_message ManualRecoveryRequired = MANUAL_RECOVERY_MESSAGE"
| "code_default_message _ = REJECTED_MESSAGE"

definition status_state :: "update_status \<Rightarrow> update_state" where
  "status_state st = (case us_state st of Some s \<Rightarrow> s | None \<Rightarrow> Idle)"

definition status_json :: "update_status \<Rightarrow> update_policy \<Rightarrow> string \<Rightarrow> json" where
  "status_json st pol updated_at =
     (let state = status_state st;
          detail = (case us_detail st of
                      Some d \<Rightarrow> if allows_detail state d then d else default_detail state
                    | None \<Rightarrow> default_detail state)
      in json_object
        [(''apply_requested'', JBool False),
         (''state'', JString (state_as_str state)),
         (''detail'', JString detail),
         (''update_id'', json_opt_str (us_update_id st)),
         (''candidate'',
            (case us_candidate st of Some c \<Rightarrow> candidate_to_http_json c | None \<Rightarrow> JNull)),
         (''progress'',
            (case us_progress st of
               Some p \<Rightarrow> json_object [(''bytes_done'', json_int (bytes_done p)),
                                      (''bytes_total'', json_int (bytes_total p))]
             | None \<Rightarrow> JNull)),
         (''policy'', policy_to_json pol),
         (''last_error'',
            (case us_last_error st of
               Some e \<Rightarrow> json_object [(''code'', JString (le_code e)),
                                      (''message'', JString (le_message e))]
             | None \<Rightarrow> JNull)),
         (''updated_at'', JString updated_at)])"

definition accepted_json :: "string \<Rightarrow> update_state \<Rightarrow> json" where
  "accepted_json update_id s = json_object
     [(''update_id'', JString update_id), (''state'', JString (state_as_str s))]"

definition error_json :: "update_error \<Rightarrow> json" where
  "error_json e = json_object
     ([(''code'', JString (code_as_str (ue_code e))), (''message'', JString (ue_message e))]
      @ (case ue_details e of Some d \<Rightarrow> [(''details'', d)] | None \<Rightarrow> []))"

section \<open>Service state\<close>

record status_cache =
  c_status :: update_status
  c_updated_at :: "string option"
  c_last_refresh :: "nat option"

record audit_entry =
  audit_level :: string
  audit_msg :: string

text \<open>
  \<open>apply_file\<close> is the marker file of a reserved update: \<open>None\<close> without an
  installation root, otherwise whether it exists. \<open>managed\<close> is
  \<^verbatim>\<open>capabilities() != NONE\<close>.
\<close>

record update_service =
  apply_requested :: bool
  apply_file :: "bool option"
  managed :: bool
  txn :: bool
  svc_barrier :: barrier
  cache :: status_cache
  policy :: policy_store
  audit :: "audit_entry list"

record acceptance =
  acc_update_id :: "string option"
  acc_state :: "update_state option"

text \<open>
  What one request meets outside the service: the controller's replies, the wall clock
  and the monotonic clock (milliseconds), the idle summary, whether the guard's idle check
  holds (\<open>None\<close>: no guard installed) and the outcome of touching the marker file.
\<close>

record env =
  r_status :: "(update_error, update_status) result"
  r_check :: "(update_error, acceptance) result"
  r_download :: "(update_error, acceptance) result"
  r_rollback :: "(update_error, acceptance) result"
  r_prepare :: "(update_error, acceptance) result"
  now_text :: string
  now_ms :: nat
  idle :: workload
  guard_check :: "bool option"
  marker_io :: "(string, unit) result"

text \<open>A request returns, or hits an \<^verbatim>\<open>unreachable!\<close>.\<close>

datatype reply = Reply "(update_error, json) result" | Panicked

abbreviation refuse :: "update_error_code \<Rightarrow> string \<Rightarrow> reply" where
  "refuse c m \<equiv> Reply (Inl (update_error_new c m))"

section \<open>The transaction flag\<close>

definition try_begin :: "update_service \<Rightarrow> bool \<times> update_service" where
  "try_begin s = (\<not> txn s, s\<lparr>txn := True\<rparr>)"

definition txn_end :: "update_service \<Rightarrow> update_service" where
  "txn_end s = s\<lparr>txn := False\<rparr>"

definition barrier_resume :: "update_service \<Rightarrow> update_service" where
  "barrier_resume s = s\<lparr>svc_barrier := resume (svc_barrier s)\<rparr>"

definition add_audit :: "string \<Rightarrow> string \<Rightarrow> update_service \<Rightarrow> update_service" where
  "add_audit l m s = s\<lparr>audit := audit s @ [\<lparr>audit_level = l, audit_msg = m\<rparr>]\<rparr>"

section \<open>Refreshing and reading the status\<close>

definition same_state :: "update_status \<Rightarrow> update_status \<Rightarrow> bool" where
  "same_state a b \<longleftrightarrow>
     us_state a = us_state b \<and> us_detail a = us_detail b \<and> us_update_id a = us_update_id b
     \<and> us_candidate a = us_candidate b \<and> us_progress a = us_progress b
     \<and> us_last_error a = us_last_error b"

definition STATUS_REFRESH_THROTTLE :: nat where "STATUS_REFRESH_THROTTLE = 500"

definition throttled :: "env \<Rightarrow> update_service \<Rightarrow> bool" where
  "throttled env s =
     (case c_last_refresh (cache s) of
        Some t \<Rightarrow> now_ms env - t < STATUS_REFRESH_THROTTLE
      | None \<Rightarrow> False)"

text \<open>A settled state with an error ends the transaction and lifts the barrier.\<close>

definition settles :: "update_status \<Rightarrow> bool" where
  "settles st \<longleftrightarrow>
     us_last_error st \<noteq> None \<and> us_state st \<in> {Some Failed, Some Staged, Some Idle}"

definition take_status :: "env \<Rightarrow> update_status \<Rightarrow> update_service \<Rightarrow> update_service" where
  "take_status env st s =
     (let s1 = (if settles st then barrier_resume (txn_end s) else s);
          c = cache s1;
          c1 = (if \<not> same_state (c_status c) st \<or> c_updated_at c = None
                then c\<lparr>c_updated_at := Some (now_text env)\<rparr> else c)
      in s1\<lparr>cache := c1\<lparr>c_status := st, c_last_refresh := Some (now_ms env)\<rparr>\<rparr>)"

definition refresh ::
  "bool \<Rightarrow> env \<Rightarrow> update_service \<Rightarrow> (update_error, update_status) result \<times> update_service" where
  "refresh force env s =
     (if \<not> force \<and> throttled env s then (Inr (c_status (cache s)), s)
      else case r_status env of
          Inl e \<Rightarrow> (Inl e, s)
        | Inr st \<Rightarrow> (Inr st, take_status env st s))"

definition cached_state :: "update_service \<Rightarrow> update_state" where
  "cached_state s = status_state (c_status (cache s))"

definition refresh_state ::
  "env \<Rightarrow> update_service \<Rightarrow> (update_error, update_state) result \<times> update_service" where
  "refresh_state env s =
     (case refresh True env s of
        (Inl e, s1) \<Rightarrow> (Inl e, s1)
      | (Inr st, s1) \<Rightarrow> (Inr (status_state st), s1))"

definition status_body :: "env \<Rightarrow> update_service \<Rightarrow> json \<times> update_service" where
  "status_body env s =
     (let (r, s1) = refresh False env s;
          st = (case r of Inr st \<Rightarrow> st | Inl _ \<Rightarrow> c_status (cache s1));
          at = (case c_updated_at (cache s1) of Some t \<Rightarrow> t | None \<Rightarrow> now_text env)
      in (case status_json st (current (policy s1)) at of
            JObject m \<Rightarrow> JObject (obj_insert ''apply_requested'' (JBool (apply_requested s1)) m)
          | v \<Rightarrow> v, s1))"

section \<open>Reserving an update\<close>

definition set_apply_requested ::
  "env \<Rightarrow> bool \<Rightarrow> update_service \<Rightarrow> (update_error, unit) result \<times> update_service" where
  "set_apply_requested env b s =
     (case apply_file s of
        None \<Rightarrow> (Inr (), s\<lparr>apply_requested := b\<rparr>)
      | Some _ \<Rightarrow>
          (case marker_io env of
             Inl m \<Rightarrow> (Inl (update_error_new UpdaterUnavailable m), s)
           | Inr _ \<Rightarrow> (Inr (), s\<lparr>apply_file := Some b, apply_requested := b\<rparr>)))"

definition cancel_apply ::
  "env \<Rightarrow> update_service \<Rightarrow> (update_error, unit) result \<times> update_service" where
  "cancel_apply env s =
     (if txn s \<or> paused (svc_barrier s)
      then (Inl (update_error_new UpdateBusy APPLY_STARTED_MESSAGE), s)
      else set_apply_requested env False s)"

definition request_apply :: "env \<Rightarrow> update_service \<Rightarrow> reply \<times> update_service" where
  "request_apply env s =
     (case refresh True env s of
        (Inl e, s1) \<Rightarrow> (Reply (Inl e), s1)
      | (Inr st, s1) \<Rightarrow>
          if \<not> managed s1 then (refuse UpdateNotManaged NOT_MANAGED_MESSAGE, s1)
          else if us_state st \<notin> {Some Available, Some Staged, Some Downloading, Some Waiting}
          then (refuse UpdateNotReady CHECK_FIRST_MESSAGE, s1)
          else (case set_apply_requested env True s1 of
                  (Inl e, s2) \<Rightarrow> (Reply (Inl e), s2)
                | (Inr _, s2) \<Rightarrow>
                    (Reply (Inr (accepted_json
                       (case us_update_id st of Some i \<Rightarrow> i | None \<Rightarrow> [])
                       (case us_state st of Some t \<Rightarrow> t | None \<Rightarrow> Waiting))), s2)))"

section \<open>Check, download and rollback\<close>

datatype op = OpCheck | OpDownload | OpRollback

fun controller_call :: "op \<Rightarrow> env \<Rightarrow> (update_error, acceptance) result" where
  "controller_call OpCheck env = r_check env"
| "controller_call OpDownload env = r_download env"
| "controller_call OpRollback env = r_rollback env"

text \<open>The cache after an accepted call, with the identifier of the body.\<close>

definition advance_cache ::
  "env \<Rightarrow> acceptance \<Rightarrow> update_state \<Rightarrow> update_service \<Rightarrow> json \<times> update_service" where
  "advance_cache env acc new s =
     (let c = cache s;
          st1 = (c_status c)\<lparr>us_state := Some new, us_detail := Some (default_detail new)\<rparr>;
          st2 = (case acc_update_id acc of
                   Some i \<Rightarrow> st1\<lparr>us_update_id := Some i\<rparr> | None \<Rightarrow> st1);
          st3 = (if new = Downloading then st2\<lparr>us_last_error := None\<rparr> else st2);
          c1 = c\<lparr>c_status := st3, c_updated_at := Some (now_text env)\<rparr>;
          i = (case acc_update_id acc of
                 Some i \<Rightarrow> JString i | None \<Rightarrow> json_opt_str (us_update_id st3))
      in (json_object [(''update_id'', i), (''state'', JString (state_as_str new))],
          s\<lparr>cache := c1\<rparr>))"

definition request_long_op ::
  "update_action \<Rightarrow> op \<Rightarrow> env \<Rightarrow> update_service \<Rightarrow> reply \<times> update_service" where
  "request_long_op action op env s =
     (if \<not> managed s then (refuse UpdateNotManaged NOT_MANAGED_MESSAGE, s)
      else case refresh True env s of
          (Inl e, s1) \<Rightarrow> (Reply (Inl e), s1)
        | (Inr st, s1) \<Rightarrow>
            (case admit (status_state st) action of
               Rejected c \<Rightarrow> (refuse c (code_default_message c), s1)
             | InstallGate \<Rightarrow> (Panicked, s1)
             | Accepted target \<Rightarrow>
                 (case controller_call op env of
                    Inl e \<Rightarrow> (Reply (Inl e), s1)
                  | Inr acc \<Rightarrow>
                      let new = (case acc_state acc of Some t \<Rightarrow> t | None \<Rightarrow> target);
                          (body, s2) = advance_cache env acc new s1
                      in (Reply (Inr body), s2))))"

definition request_check :: "env \<Rightarrow> update_service \<Rightarrow> reply \<times> update_service" where
  "request_check env s =
     (if apply_requested s then (refuse UpdateBusy APPLY_PINNED_MESSAGE, s)
      else request_long_op Check OpCheck env s)"

definition request_download :: "env \<Rightarrow> update_service \<Rightarrow> reply \<times> update_service" where
  "request_download env s = request_long_op Download OpDownload env s"

text \<open>On a failure the code releases the transaction twice.\<close>

definition request_rollback :: "env \<Rightarrow> update_service \<Rightarrow> reply \<times> update_service" where
  "request_rollback env s =
     (case try_begin s of
        (False, s1) \<Rightarrow> (refuse UpdateBusy BUSY_MESSAGE, s1)
      | (True, s1) \<Rightarrow>
          let (r, s2) = request_long_op Rollback OpRollback env s1;
              s3 = (case r of Reply (Inr _) \<Rightarrow> s2 | _ \<Rightarrow> txn_end s2)
          in (r, txn_end s3))"

section \<open>Install\<close>

text \<open>
  The production guard is \<^verbatim>\<open>freeze_if_idle\<close> over the idle check (\<^verbatim>\<open>main.rs\<close>).
\<close>

definition run_guard :: "env \<Rightarrow> update_service \<Rightarrow> bool \<times> update_service" where
  "run_guard env s =
     (case guard_check env of
        None \<Rightarrow> (True, s)
      | Some chk \<Rightarrow>
          let (ok, b) = freeze_if_idle chk (svc_barrier s) in (ok, s\<lparr>svc_barrier := b\<rparr>))"

definition blocking_details :: "string list \<Rightarrow> json" where
  "blocking_details names = json_object [(''blocking'', JArray (map JString names))]"

definition enter_installing :: "env \<Rightarrow> update_service \<Rightarrow> update_service" where
  "enter_installing env s =
     (let c = cache s
      in s\<lparr>cache := c\<lparr>c_status := (c_status c)\<lparr>us_state := Some Installing,
                                             us_detail := Some ''draining''\<rparr>,
                      c_updated_at := Some (now_text env)\<rparr>\<rparr>)"

definition request_install :: "env \<Rightarrow> update_service \<Rightarrow> reply \<times> update_service" where
  "request_install env s =
     (if \<not> managed s then (refuse UpdateNotManaged NOT_MANAGED_MESSAGE, s)
      else case refresh True env s of
          (Inl e, s1) \<Rightarrow> (Reply (Inl e), s1)
        | (Inr st, s1) \<Rightarrow>
            let state = status_state st
            in case admit state Install of
                 Rejected c \<Rightarrow>
                   (if c = UpdateNotReady
                    then (Reply (Inl \<lparr>ue_code = c, ue_message = STAGING_MESSAGE,
                            ue_details = Some (blocking_details [''staging_not_ready''])\<rparr>), s1)
                    else (refuse c (code_default_message c), s1))
               | Accepted _ \<Rightarrow> (Panicked, s1)
               | InstallGate \<Rightarrow>
                   let blocking =
                         install_blockings (idle env) (freeze_minutes (current (policy s1)))
                         @ (if state \<notin> {Staged, Waiting} then [StagingNotReady] else [])
                   in if blocking \<noteq> []
                      then (Reply (Inl \<lparr>ue_code = UpdateNotReady, ue_message = BLOCKING_MESSAGE,
                              ue_details =
                                Some (blocking_details (map blocking_as_str blocking))\<rparr>), s1)
                      else case try_begin s1 of
                          (False, s2) \<Rightarrow> (refuse UpdateBusy BUSY_MESSAGE, s2)
                        | (True, s2) \<Rightarrow>
                            (case run_guard env s2 of
                               (False, s3) \<Rightarrow>
                                 (refuse UpdateNotReady STILL_ACTIVE_MESSAGE, txn_end s3)
                             | (True, s3) \<Rightarrow>
                                 let i = us_update_id st;
                                     s4 = add_audit ''info''
                                       (''update install accepted (id=''
                                        @ (case i of Some t \<Rightarrow> t | None \<Rightarrow> ''-'')
                                        @ ''): entering installing, handoff to launcher'')
                                       (enter_installing env s3)
                                 in (Reply (Inr (json_object
                                       [(''update_id'', json_opt_str i),
                                        (''state'', JString (state_as_str Installing))])),
                                     s4)))"

text \<open>\<^verbatim>\<open>InstallBackground::run\<close>, spawned after an accepted install.\<close>

definition install_background :: "env \<Rightarrow> update_service \<Rightarrow> update_service" where
  "install_background env s =
     (case r_prepare env of
        Inr _ \<Rightarrow>
          add_audit ''info''
            ''update prepare_install accepted: launcher takes over (drain/snapshot/switch)'' s
      | Inl e \<Rightarrow>
          let s1 = txn_end (barrier_resume s);
              s2 = add_audit ''error'' (''update install failed: '' @ code_as_str (ue_code e)
                     @ '' ('' @ ue_message e @ '')'') s1;
              c = cache s2
          in s2\<lparr>cache := c\<lparr>c_status := (c_status c)\<lparr>us_state := Some Failed,
                 us_detail := Some ''failed'',
                 us_last_error := Some \<lparr>le_code = code_as_str (ue_code e),
                                        le_message = ue_message e\<rparr>\<rparr>,
                 c_updated_at := Some (now_text env)\<rparr>\<rparr>)"

definition set_policy ::
  "bool \<Rightarrow> update_policy \<Rightarrow> update_service \<Rightarrow> (string, json) result \<times> update_service" where
  "set_policy write_ok p s =
     (case store_replace write_ok p (policy s) of
        (Inl field, _) \<Rightarrow> (Inl field, s)
      | (Inr saved, st) \<Rightarrow> (Inr (policy_to_json saved), s\<lparr>policy := st\<rparr>))"

section \<open>The coordinator\<close>

text \<open>
  One tick: the status is refreshed under \<open>env0\<close>, the request it decides on runs under
  \<open>env\<close>. The check throttle is thirty minutes of the monotonic clock.
\<close>

definition AUTO_CHECK_INTERVAL :: nat where "AUTO_CHECK_INTERVAL = 1800000"

record coordinator =
  service :: update_service
  last_check :: "nat option"

definition is_accepted :: "reply \<Rightarrow> bool" where
  "is_accepted r = (case r of Reply (Inr _) \<Rightarrow> True | _ \<Rightarrow> False)"

definition check_due :: "env \<Rightarrow> coordinator \<Rightarrow> bool" where
  "check_due env c =
     (case last_check c of
        Some t \<Rightarrow> AUTO_CHECK_INTERVAL \<le> now_ms env - t
      | None \<Rightarrow> True)"

definition tick_reserved :: "env \<Rightarrow> update_state \<Rightarrow> update_service \<Rightarrow> update_service" where
  "tick_reserved env state s =
     (case state of
        Available \<Rightarrow> snd (request_download env s)
      | Staged \<Rightarrow> (let (r, s1) = request_install env s
                   in if is_accepted r then snd (set_apply_requested env False s1) else s1)
      | Waiting \<Rightarrow> (let (r, s1) = request_install env s
                    in if is_accepted r then snd (set_apply_requested env False s1) else s1)
      | Failed \<Rightarrow> snd (set_apply_requested env False s)
      | ManualRecovery \<Rightarrow> snd (set_apply_requested env False s)
      | Idle \<Rightarrow> snd (set_apply_requested env False s)
      | _ \<Rightarrow> s)"

definition coordinator_tick ::
  "env \<Rightarrow> env \<Rightarrow> int \<Rightarrow> coordinator \<Rightarrow> tick \<times> coordinator" where
  "coordinator_tick env0 env minutes c =
     (let pol = current (policy (service c));
          (r, s0) = refresh_state env0 (service c);
          state = (case r of Inr st \<Rightarrow> st | Inl _ \<Rightarrow> cached_state s0);
          c0 = c\<lparr>service := s0\<rparr>
      in if apply_requested s0
         then (TickNoop, c0\<lparr>service := tick_reserved env state s0\<rparr>)
         else
           let decision = decide (strategy pol) (in_maintenance_window pol minutes) state
                            (idle env0) (freeze_minutes pol)
           in case decision of
                TickNoop \<Rightarrow> (TickNoop, c0)
              | TickCheck \<Rightarrow>
                  (if \<not> check_due env c0 then (TickNoop, c0)
                   else (TickCheck, c0\<lparr>last_check := Some (now_ms env),
                                       service := snd (request_check env s0)\<rparr>))
              | TickDownload \<Rightarrow> (TickDownload, c0\<lparr>service := snd (request_download env s0)\<rparr>)
              | TickInstall \<Rightarrow>
                  (case request_install env s0 of
                     (rep, s1) \<Rightarrow> (if is_accepted rep then TickInstall else TickNoop,
                                   c0\<lparr>service := s1\<rparr>)))"

section \<open>Library lemmas\<close>

named_theorems service_simps \<open>the operations of the update service, unfolded\<close>

declare try_begin_def [service_simps] txn_end_def [service_simps]
  barrier_resume_def [service_simps] add_audit_def [service_simps]
  take_status_def [service_simps] enter_installing_def [service_simps]
  resume_def [service_simps] freeze_if_idle_def [service_simps]

lemma take_status_fields [simp]:
  "txn (take_status env st s) \<longleftrightarrow> txn s \<and> \<not> settles st"
  "paused (svc_barrier (take_status env st s)) \<longleftrightarrow> paused (svc_barrier s) \<and> \<not> settles st"
  "active (svc_barrier (take_status env st s)) = active (svc_barrier s)"
  "managed (take_status env st s) = managed s"
  "policy (take_status env st s) = policy s"
  "audit (take_status env st s) = audit s"
  "apply_requested (take_status env st s) = apply_requested s"
  "apply_file (take_status env st s) = apply_file s"
  "c_status (cache (take_status env st s)) = st"
  by (simp_all add: take_status_def txn_end_def barrier_resume_def resume_def Let_def)

lemma cached_state_take_status [simp]: "cached_state (take_status env st s) = status_state st"
  by (simp add: cached_state_def)

lemma refresh_True:
  "refresh True env s =
     (case r_status env of Inl e \<Rightarrow> (Inl e, s) | Inr st \<Rightarrow> (Inr st, take_status env st s))"
  by (simp add: refresh_def)

lemma install_blockings_Nil:
  "install_blockings w f = [] \<longleftrightarrow>
     active_runs w = 0 \<and> update_transactions w = 0 \<and> \<not> cron_in_freeze (next_cron_secs w) f"
  by (auto simp: install_blockings_def)

lemma run_guard_fields [simp]:
  "txn (snd (run_guard env s)) = txn s"
  "cache (snd (run_guard env s)) = cache s"
  "audit (snd (run_guard env s)) = audit s"
  "managed (snd (run_guard env s)) = managed s"
  "policy (snd (run_guard env s)) = policy s"
  by (auto simp: run_guard_def split: option.splits prod.splits)

definition guard_passes :: "env \<Rightarrow> barrier \<Rightarrow> bool" where
  "guard_passes env b \<longleftrightarrow>
     (case guard_check env of
        None \<Rightarrow> True
      | Some chk \<Rightarrow> chk \<and> \<not> paused b \<and> active b = 0)"

lemma run_guard_fst: "fst (run_guard env s) \<longleftrightarrow> guard_passes env (svc_barrier s)"
  by (auto simp: run_guard_def guard_passes_def freeze_if_idle_def split: option.splits prod.splits)

lemma run_guard_paused:
  "paused (svc_barrier (snd (run_guard env s))) \<longleftrightarrow>
     paused (svc_barrier s) \<or> guard_check env \<noteq> None \<and> guard_passes env (svc_barrier s)"
  by (auto simp: run_guard_def guard_passes_def freeze_if_idle_def split: option.splits prod.splits)

text \<open>
  The install request once the launcher answered with a state the gate is about: the
  one place where its branches are worked out.
\<close>

definition gate_clear :: "env \<Rightarrow> update_service \<Rightarrow> bool" where
  "gate_clear env s \<longleftrightarrow>
     active_runs (idle env) = 0 \<and> update_transactions (idle env) = 0
     \<and> \<not> cron_in_freeze (next_cron_secs (idle env)) (freeze_minutes (current (policy s)))"

lemma gate_clear_take_status [simp]: "gate_clear env (take_status env' st s) = gate_clear env s"
  by (simp add: gate_clear_def)

definition install_passes :: "env \<Rightarrow> update_status \<Rightarrow> update_service \<Rightarrow> bool" where
  "install_passes env st s \<longleftrightarrow>
     us_state st \<in> {Some Staged, Some Waiting} \<and> gate_clear env s \<and> (\<not> txn s \<or> settles st)
     \<and> guard_passes env (svc_barrier (take_status env st s))"

lemma status_state_gate [simp]:
  "status_state st = Staged \<longleftrightarrow> us_state st = Some Staged"
  "status_state st = Waiting \<longleftrightarrow> us_state st = Some Waiting"
  by (auto simp: status_state_def split: option.splits)

lemma try_begin_pair: "try_begin s = (\<not> txn s, s\<lparr>txn := True\<rparr>)"
  by (simp add: try_begin_def)

lemma svc_barrier_txn_update [simp]: "svc_barrier (s\<lparr>txn := b\<rparr>) = svc_barrier s"
  by simp

definition after_refresh :: "env \<Rightarrow> update_service \<Rightarrow> update_service" where
  "after_refresh env s = (if managed s then snd (refresh True env s) else s)"

lemma run_guard_False: "\<not> fst (run_guard env s) \<Longrightarrow> snd (run_guard env s) = s"
  by (auto simp: run_guard_def freeze_if_idle_def split: option.splits prod.splits if_splits)

lemma admit_Install_cases:
  "admit s Install = InstallGate \<or> (\<exists>c. admit s Install = Rejected c)"
  by (cases s) simp_all

text \<open>From the gate on: everything after the matrix let the request through.\<close>

definition install_gate :: "env \<Rightarrow> update_status \<Rightarrow> update_service \<Rightarrow> reply \<times> update_service" where
  "install_gate env st s1 =
     (let blocking =
            install_blockings (idle env) (freeze_minutes (current (policy s1)))
            @ (if status_state st \<notin> {Staged, Waiting} then [StagingNotReady] else [])
      in if blocking \<noteq> []
         then (Reply (Inl \<lparr>ue_code = UpdateNotReady, ue_message = BLOCKING_MESSAGE,
                 ue_details = Some (blocking_details (map blocking_as_str blocking))\<rparr>), s1)
         else case try_begin s1 of
             (False, s2) \<Rightarrow> (refuse UpdateBusy BUSY_MESSAGE, s2)
           | (True, s2) \<Rightarrow>
               (case run_guard env s2 of
                  (False, s3) \<Rightarrow> (refuse UpdateNotReady STILL_ACTIVE_MESSAGE, txn_end s3)
                | (True, s3) \<Rightarrow>
                    let i = us_update_id st;
                        s4 = add_audit ''info''
                          (''update install accepted (id=''
                           @ (case i of Some t \<Rightarrow> t | None \<Rightarrow> ''-'')
                           @ ''): entering installing, handoff to launcher'')
                          (enter_installing env s3)
                    in (Reply (Inr (json_object
                          [(''update_id'', json_opt_str i),
                           (''state'', JString (state_as_str Installing))])),
                        s4)))"

lemma request_install_cases:
  "request_install env s =
     (if \<not> managed s then (refuse UpdateNotManaged NOT_MANAGED_MESSAGE, s)
      else case r_status env of
          Inl e \<Rightarrow> (Reply (Inl e), s)
        | Inr st \<Rightarrow>
            (case admit (status_state st) Install of
               Rejected c \<Rightarrow>
                 (if c = UpdateNotReady
                  then (Reply (Inl \<lparr>ue_code = c, ue_message = STAGING_MESSAGE,
                          ue_details = Some (blocking_details [''staging_not_ready''])\<rparr>),
                        take_status env st s)
                  else (refuse c (code_default_message c), take_status env st s))
             | Accepted _ \<Rightarrow> (Panicked, take_status env st s)
             | InstallGate \<Rightarrow> install_gate env st (take_status env st s)))"
  unfolding request_install_def install_gate_def refresh_True
  by (cases "r_status env") (simp_all add: Let_def)

lemma after_refresh_eq:
  "managed s \<Longrightarrow> r_status env = Inr st \<Longrightarrow> after_refresh env s = take_status env st s"
  "managed s \<Longrightarrow> r_status env = Inl e \<Longrightarrow> after_refresh env s = s"
  "\<not> managed s \<Longrightarrow> after_refresh env s = s"
  by (simp_all add: after_refresh_def refresh_True)

text \<open>The gate either opens, taking the transaction, or leaves the state as it is.\<close>

lemma install_gate_refused:
  assumes "\<not> (status_state st \<in> {Staged, Waiting} \<and> gate_clear env s1 \<and> \<not> txn s1
               \<and> guard_passes env (svc_barrier s1))"
  shows "\<exists>e. install_gate env st s1 = (Reply (Inl e), s1)"
proof (cases "status_state st \<in> {Staged, Waiting} \<and> gate_clear env s1")
  case False
  then have "install_blockings (idle env) (freeze_minutes (current (policy s1)))
      @ (if status_state st \<notin> {Staged, Waiting} then [StagingNotReady] else []) \<noteq> []"
    unfolding gate_clear_def by (auto simp: install_blockings_Nil)
  then show ?thesis unfolding install_gate_def Let_def by simp
next
  case True
  then have nil: "install_blockings (idle env) (freeze_minutes (current (policy s1))) = []"
    "status_state st \<in> {Staged, Waiting}"
    unfolding gate_clear_def by (auto simp: install_blockings_Nil)
  show ?thesis
  proof (cases "txn s1")
    case True
    with nil show ?thesis
      by (auto simp: install_gate_def Let_def try_begin_def)
  next
    case False
    with assms True have "\<not> fst (run_guard env (s1\<lparr>txn := True\<rparr>))"
      by (auto simp: run_guard_fst)
    then have "run_guard env (s1\<lparr>txn := True\<rparr>) = (False, s1\<lparr>txn := True\<rparr>)"
      using run_guard_False by (metis prod.collapse)
    moreover have "txn_end (s1\<lparr>txn := True\<rparr>) = s1" using False by (simp add: txn_end_def)
    ultimately show ?thesis using nil False
      by (auto simp: install_gate_def Let_def try_begin_def)
  qed
qed

lemma install_gate_accepted:
  assumes "status_state st \<in> {Staged, Waiting}" "gate_clear env s1" "\<not> txn s1"
    "guard_passes env (svc_barrier s1)"
  shows "\<exists>b s'. install_gate env st s1 = (Reply (Inr b), s') \<and> txn s'
     \<and> cached_state s' = Installing \<and> (guard_check env \<noteq> None \<longrightarrow> paused (svc_barrier s'))
     \<and> length (audit s') = length (audit s1) + 1
     \<and> managed s' = managed s1 \<and> policy s' = policy s1"
proof -
  have nil: "install_blockings (idle env) (freeze_minutes (current (policy s1))) = []"
    using assms(2) unfolding gate_clear_def by (simp add: install_blockings_Nil)
  obtain s3 where s3: "run_guard env (s1\<lparr>txn := True\<rparr>) = (True, s3)"
    using assms(4) run_guard_fst [of env "s1\<lparr>txn := True\<rparr>"] by (cases "run_guard env (s1\<lparr>txn := True\<rparr>)") auto
  then have "txn s3" "audit s3 = audit s1" "guard_check env \<noteq> None \<longrightarrow> paused (svc_barrier s3)"
    "managed s3 = managed s1" "policy s3 = policy s1"
    using run_guard_fields(1,3,4,5) [of env "s1\<lparr>txn := True\<rparr>"]
      run_guard_paused [of env "s1\<lparr>txn := True\<rparr>"] assms(4) by auto
  then show ?thesis
    using nil assms(1,3) s3
    by (simp add: install_gate_def Let_def try_begin_def add_audit_def enter_installing_def
        cached_state_def status_state_def)
qed

lemma request_install_spec:
  "(case request_install env s of
      (Reply (Inr _), s') \<Rightarrow>
        managed s \<and> (\<exists>st. r_status env = Inr st \<and> install_passes env st s)
        \<and> txn s' \<and> cached_state s' = Installing
        \<and> (guard_check env = None \<or> paused (svc_barrier s'))
        \<and> length (audit s') = length (audit s) + 1
        \<and> managed s' \<and> policy s' = policy s
    | (Reply (Inl _), s') \<Rightarrow>
        \<not> (managed s \<and> (\<exists>st. r_status env = Inr st \<and> install_passes env st s))
        \<and> s' = after_refresh env s
    | (Panicked, _) \<Rightarrow> False)"
proof (cases "managed s")
  case False
  then show ?thesis by (simp add: request_install_cases after_refresh_eq)
next
  case m: True
  show ?thesis
  proof (cases "r_status env")
    case (Inl e)
    with m show ?thesis by (simp add: request_install_cases after_refresh_eq)
  next
    case (Inr st)
    let ?s1 = "take_status env st s"
    show ?thesis
    proof (cases "admit (status_state st) Install")
      case (Rejected c)
      then have "\<not> install_passes env st s"
        unfolding install_passes_def by (auto simp: status_state_def)
      with m Inr Rejected show ?thesis by (simp add: request_install_cases after_refresh_eq)
    next
      case InstallGate
      show ?thesis
      proof (cases "install_passes env st s")
        case True
        then have "status_state st \<in> {Staged, Waiting}" "gate_clear env ?s1" "\<not> txn ?s1"
          "guard_passes env (svc_barrier ?s1)"
          by (auto simp: install_passes_def)
        from install_gate_accepted [OF this] show ?thesis
          using m Inr InstallGate True by (auto simp: request_install_cases)
      next
        case False
        then have "\<not> (status_state st \<in> {Staged, Waiting} \<and> gate_clear env ?s1 \<and> \<not> txn ?s1
               \<and> guard_passes env (svc_barrier ?s1))"
          by (auto simp: install_passes_def)
        from install_gate_refused [OF this] show ?thesis
          using m Inr InstallGate False by (auto simp: request_install_cases after_refresh_eq)
      qed
    qed simp
  qed
qed

text \<open>
  C15. The install request, on every branch: it is accepted exactly when the launcher
  reports a staged or waiting candidate, nothing runs and no trigger is near, the
  transaction is free (or the launcher's report just freed it) and the idle guard froze
  the barrier; it then holds the transaction, shows \<^verbatim>\<open>installing\<close>, has paused new work
  and left one audit line. A refused request changes nothing beyond the refreshed
  status, so no refusal leaks the transaction or the pause, and the
  \<^verbatim>\<open>unreachable!\<close> arm is never reached.
\<close>

theorem request_install_outcome:
  "(case request_install env s of
      (Reply (Inr _), s') \<Rightarrow>
        managed s \<and> (\<exists>st. r_status env = Inr st \<and> install_passes env st s)
        \<and> txn s' \<and> cached_state s' = Installing
        \<and> (guard_check env = None \<or> paused (svc_barrier s'))
        \<and> length (audit s') = length (audit s) + 1
        \<and> managed s' \<and> policy s' = policy s
    | (Reply (Inl _), s') \<Rightarrow>
        \<not> (managed s \<and> (\<exists>st. r_status env = Inr st \<and> install_passes env st s))
        \<and> s' = after_refresh env s
    | (Panicked, _) \<Rightarrow> False)"
  by (rule request_install_spec)

text \<open>The same for the long operations.\<close>

fun op_action :: "op \<Rightarrow> update_action" where
  "op_action OpCheck = Check"
| "op_action OpDownload = Download"
| "op_action OpRollback = Rollback"

lemma request_long_op_cases:
  "request_long_op (op_action k) k env s =
     (if \<not> managed s then (refuse UpdateNotManaged NOT_MANAGED_MESSAGE, s)
      else case r_status env of
          Inl e \<Rightarrow> (Reply (Inl e), s)
        | Inr st \<Rightarrow>
            (case admit (status_state st) (op_action k) of
               Rejected c \<Rightarrow> (refuse c (code_default_message c), take_status env st s)
             | InstallGate \<Rightarrow> (Panicked, take_status env st s)
             | Accepted target \<Rightarrow>
                 (case controller_call k env of
                    Inl e \<Rightarrow> (Reply (Inl e), take_status env st s)
                  | Inr acc \<Rightarrow>
                      let new = (case acc_state acc of Some t \<Rightarrow> t | None \<Rightarrow> target);
                          (body, s2) = advance_cache env acc new (take_status env st s)
                      in (Reply (Inr body), s2))))"
  unfolding request_long_op_def refresh_True by (cases "r_status env") simp_all

lemma advance_cache_fields [simp]:
  "txn (snd (advance_cache env acc new s)) = txn s"
  "svc_barrier (snd (advance_cache env acc new s)) = svc_barrier s"
  "audit (snd (advance_cache env acc new s)) = audit s"
  "cached_state (snd (advance_cache env acc new s)) = new"
  by (auto simp: advance_cache_def Let_def cached_state_def status_state_def split: option.splits)

lemma op_action_not_gate: "admit t (op_action k) \<noteq> InstallGate"
  by (cases k) (auto simp: admit_InstallGate_iff)

lemma request_long_op_audit: "audit (snd (request_long_op (op_action k) k env s)) = audit s"
  by (auto simp: request_long_op_cases Let_def split_beta split: sum.splits admission.splits)


text \<open>
  Check, download and rollback follow the matrix: an accepted request was admitted
  in the reported state and moves the cached state to what the launcher answered, or to
  the matrix's target when it named none; a refused one changes nothing beyond the
  refreshed status and never panics.
\<close>

theorem request_long_op_outcome:
  "(case request_long_op (op_action k) k env s of
      (Reply (Inr _), s') \<Rightarrow>
        managed s \<and> (\<exists>st target acc. r_status env = Inr st
          \<and> admit (status_state st) (op_action k) = Accepted target
          \<and> controller_call k env = Inr acc
          \<and> cached_state s' = (case acc_state acc of Some t \<Rightarrow> t | None \<Rightarrow> target)
          \<and> txn s' = txn (after_refresh env s))
    | (Reply (Inl e), s') \<Rightarrow>
        s' = after_refresh env s
        \<and> (if managed s then
             (case r_status env of
                Inl e' \<Rightarrow> e = e'
              | Inr st \<Rightarrow>
                  (case admit (status_state st) (op_action k) of
                     Rejected c \<Rightarrow> ue_code e = c
                   | Accepted _ \<Rightarrow> controller_call k env = Inl e
                   | InstallGate \<Rightarrow> False))
           else ue_code e = UpdateNotManaged)
    | (Panicked, _) \<Rightarrow> False)"
proof (cases "managed s")
  case m: True
  show ?thesis
  proof (cases "r_status env")
    case (Inr st)
    show ?thesis
    proof (cases "admit (status_state st) (op_action k)")
      case (Accepted t)
      then show ?thesis
        using m Inr
        by (cases "controller_call k env")
          (simp_all add: request_long_op_cases after_refresh_eq Let_def split_beta)
    qed (use m Inr op_action_not_gate [of "status_state st" k] in
        \<open>simp_all add: request_long_op_cases after_refresh_eq update_error_new_def\<close>)
  qed (use m in \<open>simp add: request_long_op_cases after_refresh_eq\<close>)
qed (simp add: request_long_op_cases after_refresh_eq update_error_new_def)

text \<open>
  A settled report with an error cancels an install that is already under way: after
  an accepted install, one status read that the launcher answers with such a report (the
  error of an earlier attempt is still in its journal) frees the transaction and lifts
  the pause, although \<^verbatim>\<open>prepare_install\<close> of the first request is still to come; the
  next install request is then accepted as well.
\<close>

theorem settled_report_frees_pending_install:
  assumes first: "request_install env s = (Reply (Inr b), s1)"
    and report: "r_status env' = Inr st" "settles st" "us_state st = Some Staged"
    and late: "\<not> throttled env' s1"
    and again: "gate_clear env' s1" "r_status env'' = Inr st" "gate_clear env'' s1"
      "guard_check env'' = Some True" "active (svc_barrier s1) = 0"
  shows "let s2 = snd (status_body env' s1) in
      \<not> txn s2 \<and> \<not> paused (svc_barrier s2) \<and> cached_state s2 = Staged
      \<and> (\<exists>b' s3. request_install env'' s2 = (Reply (Inr b'), s3))"
proof -
  have "managed s1"
    using request_install_spec [where env = env and s = s] first by simp
  moreover have s2: "snd (status_body env' s1) = take_status env' st s1"
    using report late by (simp add: status_body_def refresh_def Let_def split_beta)
  moreover have "install_passes env'' st (take_status env' st s1)"
    using report again
    by (simp add: install_passes_def guard_passes_def gate_clear_def)
  ultimately have "\<exists>b' s3. request_install env'' (take_status env' st s1) = (Reply (Inr b'), s3)"
    using request_install_spec [where env = env'' and s = "take_status env' st s1"] again(2)
    by (cases "request_install env'' (take_status env' st s1)"; cases "fst (request_install env'' (take_status env' st s1))")
      (auto split: sum.splits reply.splits)
  with report(2,3) show ?thesis
    by (simp add: s2 Let_def status_state_def)
qed


text \<open>A sample launcher: a staged candidate with the error of a cancelled install.\<close>

definition sample_status :: update_status where
  "sample_status = empty_status\<lparr>us_state := Some Staged,
     us_last_error := Some \<lparr>le_code = ''update_busy'', le_message = ''cancelled''\<rparr>\<rparr>"

definition sample_env :: env where
  "sample_env = \<lparr>r_status = Inr sample_status,
     r_check = Inl (update_error_new UpdateBusy []), r_download = Inl (update_error_new UpdateBusy []),
     r_rollback = Inl (update_error_new UpdateBusy []),
     r_prepare = Inl (update_error_new UpdateBusy []),
     now_text = ''2026-01-01T00:00:00Z'', now_ms = 1000,
     idle = \<lparr>active_runs = 0, viewers = 0, update_transactions = 0, next_cron_secs = None\<rparr>,
     guard_check = Some True, marker_io = Inr ()\<rparr>"

definition sample_service :: update_service where
  "sample_service = \<lparr>apply_requested = False, apply_file = None, managed = True, txn = False,
     svc_barrier = \<lparr>paused = False, active = 0\<rparr>,
     cache = \<lparr>c_status = empty_status, c_updated_at = None, c_last_refresh = None\<rparr>,
     policy = \<lparr>current = default_policy, persisted = None\<rparr>, audit = []\<rparr>"

lemmas sample_defs = sample_status_def sample_env_def sample_service_def empty_status_def

theorem settled_report_frees_pending_install_witness:
  "\<exists>b s1. request_install sample_env sample_service = (Reply (Inr b), s1)
     \<and> (let s2 = snd (status_body (sample_env\<lparr>now_ms := 2000\<rparr>) s1) in
          \<not> txn s2 \<and> \<not> paused (svc_barrier s2) \<and> cached_state s2 = Staged
          \<and> (\<exists>b' s3. request_install sample_env s2 = (Reply (Inr b'), s3)))"
proof -
  have st: "r_status sample_env = Inr sample_status" "settles sample_status"
    "us_state sample_status = Some Staged"
    by (simp_all add: sample_defs settles_def)
  define s1 where "s1 = snd (request_install sample_env sample_service)"
  have first: "\<exists>b. request_install sample_env sample_service = (Reply (Inr b), s1)"
    and rest: "\<not> throttled (sample_env\<lparr>now_ms := 2000\<rparr>) s1" "active (svc_barrier s1) = 0"
      "gate_clear (sample_env\<lparr>now_ms := 2000\<rparr>) s1" "gate_clear sample_env s1"
    unfolding s1_def
    by (simp_all add: sample_defs request_install_cases install_gate_def install_blockings_def
        cron_in_freeze_def status_state_def try_begin_def run_guard_def freeze_if_idle_def
        throttled_def STATUS_REFRESH_THROTTLE_def gate_clear_def add_audit_def
        enter_installing_def take_status_def Let_def settles_def txn_end_def barrier_resume_def
        resume_def default_policy_def)
  from first obtain b where b: "request_install sample_env sample_service = (Reply (Inr b), s1)" ..
  have "r_status (sample_env\<lparr>now_ms := 2000\<rparr>) = Inr sample_status"
    using st(1) by (simp add: sample_env_def)
  moreover have "guard_check sample_env = Some True" by (simp add: sample_env_def)
  ultimately show ?thesis
    using settled_report_frees_pending_install
      [OF b _ st(2,3) rest(1) rest(3) st(1) rest(4) _ rest(2)] b by blast
qed

text \<open>
  Without a reservation by the user, only the automatic strategy installs: a tick
  that reports an install had it enabled, was inside the maintenance window with a
  staged or waiting candidate, and found no run, viewer, transaction or near trigger;
  and under any other strategy a tick starts no install at all.
\<close>

theorem tick_installs_only_in_idle_window:
  assumes "coordinator_tick env0 env minutes c = (t, c')" "\<not> apply_requested (service c)"
  defines "p \<equiv> current (policy (service c))"
  shows "(if t = TickInstall
     then strategy p = Auto \<and> in_maintenance_window p minutes
        \<and> auto_install_ready (idle env0) (in_maintenance_window p minutes) (freeze_minutes p)
        \<and> cached_state (service c') = Installing
     else audit (service c') = audit (service c))"
proof -
  obtain r s0 where r: "refresh_state env0 (service c) = (r, s0)" by fastforce
  then have s0: "\<not> apply_requested s0" "audit s0 = audit (service c)"
    using assms(2) by (auto simp: refresh_state_def refresh_True split: sum.splits)
  let ?state = "case r of Inr st \<Rightarrow> st | Inl _ \<Rightarrow> cached_state s0"
  let ?d = "decide (strategy p) (in_maintenance_window p minutes) ?state (idle env0)
      (freeze_minutes p)"
  note tick = assms(1) [unfolded coordinator_tick_def, folded p_def, unfolded r Let_def split_conv]
  show ?thesis
  proof (cases ?d)
    case TickInstall
    then have d: "strategy p = Auto" "auto_install_ready (idle env0) (in_maintenance_window p minutes)
        (freeze_minutes p)"
      using decide_Install_iff by auto
    obtain rep s1 where i: "request_install env s0 = (rep, s1)" by fastforce
    have "if is_accepted rep then cached_state s1 = Installing else audit s1 = audit s0"
      using request_install_spec [where env = env and s = s0] i
      by (auto simp: is_accepted_def after_refresh_def refresh_True
          split: reply.splits sum.splits)
    with tick s0 TickInstall i d show ?thesis
      by (auto simp: auto_install_ready_def split: if_splits)
  next
    case TickCheck
    with tick s0 show ?thesis
      using request_long_op_audit [of OpCheck env s0]
      by (auto simp: request_check_def split: if_splits)
  next
    case TickDownload
    with tick s0 show ?thesis
      using request_long_op_audit [of OpDownload env s0]
      by (auto simp: request_download_def split: if_splits)
  qed (use tick s0 in \<open>auto split: if_splits\<close>)
qed

theorem tick_installs_only_in_idle_window_witness:
  "\<exists>t c'. coordinator_tick sample_env sample_env 0
       \<lparr>service = sample_service, last_check = None\<rparr> = (t, c') \<and> t \<noteq> TickInstall
     \<and> audit (service c') = []"
proof -
  obtain t c' where c: "coordinator_tick sample_env sample_env 0
      \<lparr>service = sample_service, last_check = None\<rparr> = (t, c')" by fastforce
  have "\<not> apply_requested (service \<lparr>service = sample_service, last_check = None\<rparr>)"
    by (simp add: sample_service_def)
  from tick_installs_only_in_idle_window [OF c this] have "t \<noteq> TickInstall \<and> audit (service c') = []"
    by (simp add: sample_service_def default_policy_def split: if_splits)
  with c show ?thesis by blast
qed

section \<open>Interleaved transactions\<close>

text \<open>
  The accesses of concurrent requests to the transaction flag, one atomic operation at a
  time: \<^verbatim>\<open>try_begin\<close>, and the \<^verbatim>\<open>end\<close> calls. A successful rollback ends once, a failed
  one ends twice (the error branch of \<^verbatim>\<open>request_rollback\<close> and the line below it), a
  rejected install once, an accepted one keeps the flag.
\<close>

datatype txn_pc = Outside | RollbackRunning | RollbackFailed | RollbackEnding | InstallHolds

record txn_sys =
  flag :: bool
  pc :: "nat \<Rightarrow> txn_pc"

definition txn_init :: "txn_sys \<Rightarrow> bool" where
  "txn_init s \<longleftrightarrow> \<not> flag s \<and> pc s = (\<lambda>_. Outside)"

inductive txn_step :: "bool \<Rightarrow> txn_sys \<Rightarrow> txn_sys \<Rightarrow> bool" for failures :: bool where
  rollback_begin: "pc s t = Outside \<Longrightarrow> \<not> flag s \<Longrightarrow>
     txn_step failures s (s\<lparr>flag := True, pc := (pc s)(t := RollbackRunning)\<rparr>)"
| rollback_ok: "pc s t = RollbackRunning \<Longrightarrow>
     txn_step failures s (s\<lparr>pc := (pc s)(t := RollbackEnding)\<rparr>)"
| rollback_err: "failures \<Longrightarrow> pc s t = RollbackRunning \<Longrightarrow>
     txn_step failures s (s\<lparr>flag := False, pc := (pc s)(t := RollbackFailed)\<rparr>)"
| rollback_fall: "pc s t = RollbackFailed \<Longrightarrow>
     txn_step failures s (s\<lparr>pc := (pc s)(t := RollbackEnding)\<rparr>)"
| rollback_end: "pc s t = RollbackEnding \<Longrightarrow>
     txn_step failures s (s\<lparr>flag := False, pc := (pc s)(t := Outside)\<rparr>)"
| install_begin: "pc s t = Outside \<Longrightarrow> \<not> flag s \<Longrightarrow>
     txn_step failures s (s\<lparr>flag := True, pc := (pc s)(t := InstallHolds)\<rparr>)"
| install_end: "pc s t = InstallHolds \<Longrightarrow>
     txn_step failures s (s\<lparr>flag := False, pc := (pc s)(t := Outside)\<rparr>)"

text \<open>At most one request is inside, and the flag says so.\<close>

definition exclusive :: "txn_sys \<Rightarrow> bool" where
  "exclusive s \<longleftrightarrow>
     (\<forall>t. pc s t = Outside)
     \<or> (\<exists>h. flag s \<and> pc s h \<notin> {Outside, RollbackFailed} \<and> (\<forall>u. u \<noteq> h \<longrightarrow> pc s u = Outside))"

lemma exclusive_at: "exclusive s \<Longrightarrow> pc s t \<noteq> Outside \<Longrightarrow>
    flag s \<and> pc s t \<noteq> RollbackFailed \<and> (\<forall>u. u \<noteq> t \<longrightarrow> pc s u = Outside)"
  unfolding exclusive_def by (metis insertCI)

lemma exclusive_free: "exclusive s \<Longrightarrow> \<not> flag s \<Longrightarrow> pc s t = Outside"
  unfolding exclusive_def by auto

lemma exclusive_none: "(\<And>t. pc s t = Outside) \<Longrightarrow> exclusive s"
  by (simp add: exclusive_def)

lemma exclusive_one: "flag s \<Longrightarrow> pc s h \<noteq> Outside \<Longrightarrow> pc s h \<noteq> RollbackFailed \<Longrightarrow>
    (\<And>u. u \<noteq> h \<Longrightarrow> pc s u = Outside) \<Longrightarrow> exclusive s"
  unfolding exclusive_def by blast

lemma exclusive_step: "txn_step False s s' \<Longrightarrow> exclusive s \<Longrightarrow> exclusive s'"
proof (induction rule: txn_step.induct)
  case (rollback_begin s t)
  then show ?case by (intro exclusive_one [of _ t]) (simp_all add: exclusive_free)
next
  case (rollback_ok s t)
  then show ?case using exclusive_at [of s t] by (intro exclusive_one [of _ t]) simp_all
next
  case (rollback_fall s t)
  then show ?case using exclusive_at [of s t] by simp
next
  case (rollback_end s t)
  then show ?case using exclusive_at [of s t] by (intro exclusive_none) simp
next
  case (install_begin s t)
  then show ?case by (intro exclusive_one [of _ t]) (simp_all add: exclusive_free)
next
  case (install_end s t)
  then show ?case using exclusive_at [of s t] by (intro exclusive_none) simp
qed simp

interpretation txn_excl: guarded_system txn_init "txn_step False" exclusive
proof
  show "txn_init s \<Longrightarrow> exclusive s" for s
    by (simp add: txn_init_def exclusive_def)
qed (rule exclusive_step)

text \<open>
  The single-transaction gate is exclusive as long as no rollback request fails, and
  is not once one does: its second release can free the transaction of an install that
  began between the two, after which two installs hold it at once.
\<close>

theorem transaction_gate_exclusive_unless_rollback_fails:
  "{s. reach txn_init (txn_step False) s} \<subseteq> {s. exclusive s}
   \<and> (\<exists>s t u. reach txn_init (txn_step True) s \<and> t \<noteq> u
        \<and> pc s t = InstallHolds \<and> pc s u = InstallHolds)"
proof
  show "{s. reach txn_init (txn_step False) s} \<subseteq> {s. exclusive s}"
    using txn_excl.reach_inv by blast
next
  define s0 where "s0 = \<lparr>flag = False, pc = \<lambda>_. Outside\<rparr>"
  have "reach txn_init (txn_step True) s0"
    by (rule reach_init) (simp add: s0_def txn_init_def)
  note reach_step [OF this rollback_begin [where t = 0]]
  note reach_step [OF this rollback_err [where t = 0]]
  note reach_step [OF this rollback_fall [where t = 0]]
  note reach_step [OF this install_begin [where t = 1]]
  note reach_step [OF this rollback_end [where t = 0]]
  note reach_step [OF this install_begin [where t = 2]]
  then show "\<exists>s t u. reach txn_init (txn_step True) s \<and> t \<noteq> u
        \<and> pc s t = InstallHolds \<and> pc s u = InstallHolds"
    by (intro exI [of _ 1] exI [of _ 2] exI) (auto simp: s0_def)
qed

end
