(* ===== verification/Frames.thy ===== *)
theory Frames
  imports Json
begin

text \<open>
  The wire frames between server and updater (\<^verbatim>\<open>updater/src/ipc/frames.rs\<close>): the
  length-prefixed encoding, a reader over any chunking of the stream, and the strict
  parse of a request. Bytes are \<open>8 word\<close>, the prefix is a little-endian \<open>32 word\<close>.
\<close>

section \<open>Encoding\<close>

type_synonym bytes = "8 word list"

definition PROTOCOL_VERSION :: nat where "PROTOCOL_VERSION = 1"
definition MAX_FRAME_BYTES :: nat where "MAX_FRAME_BYTES = 1024 * 1024"
definition PREFIX_LEN :: nat where "PREFIX_LEN = 4"

datatype frame_error = Oversize nat | UnexpectedEof | IoError

definition to_le_bytes :: "32 word \<Rightarrow> bytes" where
  "to_le_bytes w = map (\<lambda>i. ucast (drop_bit (8 * i) w)) [0, 1, 2, 3]"

definition from_le_bytes :: "bytes \<Rightarrow> 32 word" where
  "from_le_bytes bs = foldr (\<lambda>b w. or (ucast b) (push_bit 8 w)) bs 0"

text \<open>\<^verbatim>\<open>u32::try_from(len).unwrap_or(u32::MAX)\<close>.\<close>

definition u32_saturating :: "nat \<Rightarrow> 32 word" where
  "u32_saturating n = (if n < 2 ^ 32 then word_of_nat n else - 1)"

definition encode_frame :: "bytes \<Rightarrow> bytes" where
  "encode_frame payload = to_le_bytes (u32_saturating (length payload)) @ payload"

definition encode_frame_limited :: "bytes \<Rightarrow> nat \<Rightarrow> (frame_error, bytes) result" where
  "encode_frame_limited payload mx =
     (if mx < length payload then Inl (Oversize (length payload))
      else Inr (encode_frame payload))"

section \<open>Reading\<close>

text \<open>
  A reader is the list of what its calls will deliver: a chunk of bytes, of which a call
  takes as many as its buffer holds, an interruption, or an error. An exhausted reader
  and an empty chunk are the end of the stream.
\<close>

datatype read_event = Chunk bytes | Interrupted | ReadError

type_synonym reader = "read_event list"

definition event_size :: "read_event \<Rightarrow> nat" where
  "event_size e = (case e of Chunk bs \<Rightarrow> Suc (length bs) | _ \<Rightarrow> 1)"

text \<open>
  The loop of \<^verbatim>\<open>read_exact_or_eof\<close>, also that of \<^verbatim>\<open>read_exact\<close>, for \<open>n\<close>
  more bytes: what was read (or the error) and the reader left.
\<close>

function read_exact_or_eof :: "nat \<Rightarrow> reader \<Rightarrow> (frame_error, bytes) result \<times> reader" where
  "read_exact_or_eof n r =
     (if n = 0 then (Inr [], r)
      else case r of
          [] \<Rightarrow> (Inl UnexpectedEof, [])
        | Interrupted # r' \<Rightarrow> read_exact_or_eof n r'
        | ReadError # r' \<Rightarrow> (Inl IoError, r')
        | Chunk bs # r' \<Rightarrow>
            if bs = [] then (Inl UnexpectedEof, r')
            else if length bs \<le> n then
              (case read_exact_or_eof (n - length bs) r' of
                 (Inr cs, r'') \<Rightarrow> (Inr (bs @ cs), r'')
               | (Inl e, r'') \<Rightarrow> (Inl e, r''))
            else (Inr (take n bs), Chunk (drop n bs) # r'))"
  by pat_completeness auto
termination
  by (relation "measure (\<lambda>(n, r). sum_list (map event_size r))") (auto simp: event_size_def)

declare read_exact_or_eof.simps [simp del]

text \<open>The payload's \<^verbatim>\<open>read_exact\<close> reports its end of stream as an I/O error.\<close>

definition read_frame_sync :: "nat \<Rightarrow> reader \<Rightarrow> (frame_error, bytes) result \<times> reader" where
  "read_frame_sync mx r =
     (case read_exact_or_eof PREFIX_LEN r of
        (Inl e, r1) \<Rightarrow> (Inl e, r1)
      | (Inr prefix, r1) \<Rightarrow>
          let len = unat (from_le_bytes prefix)
          in if mx < len then (Inl (Oversize len), r1)
             else case read_exact_or_eof len r1 of
                 (Inl _, r2) \<Rightarrow> (Inl IoError, r2)
               | (Inr payload, r2) \<Rightarrow> (Inr payload, r2))"

section \<open>Requests\<close>

datatype dependency = Adb | Ffmpeg

fun dependency_as_str :: "dependency \<Rightarrow> string" where
  "dependency_as_str Adb = ''adb''"
| "dependency_as_str Ffmpeg = ''ffmpeg''"

datatype operation =
  Status | Check | Download | PrepareInstall | Rollback | RepairDependency dependency

fun operation_as_str :: "operation \<Rightarrow> string" where
  "operation_as_str Status = ''status''"
| "operation_as_str Check = ''check''"
| "operation_as_str Download = ''download''"
| "operation_as_str PrepareInstall = ''prepare_install''"
| "operation_as_str Rollback = ''rollback''"
| "operation_as_str (RepairDependency _) = ''repair_dependency''"

definition parse_operation :: "string \<Rightarrow> operation option" where
  "parse_operation name =
     (if name = ''status'' then Some Status
      else if name = ''check'' then Some Check
      else if name = ''download'' then Some Download
      else if name = ''prepare_install'' then Some PrepareInstall
      else if name = ''rollback'' then Some Rollback
      else if name = ''repair_dependency'' then Some (RepairDependency Adb)
      else None)"

definition is_empty_object :: "json \<Rightarrow> bool" where
  "is_empty_object v = (case as_object v of Some m \<Rightarrow> m = [] | None \<Rightarrow> False)"

definition parse_dependency :: "string \<Rightarrow> dependency option" where
  "parse_dependency name =
     (if name = ''adb'' then Some Adb
      else if name = ''ffmpeg'' then Some Ffmpeg
      else None)"

text \<open>
  \<^verbatim>\<open>DependencyPayload\<close>: the derived deserialisation takes an object with exactly that
  field, or an array of exactly one string.
\<close>

fun dependency_payload :: "json \<Rightarrow> string option" where
  "dependency_payload (JObject [(k, JString s)]) = (if k = ''dependency'' then Some s else None)"
| "dependency_payload (JArray [JString s]) = Some s"
| "dependency_payload _ = None"

datatype protocol_error =
  UnsupportedProtocolVersion | UnknownOperation | InvalidPayload | Unauthorized

fun protocol_code :: "protocol_error \<Rightarrow> string" where
  "protocol_code UnsupportedProtocolVersion = ''unsupported_protocol_version''"
| "protocol_code UnknownOperation = ''unknown_operation''"
| "protocol_code InvalidPayload = ''invalid_payload''"
| "protocol_code Unauthorized = ''unauthorized''"

fun protocol_message :: "protocol_error \<Rightarrow> string" where
  "protocol_message UnsupportedProtocolVersion = utf8
    [228, 184, 141, 230, 148, 175, 230, 140, 129, 231, 154, 132, 32, 73, 80, 67, 32, 229,
     141, 143, 232, 174, 174, 231, 137, 136, 230, 156, 172, 239, 188, 140, 230, 156, 172, 32,
     108, 97, 117, 110, 99, 104, 101, 114, 32, 228, 187, 133, 230, 148, 175, 230, 140, 129,
     32, 112, 114, 111, 116, 111, 99, 111, 108, 95, 118, 101, 114, 115, 105, 111, 110, 61, 49]"
| "protocol_message UnknownOperation = utf8
    [230, 156, 170, 231, 159, 165, 230, 147, 141, 228, 189, 156, 239, 188, 140, 230, 142,
     165, 229, 143, 151, 231, 154, 132, 230, 147, 141, 228, 189, 156, 230, 158, 154, 228,
     184, 190, 228, 184, 186, 32, 115, 116, 97, 116, 117, 115, 47, 99, 104, 101, 99, 107, 47,
     100, 111, 119, 110, 108, 111, 97, 100, 47, 112, 114, 101, 112, 97, 114, 101, 95, 105,
     110, 115, 116, 97, 108, 108, 47, 114, 111, 108, 108, 98, 97, 99, 107, 47, 114, 101, 112,
     97, 105, 114, 95, 100, 101, 112, 101, 110, 100, 101, 110, 99, 121]"
| "protocol_message InvalidPayload = utf8
    [112, 97, 121, 108, 111, 97, 100, 32, 228, 184, 141, 231, 172, 166, 229, 144, 136, 232,
     175, 165, 230, 147, 141, 228, 189, 156, 231, 154, 132, 229, 165, 145, 231, 186, 166,
     239, 188, 140, 229, 183, 178, 230, 139, 146, 231, 187, 157]"
| "protocol_message Unauthorized = utf8
    [73, 80, 67, 32, 228, 188, 154, 232, 175, 157, 228, 187, 164, 231, 137, 140, 230, 160,
     161, 233, 170, 140, 229, 164, 177, 232, 180, 165, 239, 188, 140, 232, 191, 158, 230,
     142, 165, 229, 183, 178, 230, 139, 146, 231, 187, 157]"

definition must_disconnect :: "protocol_error \<Rightarrow> bool" where
  "must_disconnect e \<longleftrightarrow> e = UnsupportedProtocolVersion \<or> e = Unauthorized"

record request_frame =
  request_id :: string
  auth :: string
  operation :: operation

definition request_fields :: "string list" where
  "request_fields =
     [''protocol_version'', ''request_id'', ''auth'', ''operation'', ''payload'']"

definition get_str :: "string \<Rightarrow> json \<Rightarrow> string" where
  "get_str k v = (case Option.bind (json_get k v) as_str of Some s \<Rightarrow> s | None \<Rightarrow> [])"

definition usable_id :: "string \<Rightarrow> string" where
  "usable_id i = (if i = [] \<or> 64 < chars_count i then [] else i)"

definition request_operation :: "operation \<Rightarrow> json \<Rightarrow> operation option" where
  "request_operation base payload =
     (case base of
        RepairDependency Adb \<Rightarrow>
          map_option RepairDependency (Option.bind (dependency_payload payload) parse_dependency)
      | other \<Rightarrow> if is_empty_object payload then Some other else None)"

text \<open>The parse of the JSON text is the argument \<open>json_of\<close>.\<close>

definition parse_request ::
  "(bytes \<Rightarrow> json option) \<Rightarrow> bytes \<Rightarrow> string \<Rightarrow> (protocol_error \<times> string, request_frame) result"
where
  "parse_request json_of payload expected_token =
     (case json_of payload of
        None \<Rightarrow> Inl (InvalidPayload, [])
      | Some v \<Rightarrow>
          (case as_object v of
             None \<Rightarrow> Inl (InvalidPayload, [])
           | Some fs \<Rightarrow>
               if length fs \<noteq> length request_fields
                  \<or> (\<exists>f \<in> set fs. fst f \<notin> set request_fields)
               then Inl (InvalidPayload, usable_id (get_str ''request_id'' v))
               else
                 let rid = usable_id (get_str ''request_id'' v);
                     token = get_str ''auth'' v
                 in if Option.bind (json_get ''protocol_version'' v) as_u64
                       \<noteq> Some PROTOCOL_VERSION
                    then Inl (UnsupportedProtocolVersion, rid)
                    else if expected_token = [] \<or> token = [] \<or> token \<noteq> expected_token
                    then Inl (Unauthorized, [])
                    else case parse_operation (get_str ''operation'' v) of
                        None \<Rightarrow> Inl (UnknownOperation, rid)
                      | Some base \<Rightarrow>
                          (case json_get ''payload'' v of
                             None \<Rightarrow> Inl (InvalidPayload, rid)
                           | Some p \<Rightarrow>
                               (case request_operation base p of
                                  None \<Rightarrow> Inl (InvalidPayload, rid)
                                | Some op \<Rightarrow>
                                    if rid = [] then Inl (InvalidPayload, [])
                                    else Inr \<lparr>request_id = rid, auth = token, operation = op\<rparr>))))"

section \<open>Replies\<close>

definition success_frame :: "string \<Rightarrow> json \<Rightarrow> json" where
  "success_frame rid res = json_object
     [(''protocol_version'', JNumber (PosInt PROTOCOL_VERSION)),
      (''request_id'', JString rid),
      (''ok'', JBool True),
      (''result'', res)]"

definition error_frame :: "string \<Rightarrow> string \<Rightarrow> string \<Rightarrow> json" where
  "error_frame rid c m = json_object
     [(''protocol_version'', JNumber (PosInt PROTOCOL_VERSION)),
      (''request_id'', JString rid),
      (''ok'', JBool False),
      (''code'', JString c),
      (''message'', JString m)]"

text \<open>The set of request ids seen on a connection.\<close>

definition check_request_id_unique ::
  "string list \<Rightarrow> string \<Rightarrow> (protocol_error, unit) result \<times> string list" where
  "check_request_id_unique seen rid =
     (if rid \<in> set seen then (Inl InvalidPayload, seen) else (Inr (), rid # seen))"

section \<open>Properties of the encoding\<close>

lemma from_to_le_bytes [simp]: "from_le_bytes (to_le_bytes w) = w"
proof (rule bit_word_eqI)
  fix n assume "n < LENGTH(32)"
  then show "bit (from_le_bytes (to_le_bytes w)) n \<longleftrightarrow> bit w n"
    by (cases "24 \<le> n"; cases "16 \<le> n"; cases "8 \<le> n")
      (auto simp: from_le_bytes_def to_le_bytes_def bit_simps)
qed

lemma length_to_le_bytes [simp]: "length (to_le_bytes w) = PREFIX_LEN"
  by (simp add: to_le_bytes_def PREFIX_LEN_def)

lemma unat_u32_saturating: "n < 2 ^ 32 \<Longrightarrow> unat (u32_saturating n) = n"
  by (simp add: u32_saturating_def unat_of_nat take_bit_nat_eq_self)

text \<open>A reader that meets no error and no early end, and the bytes it delivers.\<close>

fun healthy :: "reader \<Rightarrow> bool" where
  "healthy [] = True"
| "healthy (Chunk bs # r) \<longleftrightarrow> bs \<noteq> [] \<and> healthy r"
| "healthy (Interrupted # r) = healthy r"
| "healthy (ReadError # r) = False"

fun stream_of :: "reader \<Rightarrow> bytes" where
  "stream_of [] = []"
| "stream_of (Chunk bs # r) = bs @ stream_of r"
| "stream_of (_ # r) = stream_of r"

lemma read_exact_healthy:
  assumes "healthy r" "n \<le> length (stream_of r)"
  shows "\<exists>r'. read_exact_or_eof n r = (Inr (take n (stream_of r)), r')
     \<and> healthy r' \<and> stream_of r' = drop n (stream_of r)"
  using assms
proof (induction n r rule: read_exact_or_eof.induct)
  case (1 n r)
  show ?case
  proof (cases "n = 0")
    case True
    with "1.prems" show ?thesis by (simp add: read_exact_or_eof.simps)
  next
    case n: False
    with "1.prems" obtain e r1 where r: "r = e # r1" by (cases r) auto
    show ?thesis
    proof (cases e)
      case (Chunk bs)
      with "1.prems" r have bs: "bs \<noteq> []" "healthy r1" by auto
      show ?thesis
      proof (cases "length bs \<le> n")
        case True
        have "n - length bs \<le> length (stream_of r1)" using "1.prems" r Chunk by simp
        from "1.IH" (1) [OF n r Chunk bs(1) True bs(2) this]
        obtain r' where "read_exact_or_eof (n - length bs) r1
            = (Inr (take (n - length bs) (stream_of r1)), r')" "healthy r'"
          "stream_of r' = drop (n - length bs) (stream_of r1)" by auto
        with n r Chunk bs True show ?thesis
          by (simp add: read_exact_or_eof.simps [of n])
      next
        case False
        with n r Chunk bs show ?thesis by (simp add: read_exact_or_eof.simps [of n])
      qed
    next
      case Interrupted
      from "1.IH" (2) [OF n r Interrupted] "1.prems" r Interrupted show ?thesis
        using n by (auto simp: read_exact_or_eof.simps [of n])
    next
      case ReadError
      with "1.prems" r show ?thesis by simp
    qed
  qed
qed

text \<open>
  C38. The frame survives the wire: however the stream is cut into reads and interrupted,
  reading it gives back the payload and leaves what follows; a frame above the limit is
  refused after its prefix, with its payload unread.
\<close>

theorem frame_roundtrip:
  assumes "healthy r" "stream_of r = encode_frame payload @ rest" "length payload < 2 ^ 32"
  shows "\<exists>r'. healthy r' \<and> read_frame_sync mx r =
      (if length payload \<le> mx then (Inr payload, r') else (Inl (Oversize (length payload)), r'))
    \<and> stream_of r' = (if length payload \<le> mx then rest else payload @ rest)"
proof -
  let ?p = "to_le_bytes (u32_saturating (length payload))"
  have s: "stream_of r = ?p @ payload @ rest" using assms(2) by (simp add: encode_frame_def)
  then obtain r1 where r1: "read_exact_or_eof PREFIX_LEN r = (Inr ?p, r1)" "healthy r1"
      "stream_of r1 = payload @ rest"
    using read_exact_healthy [OF assms(1), of PREFIX_LEN] by auto
  have len: "unat (from_le_bytes ?p) = length payload"
    using assms(3) by (simp add: unat_u32_saturating)
  show ?thesis
  proof (cases "length payload \<le> mx")
    case True
    obtain r2 where "read_exact_or_eof (length payload) r1 = (Inr payload, r2)" "healthy r2"
        "stream_of r2 = rest"
      using read_exact_healthy [OF r1(2), of "length payload"] r1(3) by auto
    with r1 len True show ?thesis
      by (auto simp: read_frame_sync_def Let_def simp del: from_to_le_bytes)
  next
    case False
    with r1 len show ?thesis
      by (auto simp: read_frame_sync_def Let_def simp del: from_to_le_bytes)
  qed
qed

theorem frame_roundtrip_witness:
  "\<exists>r'. healthy r' \<and> read_frame_sync 2
      [Chunk [3, 0], Interrupted, Chunk [0, 0, 7], Chunk [8, 9, 1]] = (Inl (Oversize 3), r')
    \<and> stream_of r' = [7, 8, 9, 1]"
proof -
  let ?r = "[Chunk [3, 0], Interrupted, Chunk [0, 0, 7], Chunk [8, 9, 1]]"
  have "stream_of ?r = encode_frame [7, 8, 9] @ [1]"
    by (simp add: encode_frame_def to_le_bytes_def u32_saturating_def drop_bit_eq_div)
  from frame_roundtrip [OF _ this, of 2] show ?thesis by (simp add: numeral_3_eq_3)
qed

section \<open>Properties of requests\<close>

text \<open>
  What makes a request: the object has exactly the five fields, the version is the one
  supported, the token is the session's non-empty token, the request id is non-empty and
  at most sixty-four characters long, and the payload fits the operation. Nothing else is
  accepted.
\<close>

theorem parse_request_accepts_iff:
  "parse_request json_of payload tok = Inr f \<longleftrightarrow>
     (\<exists>m p base. json_of payload = Some (JObject m)
        \<and> length m = 5 \<and> fst ` set m \<subseteq> set request_fields
        \<and> Option.bind (map_of m ''protocol_version'') as_u64 = Some PROTOCOL_VERSION
        \<and> tok \<noteq> [] \<and> get_str ''auth'' (JObject m) = tok \<and> auth f = tok
        \<and> get_str ''request_id'' (JObject m) = request_id f
        \<and> request_id f \<noteq> [] \<and> chars_count (request_id f) \<le> 64
        \<and> parse_operation (get_str ''operation'' (JObject m)) = Some base
        \<and> map_of m ''payload'' = Some p
        \<and> request_operation base p = Some (operation f))"
  (is "?lhs \<longleftrightarrow> ?rhs")
proof
  assume ?lhs
  then show ?rhs
    by (cases f; cases "json_of payload"; cases "the (json_of payload)")
      (auto simp: parse_request_def usable_id_def Let_def request_fields_def
        split: option.splits if_splits)
next
  assume ?rhs
  then show ?lhs
    by (cases f)
      (auto simp: parse_request_def usable_id_def Let_def request_fields_def subset_iff)
qed

lemma parse_request_unauthorized:
  "parse_request json_of payload tok = Inl (Unauthorized, i) \<Longrightarrow> i = []"
  by (auto simp: parse_request_def Let_def split: option.splits if_splits)

end
