(* ===== verification/Journal.thy ===== *)
theory Journal
  imports RustStr
begin

text \<open>
  The updater's persistent state (\<^verbatim>\<open>updater/src/state/mod.rs\<close>): the version pointer
  \<^verbatim>\<open>current.json\<close>, the journal of the update state machine, and what a display
  derives from it (\<^verbatim>\<open>upgrade/mod.rs\<close>).
\<close>

section \<open>The journal\<close>

definition STATE_SCHEMA_VERSION :: nat where "STATE_SCHEMA_VERSION = 1"

datatype journal_state =
    Idle | Checking | Downloading | Verifying | Staged | WaitingIdle | Draining | Stopped
  | Snapshotting | SnapshotVerified | Migrating | Switched | CandidateStarting
  | CandidateReady | Activating | Committed | Cleaning | ManualRecoveryRequired

fun journal_state_as_str :: "journal_state \<Rightarrow> string" where
  "journal_state_as_str Idle = ''idle''"
| "journal_state_as_str Checking = ''checking''"
| "journal_state_as_str Downloading = ''downloading''"
| "journal_state_as_str Verifying = ''verifying''"
| "journal_state_as_str Staged = ''staged''"
| "journal_state_as_str WaitingIdle = ''waiting_idle''"
| "journal_state_as_str Draining = ''draining''"
| "journal_state_as_str Stopped = ''stopped''"
| "journal_state_as_str Snapshotting = ''snapshotting''"
| "journal_state_as_str SnapshotVerified = ''snapshot_verified''"
| "journal_state_as_str Migrating = ''migrating''"
| "journal_state_as_str Switched = ''switched''"
| "journal_state_as_str CandidateStarting = ''candidate_starting''"
| "journal_state_as_str CandidateReady = ''candidate_ready''"
| "journal_state_as_str Activating = ''activating''"
| "journal_state_as_str Committed = ''committed''"
| "journal_state_as_str Cleaning = ''cleaning''"
| "journal_state_as_str ManualRecoveryRequired = ''manual_recovery_required''"

record child_info =
  child_pid :: nat
  child_created_at :: "nat option"
  child_exe :: string

record snapshot_info =
  snap_id :: string
  snap_path :: string
  snap_file_count :: nat
  snap_total_bytes :: nat

text \<open>
  The business error codes shared by journal, frames and outcomes
  (\<^verbatim>\<open>upgrade::codes\<close>). The free text beside a code is not modelled.
\<close>

datatype business_code =
    UPDATE_NOT_MANAGED | UPDATE_BUSY | UPDATE_NOT_AVAILABLE | UPDATE_NOT_READY
  | MANIFEST_INVALID | ARTIFACT_INVALID | INSUFFICIENT_SPACE | SCHEMA_INCOMPATIBLE
  | UPDATER_UNAVAILABLE | ROLLBACK_UNAVAILABLE | MANUAL_RECOVERY_REQUIRED | UPDATER_TOO_OLD

fun business_code_str :: "business_code \<Rightarrow> string" where
  "business_code_str UPDATE_NOT_MANAGED = ''update_not_managed''"
| "business_code_str UPDATE_BUSY = ''update_busy''"
| "business_code_str UPDATE_NOT_AVAILABLE = ''update_not_available''"
| "business_code_str UPDATE_NOT_READY = ''update_not_ready''"
| "business_code_str MANIFEST_INVALID = ''manifest_invalid''"
| "business_code_str ARTIFACT_INVALID = ''artifact_invalid''"
| "business_code_str INSUFFICIENT_SPACE = ''insufficient_space''"
| "business_code_str SCHEMA_INCOMPATIBLE = ''schema_incompatible''"
| "business_code_str UPDATER_UNAVAILABLE = ''updater_unavailable''"
| "business_code_str ROLLBACK_UNAVAILABLE = ''rollback_unavailable''"
| "business_code_str MANUAL_RECOVERY_REQUIRED = ''manual_recovery_required''"
| "business_code_str UPDATER_TOO_OLD = ''updater-too-old''"

record journal =
  schema_version :: nat
  update_id :: "string option"
  state :: journal_state
  from_version :: "string option"
  to_version :: "string option"
  child :: "child_info option"
  current_version :: "string option"
  previous_version :: "string option"
  snapshot :: "snapshot_info option"
  data_schema_before :: "nat option"
  data_schema_after :: "nat option"
  last_step :: "string option"
  error :: "business_code option"
  updated_at :: "nat option"

definition default_journal :: journal where
  "default_journal = \<lparr>schema_version = STATE_SCHEMA_VERSION, update_id = None, state = Idle,
     from_version = None, to_version = None, child = None, current_version = None,
     previous_version = None, snapshot = None, data_schema_before = None,
     data_schema_after = None, last_step = None, error = None, updated_at = None\<rparr>"

section \<open>The files\<close>

text \<open>
  What reading a state file can find (\<^verbatim>\<open>LoadOutcome\<close>); a corrupted file is moved aside.
\<close>

datatype 'a load_outcome = Missing | Present 'a | Corrupted

record current_state =
  cur_schema :: nat
  cur_current :: string
  cur_previous :: "string option"

definition current_state_new :: "string \<Rightarrow> string option \<Rightarrow> current_state" where
  "current_state_new c p = \<lparr>cur_schema = STATE_SCHEMA_VERSION, cur_current = c, cur_previous = p\<rparr>"

record journal_load =
  loaded :: journal
  was_reset :: bool

text \<open>
  \<^verbatim>\<open>StateStore::load_journal\<close> and the file it leaves behind: a journal of another
  schema, like a corrupted one, is backed up and replaced by the default.
\<close>

definition load_journal_file :: "journal load_outcome \<Rightarrow> journal_load \<times> journal load_outcome" where
  "load_journal_file f =
     (case f of
        Present j \<Rightarrow>
          if schema_version j = STATE_SCHEMA_VERSION
          then (\<lparr>loaded = j, was_reset = False\<rparr>, f)
          else (\<lparr>loaded = default_journal, was_reset = True\<rparr>, Missing)
      | Missing \<Rightarrow> (\<lparr>loaded = default_journal, was_reset = False\<rparr>, Missing)
      | Corrupted \<Rightarrow> (\<lparr>loaded = default_journal, was_reset = True\<rparr>, Missing))"

section \<open>Display\<close>

definition display_state :: "journal \<Rightarrow> string" where
  "display_state j =
     (if state j = ManualRecoveryRequired then ''manual_recovery''
      else if last_step j = Some ''rolling_back'' then ''rolling_back''
      else case state j of
          Idle \<Rightarrow> if last_step j = Some ''failed'' then ''failed'' else ''idle''
        | Checking \<Rightarrow> if last_step j = Some ''checked'' then ''available'' else ''checking''
        | Downloading \<Rightarrow> ''downloading''
        | Verifying \<Rightarrow> ''downloading''
        | Staged \<Rightarrow> ''staged''
        | WaitingIdle \<Rightarrow> ''waiting''
        | Draining \<Rightarrow> ''installing''
        | Stopped \<Rightarrow> ''installing''
        | Snapshotting \<Rightarrow> ''installing''
        | SnapshotVerified \<Rightarrow> ''installing''
        | Migrating \<Rightarrow> ''installing''
        | Switched \<Rightarrow> ''installing''
        | CandidateStarting \<Rightarrow> ''restarting''
        | CandidateReady \<Rightarrow> ''restarting''
        | Activating \<Rightarrow> ''restarting''
        | Committed \<Rightarrow> ''idle''
        | Cleaning \<Rightarrow> ''idle''
        | ManualRecoveryRequired \<Rightarrow> ''manual_recovery'')"

definition display_detail :: "journal \<Rightarrow> string" where
  "display_detail j =
     (case last_step j of Some d \<Rightarrow> d | None \<Rightarrow> journal_state_as_str (state j))"

text \<open>Every display state the updater reports is one the server knows.\<close>

definition display_states :: "string list" where
  "display_states = [''idle'', ''checking'', ''available'', ''downloading'', ''staged'',
     ''waiting'', ''installing'', ''restarting'', ''failed'', ''rolling_back'',
     ''manual_recovery'']"

lemma display_state_known: "display_state j \<in> set display_states"
  by (cases "state j") (auto simp: display_state_def display_states_def)

lemma load_journal_file_Present [simp]:
  "schema_version j = STATE_SCHEMA_VERSION \<Longrightarrow>
   load_journal_file (Present j) = (\<lparr>loaded = j, was_reset = False\<rparr>, Present j)"
  by (simp add: load_journal_file_def)

end
