(* ===== verification/Dispatch.thy ===== *)
theory Dispatch
  imports Frames Journal
begin

text \<open>
  The updater's operation dispatcher (\<^verbatim>\<open>updater/src/ipc/dispatch.rs\<close>): admission
  against the journal, one operation at a time, the idempotency cache of replies, and the
  status snapshot. The journal as read, the instants and the outcome of starting the
  worker thread are arguments; the operations themselves are the engine's.
\<close>

section \<open>Messages\<close>

definition DESKTOP_BUSY_MESSAGE :: string where
  "DESKTOP_BUSY_MESSAGE = utf8
    [229, 144, 175, 229, 138, 168, 229, 153, 168, 230, 173, 163, 229, 156, 168, 229, 164,
     132, 231, 144, 134, 229, 174, 137, 232, 163, 133, 230, 136, 150, 230, 155, 180, 230,
     150, 176]"

definition ACTIVE_BUSY_MESSAGE :: string where
  "ACTIVE_BUSY_MESSAGE = utf8
    [229, 183, 178, 230, 156, 137, 229, 141, 135, 231, 186, 167, 47, 228, 191, 174, 229, 164,
     141, 228, 186, 139, 229, 138, 161, 232, 191, 155, 232, 161, 140, 228, 184, 173, 239,
     188, 140, 232, 175, 183, 228, 187, 165, 32, 115, 116, 97, 116, 117, 115, 32, 232, 189,
     174, 232, 175, 162, 229, 144, 142, 229, 134, 141, 232, 175, 149]"

definition MANUAL_MESSAGE :: string where
  "MANUAL_MESSAGE = utf8
    [229, 141, 135, 231, 186, 167, 228, 184, 142, 232, 135, 170, 229, 138, 168, 229, 155,
     158, 230, 187, 154, 229, 157, 135, 229, 164, 177, 232, 180, 165, 239, 188, 140, 229,
     183, 178, 229, 129, 156, 230, 173, 162, 232, 135, 170, 229, 138, 168, 233, 135, 141,
     232, 175, 149, 239, 188, 155, 232, 175, 183, 228, 186, 186, 229, 183, 165, 230, 129,
     162, 229, 164, 141]"

definition NOT_DOWNLOADED_MESSAGE :: string where
  "NOT_DOWNLOADED_MESSAGE = utf8
    [229, 128, 153, 233, 128, 137, 229, 176, 154, 230, 156, 170, 228, 184, 139, 232, 189,
     189, 229, 176, 177, 228, 189, 141, 239, 188, 136, 229, 133, 136, 32, 100, 111, 119, 110,
     108, 111, 97, 100, 239, 188, 137]"

definition NO_ROLLBACK_POINT_MESSAGE :: string where
  "NO_ROLLBACK_POINT_MESSAGE = utf8
    [230, 151, 160, 230, 156, 137, 230, 149, 136, 229, 155, 158, 230, 187, 154, 231, 130,
     185, 239, 188, 136, 230, 151, 160, 232, 191, 155, 232, 161, 140, 228, 184, 173, 228,
     186, 139, 229, 138, 161, 230, 136, 150, 230, 151, 160, 229, 183, 178, 233, 170, 140,
     232, 175, 129, 229, 191, 171, 231, 133, 167, 239, 188, 137]"

definition STATE_TEXT :: string where
  "STATE_TEXT = utf8
    [231, 138, 182, 230, 128, 129, 32]"

definition NO_CHECK_TEXT :: string where
  "NO_CHECK_TEXT = utf8
    [32, 228, 184, 173, 228, 184, 141, 230, 142, 165, 229, 143, 151, 32, 99, 104, 101, 99, 107]"

definition NO_DOWNLOAD_TEXT :: string where
  "NO_DOWNLOAD_TEXT = utf8
    [32, 230, 151, 160, 229, 143, 175, 228, 184, 139, 232, 189, 189, 229, 128, 153, 233, 128,
     137]"

definition NO_PREPARE_TEXT :: string where
  "NO_PREPARE_TEXT = utf8
    [32, 228, 184, 141, 230, 142, 165, 229, 143, 151, 32, 112, 114, 101, 112, 97, 114, 101,
     95, 105, 110, 115, 116, 97, 108, 108]"

definition NO_ROLLBACK_TEXT :: string where
  "NO_ROLLBACK_TEXT = utf8
    [32, 228, 184, 173, 228, 184, 141, 230, 142, 165, 229, 143, 151, 32, 114, 111, 108, 108,
     98, 97, 99, 107]"

definition JOURNAL_TEXT :: string where
  "JOURNAL_TEXT = utf8
    [232, 175, 187, 229, 143, 150, 32, 106, 111, 117, 114, 110, 97, 108, 32, 229, 164, 177,
     232, 180, 165, 58, 32]"

definition DESKTOP_MESSAGE :: string where
  "DESKTOP_MESSAGE = utf8
    [229, 143, 166, 228, 184, 128, 233, 161, 185, 229, 174, 137, 232, 163, 133, 230, 136,
     150, 230, 155, 180, 230, 150, 176, 230, 173, 163, 229, 156, 168, 230, 137, 167, 232,
     161, 140, 239, 188, 140, 232, 175, 183, 231, 168, 141, 229, 144, 142, 229, 134, 141,
     232, 175, 149]"

section \<open>Admission\<close>

record business_error =
  be_code :: business_code
  be_message :: string

definition business_error_new :: "business_code \<Rightarrow> string \<Rightarrow> business_error" where
  "business_error_new c m = \<lparr>be_code = c, be_message = m\<rparr>"

text \<open>Accepted, or a no-op answer; both carry the state shown and the update id.\<close>

datatype dispatch_admission =
    Accept string "string option"
  | NoOp string "string option"

text \<open>
  The match on the operation and the displayed state. \<^verbatim>\<open>Status\<close> is answered before
  admission: its arm is \<^verbatim>\<open>unreachable!\<close>, here \<open>None\<close>.
\<close>

definition admit_display ::
  "operation \<Rightarrow> string \<Rightarrow> string option \<Rightarrow> (business_error, dispatch_admission) result option" where
  "admit_display op d uid =
     (case op of
        Status \<Rightarrow> None
      | Check \<Rightarrow> Some
          (if d \<in> {''idle'', ''failed'', ''available'', ''staged'', ''waiting''}
           then Inr (Accept ''checking'' uid)
           else Inl (business_error_new UPDATE_BUSY (STATE_TEXT @ d @ NO_CHECK_TEXT)))
      | Download \<Rightarrow> Some
          (if d = ''available'' then Inr (Accept ''downloading'' uid)
           else if d = ''staged'' then Inr (NoOp ''staged'' uid)
           else Inl (business_error_new UPDATE_NOT_AVAILABLE (STATE_TEXT @ d @ NO_DOWNLOAD_TEXT)))
      | PrepareInstall \<Rightarrow> Some
          (if d = ''staged'' then Inr (Accept ''staged'' uid)
           else if d = ''available''
             then Inl (business_error_new UPDATE_NOT_READY NOT_DOWNLOADED_MESSAGE)
           else Inl (business_error_new UPDATE_BUSY (STATE_TEXT @ d @ NO_PREPARE_TEXT)))
      | Rollback \<Rightarrow> Some
          (if d \<in> {''staged'', ''waiting''} then Inr (Accept ''rolling_back'' uid)
           else if d \<in> {''installing'', ''restarting'', ''rolling_back''}
             then Inl (business_error_new UPDATE_BUSY (STATE_TEXT @ d @ NO_ROLLBACK_TEXT))
           else Inl (business_error_new ROLLBACK_UNAVAILABLE NO_ROLLBACK_POINT_MESSAGE))
      | RepairDependency _ \<Rightarrow> Some (Inr (Accept d None)))"

definition dispatcher_admit ::
  "(string, journal) result \<Rightarrow> operation \<Rightarrow> (business_error, dispatch_admission) result option" where
  "dispatcher_admit jr op =
     (case jr of
        Inl e \<Rightarrow> Some (Inl (business_error_new UPDATER_UNAVAILABLE (JOURNAL_TEXT @ e)))
      | Inr j \<Rightarrow>
          if state j = ManualRecoveryRequired
          then Some (Inl (business_error_new MANUAL_RECOVERY_REQUIRED MANUAL_MESSAGE))
          else admit_display op (display_state j) (update_id j))"

section \<open>The dispatcher\<close>

definition DEDUP_WINDOW :: nat where "DEDUP_WINDOW = 600000"

record active_op =
  ao_op :: operation
  ao_result :: json

record cached_reply =
  cr_frame :: json
  cr_expires :: nat

record dispatcher =
  desktop_active :: bool
  active :: "active_op option"
  replies :: "string \<rightharpoonup> cached_reply"

record dispatch_reply =
  rp_frame :: json
  rp_disconnect :: bool

definition begin_desktop :: "dispatcher \<Rightarrow> (string, unit) result \<times> dispatcher" where
  "begin_desktop d =
     (if active d \<noteq> None \<or> desktop_active d then (Inl DESKTOP_MESSAGE, d)
      else (Inr (), d\<lparr>desktop_active := True\<rparr>))"

definition drop_desktop :: "dispatcher \<Rightarrow> dispatcher" where
  "drop_desktop d = d\<lparr>desktop_active := False\<rparr>"

definition accepted_result :: "operation \<Rightarrow> string \<Rightarrow> string option \<Rightarrow> json" where
  "accepted_result op st uid = json_object
     [(''accepted'', JBool True),
      (''operation'', JString (operation_as_str op)),
      (''update_id'', json_opt_str uid),
      (''state'', JString st)]"

definition expire :: "nat \<Rightarrow> (string \<rightharpoonup> cached_reply) \<Rightarrow> (string \<rightharpoonup> cached_reply)" where
  "expire now c =
     (\<lambda>k. case c k of Some r \<Rightarrow> if now < cr_expires r then Some r else None | None \<Rightarrow> None)"

definition cache_reply :: "string \<Rightarrow> json \<Rightarrow> nat \<Rightarrow> dispatcher \<Rightarrow> dispatcher" where
  "cache_reply rid f now d =
     d\<lparr>replies := (replies d)(rid \<mapsto> \<lparr>cr_frame = f, cr_expires = now + DEDUP_WINDOW\<rparr>)\<rparr>"

definition clear_active :: "operation \<Rightarrow> dispatcher \<Rightarrow> dispatcher" where
  "clear_active op d =
     (case active d of
        Some a \<Rightarrow> if ao_op a = op then d\<lparr>active := None\<rparr> else d
      | None \<Rightarrow> d)"

text \<open>
  \<^verbatim>\<open>submit\<close>: the reply frame, the dispatcher, and the operation whose worker was
  started. \<open>now\<close> is the instant at entry, \<open>later\<close> the one when a reply is cached;
  the \<^verbatim>\<open>unreachable!\<close> of admission is \<open>None\<close>.
\<close>

definition submit ::
  "(string, journal) result \<Rightarrow> nat \<Rightarrow> nat \<Rightarrow> bool \<Rightarrow> string \<Rightarrow> operation \<Rightarrow> dispatcher
   \<Rightarrow> (json \<times> dispatcher \<times> operation option) option" where
  "submit jr now later spawn_ok rid op d0 =
     (if desktop_active d0
      then Some (error_frame rid (business_code_str UPDATE_BUSY) DESKTOP_BUSY_MESSAGE, d0, None)
      else
        let d = d0\<lparr>replies := expire now (replies d0)\<rparr>
        in case replies d rid of
            Some c \<Rightarrow> Some (cr_frame c, d, None)
          | None \<Rightarrow>
              (case active d of
                 Some a \<Rightarrow>
                   if ao_op a = op then Some (success_frame rid (ao_result a), d, None)
                   else
                     let f = error_frame rid (business_code_str UPDATE_BUSY) ACTIVE_BUSY_MESSAGE
                     in Some (f, cache_reply rid f later d, None)
               | None \<Rightarrow>
                   (case dispatcher_admit jr op of
                      None \<Rightarrow> None
                    | Some (Inr (Accept st uid)) \<Rightarrow>
                        let res = accepted_result op st uid;
                            f = success_frame rid res;
                            d1 = cache_reply rid f later (d\<lparr>active := Some \<lparr>ao_op = op, ao_result = res\<rparr>\<rparr>)
                        in if spawn_ok then Some (f, d1, Some op)
                           else Some (f, clear_active op d1, None)
                    | Some (Inr (NoOp st uid)) \<Rightarrow>
                        let f = success_frame rid (accepted_result op st uid)
                        in Some (f, cache_reply rid f later d, None)
                    | Some (Inl e) \<Rightarrow>
                        let f = error_frame rid (business_code_str (be_code e)) (be_message e)
                        in Some (f, cache_reply rid f later d, None))))"

text \<open>The end of \<^verbatim>\<open>run_long_op\<close>, whatever the engine did.\<close>

definition run_long_op_end :: "operation \<Rightarrow> dispatcher \<Rightarrow> dispatcher" where
  "run_long_op_end op d = clear_active op d"

text \<open>
  \<^verbatim>\<open>handle_with_seen\<close>: one request frame on a connection whose seen ids are \<open>seen\<close>;
  the status snapshot is an argument.
\<close>

definition handle_with_seen ::
  "(bytes \<Rightarrow> json option) \<Rightarrow> json \<Rightarrow> (string, journal) result \<Rightarrow> nat \<Rightarrow> nat \<Rightarrow> bool
   \<Rightarrow> bytes \<Rightarrow> string \<Rightarrow> string list \<Rightarrow> dispatcher
   \<Rightarrow> (dispatch_reply \<times> string list \<times> dispatcher \<times> operation option) option" where
  "handle_with_seen json_of status jr now later spawn_ok raw token seen d =
     (case parse_request json_of raw token of
        Inr r \<Rightarrow>
          (case check_request_id_unique seen (request_id r) of
             (Inl e, seen') \<Rightarrow>
               Some (\<lparr>rp_frame = error_frame (request_id r) (protocol_code e) (protocol_message e),
                      rp_disconnect = False\<rparr>, seen', d, None)
           | (Inr _, seen') \<Rightarrow>
               if operation r = Status
               then Some (\<lparr>rp_frame = success_frame (request_id r) status, rp_disconnect = False\<rparr>,
                          seen', d, None)
               else map_option
                      (\<lambda>(f, d', run). (\<lparr>rp_frame = f, rp_disconnect = False\<rparr>, seen', d', run))
                      (submit jr now later spawn_ok (request_id r) (operation r) d))
      | Inl (e, rid) \<Rightarrow>
          Some (\<lparr>rp_frame = error_frame rid (protocol_code e) (protocol_message e),
                 rp_disconnect = must_disconnect e\<rparr>, seen, d, None))"

section \<open>The status snapshot\<close>

definition u32_of_json :: "json option \<Rightarrow> nat option" where
  "u32_of_json v =
     (case Option.bind v as_u64 of
        Some n \<Rightarrow> if n < 2 ^ 32 then Some n else None
      | None \<Rightarrow> None)"

definition json_opt_nat :: "nat option \<Rightarrow> json" where
  "json_opt_nat n = (case n of Some k \<Rightarrow> JNumber (PosInt k) | None \<Rightarrow> JNull)"

definition or_null :: "json option \<Rightarrow> json" where
  "or_null v = (case v of Some w \<Rightarrow> w | None \<Rightarrow> JNull)"

definition option_or :: "'a option \<Rightarrow> 'a option \<Rightarrow> 'a option" where
  "option_or a b = (case a of Some x \<Rightarrow> Some x | None \<Rightarrow> b)"

text \<open>A dependency's directory name, when its executable was found under one.\<close>

definition dependency_status :: "string option option \<Rightarrow> json" where
  "dependency_status found =
     (case found of
        Some v \<Rightarrow> json_object [(''status'', JString ''ready''), (''version'', json_opt_str v)]
      | None \<Rightarrow> json_object [(''status'', JString ''missing''), (''version'', JNull)])"

text \<open>
  The files it reads are arguments: the pointer, the journal (the default one when it
  cannot be read), the cached manifests by version, and the two dependencies; so are the
  download progress and the text of the journal's error.
\<close>

definition candidate_block :: "(string \<Rightarrow> json option) \<Rightarrow> string option \<Rightarrow> json" where
  "candidate_block manifests v =
     (case v of
        None \<Rightarrow> JNull
      | Some ver \<Rightarrow>
          (case Option.bind (manifests ver) (json_get ''release'') of
             None \<Rightarrow> JNull
           | Some rel \<Rightarrow> json_object
               [(''version'', JString ver),
                (''channel'', or_null (json_get ''channel'' rel)),
                (''published_at'', or_null (json_get ''published_at'' rel))]))"

definition status_state_shown :: "operation option \<Rightarrow> journal \<Rightarrow> string" where
  "status_state_shown act j =
     (if act = Some PrepareInstall \<and> state j \<in> {Staged, WaitingIdle} then ''installing''
      else display_state j)"

definition status_result ::
  "string \<Rightarrow> string \<Rightarrow> current_state load_outcome \<Rightarrow> journal \<Rightarrow> (string \<Rightarrow> json option)
   \<Rightarrow> string option option \<Rightarrow> string option option \<Rightarrow> nat \<times> nat \<Rightarrow> string
   \<Rightarrow> operation option \<Rightarrow> json" where
  "status_result updater_version installation_id cur j manifests adb ffmpeg prog err_text act =
     (let current = (case cur of Present c \<Rightarrow> Some (cur_current c) | _ \<Rightarrow> None);
          previous = (case cur of Present c \<Rightarrow> cur_previous c | _ \<Rightarrow> None);
          release = Option.bind (Option.bind current manifests) (json_get ''release'');
          schema_db = option_or (data_schema_before j)
                        (u32_of_json (Option.bind release (json_get ''data_schema'')));
          floor = Option.bind (Option.bind release (json_get ''rollback_floor'')) as_u64;
          st = status_state_shown act j
      in json_object
        [(''updater_version'', JString updater_version),
         (''installation_id'', JString installation_id),
         (''protocol_version'', JNumber (PosInt PROTOCOL_VERSION)),
         (''versions'', json_object
            [(''current'', json_opt_str current), (''previous'', json_opt_str previous)]),
         (''schema'', json_object
            [(''db'', json_opt_nat schema_db), (''file'', JNumber (PosInt 1)),
             (''rollback_floor'', json_opt_nat floor)]),
         (''update'', json_object
            [(''state'', JString st),
             (''detail'', JString (display_detail j)),
             (''update_id'', json_opt_str (update_id j)),
             (''candidate'', candidate_block manifests (to_version j)),
             (''progress'',
                (if st = ''downloading''
                 then json_object [(''bytes_done'', JNumber (PosInt (fst prog))),
                                   (''bytes_total'', JNumber (PosInt (snd prog)))]
                 else JNull)),
             (''last_error'',
                (case error j of
                   Some c \<Rightarrow> json_object [(''code'', JString (business_code_str c)),
                                          (''message'', JString err_text)]
                 | None \<Rightarrow> JNull))]),
         (''dependencies'', json_object
            [(''adb'', dependency_status adb), (''ffmpeg'', dependency_status ffmpeg)])])"

section \<open>Properties\<close>

lemma dispatcher_admit_not_Status: "op \<noteq> Status \<Longrightarrow> dispatcher_admit jr op \<noteq> None"
  by (cases op) (auto simp: dispatcher_admit_def admit_display_def split: sum.splits)

lemma expire_Some: "expire now c k = Some r \<longleftrightarrow> c k = Some r \<and> now < cr_expires r"
  by (auto simp: expire_def split: option.splits if_splits)

lemma submit_cached:
  assumes "\<not> desktop_active d" "replies d rid = Some c" "now < cr_expires c"
  shows "\<exists>d'. submit jr now later ok rid op d = Some (cr_frame c, d', None)"
proof -
  have "expire now (replies d) rid = Some c" using assms by (simp add: expire_Some)
  with assms(1) show ?thesis by (simp add: submit_def Let_def)
qed

text \<open>A request that joins the operation under way, and is not itself cached.\<close>

definition joins :: "nat \<Rightarrow> string \<Rightarrow> operation \<Rightarrow> dispatcher \<Rightarrow> bool" where
  "joins now rid op d \<longleftrightarrow>
     expire now (replies d) rid = None \<and> (\<exists>a. active d = Some a \<and> ao_op a = op)"

lemma clear_active_fields [simp]:
  "replies (clear_active op d) = replies d"
  "desktop_active (clear_active op d) = desktop_active d"
  by (auto simp: clear_active_def split: option.splits)

lemma submit_caches:
  assumes "submit jr now later ok rid op d = Some (f, d', w)"
    "\<not> desktop_active d" "\<not> joins now rid op d"
  shows "\<exists>c. replies d' rid = Some c \<and> cr_frame c = f
     \<and> (cr_expires c = later + DEDUP_WINDOW \<or> replies d rid = Some c)"
proof (cases "expire now (replies d) rid")
  case (Some c)
  with assms show ?thesis by (auto simp: submit_def Let_def expire_Some)
next
  case None
  with assms show ?thesis
    by (auto simp: submit_def Let_def joins_def cache_reply_def
        split: option.splits sum.splits dispatch_admission.splits if_splits)
qed

text \<open>
  Retrying is idempotent: unless the request joined an operation already under way, a
  second submission of its id before the cached reply expires gets the same frame back
  and starts nothing, whatever the journal says and even for another operation.
\<close>

theorem resubmission_is_idempotent:
  assumes "submit jr now later ok rid op d = Some (f, d', w)"
    and "\<not> desktop_active d" "\<not> joins now rid op d"
    and "\<forall>c. replies d' rid = Some c \<longrightarrow> now' < cr_expires c" "\<not> desktop_active d'"
  shows "\<exists>d''. submit jr' now' later' ok' rid op' d' = Some (f, d'', None)"
proof -
  obtain c where c: "replies d' rid = Some c" "cr_frame c = f"
    using submit_caches [OF assms(1-3)] by blast
  with assms(4) have "now' < cr_expires c" by blast
  from submit_cached [OF assms(5) c(1) this] c(2) show ?thesis by simp
qed

definition idle_dispatcher :: dispatcher where
  "idle_dispatcher = \<lparr>desktop_active = False, active = None, replies = (\<lambda>_. None)\<rparr>"

lemmas submit_eval = submit_def Let_def idle_dispatcher_def expire_def cache_reply_def
  dispatcher_admit_def admit_display_def display_state_def default_journal_def
  DEDUP_WINDOW_def clear_active_def

theorem resubmission_is_idempotent_witness:
  "\<exists>f d' d''. submit (Inr default_journal) 0 1 True ''r1'' Check idle_dispatcher
        = Some (f, d', Some Check)
     \<and> submit (Inr default_journal) 5 6 True ''r1'' Rollback d' = Some (f, d'', None)"
proof -
  let ?r = "submit (Inr default_journal) 0 1 True ''r1'' Check idle_dispatcher"
  obtain f d' where s: "?r = Some (f, d', Some Check)"
      "\<forall>c. replies d' ''r1'' = Some c \<longrightarrow> 5 < cr_expires c" "\<not> desktop_active d'"
    by (simp add: submit_eval)
  have "\<not> desktop_active idle_dispatcher" "\<not> joins 0 ''r1'' Check idle_dispatcher"
    by (simp_all add: idle_dispatcher_def joins_def)
  from resubmission_is_idempotent [OF s(1) this s(2,3)] s(1) show ?thesis by blast
qed

text \<open>
  A request that joined is not remembered: once the operation it joined is over, the
  same request id starts a new one. The three submissions carry ids r1, r2, r2; the last
  is a mere retry, and starts a second check.
\<close>

theorem joined_request_restarts:
  "\<exists>f1 d1 f2 d2 f3 d3.
     submit (Inr default_journal) 0 0 True ''r1'' Check idle_dispatcher = Some (f1, d1, Some Check)
   \<and> submit (Inr default_journal) 1 1 True ''r2'' Check d1 = Some (f2, d2, None)
   \<and> submit (Inr default_journal) 2 2 True ''r2'' Check (run_long_op_end Check d2)
       = Some (f3, d3, Some Check)"
  by (simp add: submit_eval run_long_op_end_def)

section \<open>One operation at a time\<close>

text \<open>
  The dispatcher with its running workers. A worker's last step clears the active slot;
  a desktop operation begins and ends around it.
\<close>

record dispatch_sys =
  disp :: dispatcher
  workers :: "operation list"

definition dispatch_init :: "dispatch_sys \<Rightarrow> bool" where
  "dispatch_init s \<longleftrightarrow> disp s = idle_dispatcher \<and> workers s = []"

inductive dispatch_step :: "dispatch_sys \<Rightarrow> dispatch_sys \<Rightarrow> bool" where
  ds_submit: "submit jr now later ok rid op (disp s) = Some (f, d', w) \<Longrightarrow>
     dispatch_step s \<lparr>disp = d', workers = (case w of Some k \<Rightarrow> [k] | None \<Rightarrow> []) @ workers s\<rparr>"
| ds_finish: "workers s = xs @ op # ys \<Longrightarrow>
     dispatch_step s \<lparr>disp = run_long_op_end op (disp s), workers = xs @ ys\<rparr>"
| ds_desktop: "dispatch_step s (s\<lparr>disp := snd (begin_desktop (disp s))\<rparr>)"
| ds_drop: "dispatch_step s (s\<lparr>disp := drop_desktop (disp s)\<rparr>)"

inductive_cases dispatch_stepE: "dispatch_step s s'"

definition single_worker :: "dispatch_sys \<Rightarrow> bool" where
  "single_worker s \<longleftrightarrow>
     workers s = (case active (disp s) of Some a \<Rightarrow> [ao_op a] | None \<Rightarrow> [])
     \<and> \<not> (desktop_active (disp s) \<and> active (disp s) \<noteq> None)"

lemma submit_worker:
  assumes "submit jr now later ok rid op d = Some (f, d', w)"
  shows "desktop_active d' = desktop_active d
     \<and> (case w of
          None \<Rightarrow> active d' = active d
        | Some k \<Rightarrow> k = op \<and> \<not> desktop_active d \<and> active d = None
            \<and> (\<exists>a. active d' = Some a \<and> ao_op a = op))"
  using assms
  by (auto simp: submit_def Let_def cache_reply_def clear_active_def
      split: option.splits sum.splits dispatch_admission.splits if_splits)

lemma single_worker_step: "single_worker s \<Longrightarrow> dispatch_step s s' \<Longrightarrow> single_worker s'"
proof (erule dispatch_stepE)
  fix jr now later ok rid op f d' w
  assume inv: "single_worker s" and sub: "submit jr now later ok rid op (disp s) = Some (f, d', w)"
    and s': "s' = \<lparr>disp = d', workers = (case w of Some k \<Rightarrow> [k] | None \<Rightarrow> []) @ workers s\<rparr>"
  from submit_worker [OF sub] inv s' show "single_worker s'"
    by (cases w) (auto simp: single_worker_def)
next
  fix xs op ys
  assume inv: "single_worker s" and w: "workers s = xs @ op # ys"
    and s': "s' = \<lparr>disp = run_long_op_end op (disp s), workers = xs @ ys\<rparr>"
  then obtain a where "active (disp s) = Some a" "ao_op a = op" "xs = []" "ys = []"
    by (auto simp: single_worker_def append_eq_Cons_conv split: option.splits)
  with inv s' show "single_worker s'"
    by (simp add: single_worker_def run_long_op_end_def clear_active_def)
qed (auto simp: single_worker_def begin_desktop_def drop_desktop_def split: option.splits)

interpretation dispatch: guarded_system dispatch_init dispatch_step single_worker
proof
  show "dispatch_init s \<Longrightarrow> single_worker s" for s
    by (simp add: dispatch_init_def single_worker_def idle_dispatcher_def)
qed (rule single_worker_step)

text \<open>
  C18. Whatever requests, retries and desktop operations arrive in whatever order, at most
  one worker runs, it is the operation in the active slot, and none runs during a desktop
  operation. In particular a request while one is under way starts nothing.
\<close>

theorem dispatcher_runs_one_operation:
  assumes "reach dispatch_init dispatch_step s"
  shows "length (workers s) \<le> 1 \<and> single_worker s
     \<and> (workers s = [] \<or> \<not> desktop_active (disp s))"
  using dispatch.reach_inv [OF assms] by (auto simp: single_worker_def split: option.splits)

theorem dispatcher_runs_one_operation_witness:
  "\<exists>f d'. submit (Inr default_journal) 0 0 True ''r1'' Check idle_dispatcher
        = Some (f, d', Some Check)
     \<and> length (workers \<lparr>disp = d', workers = [Check]\<rparr>) \<le> 1 \<and> \<not> desktop_active d'"
proof -
  obtain f d' where s: "submit (Inr default_journal) 0 0 True ''r1'' Check idle_dispatcher
      = Some (f, d', Some Check)"
    by (simp add: submit_eval)
  let ?s0 = "\<lparr>disp = idle_dispatcher, workers = []\<rparr>"
  have "reach dispatch_init dispatch_step ?s0"
    by (rule reach_init) (simp add: dispatch_init_def)
  moreover have "dispatch_step ?s0 \<lparr>disp = d', workers = [Check]\<rparr>"
    using ds_submit [of _ _ _ _ _ _ ?s0] s by fastforce
  ultimately have "reach dispatch_init dispatch_step \<lparr>disp = d', workers = [Check]\<rparr>"
    by (rule reach_step)
  from dispatcher_runs_one_operation [OF this] s show ?thesis by auto
qed

end
