(* ===== verification/LocalController.thy ===== *)
theory LocalController
  imports UpdateService Dispatch
begin

text \<open>
  Where server and updater meet: the in-process controller
  (\<^verbatim>\<open>server/src/update/local.rs\<close>) reads the dispatcher's frames, and both sides keep an
  admission matrix over the same display states.
\<close>

section \<open>Reading a reply\<close>

definition LOCAL_FAILED_MESSAGE :: string where
  "LOCAL_FAILED_MESSAGE = utf8
    [230, 155, 180, 230, 150, 176, 230, 147, 141, 228, 189, 156, 229, 164, 177, 232, 180, 165]"

text \<open>\<^verbatim>\<open>value["key"]\<close>: null when there is no such field.\<close>

definition json_index :: "string \<Rightarrow> json \<Rightarrow> json" where
  "json_index k v = (case json_get k v of Some w \<Rightarrow> w | None \<Rightarrow> JNull)"

definition str_or :: "string \<Rightarrow> json \<Rightarrow> string" where
  "str_or d v = (case as_str v of Some s \<Rightarrow> s | None \<Rightarrow> d)"

definition local_submit :: "json \<Rightarrow> (update_error, acceptance) result" where
  "local_submit frame =
     (if json_index ''ok'' frame \<noteq> JBool True
      then
        let err = json_index ''error'' frame;
            c = (case code_parse (str_or [] (json_index ''code'' err)) of
                   Some c \<Rightarrow> c | None \<Rightarrow> UpdaterUnavailable)
        in Inl (update_error_new c (str_or LOCAL_FAILED_MESSAGE (json_index ''message'' err)))
      else
        let res = json_index ''result'' frame
        in Inr \<lparr>acc_update_id = as_str (json_index ''update_id'' res),
                acc_state = Option.bind (as_str (json_index ''state'' res)) state_parse\<rparr>)"

fun action_operation :: "update_action \<Rightarrow> operation" where
  "action_operation update_action.Check = operation.Check"
| "action_operation update_action.Download = operation.Download"
| "action_operation update_action.Install = operation.PrepareInstall"
| "action_operation update_action.Rollback = operation.Rollback"

section \<open>Properties\<close>

lemmas json_eval = json_index_def json_get_object json_opt_str_def str_or_def

text \<open>
  An acceptance crosses the boundary intact; a refusal does not. The dispatcher's error
  frame has its code at the top level, the controller looks for it inside an
  \<^verbatim>\<open>error\<close> object, so every refusal whatever its code arrives as
  \<^verbatim>\<open>updater_unavailable\<close> with the fallback message.
\<close>

theorem refusals_lose_their_code:
  "local_submit (success_frame rid (accepted_result op d uid))
     = Inr \<lparr>acc_update_id = uid, acc_state = state_parse d\<rparr>
   \<and> local_submit (error_frame rid c m)
     = Inl (update_error_new UpdaterUnavailable LOCAL_FAILED_MESSAGE)"
  by (simp add: local_submit_def success_frame_def error_frame_def accepted_result_def json_eval
      code_parse_def Let_def split: option.splits)

definition server_lets_through :: "UpdateModel.update_state \<Rightarrow> update_action \<Rightarrow> bool" where
  "server_lets_through s a \<longleftrightarrow> (case UpdateModel.admit s a of Rejected _ \<Rightarrow> False | _ \<Rightarrow> True)"

definition updater_lets_through :: "string \<Rightarrow> update_action \<Rightarrow> bool" where
  "updater_lets_through d a \<longleftrightarrow>
     (case admit_display (action_operation a) d None of Some (Inr _) \<Rightarrow> True | _ \<Rightarrow> False)"

text \<open>
  C36. The two admission matrices, pair by pair. The updater admits nothing the server
  refuses; the server lets through eight requests the updater then refuses, among them
  every way out of \<^verbatim>\<open>failed\<close> but a new check: the download retry and the rollback the
  server's matrix promises there do not exist.
\<close>

theorem admission_matrices_compared:
  "(server_lets_through s a \<and> \<not> updater_lets_through (state_as_str s) a)
     = ((s, a) \<in> {(UpdateModel.Checking, update_action.Check),
                  (UpdateModel.Downloading, update_action.Check),
                  (UpdateModel.Downloading, update_action.Download),
                  (UpdateModel.Waiting, update_action.Download),
                  (UpdateModel.Failed, update_action.Download),
                  (UpdateModel.Waiting, update_action.Install),
                  (UpdateModel.Failed, update_action.Install),
                  (UpdateModel.Failed, update_action.Rollback)})
   \<and> \<not> (updater_lets_through (state_as_str s) a \<and> \<not> server_lets_through s a)"
  by (cases s; cases a)
    (simp_all add: server_lets_through_def updater_lets_through_def admit_display_def)

lemma state_parse_display: "\<exists>s. state_parse (display_state j) = Some s"
proof -
  have "\<forall>d \<in> set display_states. \<exists>s. state_parse d = Some s"
    by (simp add: display_states_def state_parse_def)
  with display_state_known show ?thesis by blast
qed

lemma state_parse_shown: "\<exists>s. state_parse (status_state_shown act j) = Some s"
proof (cases "act = Some PrepareInstall \<and> state j \<in> {Staged, WaitingIdle}")
  case True
  then show ?thesis by (auto simp: status_state_shown_def state_parse_def)
next
  case False
  then show ?thesis using state_parse_display [of j] by (auto simp: status_state_shown_def)
qed

definition release_ok :: "json \<Rightarrow> bool" where
  "release_ok rel \<longleftrightarrow>
     (\<exists>c. json_get ''channel'' rel = Some (JString c))
     \<and> (json_get ''published_at'' rel \<in> {None, Some JNull}
        \<or> (\<exists>t. json_get ''published_at'' rel = Some (JString t)))"

lemma json_object_JObject: "\<exists>m. json_object fs = JObject m"
  using json_object_sorted by blast

lemma struct_object [simp]:
  "struct_shape ks (json_object fs) = True"
  "struct_field ks k (json_object fs) = map_of (rev fs) k"
proof -
  obtain m where m: "json_object fs = JObject m" using json_object_JObject by blast
  then show "struct_shape ks (json_object fs) = True"
    "struct_field ks k (json_object fs) = map_of (rev fs) k"
    using json_get_object [of k fs] by (simp_all add: struct_shape_def struct_field_def)
qed

lemma json_object_not_null [simp]: "json_object fs \<noteq> JNull"
  using json_object_JObject [of fs] by auto

lemma candidate_block_read:
  assumes "candidate_block manifests v \<noteq> JNull"
    "\<forall>ver m rel. manifests ver = Some m \<and> json_get ''release'' m = Some rel \<longrightarrow> release_ok rel"
  shows "\<exists>c. candidate_from_value (candidate_block manifests v) = Some c \<and> Some (cand_version c) = v"
proof -
  obtain ver m rel where v: "v = Some ver" "manifests ver = Some m"
      "json_get ''release'' m = Some rel"
    using assms(1)
    by (auto simp: candidate_block_def bind_eq_Some_conv split: option.splits)
  with assms(2) have "release_ok rel" by blast
  then show ?thesis
    using v by (auto simp: release_ok_def candidate_block_def candidate_from_value_def or_null_def
        candidate_fields_def req_str_def opt_str_def opt_i64_def Let_def)
qed

text \<open>
  The status snapshot is read back: for manifests whose release block is as published
  and progress counts within \<^verbatim>\<open>i64\<close>, the server's parse of the updater's status
  succeeds, its state is the one shown (never missing), and the detail, the identifier,
  the candidate and the error code are the journal's.
\<close>

theorem status_snapshot_read_back:
  assumes "\<forall>ver m rel. manifests ver = Some m \<and> json_get ''release'' m = Some rel \<longrightarrow> release_ok rel"
    and "int (fst prog) \<le> i64_max" "int (snd prog) \<le> i64_max"
  shows "\<exists>st s. parse_status_update_block
        (status_result uv iid cur j manifests adb ffmpeg prog txt act) = Inr st
     \<and> us_state st = Some s \<and> state_as_str s = status_state_shown act j
     \<and> us_detail st = Some (display_detail j) \<and> us_update_id st = update_id j
     \<and> map_option le_code (us_last_error st) = map_option business_code_str (error j)
     \<and> map_option cand_version (us_candidate st)
         = (if candidate_block manifests (to_version j) = JNull then None else to_version j)"
proof -
  obtain s where s: "state_parse (status_state_shown act j) = Some s"
    using state_parse_shown by blast
  then have name: "state_as_str s = status_state_shown act j"
    using state_parse_Some by metis
  let ?cand = "candidate_block manifests (to_version j)"
  obtain c where c: "optional_block candidate_from_value (Some ?cand) = Some c"
      "map_option cand_version c = (if ?cand = JNull then None else to_version j)"
    using candidate_block_read [OF _ assms(1), of "to_version j"]
    by (cases "?cand = JNull") (auto simp: optional_block_def)
  let ?prog = "if status_state_shown act j = ''downloading''
      then json_object [(''bytes_done'', JNumber (PosInt (fst prog))),
                        (''bytes_total'', JNumber (PosInt (snd prog)))] else JNull"
  obtain p where p: "optional_block progress_from_value (Some ?prog) = Some p"
    using assms(2,3)
    by (cases "status_state_shown act j = ''downloading''")
      (simp_all add: optional_block_def progress_from_value_def req_i64_def Let_def)
  let ?err = "case error j of Some c \<Rightarrow> json_object [(''code'', JString (business_code_str c)),
      (''message'', JString txt)] | None \<Rightarrow> JNull"
  obtain e where e: "optional_block last_error_from_value (Some ?err) = Some e"
      "map_option le_code e = map_option business_code_str (error j)"
    by (cases "error j")
      (auto simp: optional_block_def last_error_from_value_def req_str_def Let_def)
  have "as_str (json_opt_str (update_id j)) = update_id j"
    by (simp add: json_opt_str_def split: option.splits)
  then show ?thesis
    using s name c p e
    by (simp add: parse_status_update_block_def status_result_def json_get_object Let_def)
qed

theorem status_snapshot_read_back_witness:
  "\<exists>st. parse_status_update_block (status_result ''1.0.0'' ''portable'' Missing default_journal
        (\<lambda>_. None) None None (0, 0) [] None) = Inr st
     \<and> us_state st = Some UpdateModel.Idle"
proof -
  obtain st s where st: "parse_status_update_block (status_result ''1.0.0'' ''portable'' Missing
        default_journal (\<lambda>_. None) None None (0, 0) [] None) = Inr st"
      "us_state st = Some s" "state_as_str s = status_state_shown None default_journal"
    using status_snapshot_read_back [of "\<lambda>_. None" "(0, 0)" "''1.0.0''" "''portable''" Missing
        default_journal None None "[]" None]
    by (auto simp: i64_max_def)
  then have "state_as_str s = state_as_str UpdateModel.Idle"
    by (simp add: status_state_shown_def display_state_def default_journal_def)
  then have "s = UpdateModel.Idle" by (simp only: state_as_str_inject)
  with st show ?thesis by simp
qed

end
