(* ===== verification/Machine.thy ===== *)
theory Machine
  imports Journal
begin

text \<open>
  The machine the updater runs on. Its persistent state is a \<open>disk\<close>; every access that
  can fail, and at which the process or the machine can stop, is one \<open>effect\<close>. What
  becomes of the n-th effect is the n-th \<open>verdict\<close> of the environment, an arbitrary
  function: a statement about all verdicts covers every failure and every crash point,
  those of a recovery after a crash included. A calculus of weakest preconditions with a
  crash condition carries the proofs.
\<close>

section \<open>Disk and environment\<close>

text \<open>A directory tree as its files with their content.\<close>

type_synonym tree = "(string \<times> string) list"

text \<open>A backup directory: begun, or complete with its manifest.\<close>

datatype backup = Partial | Complete tree "string option"

text \<open>
  \<open>staged_app\<close> and \<open>version_dir\<close> say for which update id and which version a verified
  application directory is in place. \<open>server\<close> is the version whose process runs.
\<close>

record disk =
  jfile :: "journal load_outcome"
  pfile :: "current_state load_outcome"
  live_data :: "tree option"
  live_config :: "string option"
  backups :: "string \<Rightarrow> backup option"
  staged_app :: "string \<Rightarrow> bool"
  version_dir :: "string \<Rightarrow> bool"
  server :: "string option"
  quarantined :: "(tree option \<times> string option) list"

datatype verdict = Works | Breaks | Halts

record machine_env =
  verdict :: "nat \<Rightarrow> verdict"

section \<open>Actions\<close>

text \<open>
  An action may stop (\<open>None\<close>) or return. The counter numbers the effects.
\<close>

type_synonym ('e, 'a) act = "'e machine_env_scheme \<Rightarrow> nat \<Rightarrow> disk \<Rightarrow> 'a option \<times> nat \<times> disk"

definition ret :: "'a \<Rightarrow> ('e, 'a) act" where
  "ret x = (\<lambda>e n d. (Some x, n, d))"

definition bnd :: "('e, 'a) act \<Rightarrow> ('a \<Rightarrow> ('e, 'b) act) \<Rightarrow> ('e, 'b) act" where
  "bnd m f = (\<lambda>e n d.
     case m e n d of
       (None, n', d') \<Rightarrow> (None, n', d')
     | (Some x, n', d') \<Rightarrow> f x e n' d')"

definition with_env :: "('e machine_env_scheme \<Rightarrow> ('e, 'a) act) \<Rightarrow> ('e, 'a) act" where
  "with_env f = (\<lambda>e. f e e)"

definition look :: "(disk \<Rightarrow> 'a) \<Rightarrow> ('e, 'a) act" where
  "look f = (\<lambda>e n d. (Some (f d), n, d))"

text \<open>One effect: it happens, fails without a trace, or the machine stops before it.\<close>

definition effect :: "(disk \<Rightarrow> disk) \<Rightarrow> ('e, bool) act" where
  "effect f = (\<lambda>e n d.
     case verdict e n of
       Works \<Rightarrow> (Some True, Suc n, f d)
     | Breaks \<Rightarrow> (Some False, Suc n, d)
     | Halts \<Rightarrow> (None, Suc n, d))"

definition need :: "'c \<Rightarrow> (disk \<Rightarrow> disk) \<Rightarrow> ('e, ('c, unit) result) act" where
  "need c f = bnd (effect f) (\<lambda>ok. ret (if ok then Inr () else Inl c))"

text \<open>\<^verbatim>\<open>if let Err(e) = m { return h(e) }; k\<close>, the \<^verbatim>\<open>?\<close>, and an ignored result.\<close>

definition try_or ::
  "('e, ('c, 'a) result) act \<Rightarrow> ('c \<Rightarrow> ('e, 'b) act) \<Rightarrow> ('a \<Rightarrow> ('e, 'b) act) \<Rightarrow> ('e, 'b) act" where
  "try_or m h k = bnd m (\<lambda>r. case r of Inl c \<Rightarrow> h c | Inr x \<Rightarrow> k x)"

definition fail :: "'c \<Rightarrow> ('e, ('c, 'a) result) act" where
  "fail c = ret (Inl c)"

definition ask ::
  "('e, ('c, 'a) result) act \<Rightarrow> ('a \<Rightarrow> ('e, ('c, 'b) result) act) \<Rightarrow> ('e, ('c, 'b) result) act" where
  "ask m k = try_or m fail k"

definition ignoring :: "('e, 'a) act \<Rightarrow> ('e, 'b) act \<Rightarrow> ('e, 'b) act" where
  "ignoring m k = bnd m (\<lambda>_. k)"

text \<open>A list of checks with the error of each.\<close>

fun need_all :: "'c list \<Rightarrow> ('e, ('c, unit) result) act" where
  "need_all [] = ret (Inr ())"
| "need_all (c # cs) = ask (need c id) (\<lambda>_. need_all cs)"

section \<open>Weakest preconditions\<close>

definition wp ::
  "'e machine_env_scheme \<Rightarrow> ('e, 'a) act \<Rightarrow> ('a \<Rightarrow> disk \<Rightarrow> bool) \<Rightarrow> (disk \<Rightarrow> bool) \<Rightarrow> disk \<Rightarrow> bool"
where
  "wp e m Q C d \<longleftrightarrow>
     (\<forall>n. case m e n d of (Some x, _, d') \<Rightarrow> Q x d' | (None, _, d') \<Rightarrow> C d')"

named_theorems wp_rules \<open>weakest preconditions of the action combinators\<close>

lemma wp_mono:
  assumes "wp e m Q C d" "\<And>x d'. Q x d' \<Longrightarrow> Q' x d'" "\<And>d'. C d' \<Longrightarrow> C' d'"
  shows "wp e m Q' C' d"
  unfolding wp_def
proof
  fix n
  show "case m e n d of (Some x, _, d') \<Rightarrow> Q' x d' | (None, _, d') \<Rightarrow> C' d'"
    using assms(1) [unfolded wp_def, THEN spec, of n] assms(2,3)
    by (auto split: prod.splits option.splits)
qed

lemma wp_ret [wp_rules]: "Q x d \<Longrightarrow> wp e (ret x) Q C d"
  by (simp add: wp_def ret_def)

lemma wp_fail [wp_rules]: "Q (Inl c) d \<Longrightarrow> wp e (fail c) Q C d"
  by (simp add: fail_def wp_ret)

lemma wp_look [wp_rules]: "Q (f d) d \<Longrightarrow> wp e (look f) Q C d"
  by (simp add: wp_def look_def)

lemma wp_with_env [wp_rules]: "wp e (f e) Q C d \<Longrightarrow> wp e (with_env f) Q C d"
  by (simp add: wp_def with_env_def)

lemma wp_bnd [wp_rules]:
  assumes "wp e m (\<lambda>x. wp e (f x) Q C) C d"
  shows "wp e (bnd m f) Q C d"
  unfolding wp_def
proof
  fix n
  show "case bnd m f e n d of (Some x, _, d') \<Rightarrow> Q x d' | (None, _, d') \<Rightarrow> C d'"
    using assms [unfolded wp_def, THEN spec, of n]
    by (auto simp: bnd_def split: prod.splits option.splits)
qed

lemma wp_ignoring [wp_rules]:
  "wp e m (\<lambda>_. wp e k Q C) C d \<Longrightarrow> wp e (ignoring m k) Q C d"
  by (simp add: ignoring_def wp_bnd)

lemma wp_effect [wp_rules]:
  "C d \<Longrightarrow> Q True (f d) \<Longrightarrow> Q False d \<Longrightarrow> wp e (effect f) Q C d"
  by (simp add: wp_def effect_def split: verdict.splits)

lemma wp_need [wp_rules]:
  "C d \<Longrightarrow> Q (Inl c) d \<Longrightarrow> Q (Inr ()) (f d) \<Longrightarrow> wp e (need c f) Q C d"
  unfolding need_def by (intro wp_bnd wp_effect wp_ret) simp_all

lemma wp_try_or [wp_rules]:
  "wp e m (\<lambda>r. wp e (case r of Inl c \<Rightarrow> h c | Inr x \<Rightarrow> k x) Q C) C d
   \<Longrightarrow> wp e (try_or m h k) Q C d"
  by (simp add: try_or_def wp_bnd)

lemma wp_ask [wp_rules]:
  "wp e m (\<lambda>r. wp e (case r of Inl c \<Rightarrow> fail c | Inr x \<Rightarrow> k x) Q C) C d
   \<Longrightarrow> wp e (ask m k) Q C d"
  by (simp add: ask_def wp_try_or)

lemma wp_need_all [wp_rules]:
  "C d \<Longrightarrow> Q (Inr ()) d \<Longrightarrow> (\<And>c. c \<in> set cs \<Longrightarrow> Q (Inl c) d) \<Longrightarrow> wp e (need_all cs) Q C d"
proof (induction cs)
  case Nil
  then show ?case by (simp add: wp_ret)
next
  case (Cons c cs)
  have "wp e (need_all cs) Q C d" using Cons by simp
  then show ?case
    using Cons.prems by (auto intro!: wp_ask wp_need wp_fail)
qed

declare need_all.simps [simp del]

section \<open>Reading and writing the journal\<close>

definition load_journal :: "('e, (business_code, journal_load) result) act" where
  "load_journal =
     bnd (look (\<lambda>d. load_journal_file (jfile d))) (\<lambda>l.
     bnd (effect (\<lambda>d. d\<lparr>jfile := snd l\<rparr>)) (\<lambda>ok.
       ret (if ok then Inr (fst l) else Inl UPDATER_UNAVAILABLE)))"

definition write_journal :: "journal \<Rightarrow> ('e, bool) act" where
  "write_journal j = effect (\<lambda>d. d\<lparr>jfile := Present j\<rparr>)"


text \<open>
  A disk whose journal file holds a readable journal. Loading it changes nothing.
\<close>

definition has_journal :: "disk \<Rightarrow> journal \<Rightarrow> bool" where
  "has_journal d j \<longleftrightarrow> jfile d = Present j \<and> schema_version j = STATE_SCHEMA_VERSION"

lemma wp_load_journal:
  assumes "has_journal d j" "C d" "Q (Inl UPDATER_UNAVAILABLE) d"
    "Q (Inr \<lparr>loaded = j, was_reset = False\<rparr>) d"
  shows "wp e load_journal Q C d"
proof -
  have l: "load_journal_file (jfile d) = (\<lparr>loaded = j, was_reset = False\<rparr>, jfile d)"
    using assms(1) by (simp add: has_journal_def)
  have "d\<lparr>jfile := jfile d\<rparr> = d" by simp
  with assms(2-4) show ?thesis
    unfolding load_journal_def
    by (intro wp_rules) (simp_all add: l)
qed

end
