(* ===== verification/Snapshot.thy ===== *)
theory Snapshot
  imports Machine PathSafe Json
begin

text \<open>
  Snapshots (\<^verbatim>\<open>updater/src/upgrade/snapshot.rs\<close>). The first part is the pure checking
  of a manifest and of a file set against it; the digest of a manifest, the hash of a
  file and Unicode lower-casing are arguments. The second part is creating, verifying and
  restoring a snapshot as actions of the machine, where a complete backup is one that
  passes those checks.
\<close>

section \<open>Manifests\<close>

definition SCHEMA_VERSION :: nat where "SCHEMA_VERSION = 1"

record snapshot_file =
  sf_path :: string
  sf_size :: nat
  sf_sha256 :: string

record snapshot_manifest =
  sm_schema :: nat
  sm_update_id :: string
  sm_created :: nat
  sm_files :: "snapshot_file list"
  sm_file_count :: nat
  sm_total_bytes :: nat
  sm_sha256 :: string

datatype snapshot_error =
    BadSchema | WrongUpdateId | BadManifestHash | ManifestHashMismatch | UnsafePath
  | PathNotAllowed | DuplicatePath | BadFileHash | CountMismatch | TotalOverflow
  | TotalMismatch | SetMismatch | FileMissing | NotRegular | SizeMismatch | HashMismatch
  | BadUpdateId

definition sanitize_id :: "string \<Rightarrow> (snapshot_error, unit) result" where
  "sanitize_id i =
     ensure (i \<noteq> [] \<and> length i \<le> 128
       \<and> (\<forall>c \<in> set i. is_ascii_alphanumeric c \<or> c = CHR ''-'' \<or> c = CHR ''_'')) BadUpdateId"

definition valid_sha256 :: "string \<Rightarrow> bool" where
  "valid_sha256 v \<longleftrightarrow> length v = 64 \<and> (\<forall>c \<in> set v. is_ascii_hexdigit c)
     \<and> (\<forall>c \<in> set v. \<not> is_ascii_uppercase c)"

definition check_manifest_path :: "string \<Rightarrow> (snapshot_error, unit) result" where
  "check_manifest_path p =
     (if check_single_path p \<noteq> None then Inl UnsafePath
      else if p \<noteq> ''config/config.toml'' \<and> \<not> starts_with p ''data/'' then Inl PathNotAllowed
      else Inr ())"

text \<open>The loop over the files with the set of lower-cased paths seen.\<close>

fun check_files ::
  "(string \<Rightarrow> string) \<Rightarrow> string list \<Rightarrow> snapshot_file list \<Rightarrow> (snapshot_error, unit) result"
where
  "check_files lower seen [] = Inr ()"
| "check_files lower seen (f # fs) =
     and_then (check_manifest_path (sf_path f)) (\<lambda>_.
       if lower (sf_path f) \<in> set seen then Inl DuplicatePath
       else if \<not> valid_sha256 (sf_sha256 f) then Inl BadFileHash
       else check_files lower (lower (sf_path f) # seen) fs)"

text \<open>\<^verbatim>\<open>try_fold\<close> with \<^verbatim>\<open>checked_add\<close>.\<close>

fun checked_total :: "nat \<Rightarrow> snapshot_file list \<Rightarrow> nat option" where
  "checked_total acc [] = Some acc"
| "checked_total acc (f # fs) =
     (if acc + sf_size f \<le> u64_max then checked_total (acc + sf_size f) fs else None)"

definition validate_manifest_shape ::
  "(string \<Rightarrow> string) \<Rightarrow> (snapshot_manifest \<Rightarrow> string) \<Rightarrow> snapshot_manifest \<Rightarrow> string
   \<Rightarrow> (snapshot_error, unit) result" where
  "validate_manifest_shape lower digest m uid =
     (if sm_schema m \<noteq> SCHEMA_VERSION then Inl BadSchema
      else if sm_update_id m \<noteq> uid then Inl WrongUpdateId
      else if \<not> valid_sha256 (sm_sha256 m) then Inl BadManifestHash
      else if sm_sha256 m \<noteq> digest (m\<lparr>sm_sha256 := []\<rparr>) then Inl ManifestHashMismatch
      else and_then (check_files lower [] (sm_files m)) (\<lambda>_.
        if sm_file_count m \<noteq> length (sm_files m) then Inl CountMismatch
        else case checked_total 0 (sm_files m) of
            None \<Rightarrow> Inl TotalOverflow
          | Some t \<Rightarrow> if sm_total_bytes m \<noteq> t then Inl TotalMismatch else Inr ()))"

definition strip_suffix :: "string \<Rightarrow> string \<Rightarrow> string option" where
  "strip_suffix s suf =
     (if ends_with s suf then Some (take (length s - length suf) s) else None)"

text \<open>The loop over the two suffixes; a listed sidecar is an ordinary file.\<close>

definition sidecar_of :: "string \<Rightarrow> string list \<Rightarrow> string \<Rightarrow> bool" where
  "sidecar_of low listed suf \<longleftrightarrow>
     (case strip_suffix low suf of
        Some base \<Rightarrow> low \<notin> set listed \<and> base \<in> set listed
      | None \<Rightarrow> False)"

definition is_unlisted_sqlite_sidecar ::
  "(string \<Rightarrow> string) \<Rightarrow> string \<Rightarrow> string list \<Rightarrow> bool" where
  "is_unlisted_sqlite_sidecar lower path listed \<longleftrightarrow>
     sidecar_of (lower path) listed ''-wal'' \<or> sidecar_of (lower path) listed ''-shm''"

text \<open>
  A file found on disk: whether it is a regular file (and no link), its size and hash.
  The set of files is a map from lower-cased paths, as the \<^verbatim>\<open>BTreeMap\<close> of the code.
\<close>

record found_file =
  ff_regular :: bool
  ff_size :: nat
  ff_sha256 :: string

fun match_files ::
  "(string \<Rightarrow> string) \<Rightarrow> (string \<times> found_file) list \<Rightarrow> snapshot_file list
   \<Rightarrow> (snapshot_error, unit) result" where
  "match_files lower found [] = Inr ()"
| "match_files lower found (f # fs) =
     (case map_of found (lower (sf_path f)) of
        None \<Rightarrow> Inl FileMissing
      | Some g \<Rightarrow>
          if \<not> ff_regular g then Inl NotRegular
          else if ff_size g \<noteq> sf_size f then Inl SizeMismatch
          else if ff_sha256 g \<noteq> sf_sha256 f then Inl HashMismatch
          else match_files lower found fs)"

definition verify_file_map ::
  "(string \<Rightarrow> string) \<Rightarrow> (string \<times> found_file) list \<Rightarrow> snapshot_manifest
   \<Rightarrow> (snapshot_error, unit) result" where
  "verify_file_map lower found m =
     (let expected = remdups (map (lower \<circ> sf_path) (sm_files m))
      in if length found \<noteq> length expected then Inl SetMismatch
         else match_files lower found (sm_files m))"

text \<open>
  \<^verbatim>\<open>find_user_version\<close>: the first occurrence in key order, depth first; a value out
  of \<^verbatim>\<open>u32\<close> ends the search.
\<close>

function find_user_version :: "json \<Rightarrow> nat option"
  and find_in_fields :: "(string \<times> json) list \<Rightarrow> nat option"
  and find_in_items :: "json list \<Rightarrow> nat option" where
  "find_user_version v =
     (case v of
        JObject m \<Rightarrow> find_in_fields m
      | JArray xs \<Rightarrow> find_in_items xs
      | _ \<Rightarrow> None)"
| "find_in_fields m =
     (case m of
        [] \<Rightarrow> None
      | (k, v) # m' \<Rightarrow>
          (case (if k = ''user_version'' then as_u64 v else None) of
             Some n \<Rightarrow> if n < 2 ^ 32 then Some n else None
           | None \<Rightarrow>
               (case find_user_version v of
                  Some n \<Rightarrow> Some n
                | None \<Rightarrow> find_in_fields m')))"
| "find_in_items xs =
     (case xs of
        [] \<Rightarrow> None
      | x # xs' \<Rightarrow>
          (case find_user_version x of Some n \<Rightarrow> Some n | None \<Rightarrow> find_in_items xs'))"
  by pat_completeness auto
termination
  by (relation "measure (\<lambda>x. case x of
        Inl v \<Rightarrow> 2 * size v
      | Inr (Inl m) \<Rightarrow> 2 * size_list (size_prod (\<lambda>_. 0) size) m + 1
      | Inr (Inr xs) \<Rightarrow> 2 * size_list size xs + 1)")
    auto

declare find_user_version.simps [simp del] find_in_fields.simps [simp del]
  find_in_items.simps [simp del]

section \<open>What verification guarantees\<close>

lemma check_files_distinct:
  "check_files lower seen fs = Inr () \<Longrightarrow>
   distinct (map (lower \<circ> sf_path) fs) \<and> set (map (lower \<circ> sf_path) fs) \<inter> set seen = {}
   \<and> (\<forall>f \<in> set fs. check_manifest_path (sf_path f) = Inr () \<and> valid_sha256 (sf_sha256 f))"
  by (induction lower seen fs rule: check_files.induct)
    (auto simp: and_then_eq_Inr split: if_splits)

lemma checked_total_Some:
  "checked_total acc fs = Some t \<Longrightarrow> t = acc + sum_list (map sf_size fs)"
  by (induction acc fs rule: checked_total.induct) (auto split: if_splits)

lemma match_files_Inr:
  "match_files lower found fs = Inr () \<longleftrightarrow>
     (\<forall>f \<in> set fs. \<exists>g. map_of found (lower (sf_path f)) = Some g \<and> ff_regular g
        \<and> ff_size g = sf_size f \<and> ff_sha256 g = sf_sha256 f)"
  by (induction lower found fs rule: match_files.induct) (auto split: option.splits)

text \<open>
  C17. A file set that passes verification against a valid manifest is exactly the
  manifest's: the same lower-cased paths, no more and no fewer, each a regular file of the
  recorded size and hash, every path safe and inside \<^verbatim>\<open>data/\<close> or the configuration
  file, and the recorded totals true of it.
\<close>

theorem verified_files_are_the_manifest:
  assumes "validate_manifest_shape lower digest m uid = Inr ()"
    and "distinct (map fst found)" "verify_file_map lower found m = Inr ()"
  shows "set (map fst found) = set (map (lower \<circ> sf_path) (sm_files m))
    \<and> length found = sm_file_count m
    \<and> sm_total_bytes m = sum_list (map sf_size (sm_files m))
    \<and> (\<forall>f \<in> set (sm_files m).
         check_single_path (sf_path f) = None
         \<and> (sf_path f = ''config/config.toml'' \<or> starts_with (sf_path f) ''data/'')
         \<and> (\<exists>g. map_of found (lower (sf_path f)) = Some g \<and> ff_regular g
              \<and> ff_size g = sf_size f \<and> ff_sha256 g = sf_sha256 f))"
proof -
  let ?ps = "map (lower \<circ> sf_path) (sm_files m)"
  have shape: "check_files lower [] (sm_files m) = Inr ()"
    "sm_file_count m = length (sm_files m)"
    "sm_total_bytes m = sum_list (map sf_size (sm_files m))"
    using assms(1) checked_total_Some [of 0 "sm_files m"]
    by (auto simp: validate_manifest_shape_def and_then_eq_Inr split: if_splits option.splits)
  then have d: "distinct ?ps" using check_files_distinct by blast
  have len: "length found = length ?ps"
    and mt: "\<forall>f \<in> set (sm_files m). \<exists>g. map_of found (lower (sf_path f)) = Some g \<and> ff_regular g
        \<and> ff_size g = sf_size f \<and> ff_sha256 g = sf_sha256 f"
    using assms(3) d
    by (auto simp: verify_file_map_def Let_def match_files_Inr distinct_remdups_id split: if_splits)
  have "set ?ps \<subseteq> set (map fst found)"
    using mt by (force simp: dest: map_of_SomeD)
  moreover have "card (set ?ps) = card (set (map fst found))"
    using d assms(2) len by (metis distinct_card length_map)
  ultimately have "set ?ps = set (map fst found)"
    by (intro card_subset_eq) simp_all
  moreover have "\<forall>f \<in> set (sm_files m). check_single_path (sf_path f) = None
      \<and> (sf_path f = ''config/config.toml'' \<or> starts_with (sf_path f) ''data/'')"
    using check_files_distinct [OF shape(1)]
    by (auto simp: check_manifest_path_def split: if_splits)
  ultimately show ?thesis using shape len mt by simp
qed


theorem verified_files_are_the_manifest_witness:
  "\<exists>m. validate_manifest_shape id (\<lambda>_. replicate 64 CHR ''a'') m ''upd-1'' = Inr ()
     \<and> verify_file_map id [(''data/a'', \<lparr>ff_regular = True, ff_size = 7,
         ff_sha256 = replicate 64 CHR ''b''\<rparr>)] m = Inr ()
     \<and> sm_total_bytes m = 7"
proof -
  let ?f = "\<lparr>sf_path = ''data/a'', sf_size = 7, sf_sha256 = replicate 64 CHR ''b''\<rparr>"
  let ?m = "\<lparr>sm_schema = 1, sm_update_id = ''upd-1'', sm_created = 0, sm_files = [?f],
      sm_file_count = 1, sm_total_bytes = 7, sm_sha256 = replicate 64 CHR ''a''\<rparr>"
  let ?g = "[(''data/a'', \<lparr>ff_regular = True, ff_size = 7, ff_sha256 = replicate 64 CHR ''b''\<rparr>)]"
  have p: "check_manifest_path ''data/a'' = Inr ()"
    by (simp add: check_manifest_path_def check_single_path_def illegal_char_def
        RESERVED_BASES_def starts_with_def ends_with_def to_ascii_uppercase_def
        to_ascii_uppercase_byte_def ascii_defs char_of_def)
  have v: "validate_manifest_shape id (\<lambda>_. replicate 64 CHR ''a'') ?m ''upd-1'' = Inr ()"
    by (simp add: validate_manifest_shape_def p valid_sha256_def ascii_defs SCHEMA_VERSION_def
        u64_max_def)
  have m: "verify_file_map id ?g ?m = Inr ()"
    by (simp add: verify_file_map_def)
  from verified_files_are_the_manifest [OF v _ m] have "sm_total_bytes ?m = 7" by simp
  with v m show ?thesis by blast
qed

section \<open>Snapshots on the machine\<close>

text \<open>
  \<^verbatim>\<open>create\<close>: an existing backup is removed, the new directory is begun, the live
  files are copied and the manifest written, and the result is verified and inspected.
  Each may fail; the live files are only read. A missing \<^verbatim>\<open>data/\<close> is an empty tree.
\<close>

definition live_tree :: "disk \<Rightarrow> tree" where
  "live_tree d = (case live_data d of Some t \<Rightarrow> t | None \<Rightarrow> [])"

definition set_backup :: "string \<Rightarrow> backup option \<Rightarrow> disk \<Rightarrow> disk" where
  "set_backup u b d = d\<lparr>backups := (backups d)(u := b)\<rparr>"

definition snapshot_create :: "string \<Rightarrow> ('e, (unit, snapshot_info) result) act" where
  "snapshot_create u =
     (case sanitize_id u of
        Inl _ \<Rightarrow> fail ()
      | Inr _ \<Rightarrow>
          bnd (look (\<lambda>d. backups d u \<noteq> None)) (\<lambda>exists.
          ask (if exists then need () (set_backup u None) else ret (Inr ())) (\<lambda>_.
          ask (need () (set_backup u (Some Partial))) (\<lambda>_.
          ask (need () (\<lambda>d. set_backup u (Some (Complete (live_tree d) (live_config d))) d)) (\<lambda>_.
          ask (need_all [(), ()]) (\<lambda>_.
          look (\<lambda>d. Inr \<lparr>snap_id = u, snap_path = ''backups/'' @ u,
            snap_file_count = length (live_tree d) + (if live_config d = None then 0 else 1),
            snap_total_bytes = sum_list (map (length \<circ> snd) (live_tree d))
              + (case live_config d of Some c \<Rightarrow> length c | None \<Rightarrow> 0)\<rparr>)))))))"

text \<open>\<^verbatim>\<open>verify\<close>: a complete backup passes unless reading it fails.\<close>

definition snapshot_verify ::
  "string \<Rightarrow> ('e, (unit, tree \<times> string option) result) act" where
  "snapshot_verify u =
     (case sanitize_id u of
        Inl _ \<Rightarrow> fail ()
      | Inr _ \<Rightarrow>
          ask (need () id) (\<lambda>_.
          look (\<lambda>d. case backups d u of Some (Complete t c) \<Rightarrow> Inr (t, c) | _ \<Rightarrow> Inl ())))"

text \<open>
  \<^verbatim>\<open>restore\<close>: after verification and the copy into staging, the live tree and the
  live configuration are renamed into the quarantine one after the other, then the copies
  are renamed into place one after the other. Between the renames the live files are
  incomplete.
\<close>

definition quarantine_data :: "disk \<Rightarrow> disk" where
  "quarantine_data d = d\<lparr>live_data := None, quarantined := (live_data d, None) # quarantined d\<rparr>"

definition quarantine_config :: "disk \<Rightarrow> disk" where
  "quarantine_config d =
     d\<lparr>live_config := None, quarantined := (None, live_config d) # quarantined d\<rparr>"

definition snapshot_restore :: "string \<Rightarrow> ('e, (unit, unit) result) act" where
  "snapshot_restore u =
     ask (snapshot_verify u) (\<lambda>(t, c).
     ask (need_all [(), (), ()]) (\<lambda>_.
     bnd (look (\<lambda>d. live_data d \<noteq> None)) (\<lambda>has_data.
     ask (if has_data then need () quarantine_data else ret (Inr ())) (\<lambda>_.
     bnd (look (\<lambda>d. live_config d \<noteq> None)) (\<lambda>has_config.
     ask (if has_config then need () quarantine_config else ret (Inr ())) (\<lambda>_.
     ask (need () (\<lambda>d. d\<lparr>live_data := Some t\<rparr>)) (\<lambda>_.
     ask (if c \<noteq> None then need () (\<lambda>d. d\<lparr>live_config := c\<rparr>) else ret (Inr ())) (\<lambda>_.
     need_all [(), ()]))))))))"

section \<open>What snapshots do\<close>

text \<open>The live files as a snapshot records them.\<close>

definition content :: "disk \<Rightarrow> tree \<times> string option" where
  "content d = (live_tree d, live_config d)"

text \<open>Everything but the live files and the quarantine is as before.\<close>

definition only_live :: "disk \<Rightarrow> disk \<Rightarrow> bool" where
  "only_live d d' \<longleftrightarrow>
     jfile d' = jfile d \<and> pfile d' = pfile d \<and> backups d' = backups d
     \<and> staged_app d' = staged_app d \<and> version_dir d' = version_dir d \<and> server d' = server d"

lemma only_live_refl: "only_live d d"
  by (simp add: only_live_def)

lemma only_live_updates:
  "only_live d d' \<Longrightarrow> only_live d (d'\<lparr>live_data := t\<rparr>)"
  "only_live d d' \<Longrightarrow> only_live d (d'\<lparr>live_config := c\<rparr>)"
  "only_live d d' \<Longrightarrow> only_live d (quarantine_data d')"
  "only_live d d' \<Longrightarrow> only_live d (quarantine_config d')"
  by (simp_all add: only_live_def quarantine_data_def quarantine_config_def)

lemma content_simps [simp]:
  "content (d\<lparr>jfile := j\<rparr>) = content d" "content (d\<lparr>pfile := p\<rparr>) = content d"
  "content (d\<lparr>backups := b\<rparr>) = content d" "content (d\<lparr>staged_app := a\<rparr>) = content d"
  "content (d\<lparr>version_dir := v\<rparr>) = content d" "content (d\<lparr>server := s\<rparr>) = content d"
  "content (d\<lparr>quarantined := q\<rparr>) = content d"
  by (simp_all add: content_def live_tree_def)

text \<open>A restore that returns success has put back exactly the backup.\<close>

lemma wp_snapshot_verify:
  assumes "C d" "Q (Inl ()) d"
    "\<And>t c. backups d u = Some (Complete t c) \<Longrightarrow> Q (Inr (t, c)) d"
  shows "wp e (snapshot_verify u) Q C d"
  using assms unfolding snapshot_verify_def
  by (auto intro!: wp_rules split: sum.splits option.splits backup.splits)

lemma wp_when:
  "(b \<Longrightarrow> wp e m Q C d) \<Longrightarrow> (\<not> b \<Longrightarrow> Q (Inr ()) d) \<Longrightarrow>
   wp e (if b then m else ret (Inr ())) Q C d"
  by (simp add: wp_ret)

lemma wp_restore:
  assumes b: "backups d u = Some (Complete t c)"
    and crash: "\<And>d'. only_live d d' \<Longrightarrow> C d'"
    and err: "\<And>d'. only_live d d' \<Longrightarrow> Q (Inl ()) d'"
    and ok: "\<And>d'. only_live d d' \<Longrightarrow> content d' = (t, c) \<Longrightarrow> Q (Inr ()) d'"
  shows "wp e (snapshot_restore u) Q C d"
proof -
  define k1 :: "('a, (unit, unit) result) act" where
    "k1 = ask (if c \<noteq> None then need () (\<lambda>d. d\<lparr>live_config := c\<rparr>) else ret (Inr ()))
      (\<lambda>_. need_all [(), ()])"
  define k2 :: "('a, (unit, unit) result) act" where
    "k2 = ask (need () (\<lambda>d. d\<lparr>live_data := Some t\<rparr>)) (\<lambda>_. k1)"
  define k3 :: "('a, (unit, unit) result) act" where
    "k3 = bnd (look (\<lambda>d. live_config d \<noteq> None)) (\<lambda>has_config.
      ask (if has_config then need () quarantine_config else ret (Inr ())) (\<lambda>_. k2))"
  have final: "wp e (need_all [(), ()]) Q C d'" if "only_live d d'" "content d' = (t, c)" for d'
    using that by (intro wp_need_all) (auto intro: crash err ok)
  have k1: "wp e k1 Q C d'"
    if "only_live d d'" "live_data d' = Some t" "live_config d' = None" for d'
    unfolding k1_def using that
    by (intro wp_ask wp_when wp_need)
      (auto intro!: wp_fail final crash err simp: only_live_updates content_def live_tree_def)
  have k2: "wp e k2 Q C d'" if "only_live d d'" "live_config d' = None" for d'
    unfolding k2_def using that
    by (intro wp_ask wp_need) (auto intro!: wp_fail k1 crash err simp: only_live_updates)
  have k3: "wp e k3 Q C d'" if "only_live d d'" for d'
    unfolding k3_def using that
    by (intro wp_bnd wp_look wp_ask wp_when wp_need)
      (auto intro!: wp_fail k2 crash err simp: only_live_updates, simp add: quarantine_config_def)
  show ?thesis
    unfolding snapshot_restore_def
  proof (intro wp_ask wp_snapshot_verify, goal_cases)
    case 1 show ?case by (rule crash [OF only_live_refl])
  next
    case 2 show ?case by (simp add: wp_fail err [OF only_live_refl])
  next
    case (3 t' c')
    then have tc: "t' = t" "c' = c" using b by auto
    have "wp e (bnd (look (\<lambda>d. live_data d \<noteq> None)) (\<lambda>has_data.
        ask (if has_data then need () quarantine_data else ret (Inr ())) (\<lambda>_. k3))) Q C d"
      by (intro wp_bnd wp_look wp_ask wp_when wp_need)
        (auto intro!: wp_fail k3 crash err simp: only_live_updates only_live_refl)
    then have "wp e (ask (need_all [(), (), ()]) (\<lambda>_. bnd (look (\<lambda>d. live_data d \<noteq> None)) (\<lambda>has_data.
        ask (if has_data then need () quarantine_data else ret (Inr ())) (\<lambda>_. k3)))) Q C d"
      by (intro wp_ask wp_need_all) (auto intro!: wp_fail crash err only_live_refl)
    then show ?case
      unfolding k3_def k2_def k1_def by (simp add: tc)
  qed
qed

end
