(* ===== verification/Probe.thy ===== *)
theory Probe
  imports Journal Json
begin

text \<open>
  How the engine judges a candidate server (\<^verbatim>\<open>updater/src/upgrade/engine.rs\<close>):
  finding its identity in the bodies it answers, the identity check, the activation
  request and the loop that waits for readiness. The HTTP replies are arguments, one set
  per round of the loop.
\<close>

section \<open>Looking for fields\<close>

definition field_str :: "string list \<Rightarrow> (string \<times> json) list \<Rightarrow> string option" where
  "field_str keys m =
     (case List.find (\<lambda>k. Option.bind (map_of m k) as_str \<noteq> None) keys of
        Some k \<Rightarrow> Option.bind (map_of m k) as_str
      | None \<Rightarrow> None)"

definition as_u32 :: "json \<Rightarrow> nat option" where
  "as_u32 v = (case as_u64 v of Some n \<Rightarrow> if n < 2 ^ 32 then Some n else None | None \<Rightarrow> None)"

definition field_u32 :: "string list \<Rightarrow> (string \<times> json) list \<Rightarrow> nat option" where
  "field_u32 keys m =
     (case List.find (\<lambda>k. Option.bind (map_of m k) as_u32 \<noteq> None) keys of
        Some k \<Rightarrow> Option.bind (map_of m k) as_u32
      | None \<Rightarrow> None)"

text \<open>
  \<^verbatim>\<open>find_string_field\<close> and \<^verbatim>\<open>find_u32_field\<close> are one recursion: the keys at
  this object first, then its values in key order, then the elements of an array.
\<close>

lemma size_list_snd:
  "size_list (size \<circ> snd) m \<le> size_list (size_prod (\<lambda>_. 0) size) m"
  by (induction m) auto

function find_field ::
  "((string \<times> json) list \<Rightarrow> 'a option) \<Rightarrow> json \<Rightarrow> 'a option"
  and find_list :: "((string \<times> json) list \<Rightarrow> 'a option) \<Rightarrow> json list \<Rightarrow> 'a option" where
  "find_field here v =
     (case v of
        JObject m \<Rightarrow>
          (case here m of Some x \<Rightarrow> Some x | None \<Rightarrow> find_list here (map snd m))
      | JArray xs \<Rightarrow> find_list here xs
      | _ \<Rightarrow> None)"
| "find_list here xs =
     (case xs of
        [] \<Rightarrow> None
      | x # xs' \<Rightarrow> (case find_field here x of Some y \<Rightarrow> Some y | None \<Rightarrow> find_list here xs'))"
  by pat_completeness auto
termination
  by (relation "measure (\<lambda>x. case x of
      Inl (_, v) \<Rightarrow> 2 * size v | Inr (_, xs) \<Rightarrow> 2 * size_list size xs + 1)")
    (auto simp: less_Suc_eq_le size_list_snd)

declare find_field.simps [simp del] find_list.simps [simp del]

definition find_string_field :: "json \<Rightarrow> string list \<Rightarrow> string option" where
  "find_string_field v keys = find_field (field_str keys) v"

definition find_u32_field :: "json \<Rightarrow> string list \<Rightarrow> nat option" where
  "find_u32_field v keys = find_field (field_u32 keys) v"

definition find_schema :: "json \<Rightarrow> nat option" where
  "find_schema v =
     (case Option.bind (Option.bind (json_get ''schema'' v) (json_get ''db'')) as_u32 of
        Some n \<Rightarrow> Some n
      | None \<Rightarrow> find_u32_field v [''data_schema'', ''db_schema'', ''user_version''])"

section \<open>Identity\<close>

text \<open>A reply: its status and its body when that is JSON. \<open>None\<close> is a failed request.\<close>

record http_reply =
  hr_status :: nat
  hr_body :: "json option"

record observed =
  ob_version :: "string option"
  ob_boot :: "string option"
  ob_schema :: "nat option"

definition nothing_observed :: observed where
  "nothing_observed = \<lparr>ob_version = None, ob_boot = None, ob_schema = None\<rparr>"

definition first_some :: "'a option \<Rightarrow> 'a option \<Rightarrow> 'a option" where
  "first_some a b = (case a of Some x \<Rightarrow> Some x | None \<Rightarrow> b)"

definition observe_info :: "json \<Rightarrow> observed" where
  "observe_info b =
     \<lparr>ob_version = first_some
        (Option.bind (Option.bind (json_get ''app'' b) (json_get ''version'')) as_str)
        (find_string_field b [''app_version'']),
      ob_boot = first_some
        (Option.bind (Option.bind (json_get ''startup'' b) (json_get ''boot_id'')) as_str)
        (find_string_field b [''boot_id'', ''bootId'']),
      ob_schema = find_schema b\<rparr>"

definition observe_ready :: "json \<Rightarrow> observed" where
  "observe_ready b =
     \<lparr>ob_version = find_string_field b [''app_version''],
      ob_boot = find_string_field b [''boot_id'', ''bootId''],
      ob_schema = find_schema b\<rparr>"

definition observe_identity ::
  "http_reply option \<Rightarrow> http_reply option \<Rightarrow> (business_code, observed) result" where
  "observe_identity info ready =
     (let fallback =
        (case ready of
           None \<Rightarrow> Inl UPDATER_UNAVAILABLE
         | Some r \<Rightarrow>
             if hr_status r \<noteq> 200 then Inl UPDATER_UNAVAILABLE
             else Inr (case hr_body r of Some b \<Rightarrow> observe_ready b | None \<Rightarrow> nothing_observed))
      in case info of
          Some r \<Rightarrow>
            if hr_status r = 200
            then Inr (case hr_body r of Some b \<Rightarrow> observe_info b | None \<Rightarrow> nothing_observed)
            else fallback
        | None \<Rightarrow> fallback)"

definition judge_identity ::
  "bool \<Rightarrow> string option \<Rightarrow> string \<Rightarrow> nat option \<Rightarrow> observed
   \<Rightarrow> (business_code, string option) result" where
  "judge_identity portable old_boot expected_version expected_schema ob =
     (if portable \<and> (ob_version ob \<noteq> Some expected_version \<or> ob_boot ob = None
           \<or> expected_schema \<noteq> None \<and> ob_schema ob \<noteq> expected_schema)
      then Inl ARTIFACT_INVALID
      else if ob_version ob \<noteq> None \<and> ob_version ob \<noteq> Some expected_version
      then Inl ARTIFACT_INVALID
      else if expected_schema \<noteq> None \<and> ob_schema ob \<noteq> None \<and> ob_schema ob \<noteq> expected_schema
      then Inl SCHEMA_INCOMPATIBLE
      else if old_boot \<noteq> None \<and> ob_boot ob \<noteq> None \<and> old_boot = ob_boot ob
      then Inl ARTIFACT_INVALID
      else Inr (ob_boot ob))"

definition verify_candidate_identity ::
  "bool \<Rightarrow> string option \<Rightarrow> string \<Rightarrow> nat option \<Rightarrow> http_reply option \<Rightarrow> http_reply option
   \<Rightarrow> (business_code, string option) result" where
  "verify_candidate_identity portable old_boot expected_version expected_schema info ready =
     and_then (observe_identity info ready)
       (judge_identity portable old_boot expected_version expected_schema)"

section \<open>Activation\<close>

fun dec_digits :: "nat \<Rightarrow> string" where
  "dec_digits n = (if n < 10 then [char_of (48 + n)] else dec_digits (n div 10) @ [char_of (48 + n mod 10)])"

declare dec_digits.simps [simp del]

definition ACTIVATE_REJECTED_TEXT :: string where
  "ACTIVATE_REJECTED_TEXT = utf8
    [97, 99, 116, 105, 118, 97, 116, 101, 32, 232, 162, 171, 230, 139, 146, 231, 187, 157,
     239, 188, 136, 72, 84, 84, 80, 32]"

definition FULLWIDTH_CLOSE :: string where
  "FULLWIDTH_CLOSE = utf8 [239, 188, 137]"

definition ACTIVATE_FAILED_TEXT :: string where
  "ACTIVATE_FAILED_TEXT = utf8
    [97, 99, 116, 105, 118, 97, 116, 101, 32, 232, 175, 183, 230, 177, 130, 229, 164, 177,
     232, 180, 165, 58, 32]"

definition NO_TOKEN_MESSAGE :: string where
  "NO_TOKEN_MESSAGE = utf8
    [230, 156, 170, 233, 133, 141, 231, 189, 174, 230, 155, 180, 230, 150, 176, 228, 187,
     164, 231, 137, 140, 239, 188, 140, 230, 151, 160, 230, 179, 149, 230, 137, 167, 232,
     161, 140, 32, 97, 99, 116, 105, 118, 97, 116, 101]"

text \<open>The reply to the activation request: a transport error's text, or a status.\<close>

definition activate_candidate ::
  "string option \<Rightarrow> bool \<Rightarrow> (string, nat) result \<Rightarrow> (business_code \<times> string, unit) result" where
  "activate_candidate token without_token resp =
     (case token of
        None \<Rightarrow> if without_token then Inr () else Inl (UPDATE_NOT_READY, NO_TOKEN_MESSAGE)
      | Some _ \<Rightarrow>
          (case resp of
             Inl e \<Rightarrow> Inl (UPDATER_UNAVAILABLE, ACTIVATE_FAILED_TEXT @ e)
           | Inr status \<Rightarrow>
               if \<not> (200 \<le> status \<and> status < 300)
               then Inl (UPDATE_NOT_READY,
                      ACTIVATE_REJECTED_TEXT @ dec_digits status @ FULLWIDTH_CLOSE)
               else Inr ()))"

section \<open>Waiting for readiness\<close>

text \<open>\<^verbatim>\<open>str::contains\<close>.\<close>

fun str_contains :: "string \<Rightarrow> string \<Rightarrow> bool" where
  "str_contains [] p = (p = [])"
| "str_contains (c # s) p = (starts_with (c # s) p \<or> str_contains s p)"

text \<open>
  One round: whether the child had exited, whether the deadline had passed, the health
  reply, the replies of an identity check and of an activation, had they been asked for.
\<close>

record poll =
  po_exited :: bool
  po_deadline :: bool
  po_health :: "http_reply option"
  po_info :: "http_reply option"
  po_ready :: "http_reply option"
  po_activate :: "(string, nat) result"

record probe_config =
  pc_portable :: bool
  pc_token :: "string option"
  pc_without_token :: bool
  pc_old_boot :: "string option"
  pc_version :: string
  pc_schema :: "nat option"

definition says_not_ready :: "http_reply \<Rightarrow> bool" where
  "says_not_ready r \<longleftrightarrow> hr_status r = 503
     \<and> Option.bind (Option.bind (hr_body r) (json_get ''ready'')) as_bool = Some False"

text \<open>
  The loop; \<open>tried\<close> is \<^verbatim>\<open>gate_activate_attempted\<close>. Running out of rounds is the
  deadline.
\<close>

fun wait_candidate_ready ::
  "probe_config \<Rightarrow> bool \<Rightarrow> poll list \<Rightarrow> (business_code, string option) result" where
  "wait_candidate_ready cfg tried [] = Inl UPDATER_UNAVAILABLE"
| "wait_candidate_ready cfg tried (p # ps) =
     (if po_exited p then Inl ARTIFACT_INVALID
      else if po_deadline p then Inl UPDATER_UNAVAILABLE
      else case po_health p of
          None \<Rightarrow> wait_candidate_ready cfg tried ps
        | Some r \<Rightarrow>
            if hr_status r = 200
            then verify_candidate_identity (pc_portable cfg) (pc_old_boot cfg) (pc_version cfg)
                   (pc_schema cfg) (po_info p) (po_ready p)
            else if pc_token cfg \<noteq> None \<and> \<not> tried \<and> says_not_ready r
            then (case activate_candidate (pc_token cfg) (pc_without_token cfg) (po_activate p) of
                    Inr _ \<Rightarrow> wait_candidate_ready cfg True ps
                  | Inl (c, m) \<Rightarrow>
                      if str_contains m ''(HTTP 403)'' then Inl c
                      else wait_candidate_ready cfg True ps)
            else wait_candidate_ready cfg tried ps)"

section \<open>Properties\<close>

lemma judge_identity_Inr:
  "judge_identity portable old v schema ob = Inr b \<longleftrightarrow>
     b = ob_boot ob
     \<and> (if portable then ob_version ob = Some v \<and> b \<noteq> None
          \<and> (schema = None \<or> ob_schema ob = schema)
        else ob_version ob \<in> {None, Some v}
          \<and> (schema = None \<or> ob_schema ob \<in> {None, schema}))
     \<and> (old = None \<or> b = None \<or> b \<noteq> old)"
  by (auto simp: judge_identity_def split: if_splits)

text \<open>
  A portable candidate is accepted only by name: when waiting ends well, some round
  answered 200 and its identity was read there, with exactly the expected version, the
  expected schema where one is expected, and a boot id that is known and not the old
  server's. No candidate that exited or ran past the deadline is accepted.
\<close>

theorem portable_candidate_identified:
  assumes "wait_candidate_ready cfg tried ps = Inr b" "pc_portable cfg"
  shows "\<exists>p \<in> set ps. \<not> po_exited p \<and> \<not> po_deadline p
     \<and> (\<exists>r ob. po_health p = Some r \<and> hr_status r = 200
          \<and> observe_identity (po_info p) (po_ready p) = Inr ob
          \<and> ob_version ob = Some (pc_version cfg) \<and> b = ob_boot ob \<and> b \<noteq> None
          \<and> (pc_schema cfg = None \<or> ob_schema ob = pc_schema cfg)
          \<and> b \<noteq> pc_old_boot cfg)"
  using assms
proof (induction cfg tried ps rule: wait_candidate_ready.induct)
  case (2 cfg tried p ps)
  show ?case
  proof (cases "\<exists>r. po_health p = Some r \<and> hr_status r = 200 \<and> \<not> po_exited p \<and> \<not> po_deadline p")
    case True
    with "2.prems" show ?thesis
      by (auto simp: verify_candidate_identity_def and_then_eq_Inr judge_identity_Inr)
  next
    case False
    with 2 show ?thesis
      by (fastforce split: if_splits option.splits sum.splits prod.splits)
  qed
qed simp

definition sample_info :: json where
  "sample_info = json_object [(''app'', json_object [(''version'', JString ''1.2.0'')]),
     (''startup'', json_object [(''boot_id'', JString ''b2'')])]"

definition sample_config :: probe_config where
  "sample_config = \<lparr>pc_portable = True, pc_token = Some ''t'', pc_without_token = False,
     pc_old_boot = Some ''b1'', pc_version = ''1.2.0'', pc_schema = None\<rparr>"

definition sample_poll :: "http_reply \<Rightarrow> poll" where
  "sample_poll r = \<lparr>po_exited = False, po_deadline = False, po_health = Some r,
     po_info = Some \<lparr>hr_status = 200, hr_body = Some sample_info\<rparr>, po_ready = None,
     po_activate = Inr 403\<rparr>"

definition not_ready_reply :: http_reply where
  "not_ready_reply = \<lparr>hr_status = 503, hr_body = Some (JObject [(''ready'', JBool False)])\<rparr>"

theorem portable_candidate_identified_witness:
  "\<exists>p \<in> {sample_poll \<lparr>hr_status = 200, hr_body = None\<rparr>}. \<not> po_exited p
     \<and> (\<exists>ob. observe_identity (po_info p) (po_ready p) = Inr ob
          \<and> ob_version ob = Some ''1.2.0'' \<and> ob_boot ob = Some ''b2'')"
proof -
  have "wait_candidate_ready sample_config False [sample_poll \<lparr>hr_status = 200, hr_body = None\<rparr>]
      = Inr (Some ''b2'')" "pc_portable sample_config"
    by (simp_all add: sample_config_def sample_poll_def verify_candidate_identity_def
        observe_identity_def observe_info_def sample_info_def json_get_object first_some_def
        judge_identity_def)
  from portable_candidate_identified [OF this] show ?thesis
    by (auto simp: sample_config_def)
qed

text \<open>
  The early abort on a rejected token cannot happen: the message of a rejected
  activation writes its status between full-width parentheses, the loop looks for ASCII
  ones, so a round whose activation got any HTTP status, 403 included, is always followed
  by the next round.
\<close>

lemma str_contains_head: "str_contains s (c # p) \<Longrightarrow> c \<in> set s"
  by (induction s "c # p" rule: str_contains.induct) (auto simp: starts_with_def)

lemma dec_digits_bytes: "c \<in> set (dec_digits n) \<Longrightarrow> 48 \<le> byte c"
proof (induction n rule: dec_digits.induct)
  case (1 n)
  then show ?case
    by (subst (asm) dec_digits.simps) (auto split: if_splits)
qed

theorem rejected_activation_never_aborts:
  "(case activate_candidate (Some t) w (Inr status) of
      Inr _ \<Rightarrow> 200 \<le> status \<and> status < 300
    | Inl (c, m) \<Rightarrow> c = UPDATE_NOT_READY \<and> \<not> str_contains m ''(HTTP 403)'')
   \<and> wait_candidate_ready sample_config False (sample_poll not_ready_reply # ps)
       = wait_candidate_ready sample_config True ps"
proof -
  have m: "\<not> str_contains (ACTIVATE_REJECTED_TEXT @ dec_digits k @ FULLWIDTH_CLOSE) ''(HTTP 403)''"
    for k
  proof
    assume "str_contains (ACTIVATE_REJECTED_TEXT @ dec_digits k @ FULLWIDTH_CLOSE) ''(HTTP 403)''"
    then have "CHR ''('' \<in> set (ACTIVATE_REJECTED_TEXT @ dec_digits k @ FULLWIDTH_CLOSE)"
      by (rule str_contains_head)
    then show False
      using dec_digits_bytes [of "CHR ''(''" k]
      by (auto simp: ACTIVATE_REJECTED_TEXT_def FULLWIDTH_CLOSE_def utf8_def char_of_def)
  qed
  then show ?thesis
    by (auto simp: activate_candidate_def sample_config_def sample_poll_def not_ready_reply_def
        says_not_ready_def)
qed

end
