(* ===== verification/Engine.thy ===== *)
theory Engine
  imports Snapshot Probe Semver
begin

text \<open>
  The upgrade engine (\<^verbatim>\<open>updater/src/upgrade/engine.rs\<close>): its phases, the full run and
  the rollback, as actions of the machine. A \<^verbatim>\<open>BusinessError\<close> is its code. What the
  phases ask of parts outside this theory (the manifest checks, the artifact store, the
  processes, HTTP) is an effect that works or breaks, or an argument in the environment.
\<close>

section \<open>Environment\<close>

datatype manifest_source = NoSource | Official | PathSource | UrlSource string

text \<open>What \<^verbatim>\<open>load_candidate\<close> observes of the candidate and the machine.\<close>

record candidate_input =
  ci_source :: manifest_source
  ci_fetched :: bool
  ci_invalid :: "string list"
  ci_readable :: bool
  ci_json :: bool
  ci_model :: bool
  ci_minimum :: string
  ci_version :: string
  ci_data_schema :: int
  ci_rollback_floor :: int
  ci_platform :: bool
  ci_app_size :: int
  ci_component_sizes :: "int list"
  ci_data_bytes :: nat
  ci_available :: "nat option"
  ci_cached :: bool

text \<open>
  \<open>candidate_leaves\<close> is what a started candidate makes of the live files; \<open>listening\<close>
  whether the old server answers; \<open>polls\<close> the rounds of waiting for the candidate,
  \<open>spawned\<close> what is known of its process.
\<close>

record engine_env = machine_env +
  clock :: "nat \<Rightarrow> nat"
  own_version :: string
  portable :: bool
  activation_token :: "string option"
  activate_without_token :: bool
  listening :: bool
  candidate_leaves :: "tree \<times> string option"
  live_schema :: "nat option"
  snapshot_schema :: "nat option"
  release_schema :: "nat option"
  components :: nat
  fresh_id :: string
  old_boot_id :: "string option"
  polls :: "poll list"
  spawned :: child_info
  activation_reply :: "(string, nat) result"
  candidate_input :: candidate_input

type_synonym 'a eng = "(unit engine_env_ext, 'a) act"
type_synonym 'a eng_result = "(unit engine_env_ext, (business_code, 'a) result) act"

definition now :: "nat eng" where
  "now = (\<lambda>e n d. (Some (clock e n), n, d))"

datatype upgrade_outcome =
    UpgradeCommitted string string
  | UpgradeCancelled
  | FailedOldHealthy business_code
  | ManualRecovery business_code

section \<open>Journal access\<close>

definition load_j :: "journal eng_result" where
  "load_j = ask load_journal (\<lambda>l. ret (Inr (loaded l)))"

definition mutate_journal :: "(journal \<Rightarrow> journal) \<Rightarrow> journal eng_result" where
  "mutate_journal f =
     ask load_j (\<lambda>j0.
     bnd now (\<lambda>t.
     let j = (f j0)\<lparr>updated_at := Some t\<rparr> in
     bnd (write_journal j) (\<lambda>ok. ret (if ok then Inr j else Inl UPDATER_UNAVAILABLE))))"

definition to_state :: "journal_state \<Rightarrow> string \<Rightarrow> journal \<Rightarrow> journal" where
  "to_state s step j = j\<lparr>state := s, last_step := Some step\<rparr>"

definition set_failed_idle :: "business_code \<Rightarrow> journal \<Rightarrow> journal" where
  "set_failed_idle c j = j\<lparr>state := Idle, last_step := Some ''failed'', error := Some c\<rparr>"

definition enter_manual_recovery :: "business_code \<Rightarrow> business_code eng" where
  "enter_manual_recovery c =
     ignoring (mutate_journal (\<lambda>j. j\<lparr>state := ManualRecoveryRequired,
         last_step := Some ''manual_recovery_required'', error := Some c\<rparr>))
       (ret MANUAL_RECOVERY_REQUIRED)"

definition current_version_of :: "string eng_result" where
  "current_version_of =
     ask (need UPDATE_NOT_AVAILABLE id) (\<lambda>_.
     look (\<lambda>d. case pfile d of Present c \<Rightarrow> Inr (cur_current c) | _ \<Rightarrow> Inl UPDATE_NOT_AVAILABLE))"

definition guard_not_manual :: "journal \<Rightarrow> (business_code, unit) result" where
  "guard_not_manual j =
     ensure (state j \<noteq> ManualRecoveryRequired) MANUAL_RECOVERY_REQUIRED"

text \<open>Reading and parsing the cached manifest of a version.\<close>

definition load_cached_manifest :: "unit eng_result" where
  "load_cached_manifest = need_all [UPDATE_NOT_AVAILABLE, ARTIFACT_INVALID, ARTIFACT_INVALID]"

section \<open>Check\<close>

definition u64_wrap :: "nat \<Rightarrow> nat" where
  "u64_wrap n = n mod 2 ^ 64"

definition size_or_zero :: "int \<Rightarrow> nat" where
  "size_or_zero i = (if 0 \<le> i then nat i else 0)"

definition required_bytes :: "candidate_input \<Rightarrow> nat" where
  "required_bytes ci =
     u64_wrap (u64_wrap
       (foldl (\<lambda>acc s. u64_wrap (acc + size_or_zero s)) (size_or_zero (ci_app_size ci))
          (ci_component_sizes ci)
        + ci_data_bytes ci) + 64 * 1024 * 1024)"

definition remote_url_ok :: "string \<Rightarrow> bool" where
  "remote_url_ok url \<longleftrightarrow> starts_with url ''https://'' \<or> starts_with url ''http://''"

definition manifest_available :: "candidate_input \<Rightarrow> bool" where
  "manifest_available ci =
     (case ci_source ci of
        NoSource \<Rightarrow> False
      | PathSource \<Rightarrow> True
      | UrlSource url \<Rightarrow> remote_url_ok url \<and> ci_fetched ci
      | Official \<Rightarrow> ci_fetched ci)"

definition validation_code :: "string list \<Rightarrow> business_code" where
  "validation_code errors =
     (if ''version-downgrade'' \<in> set errors then UPDATE_NOT_AVAILABLE
      else if ''updater-too-old'' \<in> set errors then business_code.UPDATER_TOO_OLD
      else MANIFEST_INVALID)"

definition not_newer :: "string \<Rightarrow> string \<Rightarrow> bool" where
  "not_newer current candidate =
     (case (semver_parse current, semver_parse candidate) of
        (Some cur, Some cand) \<Rightarrow> \<not> semver_is_lt cur cand
      | _ \<Rightarrow> False)"

text \<open>
  \<^verbatim>\<open>load_candidate\<close> up to the caching of the manifest: the version, or the code of
  the first gate that fails.
\<close>

definition load_candidate ::
  "string \<Rightarrow> nat option \<Rightarrow> candidate_input \<Rightarrow> string \<Rightarrow> (business_code, string) result" where
  "load_candidate own schema ci current =
     and_then (ensure (manifest_available ci) UPDATE_NOT_AVAILABLE) (\<lambda>_.
     and_then (ensure (ci_invalid ci = []) (validation_code (ci_invalid ci))) (\<lambda>_.
     and_then (ensure (ci_readable ci \<and> ci_json ci \<and> ci_model ci) MANIFEST_INVALID) (\<lambda>_.
     and_then
       (case check_minimum_updater_version own (ci_minimum ci) of
          Inr _ \<Rightarrow> Inr ()
        | Inl version_gate_error.UPDATER_TOO_OLD \<Rightarrow> Inl business_code.UPDATER_TOO_OLD
        | Inl version_gate_error.SCHEMA_INCOMPATIBLE \<Rightarrow> Inl business_code.SCHEMA_INCOMPATIBLE)
       (\<lambda>_.
     and_then (ensure (\<not> not_newer current (ci_version ci)) UPDATE_NOT_AVAILABLE) (\<lambda>_.
     and_then (ensure (ci_rollback_floor ci \<le> ci_data_schema ci)
                 business_code.SCHEMA_INCOMPATIBLE) (\<lambda>_.
     and_then (ensure (case schema of Some before \<Rightarrow> int before \<le> ci_data_schema ci | None \<Rightarrow> True)
                 business_code.SCHEMA_INCOMPATIBLE) (\<lambda>_.
     and_then (ensure (ci_platform ci) MANIFEST_INVALID) (\<lambda>_.
     and_then (ensure (case ci_available ci of
                         Some a \<Rightarrow> required_bytes ci \<le> a | None \<Rightarrow> False) INSUFFICIENT_SPACE) (\<lambda>_.
     and_then (ensure (ci_cached ci) MANIFEST_INVALID) (\<lambda>_.
       Inr (ci_version ci)))))))))))"

definition phase_check :: "string eng_result" where
  "phase_check =
     ask load_j (\<lambda>j.
     ask (ret (guard_not_manual j)) (\<lambda>_.
     ask current_version_of (\<lambda>current.
     with_env (\<lambda>e.
     let reuse = state j = Checking \<and> last_step j = Some ''checked'' \<and> update_id j \<noteq> None
     in ask (mutate_journal (\<lambda>k.
          (to_state Checking ''checking'' k)\<lparr>
            update_id := (if reuse then update_id k else Some (fresh_id e)),
            from_version := Some current, to_version := None, error := None,
            snapshot := None, child := None\<rparr>)) (\<lambda>_.
        case load_candidate (own_version e) (live_schema e) (candidate_input e) current of
          Inr v \<Rightarrow>
            ask (mutate_journal (\<lambda>k. k\<lparr>to_version := Some v, last_step := Some ''checked''\<rparr>))
              (\<lambda>_. ret (Inr v))
        | Inl c \<Rightarrow>
            ask (mutate_journal (\<lambda>k.
                   if portable e \<and> c = UPDATE_NOT_AVAILABLE
                   then (to_state Idle ''idle'' k)\<lparr>error := None\<rparr>
                   else set_failed_idle c k))
              (\<lambda>_. fail c))))))"

section \<open>Download and preparation\<close>

definition set_staged :: "string \<Rightarrow> bool \<Rightarrow> disk \<Rightarrow> disk" where
  "set_staged u b d = d\<lparr>staged_app := (staged_app d)(u := b)\<rparr>"

text \<open>Every component is specified and repaired; then the application is staged.\<close>

definition stage_all :: "string \<Rightarrow> unit eng_result" where
  "stage_all u =
     with_env (\<lambda>e.
     ask (need_all (replicate (2 * components e) ARTIFACT_INVALID)) (\<lambda>_.
     ask (need_all [ARTIFACT_INVALID, ARTIFACT_INVALID]) (\<lambda>_.
     ask (need ARTIFACT_INVALID (set_staged u True)) (\<lambda>_.
     need_all [ARTIFACT_INVALID, ARTIFACT_INVALID, ARTIFACT_INVALID]))))"

definition phase_download :: "unit eng_result" where
  "phase_download =
     ask load_j (\<lambda>j.
     ask (ret (guard_not_manual j)) (\<lambda>_.
     case update_id j of
       None \<Rightarrow> fail UPDATE_BUSY
     | Some u \<Rightarrow>
     (case to_version j of
        None \<Rightarrow> fail UPDATE_NOT_AVAILABLE
      | Some _ \<Rightarrow>
          if \<not> (state j = Checking \<and> last_step j = Some ''checked'') \<and> state j \<noteq> Downloading
          then fail UPDATE_BUSY
          else
            ask (mutate_journal (to_state Downloading ''downloading'')) (\<lambda>_.
            ask load_cached_manifest (\<lambda>_.
            ask (need ARTIFACT_INVALID id) (\<lambda>_.
            ignoring (effect (set_staged u False)) (
            ask (need ARTIFACT_INVALID id) (\<lambda>_.
            try_or (stage_all u)
              (\<lambda>c. ignoring (effect (set_staged u False)) (
                   ask (mutate_journal (set_failed_idle c)) (\<lambda>_. fail c)))
              (\<lambda>_. ask (mutate_journal (to_state Staged ''staged'')) (\<lambda>_. ret (Inr ())))))))))))"

definition reverify_staging :: "unit eng_result" where
  "reverify_staging =
     ask load_cached_manifest (\<lambda>_.
     ask (need ARTIFACT_INVALID id) (\<lambda>_.
     with_env (\<lambda>e.
     ask (need_all (replicate (2 * components e) ARTIFACT_INVALID)) (\<lambda>_.
     ask (if portable e then need ARTIFACT_INVALID id else ret (Inr ())) (\<lambda>_.
     ask load_j (\<lambda>j.
     case update_id j of
       None \<Rightarrow> fail UPDATE_NOT_READY
     | Some u \<Rightarrow>
         ask (need ARTIFACT_INVALID id) (\<lambda>_.
         ask (need UPDATE_NOT_READY id) (\<lambda>_.
         look (\<lambda>d. if staged_app d u then Inr () else Inl UPDATE_NOT_READY)))))))))"

definition phase_prepare_install :: "unit eng_result" where
  "phase_prepare_install =
     ask load_j (\<lambda>j.
     ask (ret (guard_not_manual j)) (\<lambda>_.
     if state j = Staged then
       (case to_version j of
          None \<Rightarrow> fail UPDATE_NOT_READY
        | Some _ \<Rightarrow>
            ask (mutate_journal (to_state Verifying ''verifying'')) (\<lambda>_.
            try_or reverify_staging
              (\<lambda>c. ask (mutate_journal (\<lambda>k. (to_state Staged ''staged'' k)\<lparr>error := Some c\<rparr>))
                     (\<lambda>_. fail c))
              (\<lambda>_. ask (mutate_journal (to_state Staged ''staged'')) (\<lambda>_. ret (Inr ())))))
     else if state j = Checking \<and> last_step j = Some ''checked'' then fail UPDATE_NOT_READY
     else fail UPDATE_BUSY))"

section \<open>Rollback\<close>

definition stop_server :: "bool eng" where
  "stop_server = effect (\<lambda>d. d\<lparr>server := None\<rparr>)"

definition restart_old_and_verify :: "bool eng" where
  "restart_old_and_verify =
     try_or
       (ask (need () id) (\<lambda>_.
        ask (look (\<lambda>d. case pfile d of Present c \<Rightarrow> Inr (cur_current c) | _ \<Rightarrow> Inl ())) (\<lambda>v.
        ask (need_all [(), (), (), (), ()]) (\<lambda>_.
        ask (need () (\<lambda>d. d\<lparr>server := Some v\<rparr>)) (\<lambda>_.
        need () id)))))
       (\<lambda>_. ret False) (\<lambda>_. ret True)"

definition switched_states :: "journal_state list" where
  "switched_states = [SnapshotVerified, Migrating, Switched, CandidateStarting, CandidateReady,
     Activating, Committed]"

definition restore_data :: "journal \<Rightarrow> unit eng_result" where
  "restore_data j =
     (if state j \<in> set switched_states
      then case snapshot j of
          None \<Rightarrow> fail ROLLBACK_UNAVAILABLE
        | Some s \<Rightarrow>
            try_or (snapshot_restore (snap_id s)) (\<lambda>_. fail ROLLBACK_UNAVAILABLE) (\<lambda>_. ret (Inr ()))
      else ret (Inr ()))"

definition stop_candidate :: "journal \<Rightarrow> bool \<Rightarrow> bool eng" where
  "stop_candidate j live_child =
     (if live_child then stop_server
      else case child j of
          Some info \<Rightarrow>
            if 0 < child_pid info \<and> child_exe info \<noteq> [] then stop_server else ret True
        | None \<Rightarrow> ret True)"

definition rollback_target :: "journal \<Rightarrow> string option" where
  "rollback_target j =
     (case from_version j of Some v \<Rightarrow> Some v | None \<Rightarrow> current_version j)"

definition rollback_procedure :: "journal \<Rightarrow> bool \<Rightarrow> bool \<Rightarrow> unit eng_result" where
  "rollback_procedure j live_child restart_old =
     ignoring (mutate_journal (\<lambda>k. k\<lparr>last_step := Some ''rolling_back''\<rparr>)) (
     ignoring (stop_candidate j live_child) (
     ask (restore_data j) (\<lambda>_.
     case rollback_target j of
       None \<Rightarrow> fail ROLLBACK_UNAVAILABLE
     | Some from \<Rightarrow>
         ask (need ROLLBACK_UNAVAILABLE
                (\<lambda>d. d\<lparr>pfile := Present (current_state_new from (previous_version j))\<rparr>)) (\<lambda>_.
         ask (if restart_old
              then bnd restart_old_and_verify
                     (\<lambda>ok. ret (if ok then Inr () else Inl ROLLBACK_UNAVAILABLE))
              else ret (Inr ())) (\<lambda>_.
         ask (mutate_journal (\<lambda>k. k\<lparr>state := Idle, child := None,
                last_step := Some ''failed''\<rparr>)) (\<lambda>_.
         ret (Inr ())))))))"

definition cancellable_states :: "journal_state list" where
  "cancellable_states = [Checking, Downloading, Verifying, Staged, WaitingIdle]"

definition rollbackable_states :: "journal_state list" where
  "rollbackable_states = [Draining, Stopped, Snapshotting, SnapshotVerified, Migrating, Switched,
     CandidateStarting, CandidateReady, Activating]"

definition phase_rollback :: "unit eng_result" where
  "phase_rollback =
     ask load_j (\<lambda>j.
     ask (ret (guard_not_manual j)) (\<lambda>_.
     with_env (\<lambda>e.
     if state j \<in> set cancellable_states then
       ask (mutate_journal (\<lambda>k. k\<lparr>last_step := Some ''rolling_back''\<rparr>)) (\<lambda>_.
       ignoring (case update_id j of Some u \<Rightarrow> effect (set_staged u False) | None \<Rightarrow> ret True) (
       ask (mutate_journal (\<lambda>k. (to_state Idle ''idle'' k)\<lparr>error := None\<rparr>)) (\<lambda>_. ret (Inr ()))))
     else if portable e \<or> \<not> (state j \<in> set rollbackable_states \<and> snapshot j \<noteq> None)
     then fail ROLLBACK_UNAVAILABLE
     else try_or (rollback_procedure j False False)
            (\<lambda>c. bnd (enter_manual_recovery c) fail) (\<lambda>_. ret (Inr ())))))"

section \<open>Failure exits\<close>

definition fail_before_snapshot :: "business_code \<Rightarrow> upgrade_outcome eng" where
  "fail_before_snapshot c =
     ignoring (mutate_journal (set_failed_idle c)) (ret (FailedOldHealthy c))"

definition fail_after_stop :: "business_code \<Rightarrow> bool \<Rightarrow> upgrade_outcome eng" where
  "fail_after_stop c was_running =
     ignoring (mutate_journal (\<lambda>k. k\<lparr>last_step := Some ''rolling_back''\<rparr>)) (
     ignoring (if was_running then restart_old_and_verify else ret True) (
     ignoring (mutate_journal (set_failed_idle c)) (ret (FailedOldHealthy c))))"

definition fail_after_switch :: "business_code \<Rightarrow> bool \<Rightarrow> upgrade_outcome eng" where
  "fail_after_switch c was_running =
     try_or load_j (\<lambda>c'. ret (ManualRecovery c')) (\<lambda>j.
     ignoring (mutate_journal (\<lambda>k. k\<lparr>error := Some c\<rparr>)) (
     try_or (rollback_procedure j False was_running)
       (\<lambda>rc. bnd (enter_manual_recovery rc) (\<lambda>c'. ret (ManualRecovery c')))
       (\<lambda>_. ret (FailedOldHealthy c))))"

definition fail_candidate :: "business_code \<Rightarrow> bool \<Rightarrow> upgrade_outcome eng" where
  "fail_candidate c was_running = ignoring stop_server (fail_after_switch c was_running)"

section \<open>Installation\<close>

definition drain_old_server :: "bool \<Rightarrow> (unit engine_env_ext, (unit, unit) result) act" where
  "drain_old_server running =
     (if running then need () (\<lambda>d. d\<lparr>server := None\<rparr>) else ret (Inr ()))"

definition install_app_dir :: "string \<Rightarrow> string \<Rightarrow> unit eng_result" where
  "install_app_dir u to =
     bnd (look (\<lambda>d. version_dir d to)) (\<lambda>present.
     if present
     then ask load_cached_manifest (\<lambda>_. need_all [ARTIFACT_INVALID, ARTIFACT_INVALID, ARTIFACT_INVALID])
     else ask (need ARTIFACT_INVALID id) (\<lambda>_.
          need ARTIFACT_INVALID (\<lambda>d. (set_staged u False d)
            \<lparr>version_dir := (version_dir d)(to := True)\<rparr>)))"

definition write_switched_pointer :: "string \<Rightarrow> string \<Rightarrow> unit eng_result" where
  "write_switched_pointer from to =
     need ROLLBACK_UNAVAILABLE (\<lambda>d. d\<lparr>pfile := Present (current_state_new to (Some from))\<rparr>)"

definition start_candidate :: "string \<Rightarrow> unit eng_result" where
  "start_candidate to =
     with_env (\<lambda>e.
     ask (need_all [ARTIFACT_INVALID, UPDATE_NOT_AVAILABLE, ARTIFACT_INVALID, ARTIFACT_INVALID,
            ARTIFACT_INVALID]) (\<lambda>_.
     need UPDATER_UNAVAILABLE (\<lambda>d. d\<lparr>server := Some to,
       live_data := Some (fst (candidate_leaves e)), live_config := snd (candidate_leaves e)\<rparr>)))"

definition probe_config_of :: "unit engine_env_ext machine_env_scheme \<Rightarrow> string \<Rightarrow> probe_config" where
  "probe_config_of e to =
     \<lparr>pc_portable = portable e, pc_token = activation_token e,
      pc_without_token = activate_without_token e, pc_old_boot = old_boot_id e,
      pc_version = to, pc_schema = release_schema e\<rparr>"

definition candidate_ready :: "string \<Rightarrow> unit eng_result" where
  "candidate_ready to =
     with_env (\<lambda>e.
     ask (need UPDATER_UNAVAILABLE id) (\<lambda>_.
     case wait_candidate_ready (probe_config_of e to) False (polls e) of
       Inl c \<Rightarrow> fail c
     | Inr _ \<Rightarrow> ret (Inr ())))"

definition activating :: "unit eng_result" where
  "activating =
     with_env (\<lambda>e.
     ask (need UPDATER_UNAVAILABLE id) (\<lambda>_.
     case activate_candidate (activation_token e) (activate_without_token e) (activation_reply e) of
       Inl (c, _) \<Rightarrow> fail c
     | Inr _ \<Rightarrow> ret (Inr ())))"

text \<open>The steps after the journal says committed.\<close>

definition finish_committed :: "string \<Rightarrow> string \<Rightarrow> string \<Rightarrow> upgrade_outcome eng" where
  "finish_committed u from to =
     with_env (\<lambda>e.
     try_or (if portable e then need MANUAL_RECOVERY_REQUIRED id else ret (Inr ()))
       (\<lambda>c. ret (ManualRecovery c)) (\<lambda>_.
     ignoring (effect (set_staged u False)) (
     ignoring (mutate_journal (to_state Cleaning ''cleaning'')) (
     try_or (mutate_journal (\<lambda>k. (to_state Idle ''idle'' k)\<lparr>error := None\<rparr>))
       (\<lambda>c. ret (ManualRecovery c)) (\<lambda>_.
     ret (UpgradeCommitted from to))))))"

text \<open>From the started candidate to the commit.\<close>

definition run_candidate ::
  "string \<Rightarrow> string \<Rightarrow> string \<Rightarrow> bool \<Rightarrow> upgrade_outcome eng" where
  "run_candidate u from to was_running =
     with_env (\<lambda>e.
     try_or (mutate_journal (\<lambda>k. (to_state CandidateStarting ''candidate_starting'' k)
         \<lparr>child := Some (spawned e)\<rparr>))
       (\<lambda>c. fail_candidate c was_running) (\<lambda>_.
     try_or (candidate_ready to) (\<lambda>c. fail_candidate c was_running) (\<lambda>_.
     try_or (mutate_journal (to_state CandidateReady ''candidate_ready''))
       (\<lambda>c. fail_candidate c was_running) (\<lambda>_.
     try_or (mutate_journal (to_state Activating ''activating''))
       (\<lambda>c. fail_candidate c was_running) (\<lambda>_.
     try_or activating (\<lambda>c. fail_candidate c was_running) (\<lambda>_.
     try_or (if portable e then need_all [ARTIFACT_INVALID, ARTIFACT_INVALID, ARTIFACT_INVALID]
             else ret (Inr ())) (\<lambda>c. fail_candidate c was_running) (\<lambda>_.
     try_or (mutate_journal (\<lambda>k. (to_state Committed ''committed'' k)\<lparr>error := None\<rparr>))
       (\<lambda>c. ret (ManualRecovery c)) (\<lambda>_.
     finish_committed u from to))))))))"

text \<open>From the verified snapshot to the started candidate.\<close>

definition switch_over ::
  "string \<Rightarrow> string \<Rightarrow> string \<Rightarrow> bool \<Rightarrow> upgrade_outcome eng" where
  "switch_over u from to was_running =
     try_or (mutate_journal (to_state Migrating ''migrating''))
       (\<lambda>c. fail_after_stop c was_running) (\<lambda>_.
     try_or (install_app_dir u to) (\<lambda>c. fail_after_switch c was_running) (\<lambda>_.
     try_or (mutate_journal (to_state Switched ''switched''))
       (\<lambda>c. fail_after_switch c was_running) (\<lambda>_.
     try_or (write_switched_pointer from to) (\<lambda>c. fail_after_switch c was_running) (\<lambda>_.
     try_or (start_candidate to) (\<lambda>c. fail_after_switch c was_running) (\<lambda>_.
     run_candidate u from to was_running)))))"

definition take_snapshot :: "string \<Rightarrow> unit eng_result" where
  "take_snapshot u =
     with_env (\<lambda>e.
     try_or (snapshot_create u) (\<lambda>_. fail ARTIFACT_INVALID) (\<lambda>snap.
     ask (mutate_journal (\<lambda>k. (to_state SnapshotVerified ''snapshot_verified'' k)
            \<lparr>snapshot := Some snap, data_schema_before := live_schema e,
             data_schema_after := snapshot_schema e\<rparr>)) (\<lambda>_.
     ret (Inr ()))))"

definition install_downloaded :: "string \<Rightarrow> upgrade_outcome eng" where
  "install_downloaded to =
     try_or (mutate_journal (to_state WaitingIdle ''waiting_idle'')) fail_before_snapshot (\<lambda>_.
     try_or load_j fail_before_snapshot (\<lambda>j.
     case update_id j of
       None \<Rightarrow> fail_before_snapshot ARTIFACT_INVALID
     | Some u \<Rightarrow>
         let from = (case rollback_target j of Some v \<Rightarrow> v | None \<Rightarrow> []) in
         with_env (\<lambda>e.
         try_or (drain_old_server (listening e))
           (\<lambda>_. ignoring (mutate_journal (\<lambda>k. (to_state Staged ''staged'' k)\<lparr>error := Some UPDATE_BUSY\<rparr>))
                (ret UpgradeCancelled)) (\<lambda>_.
         try_or (mutate_journal (to_state Stopped ''stopped'')) fail_before_snapshot (\<lambda>_.
         try_or (mutate_journal (to_state Snapshotting ''snapshotting'')) fail_before_snapshot (\<lambda>_.
         try_or (take_snapshot u) (\<lambda>c. fail_after_stop c (listening e)) (\<lambda>_.
         switch_over u from to (listening e))))))))"

definition install_staged :: "upgrade_outcome eng" where
  "install_staged =
     try_or phase_prepare_install
       (\<lambda>c. ignoring (mutate_journal (set_failed_idle c)) (ret (FailedOldHealthy c))) (\<lambda>_.
     try_or
       (ask load_j (\<lambda>j.
        case to_version j of
          None \<Rightarrow> fail UPDATE_NOT_READY
        | Some v \<Rightarrow> ask load_cached_manifest (\<lambda>_. ret (Inr v))))
       (\<lambda>c. ret (FailedOldHealthy c)) install_downloaded)"

definition run_full :: "upgrade_outcome eng" where
  "run_full =
     try_or phase_check (\<lambda>c. ret (FailedOldHealthy c)) (\<lambda>to.
     try_or phase_download (\<lambda>c. ret (FailedOldHealthy c)) (\<lambda>_.
     install_downloaded to))"

end
