(* ===== verification/Recovery.thy ===== *)
theory Recovery
  imports Engine
begin

text \<open>
  What the launcher does at startup with an unfinished journal
  (\<^verbatim>\<open>updater/src/upgrade/recovery.rs\<close>): nothing is started, the disk and the journal
  are brought into a final state.
\<close>

section \<open>Recovery\<close>

datatype recovery_outcome =
    NothingToDo
  | Aborted
  | StagedResumable
  | RolledBack
  | CommittedFinished string
  | ManualRequired

record recovery_report =
  from_state :: "journal_state option"
  outcome :: recovery_outcome

definition is_manual :: "recovery_report \<Rightarrow> bool" where
  "is_manual r \<longleftrightarrow> outcome r = ManualRequired"

definition report :: "journal \<Rightarrow> recovery_outcome \<Rightarrow> recovery_report eng" where
  "report j r = ret \<lparr>from_state = Some (state j), outcome = r\<rparr>"

definition finish_idle :: "journal \<Rightarrow> recovery_report eng" where
  "finish_idle j =
     ignoring (write_journal (set_failed_idle ARTIFACT_INVALID j)) (report j Aborted)"

definition finish_manual :: "journal \<Rightarrow> recovery_report eng" where
  "finish_manual j =
     ignoring (write_journal (j\<lparr>state := ManualRecoveryRequired,
         last_step := Some ''manual_recovery_required'', error := Some ROLLBACK_UNAVAILABLE\<rparr>))
       (report j ManualRequired)"

text \<open>The application staged for the journal's transaction is there and verifies.\<close>

definition staging_intact :: "journal \<Rightarrow> bool eng" where
  "staging_intact j =
     (case (update_id j, to_version j) of
        (Some u, Some _) \<Rightarrow>
          bnd (look (\<lambda>d. staged_app d u)) (\<lambda>there.
          if \<not> there then ret False
          else bnd (need_all [(), (), (), (), (), ()])
                 (\<lambda>r. ret (case r of Inr _ \<Rightarrow> True | Inl _ \<Rightarrow> False)))
      | _ \<Rightarrow> ret False)"

definition recover_pre_install :: "journal \<Rightarrow> recovery_report eng" where
  "recover_pre_install j =
     bnd (staging_intact j) (\<lambda>intact.
     if intact
     then ignoring (write_journal ((to_state Staged ''staged'' j)
              \<lparr>child := None, error := (if state j = Draining then Some UPDATE_BUSY else None)\<rparr>))
            (report j StagedResumable)
     else ignoring (case update_id j of
              Some u \<Rightarrow> effect (set_staged u False) | None \<Rightarrow> ret True)
            (finish_idle j))"

definition recover_snapshotting :: "journal \<Rightarrow> recovery_report eng" where
  "recover_snapshotting j =
     (case update_id j of
        None \<Rightarrow> finish_idle j
      | Some u \<Rightarrow>
          try_or (snapshot_verify u)
            (\<lambda>_. ignoring (effect (set_backup u None)) (finish_idle j))
            (\<lambda>_. try_or (rollback_procedure j False False)
                   (\<lambda>_. finish_manual j) (\<lambda>_. report j RolledBack)))"

definition recover_switched :: "journal \<Rightarrow> recovery_report eng" where
  "recover_switched j =
     (if snapshot j = None then finish_manual j
      else try_or (rollback_procedure j False False)
             (\<lambda>_. finish_manual j) (\<lambda>_. report j RolledBack))"

definition pointer_matches :: "string option \<Rightarrow> bool eng" where
  "pointer_matches v =
     (case v of
        None \<Rightarrow> ret False
      | Some expected \<Rightarrow>
          bnd (effect id) (\<lambda>ok.
          look (\<lambda>d. ok \<and> (case pfile d of Present c \<Rightarrow> cur_current c = expected | _ \<Rightarrow> False))))"

definition recover_committed :: "journal \<Rightarrow> recovery_report eng" where
  "recover_committed j =
     (case to_version j of
        None \<Rightarrow> finish_manual j
      | Some to \<Rightarrow>
          bnd (pointer_matches (Some to)) (\<lambda>m.
          if \<not> m then finish_manual j
          else
            ignoring (case update_id j of
                Some u \<Rightarrow> effect (set_staged u False) | None \<Rightarrow> ret True) (
            ignoring (write_journal ((to_state Idle ''idle'' j)\<lparr>error := None\<rparr>))
              (report j (CommittedFinished to)))))"

definition recover_on_startup :: "(unit engine_env_ext, (business_code, recovery_report) result) act" where
  "recover_on_startup =
     ask load_journal (\<lambda>l.
     let j = loaded l
     in bnd
       (case state j of
          Idle \<Rightarrow> report j NothingToDo
        | ManualRecoveryRequired \<Rightarrow> report j ManualRequired
        | Checking \<Rightarrow> recover_pre_install j
        | Downloading \<Rightarrow> recover_pre_install j
        | Verifying \<Rightarrow> recover_pre_install j
        | Staged \<Rightarrow> recover_pre_install j
        | WaitingIdle \<Rightarrow> recover_pre_install j
        | Draining \<Rightarrow> recover_pre_install j
        | Stopped \<Rightarrow> finish_idle j
        | Snapshotting \<Rightarrow> recover_snapshotting j
        | SnapshotVerified \<Rightarrow>
            bnd (pointer_matches (from_version j)) (\<lambda>m.
            if m then finish_idle j else recover_switched j)
        | Migrating \<Rightarrow>
            bnd (pointer_matches (from_version j)) (\<lambda>m.
            if m then finish_idle j else recover_switched j)
        | Switched \<Rightarrow> recover_switched j
        | CandidateStarting \<Rightarrow> recover_switched j
        | CandidateReady \<Rightarrow> recover_switched j
        | Activating \<Rightarrow> recover_switched j
        | Committed \<Rightarrow> recover_committed j
        | Cleaning \<Rightarrow> recover_committed j)
       (\<lambda>r. ret (Inr (if was_reset l then r\<lparr>from_state := None\<rparr> else r))))"

end
