(* ===== verification/CrashSafety.thy ===== *)
theory CrashSafety
  imports Recovery
begin

text \<open>
  What an interrupted upgrade leaves behind. A transaction is the old version with the
  content of its live files, the new version and the update id. The invariant of every
  crash point is \<open>crash_ok\<close>; the theorems say what the installation promises for each
  outcome and each crash point, and what the recovery at startup makes of it.
\<close>

section \<open>The states of a transaction\<close>

record tx =
  tx_from :: string
  tx_to :: string
  tx_id :: string
  tx_old :: "tree \<times> string option"

definition pointer :: "disk \<Rightarrow> string option" where
  "pointer d = (case pfile d of Present c \<Rightarrow> Some (cur_current c) | _ \<Rightarrow> None)"

definition old_in_place :: "tx \<Rightarrow> disk \<Rightarrow> bool" where
  "old_in_place T d \<longleftrightarrow> pointer d = Some (tx_from T) \<and> content d = tx_old T"

definition tx_journal :: "tx \<Rightarrow> journal \<Rightarrow> bool" where
  "tx_journal T j \<longleftrightarrow> from_version j = Some (tx_from T) \<and> to_version j = Some (tx_to T)
     \<and> update_id j = Some (tx_id T)"

definition restorable :: "tx \<Rightarrow> disk \<Rightarrow> journal \<Rightarrow> bool" where
  "restorable T d j \<longleftrightarrow>
     (\<exists>s. snapshot j = Some s
        \<and> backups d (snap_id s) = Some (Complete (fst (tx_old T)) (snd (tx_old T))))"

definition early_states :: "journal_state set" where
  "early_states = {Checking, Downloading, Verifying, Staged, WaitingIdle, Draining, Stopped,
     Snapshotting}"

definition late_states :: "journal_state set" where
  "late_states = {Switched, CandidateStarting, CandidateReady, Activating}"

text \<open>Before the snapshot is verified the old version is simply in place.\<close>

definition early :: "tx \<Rightarrow> disk \<Rightarrow> bool" where
  "early T d \<longleftrightarrow>
     (\<exists>j. has_journal d j \<and> tx_journal T j \<and> state j \<in> early_states) \<and> old_in_place T d"

text \<open>
  With a verified snapshot and nothing switched. \<open>exposed\<close> is the same without the
  live files: a restore that started from here and was cut short.
\<close>

definition exposed :: "tx \<Rightarrow> disk \<Rightarrow> bool" where
  "exposed T d \<longleftrightarrow>
     (\<exists>j. has_journal d j \<and> tx_journal T j \<and> state j \<in> {SnapshotVerified, Migrating}
        \<and> restorable T d j) \<and> pointer d = Some (tx_from T)"

definition unswitched :: "tx \<Rightarrow> disk \<Rightarrow> bool" where
  "unswitched T d \<longleftrightarrow> exposed T d \<and> content d = tx_old T"

definition late :: "tx \<Rightarrow> disk \<Rightarrow> bool" where
  "late T d \<longleftrightarrow>
     (\<exists>j. has_journal d j \<and> tx_journal T j \<and> state j \<in> late_states \<and> restorable T d j)
     \<and> pointer d \<in> {Some (tx_from T), Some (tx_to T)}"

definition committed :: "tx \<Rightarrow> disk \<Rightarrow> bool" where
  "committed T d \<longleftrightarrow>
     (\<exists>j. has_journal d j \<and> to_version j = Some (tx_to T) \<and> state j \<in> {Committed, Cleaning})
     \<and> pointer d = Some (tx_to T)"

definition settled :: "tx \<Rightarrow> disk \<Rightarrow> bool" where
  "settled T d \<longleftrightarrow> (\<exists>j. has_journal d j \<and> state j = Idle)
     \<and> (old_in_place T d \<or> pointer d = Some (tx_to T))"

definition manual :: "disk \<Rightarrow> bool" where
  "manual d \<longleftrightarrow> (\<exists>j. has_journal d j \<and> state j = ManualRecoveryRequired)"

definition recoverable :: "tx \<Rightarrow> disk \<Rightarrow> bool" where
  "recoverable T d \<longleftrightarrow>
     early T d \<or> unswitched T d \<or> late T d \<or> committed T d \<or> settled T d \<or> manual d"

definition crash_ok :: "tx \<Rightarrow> disk \<Rightarrow> bool" where
  "crash_ok T d \<longleftrightarrow> recoverable T d \<or> exposed T d"

named_theorems phase_defs \<open>definitions of the phases of a transaction\<close>

lemmas phase_unfold [phase_defs] = early_def exposed_def unswitched_def late_def
  committed_def settled_def manual_def old_in_place_def pointer_def

lemma crash_okI [intro]:
  "early T d \<Longrightarrow> crash_ok T d" "unswitched T d \<Longrightarrow> crash_ok T d" "late T d \<Longrightarrow> crash_ok T d"
  "committed T d \<Longrightarrow> crash_ok T d" "settled T d \<Longrightarrow> crash_ok T d" "manual d \<Longrightarrow> crash_ok T d"
  "exposed T d \<Longrightarrow> crash_ok T d" "recoverable T d \<Longrightarrow> crash_ok T d"
  by (auto simp: crash_ok_def recoverable_def)

section \<open>Rules for the engine's actions\<close>

text \<open>One rule for each kind of step, with the error exit and the continuation.\<close>

lemma wp_try_need:
  "C d \<Longrightarrow> wp e (h c) Q C d \<Longrightarrow> wp e (k ()) Q C (f d) \<Longrightarrow> wp e (try_or (need c f) h k) Q C d"
  by (intro wp_try_or wp_need) simp_all

lemma wp_ask_need:
  "C d \<Longrightarrow> Q (Inl c) d \<Longrightarrow> wp e (k ()) Q C (f d) \<Longrightarrow> wp e (ask (need c f) k) Q C d"
  unfolding ask_def by (rule wp_try_need) (auto intro: wp_fail)

lemma wp_try_checks:
  "C d \<Longrightarrow> (\<And>c. c \<in> set cs \<Longrightarrow> wp e (h c) Q C d) \<Longrightarrow> wp e (k ()) Q C d
   \<Longrightarrow> wp e (try_or (need_all cs) h k) Q C d"
  by (intro wp_try_or wp_need_all) simp_all

lemma wp_ask_checks:
  "C d \<Longrightarrow> (\<And>c. c \<in> set cs \<Longrightarrow> Q (Inl c) d) \<Longrightarrow> wp e (k ()) Q C d
   \<Longrightarrow> wp e (ask (need_all cs) k) Q C d"
  unfolding ask_def by (rule wp_try_checks) (auto intro: wp_fail)

lemma wp_try_pure:
  "(\<And>c. r = Inl c \<Longrightarrow> wp e (h c) Q C d) \<Longrightarrow> (\<And>x. r = Inr x \<Longrightarrow> wp e (k x) Q C d)
   \<Longrightarrow> wp e (try_or (ret r) h k) Q C d"
  by (intro wp_try_or wp_ret) (auto split: sum.splits)

lemma wp_ask_pure:
  "(\<And>c. r = Inl c \<Longrightarrow> Q (Inl c) d) \<Longrightarrow> (\<And>x. r = Inr x \<Longrightarrow> wp e (k x) Q C d)
   \<Longrightarrow> wp e (ask (ret r) k) Q C d"
  unfolding ask_def by (rule wp_try_pure) (auto intro: wp_fail)

lemma wp_ask_look:
  "(\<And>c. f d = Inl c \<Longrightarrow> Q (Inl c) d) \<Longrightarrow> (\<And>x. f d = Inr x \<Longrightarrow> wp e (k x) Q C d)
   \<Longrightarrow> wp e (ask (look f) k) Q C d"
  by (intro wp_ask wp_look) (auto intro: wp_fail split: sum.splits)

lemma wp_bnd_look: "wp e (k (f d)) Q C d \<Longrightarrow> wp e (bnd (look f) k) Q C d"
  by (intro wp_bnd wp_look)

lemma wp_ignoring_effect:
  "C d \<Longrightarrow> wp e k Q C d \<Longrightarrow> wp e k Q C (f d) \<Longrightarrow> wp e (ignoring (effect f) k) Q C d"
  by (intro wp_ignoring wp_effect)

lemma wp_now [wp_rules]: "(\<And>t. Q t d) \<Longrightarrow> wp e now Q C d"
  by (simp add: wp_def now_def)

lemma wp_load_j:
  "has_journal d j \<Longrightarrow> C d \<Longrightarrow> Q (Inl UPDATER_UNAVAILABLE) d \<Longrightarrow> Q (Inr j) d \<Longrightarrow> wp e load_j Q C d"
  unfolding load_j_def by (rule wp_ask, rule wp_load_journal) (auto intro!: wp_rules)

lemma wp_write_journal:
  "C d \<Longrightarrow> Q False d \<Longrightarrow> Q True (d\<lparr>jfile := Present j\<rparr>) \<Longrightarrow> wp e (write_journal j) Q C d"
  unfolding write_journal_def by (rule wp_effect)

lemma wp_mutate:
  assumes "has_journal d j" "C d" "Q (Inl UPDATER_UNAVAILABLE) d"
    "\<And>t. Q (Inr ((f j)\<lparr>updated_at := Some t\<rparr>)) (d\<lparr>jfile := Present ((f j)\<lparr>updated_at := Some t\<rparr>)\<rparr>)"
  shows "wp e (mutate_journal f) Q C d"
  unfolding mutate_journal_def
  by (rule wp_ask, rule wp_load_j, rule assms(1))
    (use assms(2-4) in \<open>auto intro!: wp_fail wp_bnd wp_now wp_write_journal wp_ret simp: Let_def\<close>)

text \<open>A mutation whose result is ignored: nothing or the new journal.\<close>

lemma wp_mutate_ignored:
  assumes "has_journal d j" "C d" "wp e k Q C d"
    "\<And>t. wp e k Q C (d\<lparr>jfile := Present ((f j)\<lparr>updated_at := Some t\<rparr>)\<rparr>)"
  shows "wp e (ignoring (mutate_journal f) k) Q C d"
  by (rule wp_ignoring, rule wp_mutate) (rule assms)+

text \<open>A mutation with an error exit and a continuation.\<close>

lemma wp_mutate_or:
  assumes "has_journal d j" "C d" "wp e (h UPDATER_UNAVAILABLE) Q C d"
    "\<And>t. wp e (k ((f j)\<lparr>updated_at := Some t\<rparr>)) Q C (d\<lparr>jfile := Present ((f j)\<lparr>updated_at := Some t\<rparr>)\<rparr>)"
  shows "wp e (try_or (mutate_journal f) h k) Q C d"
  by (rule wp_try_or, rule wp_mutate, rule assms(1), rule assms(2)) (simp_all add: assms(3,4))

lemma wp_mutate_ask:
  assumes "has_journal d j" "C d" "Q (Inl UPDATER_UNAVAILABLE) d"
    "\<And>t. wp e (k ((f j)\<lparr>updated_at := Some t\<rparr>)) Q C (d\<lparr>jfile := Present ((f j)\<lparr>updated_at := Some t\<rparr>)\<rparr>)"
  shows "wp e (ask (mutate_journal f) k) Q C d"
  unfolding ask_def
  by (rule wp_mutate_or, rule assms(1), rule assms(2), rule wp_fail, rule assms(3), rule assms(4))

lemma has_journal_write [simp]:
  "has_journal (d\<lparr>jfile := Present j\<rparr>) k \<longleftrightarrow> k = j \<and> schema_version j = STATE_SCHEMA_VERSION"
  by (auto simp: has_journal_def)

lemma has_journal_other [simp]:
  "has_journal (d\<lparr>pfile := p\<rparr>) j = has_journal d j" "has_journal (d\<lparr>backups := b\<rparr>) j = has_journal d j"
  "has_journal (d\<lparr>staged_app := a\<rparr>) j = has_journal d j"
  "has_journal (d\<lparr>version_dir := v\<rparr>) j = has_journal d j"
  "has_journal (d\<lparr>server := s\<rparr>) j = has_journal d j"
  "has_journal (d\<lparr>live_data := t\<rparr>) j = has_journal d j"
  "has_journal (d\<lparr>live_config := c\<rparr>) j = has_journal d j"
  by (simp_all add: has_journal_def)

lemma has_journal_unique: "has_journal d j \<Longrightarrow> has_journal d k \<Longrightarrow> j = k"
  by (simp add: has_journal_def)

lemma has_journal_schema: "has_journal d j \<Longrightarrow> schema_version j = STATE_SCHEMA_VERSION"
  by (simp add: has_journal_def)

lemma pointer_simps [simp]:
  "pointer (d\<lparr>jfile := x\<rparr>) = pointer d" "pointer (d\<lparr>backups := b\<rparr>) = pointer d"
  "pointer (d\<lparr>staged_app := a\<rparr>) = pointer d" "pointer (d\<lparr>version_dir := v\<rparr>) = pointer d"
  "pointer (d\<lparr>server := s\<rparr>) = pointer d" "pointer (d\<lparr>live_data := t\<rparr>) = pointer d"
  "pointer (d\<lparr>live_config := c\<rparr>) = pointer d"
  "pointer (d\<lparr>pfile := Present p\<rparr>) = Some (cur_current p)"
  by (simp_all add: pointer_def)

lemma cur_current_new [simp]: "cur_current (current_state_new v p) = v"
  by (simp add: current_state_new_def)

section \<open>The rollback\<close>

lemma wp_conseq:
  "wp e m Q' C' d \<Longrightarrow> (\<And>x d'. Q' x d' \<Longrightarrow> Q x d') \<Longrightarrow> (\<And>d'. C' d' \<Longrightarrow> C d') \<Longrightarrow> wp e m Q C d"
  by (rule wp_mono)

lemma wp_restart_old:
  assumes "C d" "Q False d" "\<And>v. C (d\<lparr>server := v\<rparr>)" "\<And>ok v. Q ok (d\<lparr>server := v\<rparr>)"
  shows "wp e restart_old_and_verify Q C d"
  unfolding restart_old_and_verify_def
proof (intro wp_try_or wp_ask_need wp_ask_look wp_ask_checks wp_need)
qed (use assms in \<open>simp_all add: wp_ret\<close>)

lemma wp_stop_candidate:
  assumes "C d" "\<And>v. Q v d" "\<And>v. Q v (d\<lparr>server := None\<rparr>)"
  shows "wp e (stop_candidate j live) Q C d"
  unfolding stop_candidate_def stop_server_def
  using assms by (auto intro!: wp_rules split: option.splits)

lemma wp_stop_server:
  assumes "C d" "\<And>v. Q v d" "\<And>v. Q v (d\<lparr>server := None\<rparr>)"
  shows "wp e stop_server Q C d"
  unfolding stop_server_def using assms by (auto intro!: wp_rules)

text \<open>
  While a rollback of the journal \<open>j\<close> from the disk \<open>d\<close> runs: the state, the snapshot
  and the versions in the journal stay, so do the backups, the pointer is the one the
  rollback began with or the old one, and the live files stay unless the state asks for
  their restoration.
\<close>

definition rolling :: "tx \<Rightarrow> journal \<Rightarrow> disk \<Rightarrow> disk \<Rightarrow> bool" where
  "rolling T j d d' \<longleftrightarrow>
     (\<exists>k. has_journal d' k \<and> tx_journal T k \<and> state k = state j \<and> snapshot k = snapshot j)
     \<and> backups d' = backups d \<and> pointer d' \<in> {pointer d, Some (tx_from T)}
     \<and> (state j \<in> set switched_states \<or> content d' = content d)"

definition rolled_back :: "tx \<Rightarrow> disk \<Rightarrow> bool" where
  "rolled_back T d \<longleftrightarrow> (\<exists>k. has_journal d k \<and> state k = Idle) \<and> old_in_place T d"

lemma rolled_back_settled: "rolled_back T d \<Longrightarrow> settled T d"
  by (simp add: rolled_back_def settled_def)

lemma rolling_refl: "has_journal d j \<Longrightarrow> tx_journal T j \<Longrightarrow> rolling T j d d"
  by (auto simp: rolling_def)

lemma pointer_only_live: "only_live d d' \<Longrightarrow> pointer d' = pointer d"
  by (simp add: only_live_def pointer_def)

lemma journal_only_live: "only_live d d' \<Longrightarrow> has_journal d' k = has_journal d k"
  by (simp add: only_live_def has_journal_def)

lemma backups_only_live: "only_live d d' \<Longrightarrow> backups d' = backups d"
  by (simp add: only_live_def)

lemma rolling_only_live:
  "rolling T j d d' \<Longrightarrow> only_live d' d'' \<Longrightarrow> state j \<in> set switched_states \<Longrightarrow> rolling T j d d''"
  by (simp add: rolling_def pointer_only_live backups_only_live journal_only_live)

lemma rolling_backups: "rolling T j d d' \<Longrightarrow> backups d' = backups d"
  by (simp add: rolling_def)

lemma rolling_server: "rolling T j d d' \<Longrightarrow> rolling T j d (d'\<lparr>server := v\<rparr>)"
  by (auto simp: rolling_def)

lemma rolling_journal:
  assumes "rolling T j d d'" "has_journal d' k" "tx_journal T k'" "state k' = state k"
    "snapshot k' = snapshot k" "schema_version k' = schema_version k"
  shows "rolling T j d (d'\<lparr>jfile := Present k'\<rparr>)"
proof -
  obtain k0 where "has_journal d' k0" "state k0 = state j" "snapshot k0 = snapshot j"
    "backups d' = backups d" "pointer d' \<in> {pointer d, Some (tx_from T)}"
    "state j \<in> set switched_states \<or> content d' = content d"
    using assms(1) unfolding rolling_def by blast
  moreover have "k0 = k" by (rule has_journal_unique) fact+
  ultimately show ?thesis
    using assms(3-6) has_journal_schema [OF assms(2)] by (simp add: rolling_def)
qed

lemma wp_restore_data:
  assumes sw: "state j \<in> set switched_states \<Longrightarrow> restorable T d j"
    and still: "state j \<notin> set switched_states \<Longrightarrow> content d = tx_old T"
    and r: "rolling T j d d'"
    and crash: "\<And>x. rolling T j d x \<Longrightarrow> C x"
    and err: "\<And>c x. rolling T j d x \<Longrightarrow> Q (Inl c) x"
    and ok: "\<And>x. rolling T j d x \<Longrightarrow> content x = tx_old T \<Longrightarrow> Q (Inr ()) x"
  shows "wp e (restore_data j) Q C d'"
proof (cases "state j \<in> set switched_states")
  case True
  obtain s where s: "snapshot j = Some s"
    "backups d' (snap_id s) = Some (Complete (fst (tx_old T)) (snd (tx_old T)))"
    using sw [OF True] rolling_backups [OF r] by (auto simp: restorable_def)
  show ?thesis
    unfolding restore_data_def s(1)
    using rolling_only_live [OF r _ True]
    by (simp add: True wp_try_or wp_restore [OF s(2)] wp_fail wp_ret crash err ok)
next
  case False
  then have "content d' = tx_old T" using still r by (simp add: rolling_def)
  then show ?thesis using False r by (simp add: restore_data_def wp_ret ok)
qed

lemma rolled_back_write:
  assumes "rolling T j d x" "has_journal x k" "content x = tx_old T" "pointer x = Some (tx_from T)"
    "state k' = Idle" "schema_version k' = schema_version k"
  shows "rolled_back T (x\<lparr>jfile := Present k'\<rparr>)"
  using assms has_journal_schema [OF assms(2)] by (auto simp: rolled_back_def old_in_place_def)

lemma wp_rollback_end:
  assumes "rolling T j d x" "content x = tx_old T" "pointer x = Some (tx_from T)"
    and crash: "\<And>x. rolling T j d x \<Longrightarrow> C x"
    and err: "\<And>c x. rolling T j d x \<Longrightarrow> Q (Inl c) x"
    and ok: "\<And>x. rolled_back T x \<Longrightarrow> Q (Inr ()) x"
  shows "wp e (ask (mutate_journal (\<lambda>k. k\<lparr>state := Idle, child := None,
      last_step := Some ''failed''\<rparr>)) (\<lambda>_. ret (Inr ()))) Q C x"
proof -
  obtain k where k: "has_journal x k" using assms(1) unfolding rolling_def by blast
  show ?thesis
    by (rule wp_mutate_ask, rule k, rule crash [OF assms(1)], rule err [OF assms(1)],
        rule wp_ret, rule ok, rule rolled_back_write [OF assms(1) k assms(2,3)]) simp_all
qed

lemma wp_rollback_restart:
  assumes "rolling T j d x" "content x = tx_old T" "pointer x = Some (tx_from T)"
    and crash: "\<And>x. rolling T j d x \<Longrightarrow> C x"
    and err: "\<And>c x. rolling T j d x \<Longrightarrow> Q (Inl c) x"
    and rest: "\<And>x. rolling T j d x \<Longrightarrow> content x = tx_old T \<Longrightarrow> pointer x = Some (tx_from T)
        \<Longrightarrow> wp e (k ()) Q C x"
  shows "wp e (ask (if restart then bnd restart_old_and_verify
       (\<lambda>ok. ret (if ok then Inr () else Inl ROLLBACK_UNAVAILABLE)) else ret (Inr ())) k) Q C x"
proof -
  have ok: "wp e (case if b then Inr () else Inl ROLLBACK_UNAVAILABLE of Inl c \<Rightarrow> fail c | Inr y \<Rightarrow> k y)
      Q C y" if "rolling T j d y" "content y = tx_old T" "pointer y = Some (tx_from T)" for b y
    using that by (auto intro: wp_fail err rest)
  show ?thesis
  proof (cases restart)
    case True
    then have e: "restart = True" by simp
    show ?thesis
      unfolding e if_True
      by (intro wp_ask wp_bnd wp_restart_old wp_ret ok crash)
        (use assms(1-3) in \<open>simp_all add: rolling_server\<close>)
  next
    case False
    then have e: "restart = False" by simp
    show ?thesis
      unfolding e if_False using assms(1-3) by (auto intro!: wp_ask wp_ret rest)
  qed
qed

lemma wp_rollback:
  assumes start: "rolling T j d d0" and tx: "tx_journal T j"
    and sw: "state j \<in> set switched_states \<Longrightarrow> restorable T d j"
    and still: "state j \<notin> set switched_states \<Longrightarrow> content d = tx_old T"
    and crash: "\<And>x. rolling T j d x \<Longrightarrow> C x"
    and err: "\<And>c x. rolling T j d x \<Longrightarrow> Q (Inl c) x"
    and ok: "\<And>x. rolled_back T x \<Longrightarrow> Q (Inr ()) x"
  shows "wp e (rollback_procedure j live restart) Q C d0"
proof -
  obtain k where k: "has_journal d0 k" "tx_journal T k"
    using start unfolding rolling_def by blast
  have target: "rollback_target j = Some (tx_from T)"
    using tx by (simp add: tx_journal_def rollback_target_def)
  define fin :: "unit \<Rightarrow> unit eng_result" where
    "fin = (\<lambda>_. ask (if restart then bnd restart_old_and_verify
       (\<lambda>ok. ret (if ok then Inr () else Inl ROLLBACK_UNAVAILABLE)) else ret (Inr ()))
      (\<lambda>_. ask (mutate_journal (\<lambda>k. k\<lparr>state := Idle, child := None,
                last_step := Some ''failed''\<rparr>)) (\<lambda>_. ret (Inr ()))))"
  have fin: "wp e (fin ()) Q C x"
    if "rolling T j d x" "content x = tx_old T" "pointer x = Some (tx_from T)" for x
    unfolding fin_def using that
    by (intro wp_rollback_restart [of T j d] wp_rollback_end [of T j d]) (auto intro: crash err ok)
  define switch :: "unit \<Rightarrow> unit eng_result" where
    "switch = (\<lambda>_. ask (need ROLLBACK_UNAVAILABLE
        (\<lambda>d. d\<lparr>pfile := Present (current_state_new (tx_from T) (previous_version j))\<rparr>)) fin)"
  have switch: "wp e (switch ()) Q C x" if "rolling T j d x" "content x = tx_old T" for x
    unfolding switch_def using that
    by (intro wp_ask_need) (auto intro!: crash err fin simp: rolling_def)
  define body :: "unit eng_result" where
    "body = ignoring (stop_candidate j live) (ask (restore_data j) switch)"
  have restore: "wp e (ask (restore_data j) switch) Q C x" if "rolling T j d x" for x
    by (intro wp_ask wp_restore_data [OF sw still that]) (auto intro!: wp_fail crash err switch)
  have body: "wp e body Q C x" if "rolling T j d x" for x
    unfolding body_def using that
    by (intro wp_ignoring wp_stop_candidate) (auto intro!: crash restore rolling_server)
  have "rollback_procedure j live restart =
      ignoring (mutate_journal (\<lambda>k. k\<lparr>last_step := Some ''rolling_back''\<rparr>)) body"
    unfolding rollback_procedure_def body_def switch_def fin_def target by simp
  moreover have "wp e (ignoring (mutate_journal (\<lambda>k. k\<lparr>last_step := Some ''rolling_back''\<rparr>)) body)
      Q C d0"
    by (rule wp_mutate_ignored, rule k(1), rule crash, rule start,
        rule body, rule start, rule body, rule rolling_journal [OF start k(1)])
      (use k(2) in \<open>simp_all add: tx_journal_def\<close>)
  ultimately show ?thesis by simp
qed

end
