(* ===== verification/RecoverySafety.thy ===== *)
theory RecoverySafety
  imports CrashSafety
begin

text \<open>
  What the recovery at startup (\<^verbatim>\<open>updater/src/upgrade/recovery.rs\<close>) makes of a
  transaction that a crash cut short: one weakest precondition per arm, then the whole.
\<close>

section \<open>Recovery\<close>

lemmas transaction_defs = tx_journal_def old_in_place_def rolled_back_def

lemma rolling_journalE:
  assumes "rolling T j d x"
  obtains k where "has_journal x k" "tx_journal T k" "state k = state j" "snapshot k = snapshot j"
  using assms unfolding rolling_def by blast

lemma rolling_exposed:
  assumes "restorable T d j" "state j \<in> {SnapshotVerified, Migrating}"
    "pointer d = Some (tx_from T)" "rolling T j d x"
  shows "exposed T x"
  using assms by (auto simp: rolling_def exposed_def restorable_def)

lemma rolling_late:
  assumes "restorable T d j" "state j \<in> late_states"
    "pointer d \<in> {Some (tx_from T), Some (tx_to T)}" "rolling T j d x"
  shows "late T x"
  using assms by (auto simp: rolling_def late_def restorable_def)

lemma early_not_switched: "s \<in> early_states \<Longrightarrow> s \<notin> set switched_states"
  by (auto simp: early_states_def switched_states_def)

lemma late_switched: "s \<in> late_states \<Longrightarrow> s \<in> set switched_states"
  by (auto simp: late_states_def switched_states_def)

lemma rolling_early:
  assumes "state j \<in> early_states" "old_in_place T d" "rolling T j d x"
  shows "early T x"
  using assms early_not_switched [OF assms(1)]
  by (auto simp: rolling_def early_def old_in_place_def)

text \<open>What a report of the recovery promises.\<close>

definition recovered :: "tx \<Rightarrow> recovery_outcome \<Rightarrow> disk \<Rightarrow> bool" where
  "recovered T r d =
     (case r of
        NothingToDo \<Rightarrow> settled T d
      | Aborted \<Rightarrow> old_in_place T d
      | StagedResumable \<Rightarrow> old_in_place T d
      | RolledBack \<Rightarrow> rolled_back T d
      | CommittedFinished v \<Rightarrow> v = tx_to T \<and> pointer d = Some (tx_to T)
      | ManualRequired \<Rightarrow> True)"

definition report_ok :: "tx \<Rightarrow> recovery_report \<Rightarrow> disk \<Rightarrow> bool" where
  "report_ok T r d \<longleftrightarrow> crash_ok T d \<and> recovered T (outcome r) d"

lemma wp_finish_idle:
  assumes "has_journal d j" "old_in_place T d" "crash_ok T d"
  shows "wp e (finish_idle j) (report_ok T) (crash_ok T) d"
  unfolding finish_idle_def report_def
  by (intro wp_ignoring wp_write_journal wp_ret)
    (use assms has_journal_schema [OF assms(1)] in
      \<open>auto simp: report_ok_def recovered_def settled_def old_in_place_def set_failed_idle_def\<close>)

lemma wp_finish_manual:
  assumes "has_journal d j" "crash_ok T d"
  shows "wp e (finish_manual j) (report_ok T) (crash_ok T) d"
  unfolding finish_manual_def report_def
  by (intro wp_ignoring wp_write_journal wp_ret)
    (use assms has_journal_schema [OF assms(1)] in \<open>auto simp: report_ok_def recovered_def manual_def\<close>)

lemma early_backup: "early T (set_backup u b d) = early T d"
  by (simp add: early_def old_in_place_def set_backup_def)

lemma early_staged: "early T (set_staged u b d) = early T d"
  by (simp add: early_def old_in_place_def set_staged_def)

lemma wp_staging_intact:
  "C d \<Longrightarrow> (\<And>b. Q b d) \<Longrightarrow> wp e (staging_intact j) Q C d"
  unfolding staging_intact_def by (auto intro!: wp_rules split: option.splits)

lemma earlyI:
  "has_journal d j \<Longrightarrow> tx_journal T j \<Longrightarrow> state j \<in> early_states \<Longrightarrow> old_in_place T d \<Longrightarrow> early T d"
  unfolding early_def by blast

lemma wp_recover_pre_install:
  assumes "has_journal d j" "tx_journal T j" "state j \<in> early_states" "old_in_place T d"
  shows "wp e (recover_pre_install j) (report_ok T) (crash_ok T) d"
proof -
  have early: "crash_ok T d" using earlyI [OF assms] by blast
  have clean: "has_journal (set_staged u False d) j" "old_in_place T (set_staged u False d)"
    "crash_ok T (set_staged u False d)" for u
    using assms(1,4) earlyI [OF assms] early_staged [of T u False d]
    by (auto simp: set_staged_def old_in_place_def)
  have idle: "wp e (finish_idle j) (report_ok T) (crash_ok T) d"
    "wp e (finish_idle j) (report_ok T) (crash_ok T) (set_staged u False d)" for u
    by (rule wp_finish_idle; fact assms clean early)+
  have staged: "crash_ok T (d\<lparr>jfile := Present ((to_state Staged ''staged'' j)
      \<lparr>child := None, error := x\<rparr>)\<rparr>)" for x
    by (rule crash_okI(1), rule earlyI [of _ "(to_state Staged ''staged'' j)\<lparr>child := None, error := x\<rparr>"])
      (use assms has_journal_schema [OF assms(1)] in
        \<open>auto simp: to_state_def tx_journal_def early_states_def old_in_place_def\<close>)
  show ?thesis
    unfolding recover_pre_install_def report_def
    by (intro wp_bnd wp_staging_intact)
      (use early idle staged assms(4) in
        \<open>auto intro!: wp_rules wp_write_journal simp: report_ok_def recovered_def old_in_place_def
           split: option.splits\<close>)
qed

lemma wp_report:
  "crash_ok T d \<Longrightarrow> recovered T r d \<Longrightarrow> wp e (report j r) (report_ok T) C d"
  by (simp add: report_def wp_ret report_ok_def)

text \<open>A rollback in the recovery: success is \<open>RolledBack\<close>, anything else asks for help.\<close>

lemma wp_recover_by_rollback:
  assumes "has_journal d j" "tx_journal T j" "state j \<in> set switched_states \<Longrightarrow> restorable T d j"
    "state j \<notin> set switched_states \<Longrightarrow> content d = tx_old T"
    and safe: "\<And>x. rolling T j d x \<Longrightarrow> crash_ok T x"
  shows "wp e (try_or (rollback_procedure j False False) (\<lambda>_. finish_manual j)
      (\<lambda>_. report j RolledBack)) (report_ok T) (crash_ok T) d"
proof -
  have manual: "wp e (finish_manual j) (report_ok T) (crash_ok T) x" if "rolling T j d x" for x
  proof -
    have "crash_ok T (x\<lparr>jfile := Present (j\<lparr>state := ManualRecoveryRequired,
        last_step := Some ''manual_recovery_required'', error := Some ROLLBACK_UNAVAILABLE\<rparr>)\<rparr>)"
      using has_journal_schema [OF assms(1)] by (intro crash_okI(6)) (simp add: manual_def)
    then show ?thesis
      unfolding finish_manual_def report_def using safe [OF that]
      by (intro wp_ignoring wp_write_journal wp_ret) (auto simp: report_ok_def recovered_def)
  qed
  show ?thesis
    by (intro wp_try_or wp_rollback [OF rolling_refl [OF assms(1,2)] assms(2-4)])
      (auto intro: safe manual crash_okI(5) rolled_back_settled intro!: wp_report simp: recovered_def)
qed

lemma wp_recover_snapshotting:
  assumes "has_journal d j" "tx_journal T j" "state j = Snapshotting" "old_in_place T d"
  shows "wp e (recover_snapshotting j) (report_ok T) (crash_ok T) d"
proof -
  have s: "state j \<in> early_states" using assms(3) by (simp add: early_states_def)
  note e = earlyI [OF assms(1,2) s assms(4)]
  have drop: "wp e (finish_idle j) (report_ok T) (crash_ok T) (set_backup u b d)" for u b
    by (rule wp_finish_idle)
      (use e assms(1,4) early_backup [of T u b d] in \<open>auto simp: set_backup_def old_in_place_def\<close>)
  have idle: "wp e (finish_idle j) (report_ok T) (crash_ok T) d"
    by (rule wp_finish_idle) (use e assms in auto)
  have undo: "wp e (try_or (rollback_procedure j False False) (\<lambda>_. finish_manual j)
      (\<lambda>_. report j RolledBack)) (report_ok T) (crash_ok T) d"
    by (rule wp_recover_by_rollback [OF assms(1,2)])
      (use assms(3,4) rolling_early [OF s assms(4)] in
        \<open>auto simp: old_in_place_def switched_states_def\<close>)
  have clean: "wp e (ignoring (effect (set_backup u None)) (finish_idle j)) (report_ok T) (crash_ok T) d"
    for u
    by (rule wp_ignoring_effect) (use e idle drop in auto)
  show ?thesis
    unfolding recover_snapshotting_def
    by (cases "update_id j")
      (use e idle clean undo in \<open>auto intro!: wp_try_or wp_snapshot_verify\<close>)
qed

text \<open>The unfinished transactions with a verified snapshot.\<close>

definition switched_at :: "tx \<Rightarrow> disk \<Rightarrow> journal \<Rightarrow> bool" where
  "switched_at T d j \<longleftrightarrow>
     has_journal d j \<and> tx_journal T j \<and> restorable T d j
     \<and> (state j \<in> {SnapshotVerified, Migrating} \<and> pointer d = Some (tx_from T)
        \<or> state j \<in> late_states \<and> pointer d \<in> {Some (tx_from T), Some (tx_to T)})"

lemma rolling_safe: "switched_at T d j \<Longrightarrow> rolling T j d x \<Longrightarrow> exposed T x \<or> late T x"
  unfolding switched_at_def by (blast intro: rolling_exposed rolling_late)

lemma switched_at_set: "switched_at T d j \<Longrightarrow> state j \<in> set switched_states"
  using late_switched by (auto simp: switched_at_def switched_states_def)

lemma wp_recover_switched:
  assumes "switched_at T d j"
  shows "wp e (recover_switched j) (report_ok T) (crash_ok T) d"
proof -
  obtain s where "snapshot j = Some s" using assms by (auto simp: switched_at_def restorable_def)
  then have "recover_switched j = try_or (rollback_procedure j False False) (\<lambda>_. finish_manual j)
      (\<lambda>_. report j RolledBack)"
    by (simp add: recover_switched_def)
  moreover have "wp e \<dots> (report_ok T) (crash_ok T) d"
    by (rule wp_recover_by_rollback)
      (use assms switched_at_set [OF assms] rolling_safe [OF assms] in
        \<open>auto simp: switched_at_def intro: crash_okI\<close>)
  ultimately show ?thesis by simp
qed

lemma wp_pointer_matches:
  assumes "C d" "Q False d" "\<And>v'. v = Some v' \<Longrightarrow> pointer d = Some v' \<Longrightarrow> Q True d"
  shows "wp e (pointer_matches v) Q C d"
proof (cases v)
  case None
  then show ?thesis using assms(2) by (simp add: pointer_matches_def wp_ret)
next
  case (Some v')
  have "Q (ok \<and> (case pfile d of Present c \<Rightarrow> cur_current c = v' | _ \<Rightarrow> False)) d" for ok
    using assms(2,3) [unfolded pointer_def] Some
    by (cases "ok \<and> (case pfile d of Present c \<Rightarrow> cur_current c = v' | _ \<Rightarrow> False)")
      (auto split: load_outcome.splits)
  from this [of True] this [of False] show ?thesis
    unfolding pointer_matches_def Some using assms(1) by (auto intro!: wp_rules)
qed

lemma wp_unstage:
  assumes "C d" "wp e k Q C d" "\<And>u. wp e k Q C (set_staged u False d)"
  shows "wp e (ignoring (case m of Some u \<Rightarrow> effect (set_staged u False) | None \<Rightarrow> ret True) k) Q C d"
  using assms by (cases m) (simp_all add: wp_ignoring wp_effect wp_ret)

lemma wp_recover_committed:
  assumes "has_journal d j" "to_version j = Some (tx_to T)" "state j \<in> {Committed, Cleaning}"
    "pointer d = Some (tx_to T)"
  shows "wp e (recover_committed j) (report_ok T) (crash_ok T) d"
proof -
  have c: "crash_ok T x" if "has_journal x j" "pointer x = Some (tx_to T)" for x
    using that assms(2,3) by (auto simp: committed_def intro!: crash_okI(4))
  have s: "crash_ok T (x\<lparr>jfile := Present ((to_state Idle ''idle'' j)\<lparr>error := None\<rparr>)\<rparr>)"
    if "pointer x = Some (tx_to T)" for x
    using that has_journal_schema [OF assms(1)]
    by (auto simp: settled_def to_state_def intro!: crash_okI(5))
  have w: "wp e (ignoring (write_journal ((to_state Idle ''idle'' j)\<lparr>error := None\<rparr>))
      (report j (CommittedFinished (tx_to T)))) (report_ok T) (crash_ok T) x"
    if "has_journal x j" "pointer x = Some (tx_to T)" for x
    by (intro wp_ignoring wp_write_journal wp_report)
      (use that c s in \<open>auto simp: recovered_def\<close>)
  have staged: "has_journal (set_staged u False d) j" "pointer (set_staged u False d) = Some (tx_to T)"
    for u using assms(1,4) by (simp_all add: set_staged_def)
  have manual: "wp e (finish_manual j) (report_ok T) (crash_ok T) d"
    by (rule wp_finish_manual) (use assms(1,4) c in auto)
  have fin: "wp e (ignoring (case update_id j of Some u \<Rightarrow> effect (set_staged u False) | None \<Rightarrow> ret True)
       (ignoring (write_journal ((to_state Idle ''idle'' j)\<lparr>error := None\<rparr>))
      (report j (CommittedFinished (tx_to T))))) (report_ok T) (crash_ok T) d"
    by (rule wp_unstage) (use assms(1,4) c w staged in auto)
  show ?thesis
    unfolding recover_committed_def assms(2) option.case
    by (intro wp_bnd wp_pointer_matches) (use assms(1,4) c fin manual in auto)
qed

lemma recoverable_journal: "recoverable T d \<Longrightarrow> \<exists>j. has_journal d j"
  by (auto simp: recoverable_def early_def unswitched_def exposed_def late_def committed_def
      settled_def manual_def)

lemma phase_by_state:
  assumes "has_journal d j" "recoverable T d"
  shows "state j \<in> early_states \<and> tx_journal T j \<and> old_in_place T d
    \<or> switched_at T d j \<and> (state j \<in> {SnapshotVerified, Migrating} \<longrightarrow> old_in_place T d)
    \<or> to_version j = Some (tx_to T) \<and> state j \<in> {Committed, Cleaning} \<and> pointer d = Some (tx_to T)
    \<or> state j = Idle \<and> settled T d
    \<or> state j = ManualRecoveryRequired"
  using assms(2) has_journal_unique [OF assms(1)] assms(1) unfolding recoverable_def
proof (elim disjE)
  assume "early T d"
  then show ?thesis using assms(1) has_journal_unique unfolding early_def by blast
next
  assume u: "unswitched T d"
  then obtain k where "has_journal d k" "tx_journal T k" "state k \<in> {SnapshotVerified, Migrating}"
    "restorable T d k" "pointer d = Some (tx_from T)" "content d = tx_old T"
    unfolding unswitched_def exposed_def by blast
  then show ?thesis
    using has_journal_unique [OF assms(1)] unfolding switched_at_def old_in_place_def by blast
next
  assume l: "late T d"
  then obtain k where k: "has_journal d k" "tx_journal T k" "state k \<in> late_states"
    "restorable T d k" "pointer d \<in> {Some (tx_from T), Some (tx_to T)}"
    unfolding late_def by blast
  moreover have "state k \<notin> {SnapshotVerified, Migrating}"
    using k(3) by (auto simp: late_states_def)
  ultimately show ?thesis
    using has_journal_unique [OF assms(1)] unfolding switched_at_def by blast
next
  assume "committed T d"
  then show ?thesis using assms(1) has_journal_unique unfolding committed_def by blast
next
  assume "settled T d"
  then show ?thesis using assms(1) has_journal_unique unfolding settled_def by blast
next
  assume "manual d"
  then show ?thesis using assms(1) has_journal_unique unfolding manual_def by blast
qed

lemma wp_recover_unswitched:
  assumes "switched_at T d j" "old_in_place T d"
  shows "wp e (bnd (pointer_matches (from_version j)) (\<lambda>m. if m then finish_idle j else recover_switched j))
      (report_ok T) (crash_ok T) d"
proof -
  have c: "crash_ok T d"
    using rolling_safe [OF assms(1) rolling_refl] assms(1) by (auto simp: switched_at_def)
  have "wp e (finish_idle j) (report_ok T) (crash_ok T) d"
    by (rule wp_finish_idle) (use assms c in \<open>auto simp: switched_at_def\<close>)
  then show ?thesis
    by (intro wp_bnd wp_pointer_matches) (use c wp_recover_switched [OF assms(1)] in auto)
qed

definition startup_ok :: "tx \<Rightarrow> (business_code, recovery_report) result \<Rightarrow> disk \<Rightarrow> bool" where
  "startup_ok T r d \<longleftrightarrow>
     crash_ok T d \<and> (case r of Inr rep \<Rightarrow> recovered T (outcome rep) d | Inl _ \<Rightarrow> True)"

lemma wp_recover_on_startup:
  assumes "recoverable T d"
  shows "wp e recover_on_startup (startup_ok T) (crash_ok T) d"
proof -
  obtain j where j: "has_journal d j" using recoverable_journal [OF assms] by blast
  have c: "crash_ok T d" using assms by blast
  define arm where "arm =
       (case state j of
          Idle \<Rightarrow> report j NothingToDo
        | ManualRecoveryRequired \<Rightarrow> report j ManualRequired
        | Checking \<Rightarrow> recover_pre_install j
        | Downloading \<Rightarrow> recover_pre_install j
        | Verifying \<Rightarrow> recover_pre_install j
        | Staged \<Rightarrow> recover_pre_install j
        | WaitingIdle \<Rightarrow> recover_pre_install j
        | Draining \<Rightarrow> recover_pre_install j
        | Stopped \<Rightarrow> finish_idle j
        | Snapshotting \<Rightarrow> recover_snapshotting j
        | SnapshotVerified \<Rightarrow>
            bnd (pointer_matches (from_version j)) (\<lambda>m.
            if m then finish_idle j else recover_switched j)
        | Migrating \<Rightarrow>
            bnd (pointer_matches (from_version j)) (\<lambda>m.
            if m then finish_idle j else recover_switched j)
        | Switched \<Rightarrow> recover_switched j
        | CandidateStarting \<Rightarrow> recover_switched j
        | CandidateReady \<Rightarrow> recover_switched j
        | Activating \<Rightarrow> recover_switched j
        | Committed \<Rightarrow> recover_committed j
        | Cleaning \<Rightarrow> recover_committed j)"
  have arm: "wp e arm (report_ok T) (crash_ok T) d"
    using phase_by_state [OF j assms]
  proof (elim disjE conjE)
    assume h: "state j \<in> early_states" "tx_journal T j" "old_in_place T d"
    then show ?thesis
      using wp_recover_pre_install [OF j h(2,1,3)] wp_recover_snapshotting [OF j h(2) _ h(3)]
        wp_finish_idle [OF j h(3) c]
      by (auto simp: arm_def early_states_def)
  next
    assume "switched_at T d j" "state j \<in> {SnapshotVerified, Migrating} \<longrightarrow> old_in_place T d"
    then show ?thesis
      using wp_recover_switched [of T d j e] wp_recover_unswitched [of T d j e] switched_at_set [of T d j]
      by (auto simp: arm_def switched_at_def late_states_def)
  next
    assume "to_version j = Some (tx_to T)" "state j \<in> {Committed, Cleaning}" "pointer d = Some (tx_to T)"
    then show ?thesis using wp_recover_committed [OF j] by (auto simp: arm_def)
  next
    assume "state j = Idle" "settled T d"
    then show ?thesis by (auto simp: arm_def recovered_def intro: wp_report)
  next
    assume "state j = ManualRecoveryRequired"
    then show ?thesis using c by (auto simp: arm_def recovered_def intro: wp_report)
  qed
  have "wp e (bnd arm (\<lambda>r. ret (Inr r))) (startup_ok T) (crash_ok T) d"
    by (rule wp_bnd, rule wp_conseq [OF arm])
      (auto simp: startup_ok_def report_ok_def intro!: wp_ret)
  then show ?thesis
    unfolding recover_on_startup_def
    by (intro wp_ask wp_load_journal) (use j c in \<open>auto simp: startup_ok_def arm_def intro!: wp_fail\<close>)
qed

end
