(* ===== verification/InstallSafety.thy ===== *)
theory InstallSafety
  imports RecoverySafety
begin

text \<open>
  The installation (\<^verbatim>\<open>updater/src/upgrade/engine.rs\<close>) step by step: what each
  outcome promises, and what a stop at any point leaves behind.
\<close>

section \<open>Installation\<close>

text \<open>What an outcome of the upgrade promises.\<close>

definition outcome_ok :: "tx \<Rightarrow> upgrade_outcome \<Rightarrow> disk \<Rightarrow> bool" where
  "outcome_ok T r d \<longleftrightarrow> crash_ok T d \<and>
     (case r of
        UpgradeCommitted old new \<Rightarrow> old = tx_from T \<and> new = tx_to T \<and> pointer d = Some (tx_to T)
          \<and> (\<exists>j. has_journal d j \<and> state j = Idle)
      | UpgradeCancelled \<Rightarrow> old_in_place T d
      | FailedOldHealthy _ \<Rightarrow> old_in_place T d
      | ManualRecovery _ \<Rightarrow> True)"

text \<open>The old version is in place and nothing is switched.\<close>

definition quiet :: "tx \<Rightarrow> disk \<Rightarrow> bool" where
  "quiet T d \<longleftrightarrow> early T d \<or> unswitched T d"

lemma quiet_safe: "quiet T d \<Longrightarrow> crash_ok T d"
  by (auto simp: quiet_def)

lemma quiet_old: "quiet T d \<Longrightarrow> old_in_place T d"
  by (auto simp: quiet_def early_def unswitched_def exposed_def old_in_place_def)

lemma quiet_journal: "quiet T d \<Longrightarrow> \<exists>j. has_journal d j"
  by (auto simp: quiet_def early_def unswitched_def exposed_def)

lemma quiet_server: "quiet T d \<Longrightarrow> quiet T (d\<lparr>server := v\<rparr>)"
  by (simp add: quiet_def early_def unswitched_def exposed_def old_in_place_def restorable_def)

lemma quiet_write:
  assumes "quiet T d" "has_journal d j" "state k = state j" "snapshot k = snapshot j"
    "tx_journal T j \<Longrightarrow> tx_journal T k" "schema_version k = schema_version j"
  shows "quiet T (d\<lparr>jfile := Present k\<rparr>)"
proof (cases "early T d")
  case True
  then have "tx_journal T j" "state j \<in> early_states" "old_in_place T d"
    using has_journal_unique [OF assms(2)] unfolding early_def by blast+
  then show ?thesis
    using assms(3,5,6) has_journal_schema [OF assms(2)]
    by (auto simp: quiet_def early_def old_in_place_def)
next
  case False
  then have "tx_journal T j" "state j \<in> {SnapshotVerified, Migrating}" "restorable T d j"
    "pointer d = Some (tx_from T)" "content d = tx_old T"
    using assms(1) has_journal_unique [OF assms(2)]
    unfolding quiet_def unswitched_def exposed_def by blast+
  then show ?thesis
    using assms(3-6) has_journal_schema [OF assms(2)]
    by (auto simp: quiet_def unswitched_def exposed_def restorable_def)
qed

lemma outcome_old: "crash_ok T d \<Longrightarrow> old_in_place T d \<Longrightarrow> outcome_ok T (FailedOldHealthy c) d"
  "crash_ok T d \<Longrightarrow> old_in_place T d \<Longrightarrow> outcome_ok T UpgradeCancelled d"
  by (simp_all add: outcome_ok_def)

lemma failed_idle_settled:
  assumes "has_journal d j" "old_in_place T d"
  shows "settled T (d\<lparr>jfile := Present ((set_failed_idle c j)\<lparr>updated_at := t\<rparr>)\<rparr>)"
  using assms has_journal_schema [OF assms(1)]
  by (auto simp: settled_def set_failed_idle_def old_in_place_def)

lemma wp_fail_before_snapshot:
  assumes "quiet T d"
  shows "wp e (fail_before_snapshot c) (outcome_ok T) (crash_ok T) d"
proof -
  obtain j where j: "has_journal d j" using quiet_journal [OF assms] by blast
  have "settled T (d\<lparr>jfile := Present ((set_failed_idle c j)\<lparr>updated_at := t\<rparr>)\<rparr>)" for t
    by (rule failed_idle_settled [OF j quiet_old [OF assms]])
  moreover have "old_in_place T (d\<lparr>jfile := x\<rparr>)" for x
    using quiet_old [OF assms] by (simp add: old_in_place_def)
  ultimately show ?thesis
    unfolding fail_before_snapshot_def
    by (intro wp_mutate_ignored [OF j] wp_ret outcome_old)
      (use quiet_safe [OF assms] quiet_old [OF assms] in auto)
qed

lemma wp_fail_after_stop:
  assumes "quiet T d"
  shows "wp e (fail_after_stop c was_running) (outcome_ok T) (crash_ok T) d"
proof -
  obtain j where j: "has_journal d j" using quiet_journal [OF assms] by blast
  have fin: "wp e (ignoring (mutate_journal (set_failed_idle c)) (ret (FailedOldHealthy c)))
      (outcome_ok T) (crash_ok T) x" if "quiet T x" for x
    using wp_fail_before_snapshot [OF that] by (simp add: fail_before_snapshot_def)
  have restart: "wp e (ignoring (if was_running then restart_old_and_verify else ret True)
      (ignoring (mutate_journal (set_failed_idle c)) (ret (FailedOldHealthy c))))
      (outcome_ok T) (crash_ok T) x" if "quiet T x" for x
    by (cases was_running)
      (use that in \<open>auto intro!: wp_ignoring [of e "restart_old_and_verify"] wp_ignoring [of e "ret True"]
          wp_restart_old wp_ret fin quiet_server intro: quiet_safe\<close>)
  have "quiet T (d\<lparr>jfile := Present (j\<lparr>last_step := Some ''rolling_back'', updated_at := Some t\<rparr>)\<rparr>)" for t
    by (rule quiet_write [OF assms j]) (simp_all add: tx_journal_def)
  then show ?thesis
    unfolding fail_after_stop_def
    by (intro wp_mutate_ignored [OF j]) (use quiet_safe restart assms in auto)
qed

lemma switched_at_safe: "switched_at T d j \<Longrightarrow> crash_ok T d"
  using rolling_safe [of T d j d] rolling_refl [of d j T] by (auto simp: switched_at_def)

lemma switched_at_server: "switched_at T d j \<Longrightarrow> switched_at T (d\<lparr>server := v\<rparr>) j"
  by (simp add: switched_at_def restorable_def)

lemma wp_enter_manual:
  assumes "has_journal d j" "crash_ok T d"
  shows "wp e (bnd (enter_manual_recovery c) (\<lambda>c'. ret (ManualRecovery c'))) (outcome_ok T) (crash_ok T) d"
  unfolding enter_manual_recovery_def
  by (intro wp_bnd wp_mutate_ignored [OF assms(1)] wp_ret)
    (use assms has_journal_schema [OF assms(1)] in \<open>auto simp: outcome_ok_def manual_def\<close>)

lemma wp_fail_after_switch:
  assumes "switched_at T d j"
  shows "wp e (fail_after_switch c was_running) (outcome_ok T) (crash_ok T) d"
proof -
  have j: "has_journal d j" "tx_journal T j" "restorable T d j"
    using assms by (simp_all add: switched_at_def)
  note sw = switched_at_set [OF assms]
  have safe: "crash_ok T x" if "rolling T j d x" for x
    using rolling_safe [OF assms that] by blast
  have manual: "wp e (bnd (enter_manual_recovery rc) (\<lambda>c'. ret (ManualRecovery c')))
      (outcome_ok T) (crash_ok T) x" if "rolling T j d x" for rc x
    using that safe wp_enter_manual by (metis rolling_journalE)
  have old: "wp e (ret (FailedOldHealthy c)) (outcome_ok T) (crash_ok T) x" if "rolled_back T x" for x
    using that rolled_back_settled [OF that] by (auto intro!: wp_ret outcome_old simp: rolled_back_def)
  have undo: "wp e (try_or (rollback_procedure j False was_running)
       (\<lambda>rc. bnd (enter_manual_recovery rc) (\<lambda>c'. ret (ManualRecovery c')))
       (\<lambda>_. ret (FailedOldHealthy c))) (outcome_ok T) (crash_ok T) x" if "rolling T j d x" for x
    by (intro wp_try_or wp_rollback [OF that j(2)])
      (use sw j(3) in \<open>auto intro: safe manual old\<close>)
  have "rolling T j d (d\<lparr>jfile := Present (j\<lparr>error := Some c, updated_at := Some t\<rparr>)\<rparr>)" for t
    by (rule rolling_journal [OF rolling_refl [OF j(1,2)] j(1)])
      (use j(2) in \<open>simp_all add: tx_journal_def\<close>)
  moreover have "crash_ok T d" by (rule switched_at_safe [OF assms])
  ultimately show ?thesis
    unfolding fail_after_switch_def
    by (intro wp_try_or wp_load_j [OF j(1)])
      (auto intro!: wp_mutate_ignored [OF j(1)] undo rolling_refl [OF j(1,2)] wp_ret
        simp: outcome_ok_def)
qed

lemma wp_fail_candidate:
  assumes "switched_at T d j"
  shows "wp e (fail_candidate c was_running) (outcome_ok T) (crash_ok T) d"
  unfolding fail_candidate_def
  by (intro wp_ignoring wp_stop_server)
    (use assms in \<open>auto intro: wp_fail_after_switch switched_at_server switched_at_safe\<close>)

text \<open>The steps after the switch keep the transaction's facts and move the state on.\<close>

lemma switched_at_mutate:
  assumes "switched_at T d j" "state k \<in> late_states" "tx_journal T k" "snapshot k = snapshot j"
    "schema_version k = schema_version j"
  shows "switched_at T (d\<lparr>jfile := Present k\<rparr>) k"
  using assms has_journal_schema [of d j]
  by (auto simp: switched_at_def restorable_def)

lemma switched_at_live:
  "switched_at T d j \<Longrightarrow> switched_at T (d\<lparr>server := v, live_data := t, live_config := c\<rparr>) j"
  by (simp add: switched_at_def restorable_def)

lemma wp_finish_committed:
  assumes "has_journal d j" "to_version j = Some (tx_to T)" "state j = Committed"
    "pointer d = Some (tx_to T)"
  shows "wp e (finish_committed u (tx_from T) (tx_to T)) (outcome_ok T) (crash_ok T) d"
proof -
  define I where "I = (\<lambda>x. pointer x = Some (tx_to T) \<and>
     (\<exists>k. has_journal x k \<and> to_version k = Some (tx_to T) \<and> state k \<in> {Committed, Cleaning}))"
  have safe: "crash_ok T x" if "I x" for x
    using that by (auto simp: I_def committed_def intro!: crash_okI(4))
  have cleaning: "I (x\<lparr>jfile := Present ((to_state Cleaning ''cleaning'' k)\<lparr>updated_at := Some t\<rparr>)\<rparr>)"
    if "I x" "has_journal x k" for x k t
  proof -
    have "to_version k = Some (tx_to T)" "pointer x = Some (tx_to T)"
      using that has_journal_unique unfolding I_def by blast+
    then show ?thesis using has_journal_schema [OF that(2)] by (simp add: I_def to_state_def)
  qed
  have idle: "outcome_ok T (UpgradeCommitted (tx_from T) (tx_to T))
      (x\<lparr>jfile := Present ((to_state Idle ''idle'' k)\<lparr>error := None, updated_at := Some t\<rparr>)\<rparr>)"
    if "I x" "has_journal x k" for x k t
  proof -
    have "settled T (x\<lparr>jfile := Present ((to_state Idle ''idle'' k)\<lparr>error := None, updated_at := Some t\<rparr>)\<rparr>)"
      using that has_journal_schema [OF that(2)] by (simp add: I_def to_state_def settled_def)
    then show ?thesis
      using that has_journal_schema [OF that(2)]
      by (simp add: I_def to_state_def outcome_ok_def crash_okI(5))
  qed
  have last: "wp e (try_or (mutate_journal (\<lambda>k. (to_state Idle ''idle'' k)\<lparr>error := None\<rparr>))
       (\<lambda>c. ret (ManualRecovery c)) (\<lambda>_. ret (UpgradeCommitted (tx_from T) (tx_to T))))
       (outcome_ok T) (crash_ok T) x" if "I x" for x
  proof -
    obtain k where k: "has_journal x k" using \<open>I x\<close> by (auto simp: I_def)
    show ?thesis
      by (rule wp_mutate_or, rule k, rule safe [OF that], rule wp_ret, simp add: outcome_ok_def safe [OF that],
          rule wp_ret, rule idle [OF that k])
  qed
  have clean: "wp e (ignoring (mutate_journal (to_state Cleaning ''cleaning'')) (
       try_or (mutate_journal (\<lambda>k. (to_state Idle ''idle'' k)\<lparr>error := None\<rparr>))
       (\<lambda>c. ret (ManualRecovery c)) (\<lambda>_. ret (UpgradeCommitted (tx_from T) (tx_to T)))))
       (outcome_ok T) (crash_ok T) x" if "I x" for x
  proof -
    obtain k where k: "has_journal x k" using \<open>I x\<close> by (auto simp: I_def)
    show ?thesis
      by (intro wp_mutate_ignored [OF k]) (use that k in \<open>auto intro: safe last cleaning\<close>)
  qed
  have unstage: "I (set_staged u False x)" if "I x" for x
    using that by (simp add: I_def set_staged_def)
  have d: "I d" using assms by (auto simp: I_def)
  have fin: "wp e (ignoring (effect (set_staged u False)) (
       ignoring (mutate_journal (to_state Cleaning ''cleaning'')) (
       try_or (mutate_journal (\<lambda>k. (to_state Idle ''idle'' k)\<lparr>error := None\<rparr>))
       (\<lambda>c. ret (ManualRecovery c)) (\<lambda>_. ret (UpgradeCommitted (tx_from T) (tx_to T))))))
       (outcome_ok T) (crash_ok T) d"
    by (rule wp_ignoring_effect, rule safe [OF d], rule clean [OF d], rule clean [OF unstage [OF d]])
  have "outcome_ok T (ManualRecovery c) d" for c
    using safe [OF d] by (simp add: outcome_ok_def)
  then show ?thesis
    unfolding finish_committed_def
    by (intro wp_with_env wp_try_or wp_when wp_need) (simp_all add: wp_ret fin safe [OF d])
qed

text \<open>
  The candidate runs, the journal says so, and a step failed or succeeded. \<open>advanced\<close>
  says that the transaction is past its switch with the journal in a given state.
\<close>

definition advanced :: "tx \<Rightarrow> journal_state \<Rightarrow> disk \<Rightarrow> bool" where
  "advanced T s d \<longleftrightarrow> (\<exists>j. switched_at T d j \<and> state j = s) \<and> pointer d = Some (tx_to T)"

lemma advanced_safe: "advanced T s d \<Longrightarrow> crash_ok T d"
  using switched_at_safe by (auto simp: advanced_def)

lemma advanced_fails:
  "advanced T s d \<Longrightarrow> wp e (fail_candidate c w) (outcome_ok T) (crash_ok T) d"
  "advanced T s d \<Longrightarrow> wp e (fail_after_switch c w) (outcome_ok T) (crash_ok T) d"
  using wp_fail_candidate wp_fail_after_switch by (auto simp: advanced_def)

text \<open>A step of the journal to the next late state.\<close>

lemma wp_advance:
  assumes "advanced T s d"
    and keeps: "\<And>j. state (f j) = s'" "\<And>j. snapshot (f j) = snapshot j"
      "\<And>j. schema_version (f j) = schema_version j" "\<And>j. tx_journal T j \<Longrightarrow> tx_journal T (f j)"
    and "s' \<in> late_states"
    and err: "wp e (h UPDATER_UNAVAILABLE) Q (crash_ok T) d"
    and nxt: "\<And>j d'. advanced T s' d' \<Longrightarrow> wp e (k j) Q (crash_ok T) d'"
  shows "wp e (try_or (mutate_journal f) h k) Q (crash_ok T) d"
proof -
  obtain j where j: "switched_at T d j" "state j = s" "pointer d = Some (tx_to T)"
    using assms(1) by (auto simp: advanced_def)
  have "switched_at T (d\<lparr>jfile := Present ((f j)\<lparr>updated_at := Some t\<rparr>)\<rparr>) ((f j)\<lparr>updated_at := Some t\<rparr>)" for t
    by (rule switched_at_mutate [OF j(1)])
      (use keeps assms(6) j(1) in \<open>auto simp: switched_at_def tx_journal_def\<close>)
  then have "advanced T s' (d\<lparr>jfile := Present ((f j)\<lparr>updated_at := Some t\<rparr>)\<rparr>)" for t
    using keeps(1) j(3) by (force simp: advanced_def)
  moreover have "has_journal d j" using j(1) by (simp add: switched_at_def)
  ultimately show ?thesis
    using err nxt advanced_safe [OF assms(1)] by (blast intro: wp_mutate_or)
qed

lemma wp_commit:
  assumes "advanced T s d"
  shows "wp e (try_or (mutate_journal (\<lambda>k. (to_state Committed ''committed'' k)\<lparr>error := None\<rparr>))
       (\<lambda>c. ret (ManualRecovery c)) (\<lambda>_. finish_committed u (tx_from T) (tx_to T)))
       (outcome_ok T) (crash_ok T) d"
proof -
  obtain j where j: "has_journal d j" "tx_journal T j" and p: "pointer d = Some (tx_to T)"
    using assms by (auto simp: advanced_def switched_at_def)
  have fin: "wp e (finish_committed u (tx_from T) (tx_to T)) (outcome_ok T) (crash_ok T)
      (d\<lparr>jfile := Present ((to_state Committed ''committed'' j)\<lparr>error := None, updated_at := Some t\<rparr>)\<rparr>)" for t
    by (rule wp_finish_committed [where j = "(to_state Committed ''committed'' j)
          \<lparr>error := None, updated_at := Some t\<rparr>"])
      (use j p has_journal_schema [OF j(1)] in \<open>simp_all add: to_state_def tx_journal_def\<close>)
  show ?thesis
    by (rule wp_mutate_or, rule j(1), rule advanced_safe [OF assms], rule wp_ret,
        simp add: outcome_ok_def advanced_safe [OF assms], rule fin)
qed

lemma wp_candidate_ready:
  assumes "C d" "\<And>c. Q (Inl c) d" "Q (Inr ()) d"
  shows "wp e (candidate_ready v) Q C d"
  unfolding candidate_ready_def
  by (intro wp_with_env wp_ask_need)
    (use assms in \<open>auto intro!: wp_fail wp_ret split: sum.splits\<close>)

lemma wp_activating:
  assumes "C d" "\<And>c. Q (Inl c) d" "Q (Inr ()) d"
  shows "wp e activating Q C d"
  unfolding activating_def
  by (intro wp_with_env wp_ask_need)
    (use assms in \<open>auto intro!: wp_fail wp_ret split: sum.splits\<close>)

lemma wp_try_const:
  assumes "\<And>Q C. C d \<Longrightarrow> (\<And>c. Q (Inl c) d) \<Longrightarrow> Q (Inr ()) d \<Longrightarrow> wp e m Q C d"
    and "C d" "\<And>c. wp e (h c) Q C d" "wp e (k ()) Q C d"
  shows "wp e (try_or m h k) Q C d"
  by (intro wp_try_or assms(1)) (use assms(2-4) in simp_all)

lemmas late_members = late_states_def to_state_def tx_journal_def

lemma wp_run_candidate:
  assumes "advanced T Switched d"
  shows "wp e (run_candidate u (tx_from T) (tx_to T) w) (outcome_ok T) (crash_ok T) d"
proof -
  let ?ok = "\<lambda>m x. wp e m (outcome_ok T) (crash_ok T) x"
  let ?bad = "\<lambda>c. fail_candidate c w"
  define commit :: "upgrade_outcome eng" where
    "commit = try_or (mutate_journal (\<lambda>k. (to_state Committed ''committed'' k)\<lparr>error := None\<rparr>))
       (\<lambda>c. ret (ManualRecovery c)) (\<lambda>_. finish_committed u (tx_from T) (tx_to T))"
  define check where "check = try_or (if portable e
      then need_all [ARTIFACT_INVALID, ARTIFACT_INVALID, ARTIFACT_INVALID]
      else ret (Inr ())) ?bad (\<lambda>_. commit)"
  define activate where "activate = try_or activating ?bad (\<lambda>_. check)"
  define to_activating where
    "to_activating = try_or (mutate_journal (to_state Activating ''activating'')) ?bad (\<lambda>_. activate)"
  define to_ready where "to_ready =
      try_or (mutate_journal (to_state CandidateReady ''candidate_ready'')) ?bad (\<lambda>_. to_activating)"
  define ready where "ready = try_or (candidate_ready (tx_to T)) ?bad (\<lambda>_. to_ready)"
  have run: "run_candidate u (tx_from T) (tx_to T) w = with_env (\<lambda>e.
     try_or (mutate_journal (\<lambda>k. (to_state CandidateStarting ''candidate_starting'' k)
         \<lparr>child := Some (spawned e)\<rparr>)) ?bad (\<lambda>_.
     try_or (candidate_ready (tx_to T)) ?bad (\<lambda>_. 
     try_or (mutate_journal (to_state CandidateReady ''candidate_ready'')) ?bad (\<lambda>_. 
     try_or (mutate_journal (to_state Activating ''activating'')) ?bad (\<lambda>_. 
     try_or activating ?bad (\<lambda>_. 
     try_or (if portable e
      then need_all [ARTIFACT_INVALID, ARTIFACT_INVALID, ARTIFACT_INVALID]
      else ret (Inr ())) ?bad (\<lambda>_. commit)))))))"
    by (simp only: run_candidate_def commit_def)
  have check: "?ok check x" if "advanced T s x" for s x
    unfolding check_def
    by (rule wp_try_const)
      (intro wp_when wp_need_all, simp_all add: advanced_safe [OF that] advanced_fails(1) [OF that]
        commit_def wp_commit [OF that])
  have activate: "?ok activate x" if "advanced T s x" for s x
    unfolding activate_def
    by (rule wp_try_const, rule wp_activating)
      (simp_all add: advanced_safe [OF that] advanced_fails(1) [OF that] check [OF that])
  have to_activating: "?ok to_activating x" if "advanced T s x" for s x
    unfolding to_activating_def
    by (rule wp_advance [where s' = Activating, OF that])
      (simp_all add: late_members advanced_fails(1) [OF that] activate)
  have to_ready: "?ok to_ready x" if "advanced T s x" for s x
    unfolding to_ready_def
    by (rule wp_advance [where s' = CandidateReady, OF that])
      (simp_all add: late_members advanced_fails(1) [OF that] to_activating)
  have ready: "?ok ready x" if "advanced T s x" for s x
    unfolding ready_def
    by (rule wp_try_const, rule wp_candidate_ready)
      (simp_all add: advanced_safe [OF that] advanced_fails(1) [OF that] to_ready [OF that])
  note folds = check_def [symmetric] activate_def [symmetric] to_activating_def [symmetric]
    to_ready_def [symmetric] ready_def [symmetric]
  show ?thesis
    unfolding run
    by (rule wp_with_env, unfold folds, rule wp_advance [where s' = CandidateStarting, OF assms])
      (simp_all add: late_members advanced_fails(1) [OF assms] ready)
qed

text \<open>The same before the pointer is switched.\<close>

definition before_pointer :: "tx \<Rightarrow> journal_state \<Rightarrow> disk \<Rightarrow> bool" where
  "before_pointer T s d \<longleftrightarrow> (\<exists>j. switched_at T d j \<and> state j = s) \<and> pointer d = Some (tx_from T)"

lemma before_pointer_safe: "before_pointer T s d \<Longrightarrow> crash_ok T d"
  using switched_at_safe by (auto simp: before_pointer_def)

lemma before_pointer_fails:
  "before_pointer T s d \<Longrightarrow> wp e (fail_after_switch c w) (outcome_ok T) (crash_ok T) d"
  using wp_fail_after_switch by (auto simp: before_pointer_def)

lemma before_pointer_dirs:
  "before_pointer T s d \<Longrightarrow> before_pointer T s (d\<lparr>staged_app := a, version_dir := v\<rparr>)"
  by (auto simp: before_pointer_def switched_at_def restorable_def)

lemma before_pointer_switch:
  assumes "before_pointer T Switched d"
  shows "advanced T Switched (d\<lparr>pfile := Present (current_state_new (tx_to T) p)\<rparr>)"
  using assms by (auto simp: before_pointer_def advanced_def switched_at_def restorable_def late_states_def)

lemma advanced_live:
  "advanced T s d \<Longrightarrow> advanced T s (d\<lparr>server := v, live_data := t, live_config := c\<rparr>)"
  unfolding advanced_def by (elim conjE exE, intro conjI exI, erule switched_at_live) simp_all

lemma wp_start_candidate:
  assumes "advanced T Switched d"
  shows "wp e (try_or (start_candidate (tx_to T)) (\<lambda>c. fail_after_switch c w)
      (\<lambda>_. run_candidate u (tx_from T) (tx_to T) w)) (outcome_ok T) (crash_ok T) d"
proof -
  have "wp e (start_candidate (tx_to T))
     (\<lambda>r x. case r of Inl _ \<Rightarrow> x = d | Inr _ \<Rightarrow> advanced T Switched x) (crash_ok T) d"
    unfolding start_candidate_def
    by (intro wp_with_env wp_ask_checks wp_need)
      (use assms advanced_safe [OF assms] in \<open>auto intro: advanced_live\<close>)
  then show ?thesis
    by (intro wp_try_or, elim wp_conseq)
      (use assms in \<open>auto intro: advanced_fails(2) wp_run_candidate split: sum.splits\<close>)
qed

lemma wp_write_pointer:
  assumes "before_pointer T Switched d"
  shows "wp e (try_or (write_switched_pointer (tx_from T) (tx_to T)) (\<lambda>c. fail_after_switch c w) (\<lambda>_.
     try_or (start_candidate (tx_to T)) (\<lambda>c. fail_after_switch c w)
      (\<lambda>_. run_candidate u (tx_from T) (tx_to T) w))) (outcome_ok T) (crash_ok T) d"
  unfolding write_switched_pointer_def
  by (rule wp_try_need)
    (use assms in \<open>auto intro: before_pointer_safe before_pointer_fails wp_start_candidate
      before_pointer_switch\<close>)

text \<open>A step of the journal before the pointer is switched.\<close>

lemma wp_prepare:
  assumes "before_pointer T s d"
    and keeps: "\<And>j. state (f j) = s'" "\<And>j. snapshot (f j) = snapshot j"
      "\<And>j. schema_version (f j) = schema_version j" "\<And>j. tx_journal T j \<Longrightarrow> tx_journal T (f j)"
    and "s' \<in> late_states \<union> {SnapshotVerified, Migrating}"
    and err: "wp e (h UPDATER_UNAVAILABLE) Q (crash_ok T) d"
    and nxt: "\<And>j d'. before_pointer T s' d' \<Longrightarrow> content d' = content d \<Longrightarrow> wp e (k j) Q (crash_ok T) d'"
  shows "wp e (try_or (mutate_journal f) h k) Q (crash_ok T) d"
proof -
  obtain j where j: "switched_at T d j" "state j = s" "pointer d = Some (tx_from T)"
    using assms(1) by (auto simp: before_pointer_def)
  then have h: "has_journal d j" by (simp add: switched_at_def)
  have "switched_at T (d\<lparr>jfile := Present ((f j)\<lparr>updated_at := Some t\<rparr>)\<rparr>) ((f j)\<lparr>updated_at := Some t\<rparr>)" for t
    using keeps assms(6) j has_journal_schema [OF h]
    by (auto simp: switched_at_def tx_journal_def restorable_def)
  then have "before_pointer T s' (d\<lparr>jfile := Present ((f j)\<lparr>updated_at := Some t\<rparr>)\<rparr>)" for t
    using keeps(1) j(3) by (force simp: before_pointer_def)
  then have step: "wp e (k ((f j)\<lparr>updated_at := Some t\<rparr>)) Q (crash_ok T)
      (d\<lparr>jfile := Present ((f j)\<lparr>updated_at := Some t\<rparr>)\<rparr>)" for t
    by (rule nxt) simp
  show ?thesis
    by (rule wp_mutate_or, rule h, rule before_pointer_safe [OF assms(1)], rule err, rule step)
qed

lemma wp_install_app_dir:
  assumes "before_pointer T s d"
  shows "wp e (install_app_dir u v)
    (\<lambda>r x. before_pointer T s x) (crash_ok T) d"
  unfolding install_app_dir_def set_staged_def load_cached_manifest_def
  by (rule wp_bnd_look)
    (use assms before_pointer_safe [OF assms] before_pointer_dirs [OF assms] in
      \<open>auto intro!: wp_ask_checks wp_ask_need wp_need_all wp_need\<close>)

lemma wp_switch_over:
  assumes "before_pointer T SnapshotVerified d" "content d = tx_old T"
  shows "wp e (switch_over u (tx_from T) (tx_to T) w) (outcome_ok T) (crash_ok T) d"
proof -
  let ?ok = "\<lambda>m x. wp e m (outcome_ok T) (crash_ok T) x"
  let ?bad = "\<lambda>c. fail_after_switch c w"
  define point where "point = try_or (write_switched_pointer (tx_from T) (tx_to T)) ?bad (\<lambda>_.
     try_or (start_candidate (tx_to T)) ?bad (\<lambda>_. run_candidate u (tx_from T) (tx_to T) w))"
  define switched where
    "switched = try_or (mutate_journal (to_state Switched ''switched'')) ?bad (\<lambda>_. point)"
  define install where "install = try_or (install_app_dir u (tx_to T)) ?bad (\<lambda>_. switched)"
  have point: "?ok point x" if "before_pointer T Switched x" for x
    unfolding point_def by (rule wp_write_pointer [OF that])
  have switched: "?ok switched x" if "before_pointer T s x" for s x
    unfolding switched_def
    by (rule wp_prepare [where s' = Switched, OF that])
      (simp_all add: late_members before_pointer_fails [OF that] point)
  have install: "?ok install x" if "before_pointer T s x" for s x
    unfolding install_def
    by (rule wp_try_or, rule wp_conseq [OF wp_install_app_dir [OF that]])
      (auto intro: before_pointer_fails switched split: sum.splits)
  have quiet: "quiet T d"
    using assms by (auto simp: quiet_def unswitched_def exposed_def before_pointer_def switched_at_def)
  show ?thesis
    unfolding switch_over_def
    by (unfold point_def [symmetric] switched_def [symmetric] install_def [symmetric],
        rule wp_prepare [where s' = Migrating, OF assms(1)])
      (simp_all add: late_members wp_fail_after_stop [OF quiet] install)
qed

text \<open>Creating a snapshot touches the backups only; success means it holds the live files.\<close>

lemma set_backup_same: "set_backup u (backups d u) d = d"
  by (simp add: set_backup_def)

lemma set_backup_twice: "set_backup u b (set_backup u b' d) = set_backup u b d"
  by (simp add: set_backup_def)

lemma live_set_backup [simp]:
  "live_tree (set_backup u b d) = live_tree d" "live_config (set_backup u b d) = live_config d"
  by (simp_all add: live_tree_def set_backup_def)

lemma wp_snapshot_create:
  assumes crash: "\<And>b. C (set_backup u b d)" and err: "\<And>b. Q (Inl ()) (set_backup u b d)"
    and ok: "\<And>s. snap_id s = u \<Longrightarrow>
      Q (Inr s) (set_backup u (Some (Complete (live_tree d) (live_config d))) d)"
  shows "wp e (snapshot_create u) Q C d"
proof -
  have d: "C d" "Q (Inl ()) d"
    using crash [of "backups d u"] err [of "backups d u"] by (simp_all only: set_backup_same)
  show ?thesis
    unfolding snapshot_create_def
    by (cases "sanitize_id u")
      (auto intro!: wp_fail wp_bnd_look wp_ask [of e "if _ then _ else _"] wp_when wp_need
        wp_ask_need wp_ask_checks wp_look simp: set_backup_twice crash err ok d)
qed

lemma wp_take_snapshot:
  assumes j: "has_journal d j" "tx_journal T j" and s: "state j \<in> early_states" "old_in_place T d"
  shows "wp e (take_snapshot u)
    (\<lambda>r x. case r of Inl _ \<Rightarrow> quiet T x
      | Inr _ \<Rightarrow> before_pointer T SnapshotVerified x \<and> content x = tx_old T) (crash_ok T) d"
proof -
  have early: "early T (set_backup u b d)" for b
    using earlyI [OF j s] by (simp add: early_backup)
  have j': "has_journal (set_backup u b d) j" for b
    using j by (simp add: set_backup_def)
  have taken: "before_pointer T SnapshotVerified x \<and> content x = tx_old T"
    if "x = (set_backup u (Some (Complete (live_tree d) (live_config d))) d)\<lparr>jfile := Present
      ((to_state SnapshotVerified ''snapshot_verified'' j)
            \<lparr>snapshot := Some i, data_schema_before := b, data_schema_after := a,
             updated_at := t\<rparr>)\<rparr>" "snap_id i = u" for x i a b t
  proof -
    have "tx_old T = (live_tree d, live_config d)" "pointer d = Some (tx_from T)"
      "content x = content d"
      using that s(2) by (simp_all add: old_in_place_def content_def set_backup_def live_tree_def)
    then show ?thesis
      using that j has_journal_schema [OF j(1)]
      by (auto simp: before_pointer_def switched_at_def restorable_def to_state_def tx_journal_def
          content_def set_backup_def)
  qed
  have old: "content (set_backup u b d) = tx_old T" for b
    using s(2) by (simp add: old_in_place_def set_backup_def)
  have mark: "wp e (ask (mutate_journal (\<lambda>k. (to_state SnapshotVerified ''snapshot_verified'' k)
            \<lparr>snapshot := Some i, data_schema_before := live_schema e,
             data_schema_after := snapshot_schema e\<rparr>)) (\<lambda>_. ret (Inr ())))
      (\<lambda>r x. case r of Inl _ \<Rightarrow> quiet T x
        | Inr _ \<Rightarrow> before_pointer T SnapshotVerified x \<and> content x = tx_old T) (crash_ok T)
      (set_backup u (Some (Complete (live_tree d) (live_config d))) d)" if "snap_id i = u" for i
    by (rule wp_mutate_ask, rule j', rule crash_okI(1), rule early)
      (auto simp: quiet_def early old intro!: wp_ret taken [OF refl that, THEN conjunct1])
  show ?thesis
    unfolding take_snapshot_def
    by (intro wp_with_env wp_try_or wp_snapshot_create)
      (simp_all add: quiet_def early crash_okI(1) wp_fail mark)
qed

text \<open>Steps of the journal before the snapshot.\<close>

lemma wp_early_step:
  assumes "early T d"
    and keeps: "\<And>j. state (f j) \<in> early_states" "\<And>j. schema_version (f j) = schema_version j"
      "\<And>j. tx_journal T j \<Longrightarrow> tx_journal T (f j)"
    and err: "wp e (h UPDATER_UNAVAILABLE) Q (crash_ok T) d"
    and nxt: "\<And>j d'. early T d' \<Longrightarrow> wp e (k j) Q (crash_ok T) d'"
  shows "wp e (try_or (mutate_journal f) h k) Q (crash_ok T) d"
proof -
  obtain j where j: "has_journal d j" "tx_journal T j" "old_in_place T d"
    using assms(1) by (auto simp: early_def)
  have "early T (d\<lparr>jfile := Present ((f j)\<lparr>updated_at := Some t\<rparr>)\<rparr>)" for t
    by (rule earlyI [where j = "(f j)\<lparr>updated_at := Some t\<rparr>"])
      (use keeps j has_journal_schema [OF j(1)] in \<open>auto simp: tx_journal_def old_in_place_def\<close>)
  then show ?thesis
    using err nxt j(1) assms(1) by (blast intro: wp_mutate_or crash_okI(1))
qed

lemmas early_members = early_states_def to_state_def tx_journal_def

lemma early_fails: "early T d \<Longrightarrow> wp e (fail_before_snapshot c) (outcome_ok T) (crash_ok T) d"
  by (rule wp_fail_before_snapshot) (simp add: quiet_def)

lemma early_server: "early T d \<Longrightarrow> early T (d\<lparr>server := v\<rparr>)"
  by (simp add: early_def old_in_place_def)

lemma wp_snapshot_and_switch:
  assumes "early T d"
  shows "wp e (try_or (take_snapshot u) (\<lambda>c. fail_after_stop c w)
      (\<lambda>_. switch_over u (tx_from T) (tx_to T) w)) (outcome_ok T) (crash_ok T) d"
proof -
  obtain j where j: "has_journal d j" "tx_journal T j" "state j \<in> early_states" "old_in_place T d"
    using assms by (auto simp: early_def)
  show ?thesis
    by (rule wp_try_or, rule wp_conseq [OF wp_take_snapshot [OF j]])
      (auto intro: wp_fail_after_stop wp_switch_over split: sum.splits)
qed

lemma wp_cancelled:
  assumes "early T d"
  shows "wp e (ignoring (mutate_journal (\<lambda>k. (to_state Staged ''staged'' k)\<lparr>error := Some UPDATE_BUSY\<rparr>))
      (ret UpgradeCancelled)) (outcome_ok T) (crash_ok T) d"
proof -
  have "wp e (try_or (mutate_journal (\<lambda>k. (to_state Staged ''staged'' k)\<lparr>error := Some UPDATE_BUSY\<rparr>))
      (\<lambda>_. ret UpgradeCancelled) (\<lambda>_. ret UpgradeCancelled)) (outcome_ok T) (crash_ok T) d"
    by (rule wp_early_step [OF assms])
      (use assms in \<open>auto simp: early_members intro!: wp_ret outcome_old\<close>,
        simp_all add: early_def)
  moreover have "ignoring m (ret UpgradeCancelled) =
      try_or m (\<lambda>_. ret UpgradeCancelled) (\<lambda>_. ret UpgradeCancelled)"
    for m :: "(unit engine_env_ext, (business_code, journal) result) act"
    by (simp add: ignoring_def try_or_def sum.case_eq_if)
  ultimately show ?thesis by simp
qed

lemma wp_drain:
  assumes "early T d"
  shows "wp e (drain_old_server b) (\<lambda>_. early T) (crash_ok T) d"
  unfolding drain_old_server_def
  by (rule wp_when) (use assms in \<open>auto intro!: wp_need intro: early_server\<close>)

lemma wp_install_downloaded:
  assumes "early T d"
  shows "wp e (install_downloaded (tx_to T)) (outcome_ok T) (crash_ok T) d"
proof -
  let ?ok = "\<lambda>m x. wp e m (outcome_ok T) (crash_ok T) x"
  define snap where "snap = (\<lambda>u w. try_or (take_snapshot u) (\<lambda>c. fail_after_stop c w)
      (\<lambda>_. switch_over u (tx_from T) (tx_to T) w))"
  define begin_snap where "begin_snap = (\<lambda>u w.
      try_or (mutate_journal (to_state Snapshotting ''snapshotting'')) fail_before_snapshot (\<lambda>_. snap u w))"
  define stopped where "stopped = (\<lambda>u w.
      try_or (mutate_journal (to_state Stopped ''stopped'')) fail_before_snapshot (\<lambda>_. begin_snap u w))"
  define cancel :: "upgrade_outcome eng" where
    "cancel = ignoring (mutate_journal (\<lambda>k. (to_state Staged ''staged'' k)\<lparr>error := Some UPDATE_BUSY\<rparr>))
      (ret UpgradeCancelled)"
  have snap: "?ok (snap u w) x" if "early T x" for u w x
    unfolding snap_def by (rule wp_snapshot_and_switch [OF that])
  have begin_snap: "?ok (begin_snap u w) x" if "early T x" for u w x
    unfolding begin_snap_def
    by (rule wp_early_step [OF that]) (simp_all add: early_members early_fails [OF that] snap)
  have stopped: "?ok (stopped u w) x" if "early T x" for u w x
    unfolding stopped_def
    by (rule wp_early_step [OF that]) (simp_all add: early_members early_fails [OF that] begin_snap)
  have drained: "?ok (try_or (drain_old_server b) (\<lambda>_. cancel) (\<lambda>_. stopped u w)) x"
    if "early T x" for b u w x
    by (rule wp_try_or, rule wp_conseq [OF wp_drain [OF that]])
      (auto intro: stopped simp: cancel_def intro!: wp_cancelled split: sum.splits)
  have loaded: "?ok (try_or load_j fail_before_snapshot (\<lambda>j.
     case update_id j of
       None \<Rightarrow> fail_before_snapshot ARTIFACT_INVALID
     | Some u \<Rightarrow>
         let from = (case rollback_target j of Some v \<Rightarrow> v | None \<Rightarrow> []) in
         with_env (\<lambda>e.
         try_or (drain_old_server (listening e)) (\<lambda>_. cancel) (\<lambda>_.
         try_or (mutate_journal (to_state Stopped ''stopped'')) fail_before_snapshot (\<lambda>_.
         try_or (mutate_journal (to_state Snapshotting ''snapshotting'')) fail_before_snapshot (\<lambda>_.
         try_or (take_snapshot u) (\<lambda>c. fail_after_stop c (listening e)) (\<lambda>_.
         switch_over u from (tx_to T) (listening e)))))))) x"
    if "early T x" for x
  proof -
    obtain j where j: "has_journal x j" "tx_journal T j" using \<open>early T x\<close> by (auto simp: early_def)
    show ?thesis
      by (intro wp_try_or wp_load_j [OF j(1)])
        (use j(2) drained [OF that] that in
          \<open>auto simp: tx_journal_def rollback_target_def early_fails stopped_def begin_snap_def snap_def
            intro!: wp_with_env\<close>)
  qed
  show ?thesis
    unfolding install_downloaded_def
    by (unfold cancel_def [symmetric], rule wp_early_step [OF assms])
      (simp_all add: early_members early_fails [OF assms] loaded)
qed

text \<open>The preparation reads; its two writes stay before the snapshot.\<close>

lemma wp_reverify:
  assumes "has_journal d j" "C d" "\<And>r. Q r d"
  shows "wp e reverify_staging Q C d"
proof -
  have rest: "wp e (ask load_j (\<lambda>j. case update_id j of
       None \<Rightarrow> fail UPDATE_NOT_READY
     | Some u \<Rightarrow>
         ask (need ARTIFACT_INVALID id) (\<lambda>_.
         ask (need UPDATE_NOT_READY id) (\<lambda>_.
         look (\<lambda>d. if staged_app d u then Inr () else Inl UPDATE_NOT_READY))))) Q C d"
    by (intro wp_ask wp_load_j [OF assms(1)])
      (use assms(2,3) in \<open>auto intro!: wp_fail wp_ask_need wp_look split: option.splits\<close>)
  have files: "wp e (if portable e then need ARTIFACT_INVALID id else ret (Inr ())) P C d"
    if "\<And>r. P r d" for P
    by (rule wp_when) (use assms(2) that in \<open>auto intro!: wp_need\<close>)
  have "wp e (ask (if portable e then need ARTIFACT_INVALID id else ret (Inr ())) (\<lambda>_.
      ask load_j (\<lambda>j. case update_id j of
       None \<Rightarrow> fail UPDATE_NOT_READY
     | Some u \<Rightarrow>
         ask (need ARTIFACT_INVALID id) (\<lambda>_.
         ask (need UPDATE_NOT_READY id) (\<lambda>_.
         look (\<lambda>d. if staged_app d u then Inr () else Inl UPDATE_NOT_READY)))))) Q C d"
    by (rule wp_ask, rule files) (use assms(3) rest in \<open>auto intro!: wp_fail split: sum.splits\<close>)
  then show ?thesis
    unfolding reverify_staging_def load_cached_manifest_def
    using assms(2,3) by (intro wp_ask_checks wp_ask_need wp_with_env) auto
qed

lemma wp_early_ask:
  assumes "early T d" "\<And>j. state (f j) \<in> early_states" "\<And>j. schema_version (f j) = schema_version j"
    "\<And>j. tx_journal T j \<Longrightarrow> tx_journal T (f j)"
    and "\<And>j d'. early T d' \<Longrightarrow> wp e (k j) (\<lambda>_. early T) (crash_ok T) d'"
  shows "wp e (ask (mutate_journal f) k) (\<lambda>_. early T) (crash_ok T) d"
  unfolding ask_def by (rule wp_early_step [OF assms(1-4)]) (simp_all add: assms wp_fail)

lemma wp_prepare_install:
  assumes "early T d"
  shows "wp e phase_prepare_install (\<lambda>_. early T) (crash_ok T) d"
proof -
  obtain j where j: "has_journal d j" using assms by (auto simp: early_def)
  have staged: "wp e (ask (mutate_journal (to_state Staged ''staged'')) (\<lambda>_. ret (Inr ())))
      (\<lambda>_. early T) (crash_ok T) x" if "early T x" for x
    by (rule wp_early_ask [OF that]) (simp_all add: early_members wp_ret)
  have failed: "wp e (ask (mutate_journal (\<lambda>k. (to_state Staged ''staged'' k)\<lparr>error := Some c\<rparr>))
      (\<lambda>_. fail c)) (\<lambda>_. early T) (crash_ok T) x" if "early T x"
    for x and c :: business_code
    by (rule wp_early_ask [OF that]) (simp_all add: early_members wp_fail)
  have verify: "wp e (try_or reverify_staging
      (\<lambda>c. ask (mutate_journal (\<lambda>k. (to_state Staged ''staged'' k)\<lparr>error := Some c\<rparr>)) (\<lambda>_. fail c))
      (\<lambda>_. ask (mutate_journal (to_state Staged ''staged'')) (\<lambda>_. ret (Inr ()))))
      (\<lambda>_. early T) (crash_ok T) x" if "early T x" for x
  proof -
    obtain k where "has_journal x k" using \<open>early T x\<close> by (auto simp: early_def)
    then show ?thesis
      by (intro wp_try_or wp_reverify) (auto intro: staged failed that split: sum.splits)
  qed
  have verifying: "wp e (ask (mutate_journal (to_state Verifying ''verifying'')) (\<lambda>_. try_or reverify_staging
      (\<lambda>c. ask (mutate_journal (\<lambda>k. (to_state Staged ''staged'' k)\<lparr>error := Some c\<rparr>)) (\<lambda>_. fail c))
      (\<lambda>_. ask (mutate_journal (to_state Staged ''staged'')) (\<lambda>_. ret (Inr ())))))
      (\<lambda>_. early T) (crash_ok T) d"
    by (rule wp_early_ask [OF assms]) (rule verify, assumption | simp add: early_members)+
  show ?thesis
    unfolding phase_prepare_install_def
    by (intro wp_ask wp_load_j [OF j])
      (use assms in \<open>auto intro!: wp_fail wp_ret verifying wp_ask [of e "ret _"]
        split: option.splits sum.splits\<close>)
qed

lemma wp_install_staged:
  assumes "early T d"
  shows "wp e install_staged (outcome_ok T) (crash_ok T) d"
proof -
  define go where "go = try_or
       (ask load_j (\<lambda>j.
        case to_version j of
          None \<Rightarrow> fail UPDATE_NOT_READY
        | Some v \<Rightarrow> ask load_cached_manifest (\<lambda>_. ret (Inr v))))
       (\<lambda>c. ret (FailedOldHealthy c)) install_downloaded"
  have go: "wp e go (outcome_ok T) (crash_ok T) x" if "early T x" for x
  proof -
    obtain k where k: "has_journal x k" "tx_journal T k" using \<open>early T x\<close> by (auto simp: early_def)
    have "outcome_ok T (FailedOldHealthy c) x" for c
      using that by (intro outcome_old crash_okI(1)) (simp_all add: early_def)
    then have "wp e (ret (FailedOldHealthy c)) (outcome_ok T) (crash_ok T) x" for c
      by (rule wp_ret)
    then show ?thesis
      unfolding go_def load_cached_manifest_def using that k wp_install_downloaded [OF that]
      by (intro wp_try_or wp_ask wp_load_j [OF k(1)])
        (auto intro!: wp_fail wp_need_all wp_ret wp_ask [of e "need_all _"] simp: tx_journal_def)
  qed
  have stop: "wp e (ignoring (mutate_journal (set_failed_idle c)) (ret (FailedOldHealthy c)))
      (outcome_ok T) (crash_ok T) x" if "early T x" for c x
    using early_fails [OF that] by (simp add: fail_before_snapshot_def)
  show ?thesis
    unfolding install_staged_def go_def [symmetric]
    by (rule wp_try_or, rule wp_conseq [OF wp_prepare_install [OF assms]])
      (auto intro: go stop split: sum.splits)
qed

end
