(* ===== verification/RecoveryLiveness.thy ===== *)
theory RecoveryLiveness
  imports RecoverySafety
begin

text \<open>
  A recovery that nothing disturbs comes to an end: the crash condition of a weakest
  precondition is \<open>False\<close> here, so each rule says that the action returns.
\<close>

section \<open>Undisturbed actions\<close>

definition steady :: "'e machine_env_scheme \<Rightarrow> bool" where
  "steady e \<longleftrightarrow> (\<forall>n. verdict e n = Works)"

lemma wp_conj:
  assumes "wp e m Q C d" "wp e m Q' C' d"
  shows "wp e m (\<lambda>x d'. Q x d' \<and> Q' x d') (\<lambda>d'. C d' \<and> C' d') d"
  unfolding wp_def
proof
  fix n
  show "case m e n d of (Some x, _, d') \<Rightarrow> Q x d' \<and> Q' x d' | (None, _, d') \<Rightarrow> C d' \<and> C' d'"
    using assms [unfolded wp_def, THEN spec, of n] by (auto split: prod.splits option.splits)
qed

lemma steady_effect: "steady e \<Longrightarrow> Q True (f d) \<Longrightarrow> wp e (effect f) Q C d"
  by (simp add: steady_def wp_def effect_def)

lemma steady_need: "steady e \<Longrightarrow> Q (Inr ()) (f d) \<Longrightarrow> wp e (need c f) Q C d"
  unfolding need_def by (intro wp_bnd steady_effect wp_ret) simp_all

lemma steady_checks: "steady e \<Longrightarrow> Q (Inr ()) d \<Longrightarrow> wp e (need_all cs) Q C d"
  by (induction cs) (simp_all add: need_all.simps wp_ret wp_ask steady_need)

lemma steady_ask_need:
  "steady e \<Longrightarrow> wp e (k ()) Q C (f d) \<Longrightarrow> wp e (ask (need c f) k) Q C d"
  by (intro wp_ask steady_need) simp_all

lemma steady_ask_checks:
  "steady e \<Longrightarrow> wp e (k ()) Q C d \<Longrightarrow> wp e (ask (need_all cs) k) Q C d"
  by (intro wp_ask steady_checks) simp_all

lemma steady_write: "steady e \<Longrightarrow> Q True (d\<lparr>jfile := Present j\<rparr>) \<Longrightarrow> wp e (write_journal j) Q C d"
  unfolding write_journal_def by (rule steady_effect)

lemma steady_load_journal:
  assumes "steady e" "has_journal d j" "Q (Inr \<lparr>loaded = j, was_reset = False\<rparr>) d"
  shows "wp e load_journal Q C d"
proof -
  have l: "load_journal_file (jfile d) = (\<lparr>loaded = j, was_reset = False\<rparr>, jfile d)"
    using assms(2) by (simp add: has_journal_def)
  have "d\<lparr>jfile := jfile d\<rparr> = d" by simp
  with assms(1,3) show ?thesis
    unfolding load_journal_def by (intro wp_bnd wp_look steady_effect wp_ret) (simp_all add: l)
qed

lemma steady_mutate:
  assumes "steady e" "has_journal d j"
    "\<And>t. Q (Inr ((f j)\<lparr>updated_at := Some t\<rparr>)) (d\<lparr>jfile := Present ((f j)\<lparr>updated_at := Some t\<rparr>)\<rparr>)"
  shows "wp e (mutate_journal f) Q C d"
  unfolding mutate_journal_def load_j_def
  by (intro wp_ask steady_load_journal [OF assms(1,2)])
    (use assms in \<open>auto intro!: wp_ret wp_bnd wp_now steady_write simp: Let_def\<close>)

section \<open>The rollback returns\<close>

lemma steady_verify:
  "steady e \<Longrightarrow> sanitize_id u = Inr () \<Longrightarrow> backups d u = Some (Complete t c) \<Longrightarrow> Q (Inr (t, c)) d
   \<Longrightarrow> wp e (snapshot_verify u) Q C d"
  unfolding snapshot_verify_def by (simp add: steady_ask_need wp_look)

lemma steady_restore:
  assumes s: "steady e" and "sanitize_id u = Inr ()" "backups d u = Some (Complete t c)"
  shows "wp e (snapshot_restore u) (\<lambda>r _. r = Inr ()) (\<lambda>_. False) d"
proof -
  let ?Q = "\<lambda>r _. r = Inr ()" and ?C = "\<lambda>_. False"
  have last: "wp e (ask (if c \<noteq> None then need () (\<lambda>d. d\<lparr>live_config := c\<rparr>) else ret (Inr ()))
      (\<lambda>_. need_all [(), ()])) ?Q ?C x" for x
    by (intro wp_ask wp_when steady_need) (simp_all add: s steady_checks)
  have data: "wp e (ask (need () (\<lambda>d. d\<lparr>live_data := Some t\<rparr>)) (\<lambda>_.
      ask (if c \<noteq> None then need () (\<lambda>d. d\<lparr>live_config := c\<rparr>) else ret (Inr ()))
      (\<lambda>_. need_all [(), ()]))) ?Q ?C x" for x
    by (rule steady_ask_need, rule s, rule last)
  have config: "wp e (bnd (look (\<lambda>d. live_config d \<noteq> None)) (\<lambda>has_config.
      ask (if has_config then need () quarantine_config else ret (Inr ())) (\<lambda>_.
      ask (need () (\<lambda>d. d\<lparr>live_data := Some t\<rparr>)) (\<lambda>_.
      ask (if c \<noteq> None then need () (\<lambda>d. d\<lparr>live_config := c\<rparr>) else ret (Inr ()))
      (\<lambda>_. need_all [(), ()]))))) ?Q ?C x" for x
    by (intro wp_bnd_look wp_ask wp_when steady_need) (use s data in simp_all)
  have "wp e (bnd (look (\<lambda>d. live_data d \<noteq> None)) (\<lambda>has_data.
      ask (if has_data then need () quarantine_data else ret (Inr ())) (\<lambda>_.
      bnd (look (\<lambda>d. live_config d \<noteq> None)) (\<lambda>has_config.
      ask (if has_config then need () quarantine_config else ret (Inr ())) (\<lambda>_.
      ask (need () (\<lambda>d. d\<lparr>live_data := Some t\<rparr>)) (\<lambda>_.
      ask (if c \<noteq> None then need () (\<lambda>d. d\<lparr>live_config := c\<rparr>) else ret (Inr ()))
      (\<lambda>_. need_all [(), ()]))))))) ?Q ?C d"
    by (intro wp_bnd_look wp_ask wp_when steady_need) (use s config in simp_all)
  then have all: "wp e (ask (need_all [(), (), ()]) (\<lambda>_. bnd (look (\<lambda>d. live_data d \<noteq> None)) (\<lambda>has_data.
      ask (if has_data then need () quarantine_data else ret (Inr ())) (\<lambda>_.
      bnd (look (\<lambda>d. live_config d \<noteq> None)) (\<lambda>has_config.
      ask (if has_config then need () quarantine_config else ret (Inr ())) (\<lambda>_.
      ask (need () (\<lambda>d. d\<lparr>live_data := Some t\<rparr>)) (\<lambda>_.
      ask (if c \<noteq> None then need () (\<lambda>d. d\<lparr>live_config := c\<rparr>) else ret (Inr ()))
      (\<lambda>_. need_all [(), ()])))))))) ?Q ?C d"
    by (intro steady_ask_checks s)
  show ?thesis
    unfolding snapshot_restore_def
    by (rule wp_ask, rule steady_verify, rule s, rule assms, rule assms,
        simp only: sum.case prod.case, rule all)
qed

text \<open>A rollback in a state whose data it restores returns and has rolled back.\<close>

definition can_restore :: "journal \<Rightarrow> bool" where
  "can_restore j \<longleftrightarrow> (case snapshot j of Some s \<Rightarrow> sanitize_id (snap_id s) = Inr () | None \<Rightarrow> False)"

lemma steady_restore_data:
  assumes "steady e" "rolling T j d x"
    "state j \<in> set switched_states \<Longrightarrow> restorable T d j \<and> can_restore j"
    "state j \<notin> set switched_states \<Longrightarrow> content d = tx_old T"
  shows "wp e (restore_data j) (\<lambda>r y. r = Inr () \<and> rolling T j d y) (\<lambda>_. False) x"
proof -
  have "wp e (restore_data j) (\<lambda>r _. r = Inr ()) (\<lambda>_. False) x"
  proof (cases "state j \<in> set switched_states")
    case True
    obtain s where s: "snapshot j = Some s" "sanitize_id (snap_id s) = Inr ()"
      "backups x (snap_id s) = Some (Complete (fst (tx_old T)) (snd (tx_old T)))"
      using assms(3) [OF True] rolling_backups [OF assms(2)]
      by (auto simp: restorable_def can_restore_def)
    have "wp e (snapshot_restore (snap_id s)) (\<lambda>r _. r = Inr ()) (\<lambda>_. False) x"
      by (rule steady_restore [OF assms(1) s(2,3)])
    then show ?thesis
      using True by (auto simp: restore_data_def s(1) intro!: wp_try_or elim!: wp_conseq intro: wp_ret)
  qed (simp add: restore_data_def wp_ret)
  moreover have "wp e (restore_data j) (\<lambda>_. rolling T j d) (\<lambda>_. True) x"
    by (rule wp_restore_data) (use assms in auto)
  ultimately have "wp e (restore_data j) (\<lambda>r y. r = Inr () \<and> rolling T j d y)
      (\<lambda>_. False \<and> True) x"
    by (rule wp_conj)
  then show ?thesis by simp
qed

lemma steady_rollback:
  assumes s: "steady e" and tx: "tx_journal T j" and j: "has_journal d j"
    and sw: "state j \<in> set switched_states \<Longrightarrow> restorable T d j \<and> can_restore j"
    and still: "state j \<notin> set switched_states \<Longrightarrow> content d = tx_old T"
  shows "wp e (rollback_procedure j False False) (\<lambda>r x. r = Inr () \<and> rolled_back T x) (\<lambda>_. False) d"
proof -
  let ?Q = "\<lambda>r _. r = Inr ()" and ?C = "\<lambda>_. False"
  let ?mark = "mutate_journal (\<lambda>k. k\<lparr>state := Idle, child := None, last_step := Some ''failed''\<rparr>)"
  let ?point = "\<lambda>d. d\<lparr>pfile := Present (current_state_new (tx_from T) (previous_version j))\<rparr>"
  have target: "rollback_target j = Some (tx_from T)"
    using tx by (simp add: tx_journal_def rollback_target_def)
  have fin: "wp e (ask ?mark (\<lambda>_. ret (Inr ()))) ?Q ?C x" if "rolling T j d x" for x
  proof -
    from that obtain k where "has_journal x k" by (auto elim: rolling_journalE)
    then show ?thesis by (intro wp_ask steady_mutate [OF s]) (simp_all add: wp_ret)
  qed
  have switch: "wp e (ask (need ROLLBACK_UNAVAILABLE ?point) (\<lambda>_. ask (ret (Inr ())) (\<lambda>_.
      ask ?mark (\<lambda>_. ret (Inr ()))))) ?Q ?C x" if "rolling T j d x" for x
    by (intro steady_ask_need wp_ask_pure s) (use that in \<open>auto intro!: fin simp: rolling_def\<close>)
  have restore: "wp e (ask (restore_data j) (\<lambda>_.
      ask (need ROLLBACK_UNAVAILABLE ?point) (\<lambda>_. ask (ret (Inr ())) (\<lambda>_.
      ask ?mark (\<lambda>_. ret (Inr ())))))) ?Q ?C x" if "rolling T j d x" for x
    by (rule wp_ask, rule wp_conseq [OF steady_restore_data [OF s that sw still]])
      (auto intro: switch)
  have stop: "wp e (ignoring (stop_candidate j False) (ask (restore_data j) (\<lambda>_.
      ask (need ROLLBACK_UNAVAILABLE ?point) (\<lambda>_. ask (ret (Inr ())) (\<lambda>_.
      ask ?mark (\<lambda>_. ret (Inr ()))))))) ?Q ?C x" if "rolling T j d x" for x
  proof -
    have "wp e (stop_candidate j False) (\<lambda>_. rolling T j d) ?C x"
      unfolding stop_candidate_def stop_server_def using that
      by (auto intro!: wp_ret steady_effect s rolling_server split: option.splits)
    then show ?thesis by (intro wp_ignoring) (auto elim!: wp_conseq intro: restore)
  qed
  have "wp e (rollback_procedure j False False) ?Q ?C d"
    unfolding rollback_procedure_def target option.case if_False
    by (intro wp_ignoring steady_mutate [OF s j] stop rolling_journal [OF rolling_refl [OF j tx] j])
      (use tx in \<open>simp_all add: tx_journal_def\<close>)
  moreover have "wp e (rollback_procedure j False False)
      (\<lambda>r x. case r of Inl _ \<Rightarrow> True | Inr _ \<Rightarrow> rolled_back T x) (\<lambda>_. True) d"
    by (rule wp_rollback [OF rolling_refl [OF j tx] tx]) (use sw still in auto)
  ultimately have "wp e (rollback_procedure j False False)
      (\<lambda>r x. r = Inr () \<and> (case r of Inl _ \<Rightarrow> True | Inr _ \<Rightarrow> rolled_back T x)) (\<lambda>_. False \<and> True) d"
    by (rule wp_conj)
  then show ?thesis by (rule wp_conseq) auto
qed

section \<open>The recovery ends\<close>

definition ended :: "disk \<Rightarrow> bool" where
  "ended d \<longleftrightarrow> (\<exists>k. has_journal d k \<and> state k \<in> {Idle, Staged})"

definition settles_by :: "recovery_report \<Rightarrow> disk \<Rightarrow> bool" where
  "settles_by r d \<longleftrightarrow> outcome r \<noteq> ManualRequired \<and> ended d"

lemma steady_finish_idle:
  assumes "steady e" "schema_version j = STATE_SCHEMA_VERSION"
  shows "wp e (finish_idle j) settles_by C d"
  unfolding finish_idle_def report_def
  by (intro wp_ignoring steady_write wp_ret assms(1))
    (simp add: settles_by_def ended_def set_failed_idle_def assms(2))

lemma steady_pre_install:
  assumes "steady e" "schema_version j = STATE_SCHEMA_VERSION"
  shows "wp e (recover_pre_install j) settles_by (\<lambda>_. False) d"
proof -
  have staged: "wp e (ignoring (write_journal ((to_state Staged ''staged'' j)
              \<lparr>child := None, error := c\<rparr>))
            (report j StagedResumable)) settles_by (\<lambda>_. False) x" for x c
    unfolding report_def
    by (intro wp_ignoring steady_write wp_ret assms(1))
      (simp add: settles_by_def ended_def to_state_def assms(2))
  have idle: "wp e (ignoring (case update_id j of
              Some u \<Rightarrow> effect (set_staged u False) | None \<Rightarrow> ret True) (finish_idle j))
       settles_by (\<lambda>_. False) x" for x
    by (cases "update_id j")
      (simp_all add: wp_ignoring wp_ret steady_effect [OF assms(1)] steady_finish_idle [OF assms])
  have "wp e (staging_intact j) (\<lambda>_ _. True) (\<lambda>_. False) d"
    unfolding staging_intact_def
    by (auto intro!: wp_ret wp_bnd wp_look steady_checks assms(1) split: option.splits)
  then show ?thesis
    unfolding recover_pre_install_def
    by (intro wp_bnd) (auto elim!: wp_conseq simp: staged idle)
qed

lemma steady_rolls_back:
  assumes "steady e" "tx_journal T j" "has_journal d j"
    and "state j \<in> set switched_states \<Longrightarrow> restorable T d j \<and> can_restore j"
    and "state j \<notin> set switched_states \<Longrightarrow> content d = tx_old T"
  shows "wp e (try_or (rollback_procedure j False False) (\<lambda>_. finish_manual j)
      (\<lambda>_. report j RolledBack)) settles_by (\<lambda>_. False) d"
  by (rule wp_try_or, rule wp_conseq [OF steady_rollback [OF assms]])
    (auto simp: report_def settles_by_def ended_def rolled_back_def intro!: wp_ret)

lemma steady_snapshotting:
  assumes "steady e" "tx_journal T j" "has_journal d j" "state j = Snapshotting" "old_in_place T d"
  shows "wp e (recover_snapshotting j) settles_by (\<lambda>_. False) d"
proof -
  note idle = steady_finish_idle [OF assms(1) has_journal_schema [OF assms(3)]]
  have undo: "wp e (try_or (rollback_procedure j False False) (\<lambda>_. finish_manual j)
      (\<lambda>_. report j RolledBack)) settles_by (\<lambda>_. False) d"
    by (rule steady_rolls_back [OF assms(1-3)])
      (use assms(4,5) in \<open>auto simp: old_in_place_def switched_states_def\<close>)
  have drop: "wp e (ignoring (effect (set_backup u None)) (finish_idle j)) settles_by (\<lambda>_. False) d" for u
    by (intro wp_ignoring steady_effect assms(1) idle)
  have verified: "wp e (snapshot_verify u) (\<lambda>_ x. x = d) (\<lambda>_. False) d" for u
    unfolding snapshot_verify_def
    by (auto intro!: wp_fail wp_ask steady_need wp_look assms(1) split: sum.splits option.splits backup.splits)
  show ?thesis
    unfolding recover_snapshotting_def
    by (cases "update_id j")
      (auto simp: idle intro!: wp_try_or wp_conseq [OF verified] drop undo split: sum.splits)
qed

lemma steady_switched:
  assumes "steady e" "switched_at T d j" "can_restore j"
  shows "wp e (recover_switched j) settles_by (\<lambda>_. False) d"
proof -
  obtain s where "snapshot j = Some s" using assms(2) by (auto simp: switched_at_def restorable_def)
  moreover have "wp e (try_or (rollback_procedure j False False) (\<lambda>_. finish_manual j)
      (\<lambda>_. report j RolledBack)) settles_by (\<lambda>_. False) d"
    by (rule steady_rolls_back [OF assms(1)])
      (use assms(2,3) switched_at_set [OF assms(2)] in \<open>auto simp: switched_at_def\<close>)
  ultimately show ?thesis by (simp add: recover_switched_def)
qed

lemma steady_pointer:
  assumes "steady e"
  shows "wp e (pointer_matches v) (\<lambda>m x. x = d \<and> m = (v \<noteq> None \<and> pointer d = v)) (\<lambda>_. False) d"
  unfolding pointer_matches_def
  by (cases v) (auto intro!: wp_ret wp_bnd wp_look steady_effect assms simp: pointer_def
      split: load_outcome.splits)

lemma steady_unswitched:
  assumes "steady e" "switched_at T d j" "can_restore j"
  shows "wp e (bnd (pointer_matches (from_version j)) (\<lambda>m. if m then finish_idle j else recover_switched j))
      settles_by (\<lambda>_. False) d"
proof -
  have "schema_version j = STATE_SCHEMA_VERSION"
    using assms(2) has_journal_schema by (auto simp: switched_at_def)
  then show ?thesis
    by (intro wp_bnd wp_conseq [OF steady_pointer [OF assms(1)]])
      (auto intro: steady_finish_idle [OF assms(1)] steady_switched [OF assms])
qed

lemma steady_committed:
  assumes "steady e" "has_journal d j" "to_version j = Some (tx_to T)" "pointer d = Some (tx_to T)"
  shows "wp e (recover_committed j) settles_by (\<lambda>_. False) d"
proof -
  have w: "wp e (ignoring (write_journal ((to_state Idle ''idle'' j)\<lparr>error := None\<rparr>))
      (report j (CommittedFinished v))) settles_by (\<lambda>_. False) x" for v x
    unfolding report_def
    by (intro wp_ignoring steady_write wp_ret assms(1))
      (simp add: settles_by_def ended_def to_state_def has_journal_schema [OF assms(2)])
  have "wp e (ignoring (case update_id j of
              Some u \<Rightarrow> effect (set_staged u False) | None \<Rightarrow> ret True)
       (ignoring (write_journal ((to_state Idle ''idle'' j)\<lparr>error := None\<rparr>))
      (report j (CommittedFinished v)))) settles_by (\<lambda>_. False) d" for v
    by (cases "update_id j") (auto intro!: wp_ignoring [of e "ret True"] wp_ignoring [of e "effect _"]
        wp_ret steady_effect assms(1) w)
  then show ?thesis
    unfolding recover_committed_def assms(3) option.case
    by (intro wp_bnd wp_conseq [OF steady_pointer [OF assms(1)]]) (use assms(4) in auto)
qed

lemma steady_recovery:
  assumes e: "steady e" and d: "recoverable T d" and j: "has_journal d j"
    and m: "state j \<noteq> ManualRecoveryRequired" and c: "state j \<in> set switched_states - {Committed} \<Longrightarrow> can_restore j"
  shows "wp e recover_on_startup
    (\<lambda>r x. case r of Inl _ \<Rightarrow> False | Inr rep \<Rightarrow> settles_by rep x) (\<lambda>_. False) d"
proof -
  define arm where "arm =
       (case state j of
          Idle \<Rightarrow> report j NothingToDo
        | ManualRecoveryRequired \<Rightarrow> report j ManualRequired
        | Checking \<Rightarrow> recover_pre_install j
        | Downloading \<Rightarrow> recover_pre_install j
        | Verifying \<Rightarrow> recover_pre_install j
        | Staged \<Rightarrow> recover_pre_install j
        | WaitingIdle \<Rightarrow> recover_pre_install j
        | Draining \<Rightarrow> recover_pre_install j
        | Stopped \<Rightarrow> finish_idle j
        | Snapshotting \<Rightarrow> recover_snapshotting j
        | SnapshotVerified \<Rightarrow>
            bnd (pointer_matches (from_version j)) (\<lambda>m.
            if m then finish_idle j else recover_switched j)
        | Migrating \<Rightarrow>
            bnd (pointer_matches (from_version j)) (\<lambda>m.
            if m then finish_idle j else recover_switched j)
        | Switched \<Rightarrow> recover_switched j
        | CandidateStarting \<Rightarrow> recover_switched j
        | CandidateReady \<Rightarrow> recover_switched j
        | Activating \<Rightarrow> recover_switched j
        | Committed \<Rightarrow> recover_committed j
        | Cleaning \<Rightarrow> recover_committed j)"
  note schema = has_journal_schema [OF j]
  have arm: "wp e arm settles_by (\<lambda>_. False) d"
    using phase_by_state [OF j d]
  proof (elim disjE conjE)
    assume h: "state j \<in> early_states" "tx_journal T j" "old_in_place T d"
    then show ?thesis
      using steady_pre_install [OF e schema] steady_snapshotting [OF e h(2) j _ h(3)]
        steady_finish_idle [OF e schema]
      by (auto simp: arm_def early_states_def)
  next
    assume s: "switched_at T d j"
    moreover have "can_restore j"
      by (rule c) (use s in \<open>auto simp: switched_at_def switched_states_def late_states_def\<close>)
    ultimately show ?thesis
      using steady_switched [OF e s] steady_unswitched [OF e s]
      by (auto simp: arm_def switched_at_def late_states_def)
  next
    assume "to_version j = Some (tx_to T)" "state j \<in> {Committed, Cleaning}" "pointer d = Some (tx_to T)"
    then show ?thesis using steady_committed [OF e j, of T] by (auto simp: arm_def)
  next
    assume "state j = Idle"
    then show ?thesis
      using j by (auto simp: arm_def report_def settles_by_def ended_def intro!: wp_ret)
  qed (use m in simp)
  have "wp e (bnd arm (\<lambda>r. ret (Inr r)))
      (\<lambda>r x. case r of Inl _ \<Rightarrow> False | Inr rep \<Rightarrow> settles_by rep x) (\<lambda>_. False) d"
    by (rule wp_bnd, rule wp_conseq [OF arm]) (auto intro!: wp_ret)
  then show ?thesis
    unfolding recover_on_startup_def
    by (intro wp_ask steady_load_journal [OF e j]) (auto simp: arm_def)
qed

end
