(* ===== verification/CrashTheorems.thy ===== *)
theory CrashTheorems
  imports InstallSafety RecoveryLiveness
begin

text \<open>
  The properties of interrupted upgrades, with the runs that witness them. A run on
  concrete data is evaluated by the simplifier from the definitions applied to their
  environment, counter and disk.
\<close>

section \<open>Evaluating runs\<close>

lemmas run_combinators =
  ret_def [THEN fun_cong, THEN fun_cong, THEN fun_cong]
  bnd_def [THEN fun_cong, THEN fun_cong, THEN fun_cong]
  with_env_def [THEN fun_cong, THEN fun_cong, THEN fun_cong]
  look_def [THEN fun_cong, THEN fun_cong, THEN fun_cong]
  effect_def [THEN fun_cong, THEN fun_cong, THEN fun_cong]
  need_def [THEN fun_cong, THEN fun_cong, THEN fun_cong]
  try_or_def [THEN fun_cong, THEN fun_cong, THEN fun_cong]
  fail_def [THEN fun_cong, THEN fun_cong, THEN fun_cong]
  ask_def [THEN fun_cong, THEN fun_cong, THEN fun_cong]
  ignoring_def [THEN fun_cong, THEN fun_cong, THEN fun_cong]
  now_def [THEN fun_cong, THEN fun_cong, THEN fun_cong]
  load_journal_def [THEN fun_cong, THEN fun_cong, THEN fun_cong]
  write_journal_def [THEN fun_cong, THEN fun_cong, THEN fun_cong]
  need_all.simps [THEN fun_cong, THEN fun_cong, THEN fun_cong]

lemmas run_engine =
  load_j_def [THEN fun_cong, THEN fun_cong, THEN fun_cong]
  mutate_journal_def [THEN fun_cong, THEN fun_cong, THEN fun_cong]
  enter_manual_recovery_def [THEN fun_cong, THEN fun_cong, THEN fun_cong]
  load_cached_manifest_def [THEN fun_cong, THEN fun_cong, THEN fun_cong]
  reverify_staging_def [THEN fun_cong, THEN fun_cong, THEN fun_cong]
  phase_prepare_install_def [THEN fun_cong, THEN fun_cong, THEN fun_cong]
  stop_server_def [THEN fun_cong, THEN fun_cong, THEN fun_cong]
  restart_old_and_verify_def [THEN fun_cong, THEN fun_cong, THEN fun_cong]
  restore_data_def [THEN fun_cong, THEN fun_cong, THEN fun_cong]
  stop_candidate_def [THEN fun_cong, THEN fun_cong, THEN fun_cong]
  rollback_procedure_def [THEN fun_cong, THEN fun_cong, THEN fun_cong]
  fail_before_snapshot_def [THEN fun_cong, THEN fun_cong, THEN fun_cong]
  fail_after_stop_def [THEN fun_cong, THEN fun_cong, THEN fun_cong]
  fail_after_switch_def [THEN fun_cong, THEN fun_cong, THEN fun_cong]
  fail_candidate_def [THEN fun_cong, THEN fun_cong, THEN fun_cong]
  drain_old_server_def [THEN fun_cong, THEN fun_cong, THEN fun_cong]
  install_app_dir_def [THEN fun_cong, THEN fun_cong, THEN fun_cong]
  write_switched_pointer_def [THEN fun_cong, THEN fun_cong, THEN fun_cong]
  start_candidate_def [THEN fun_cong, THEN fun_cong, THEN fun_cong]
  candidate_ready_def [THEN fun_cong, THEN fun_cong, THEN fun_cong]
  activating_def [THEN fun_cong, THEN fun_cong, THEN fun_cong]
  finish_committed_def [THEN fun_cong, THEN fun_cong, THEN fun_cong]
  run_candidate_def [THEN fun_cong, THEN fun_cong, THEN fun_cong]
  switch_over_def [THEN fun_cong, THEN fun_cong, THEN fun_cong]
  take_snapshot_def [THEN fun_cong, THEN fun_cong, THEN fun_cong]
  install_downloaded_def [THEN fun_cong, THEN fun_cong, THEN fun_cong]
  install_staged_def [THEN fun_cong, THEN fun_cong, THEN fun_cong]
  snapshot_create_def [THEN fun_cong, THEN fun_cong, THEN fun_cong]
  snapshot_verify_def [THEN fun_cong, THEN fun_cong, THEN fun_cong]
  snapshot_restore_def [THEN fun_cong, THEN fun_cong, THEN fun_cong]

lemmas run_recovery =
  recover_on_startup_def [THEN fun_cong, THEN fun_cong, THEN fun_cong]
  pointer_matches_def [THEN fun_cong, THEN fun_cong, THEN fun_cong]
  finish_idle_def [THEN fun_cong, THEN fun_cong, THEN fun_cong]
  report_def [THEN fun_cong, THEN fun_cong, THEN fun_cong]
  finish_manual_def [THEN fun_cong, THEN fun_cong, THEN fun_cong]
  recover_switched_def [THEN fun_cong, THEN fun_cong, THEN fun_cong]

lemma run_if: "(if b then m else m') e n d = (if b then m e n d else m' e n d)"
  by simp

lemmas run_data = load_journal_file_def to_state_def guard_not_manual_def set_staged_def
  rollback_target_def set_backup_def live_tree_def Let_def switched_states_def
  current_state_new_def quarantine_data_def quarantine_config_def set_failed_idle_def run_if

section \<open>A sample installation\<close>

definition upgrade_env :: "(nat \<Rightarrow> verdict) \<Rightarrow> unit engine_env_ext machine_env_scheme" where
  "upgrade_env v = \<lparr>verdict = v, clock = (\<lambda>n. n), own_version = ''1.0.0'', portable = False,
     activation_token = None, activate_without_token = True, listening = True,
     candidate_leaves = ([(''data/a'', ''new'')], None), live_schema = Some 3,
     snapshot_schema = Some 3, release_schema = None, components = 0, fresh_id = ''upd-1'',
     old_boot_id = None,
     polls = [\<lparr>po_exited = False, po_deadline = False,
       po_health = Some \<lparr>hr_status = 200, hr_body = None\<rparr>,
       po_info = Some \<lparr>hr_status = 200, hr_body = None\<rparr>, po_ready = None, po_activate = Inr 200\<rparr>],
     spawned = \<lparr>child_pid = 7, child_created_at = None, child_exe = ''gamer''\<rparr>,
     activation_reply = Inr 200,
     candidate_input = \<lparr>ci_source = Official, ci_fetched = True, ci_invalid = [],
       ci_readable = True, ci_json = True, ci_model = True, ci_minimum = ''0.1.0'',
       ci_version = ''1.1.0'', ci_data_schema = 3, ci_rollback_floor = 1, ci_platform = True,
       ci_app_size = 10, ci_component_sizes = [], ci_data_bytes = 5,
       ci_available = Some 1000000000, ci_cached = True\<rparr>\<rparr>"

definition sample_journal :: "journal_state \<Rightarrow> journal" where
  "sample_journal s = default_journal\<lparr>state := s, update_id := Some ''upd-1'',
     from_version := Some ''1.0.0'', to_version := Some ''1.1.0''\<rparr>"

definition sample_disk :: "journal_state \<Rightarrow> disk" where
  "sample_disk s = \<lparr>jfile = Present (sample_journal s),
     pfile = Present (current_state_new ''1.0.0'' None), live_data = Some [(''data/a'', ''old'')],
     live_config = Some ''cfg'', backups = (\<lambda>_. None), staged_app = (\<lambda>u. u = ''upd-1''),
     version_dir = (\<lambda>v. v = ''1.0.0''), server = Some ''1.0.0'', quarantined = []\<rparr>"

definition sample_tx :: tx where
  "sample_tx = \<lparr>tx_from = ''1.0.0'', tx_to = ''1.1.0'', tx_id = ''upd-1'',
     tx_old = ([(''data/a'', ''old'')], Some ''cfg'')\<rparr>"

lemma upgrade_env_simps [simp]:
  "verdict (upgrade_env v) = v" "clock (upgrade_env v) n = n" "portable (upgrade_env v) = False"
  "listening (upgrade_env v) = True" "components (upgrade_env v) = 0"
  "activation_token (upgrade_env v) = None" "activate_without_token (upgrade_env v) = True"
  by (simp_all add: upgrade_env_def)

lemma sample_ready [simp]:
  "wait_candidate_ready (probe_config_of (upgrade_env v) t) False (polls (upgrade_env v)) = Inr None"
  "activate_candidate None True r = Inr ()" "sanitize_id ''upd-1'' = Inr ()"
  by (simp_all add: upgrade_env_def probe_config_of_def verify_candidate_identity_def
      observe_identity_def judge_identity_def nothing_observed_def activate_candidate_def
      sanitize_id_def ascii_defs)

lemmas run_sample = sample_disk_def sample_journal_def default_journal_def

lemma sample_early: "early sample_tx (sample_disk Staged)"
  by (simp add: early_def has_journal_def sample_disk_def sample_journal_def default_journal_def
      tx_journal_def sample_tx_def early_states_def old_in_place_def pointer_def content_def
      live_tree_def current_state_new_def)

lemma sample_run:
  "fst (install_staged (upgrade_env (\<lambda>_. Works)) 0 (sample_disk Staged))
     = Some (UpgradeCommitted ''1.0.0'' ''1.1.0'')"
  by (simp add: run_combinators run_engine run_data run_sample)

text \<open>The result of a run under a weakest precondition.\<close>

lemma wp_run:
  assumes "wp e m Q C d" "m e n d = (r, n', d')"
  shows "case r of Some x \<Rightarrow> Q x d' | None \<Rightarrow> C d'"
  using assms(1) [unfolded wp_def, THEN spec, of n] assms(2) by (auto split: option.splits)

section \<open>Properties\<close>

text \<open>
  C2. An installation from a staged candidate, whatever fails and wherever the machine
  stops: on the outcome \<^verbatim>\<open>Committed\<close> the pointer names the new version and the journal is
  idle; on \<^verbatim>\<open>FailedOldHealthy\<close> and on a cancellation the pointer names the old version and
  the live files are exactly the old ones; and every other end, a stop at any of its
  accesses included, leaves one of the described states: the old version untouched, a
  verified snapshot of the old files with the journal that leads the recovery to it, the
  new version committed, or a journal that asks for manual recovery.
\<close>

theorem interrupted_install_accounted_for:
  assumes "early T d" "install_staged e n d = (r, n', d')"
  shows "crash_ok T d' \<and>
    (case r of
       None \<Rightarrow> True
     | Some (UpgradeCommitted old new) \<Rightarrow> old = tx_from T \<and> new = tx_to T
         \<and> pointer d' = Some (tx_to T) \<and> (\<exists>j. has_journal d' j \<and> state j = Idle)
     | Some UpgradeCancelled \<Rightarrow> pointer d' = Some (tx_from T) \<and> content d' = tx_old T
     | Some (FailedOldHealthy c) \<Rightarrow> pointer d' = Some (tx_from T) \<and> content d' = tx_old T
     | Some (ManualRecovery c) \<Rightarrow> True)"
  using wp_run [OF wp_install_staged [OF assms(1)] assms(2)]
  by (auto simp: outcome_ok_def old_in_place_def split: option.splits upgrade_outcome.splits)

theorem interrupted_install_accounted_for_witness:
  "\<exists>n' d'. install_staged (upgrade_env (\<lambda>_. Works)) 0 (sample_disk Staged)
      = (Some (UpgradeCommitted ''1.0.0'' ''1.1.0''), n', d')
    \<and> pointer d' = Some ''1.1.0'' \<and> (\<exists>j. has_journal d' j \<and> state j = Idle)"
proof -
  obtain n' d' where r: "install_staged (upgrade_env (\<lambda>_. Works)) 0 (sample_disk Staged)
      = (Some (UpgradeCommitted ''1.0.0'' ''1.1.0''), n', d')"
    using sample_run by (metis prod.collapse)
  then show ?thesis
    using interrupted_install_accounted_for [OF sample_early r] by (simp add: sample_tx_def)
qed


definition switched_disk :: disk where
  "switched_disk = (sample_disk Staged)\<lparr>
     jfile := Present ((sample_journal Switched)\<lparr>snapshot := Some \<lparr>snap_id = ''upd-1'',
       snap_path = [], snap_file_count = 2, snap_total_bytes = 6\<rparr>\<rparr>),
     pfile := Present (current_state_new ''1.1.0'' (Some ''1.0.0'')),
     live_data := Some [(''data/a'', ''new'')],
     backups := (\<lambda>_. Some (Complete [(''data/a'', ''old'')] (Some ''cfg'')))\<rparr>"

lemmas run_switched = switched_disk_def run_sample

lemma switched_journal:
  "has_journal switched_disk ((sample_journal Switched)\<lparr>snapshot := Some \<lparr>snap_id = ''upd-1'',
       snap_path = [], snap_file_count = 2, snap_total_bytes = 6\<rparr>\<rparr>)"
  by (simp add: has_journal_def run_switched)

lemma switched_recoverable: "recoverable sample_tx switched_disk"
proof -
  have "late sample_tx switched_disk"
    by (simp add: late_def has_journal_def run_switched tx_journal_def sample_tx_def
        late_states_def pointer_def restorable_def current_state_new_def)
  then show ?thesis by (simp add: recoverable_def)
qed


text \<open>
  C16. A recovery that nothing disturbs ends: started from any recoverable state that does
  not already ask for manual recovery, it returns a report other than
  \<^verbatim>\<open>ManualRequired\<close> and leaves the journal idle or, with an intact candidate, staged.
\<close>

theorem undisturbed_recovery_ends:
  assumes "\<And>n. verdict e n = Works" "recoverable T d" "has_journal d j"
    and "state j \<noteq> ManualRecoveryRequired"
    and "state j \<in> set switched_states - {Committed} \<Longrightarrow> can_restore j"
  shows "\<exists>rep n' d'. recover_on_startup e n d = (Some (Inr rep), n', d')
    \<and> outcome rep \<noteq> ManualRequired
    \<and> (\<exists>k. has_journal d' k \<and> state k \<in> {Idle, Staged})"
proof -
  have "steady e" using assms(1) by (simp add: steady_def)
  obtain r n' d' where run: "recover_on_startup e n d = (r, n', d')" by (metis prod.collapse)
  from wp_run [OF steady_recovery [OF \<open>steady e\<close> assms(2-5)] run] show ?thesis
    using run by (auto simp: settles_by_def ended_def split: option.splits sum.splits)
qed

theorem undisturbed_recovery_ends_witness:
  "\<exists>rep n' d'. recover_on_startup (upgrade_env (\<lambda>_. Works)) 5 switched_disk = (Some (Inr rep), n', d')
    \<and> outcome rep \<noteq> ManualRequired"
proof -
  have "can_restore ((sample_journal Switched)\<lparr>snapshot := Some \<lparr>snap_id = ''upd-1'',
       snap_path = [], snap_file_count = 2, snap_total_bytes = 6\<rparr>\<rparr>)"
    by (simp add: can_restore_def)
  then show ?thesis
    using undisturbed_recovery_ends [OF _ switched_recoverable switched_journal,
        of "upgrade_env (\<lambda>_. Works)" 5]
    by (auto simp: sample_journal_def)
qed

text \<open>
  A stop in the middle of a rollback can lose the live files for good. Moving the
  staged application into place fails, the rollback begins to put the snapshot back in the
  state \<^verbatim>\<open>Migrating\<close>, and the machine stops between the renames: \<^verbatim>\<open>data/\<close> is in the
  quarantine and nothing is in its place. The recovery then finds the pointer on the old
  version, takes the live files for untouched, reports \<^verbatim>\<open>Aborted\<close> and leaves the journal
  idle, with no live data, though the verified snapshot is there.
\<close>

definition cut_rollback :: "nat \<Rightarrow> verdict" where
  "cut_rollback n = (if n = 33 then Breaks else if n = 44 then Halts else Works)"

definition cut_disk :: disk where
  "cut_disk = snd (snd (install_staged (upgrade_env cut_rollback) 0 (sample_disk Staged)))"

definition aborted_disk :: disk where
  "aborted_disk = snd (snd (recover_on_startup (upgrade_env (\<lambda>_. Works)) 0 cut_disk))"

theorem stopped_rollback_reported_as_untouched:
  "fst (install_staged (upgrade_env cut_rollback) 0 (sample_disk Staged)) = None
   \<and> (case fst (recover_on_startup (upgrade_env (\<lambda>_. Works)) 0 cut_disk) of
        Some (Inr rep) \<Rightarrow> from_state rep = Some Migrating \<and> outcome rep = Aborted
      | _ \<Rightarrow> False)
   \<and> live_data (sample_disk Staged) = Some [(''data/a'', ''old'')] \<and> live_data aborted_disk = None
   \<and> backups aborted_disk ''upd-1'' = Some (Complete [(''data/a'', ''old'')] (Some ''cfg''))
   \<and> (case jfile aborted_disk of Present j \<Rightarrow> state j = Idle | _ \<Rightarrow> False)"
  by (simp add: aborted_disk_def cut_disk_def cut_rollback_def run_combinators run_engine
      run_recovery run_data run_sample)

end
