(* ===== verification/EngineTheorems.thy ===== *)
theory EngineTheorems
  imports CrashTheorems Dispatch
begin

text \<open>
  Properties of single phases of the engine, and of the engine together with the
  dispatcher that feeds it.
\<close>

section \<open>The gate of a candidate\<close>

lemma ensure_Inr [simp]: "ensure b c = Inr () \<longleftrightarrow> b"
  by (simp add: ensure_def)

text \<open>
  A candidate is accepted exactly when every gate is passed, and the version handed
  on is the manifest's: the manifest was fetched, valid and readable, this updater is new
  enough for it, its version is not an older or the same one where both parse, its data
  schema is neither below its own rollback floor nor below the live one, the platform is
  there, and the disk has room for the artifacts, a copy of the data and 64 MiB.
\<close>

theorem load_candidate_accepts_iff:
  "load_candidate own schema ci current = Inr v \<longleftrightarrow>
     v = ci_version ci \<and> manifest_available ci \<and> ci_invalid ci = [] \<and> ci_readable ci \<and> ci_json ci
     \<and> ci_model ci \<and> check_minimum_updater_version own (ci_minimum ci) = Inr ()
     \<and> (case (semver_parse current, semver_parse (ci_version ci)) of
          (Some cur, Some cand) \<Rightarrow> semver_is_lt cur cand | _ \<Rightarrow> True)
     \<and> ci_rollback_floor ci \<le> ci_data_schema ci
     \<and> (case schema of Some live \<Rightarrow> int live \<le> ci_data_schema ci | None \<Rightarrow> True)
     \<and> ci_platform ci
     \<and> (case ci_available ci of Some a \<Rightarrow> required_bytes ci \<le> a | None \<Rightarrow> False)
     \<and> ci_cached ci"
  unfolding load_candidate_def not_newer_def
  by (auto simp: and_then_eq_Inr split: sum.splits version_gate_error.splits option.splits)

section \<open>Manual recovery\<close>

text \<open>A run that ended with a refusal, or stopped, and changed nothing.\<close>

definition refused :: "disk \<Rightarrow> (business_code, 'a) result option \<times> nat \<times> disk \<Rightarrow> bool" where
  "refused d out \<longleftrightarrow>
     (case out of (r, _, d') \<Rightarrow> d' = d \<and>
        (case r of
           Some x \<Rightarrow> x = Inl MANUAL_RECOVERY_REQUIRED \<or> x = Inl UPDATER_UNAVAILABLE
         | None \<Rightarrow> True))"

lemma refused_phase:
  assumes "has_journal d j" "state j = ManualRecoveryRequired"
  shows "refused d (ask load_j (\<lambda>j. ask (ret (guard_not_manual j)) (k j)) e n d)"
proof -
  have "wp e (ask load_j (\<lambda>j. ask (ret (guard_not_manual j)) (k j)))
      (\<lambda>x y. y = d \<and> (x = Inl MANUAL_RECOVERY_REQUIRED \<or> x = Inl UPDATER_UNAVAILABLE))
      (\<lambda>y. y = d) d"
    by (intro wp_ask [of e load_j] wp_load_j [OF assms(1)])
      (auto simp: guard_not_manual_def assms(2) ensure_def intro!: wp_fail wp_ask_pure)
  then show ?thesis
    by (auto simp: wp_def refused_def split: prod.splits option.splits)
qed

text \<open>
  A journal that asks for manual recovery stops every phase the dispatcher can start:
  check, download, preparation and rollback change nothing, whatever fails.
\<close>

theorem manual_recovery_blocks_every_phase:
  assumes "has_journal d j" "state j = ManualRecoveryRequired"
  shows "refused d (phase_check e n d) \<and> refused d (phase_download e n d)
    \<and> refused d (phase_prepare_install e n d) \<and> refused d (phase_rollback e n d)"
  unfolding phase_check_def phase_download_def phase_prepare_install_def phase_rollback_def
  by (intro conjI refused_phase [OF assms])

theorem manual_recovery_blocks_every_phase_witness:
  "refused (sample_disk ManualRecoveryRequired)
     (phase_check (upgrade_env (\<lambda>_. Works)) 0 (sample_disk ManualRecoveryRequired))"
proof -
  have j: "has_journal (sample_disk ManualRecoveryRequired) (sample_journal ManualRecoveryRequired)"
    "state (sample_journal ManualRecoveryRequired) = ManualRecoveryRequired"
    by (simp_all add: has_journal_def run_sample)
  show ?thesis by (rule manual_recovery_blocks_every_phase [OF j, THEN conjunct1])
qed

section \<open>Early failures of a download\<close>

text \<open>
  A download that fails before its first artifact wedges the updater. When reading
  the cached manifest fails, the phase returns its error with the journal left in
  \<^verbatim>\<open>Downloading\<close> and without an error in it; from there the dispatcher refuses check,
  download, preparation and rollback alike, until a restart recovers the journal.
\<close>

theorem failed_download_wedges_dispatcher:
  assumes "has_journal d j" "state j = Checking" "last_step j = Some ''checked''"
    and "update_id j = Some u" "to_version j = Some v" "error j = None"
    and "verdict e n = Works" "verdict e (Suc n) = Works" "verdict e (Suc (Suc n)) = Works"
      "verdict e (Suc (Suc (Suc n))) = Breaks"
  shows "\<exists>n' d' j'. phase_download e n d = (Some (Inl UPDATE_NOT_AVAILABLE), n', d')
    \<and> has_journal d' j' \<and> state j' = Downloading \<and> error j' = None
    \<and> (\<forall>op \<in> {Check, Download, PrepareInstall, Rollback}.
         case dispatcher_admit (Inr j') op of Some (Inl _) \<Rightarrow> True | _ \<Rightarrow> False)"
proof -
  have j: "jfile d = Present j" "schema_version j = STATE_SCHEMA_VERSION"
    using assms(1) by (simp_all add: has_journal_def)
  define j' where "j' = (to_state Downloading ''downloading'' j)\<lparr>updated_at := Some (clock e (Suc (Suc n)))\<rparr>"
  have run: "phase_download e n d
      = (Some (Inl UPDATE_NOT_AVAILABLE), Suc (Suc (Suc (Suc n))), d\<lparr>jfile := Present j'\<rparr>)"
    using assms(2-) j
    by (simp add: run_combinators run_engine phase_download_def guard_not_manual_def ensure_def
        load_journal_file_def Let_def j'_def)
  have "display_state j' = ''downloading''"
    by (simp add: j'_def to_state_def display_state_def)
  then have "case dispatcher_admit (Inr j') op of Some (Inl _) \<Rightarrow> True | _ \<Rightarrow> False"
    if "op \<in> {Check, Download, PrepareInstall, Rollback}" for op
    using that by (auto simp: dispatcher_admit_def admit_display_def j'_def to_state_def)
  moreover have "has_journal (d\<lparr>jfile := Present j'\<rparr>) j'" "state j' = Downloading" "error j' = None"
    using j assms(6) by (simp_all add: j'_def to_state_def)
  ultimately show ?thesis using run by blast
qed

definition checked_disk :: disk where
  "checked_disk = (sample_disk Checking)\<lparr>jfile :=
     Present ((sample_journal Checking)\<lparr>last_step := Some ''checked''\<rparr>)\<rparr>"

theorem failed_download_wedges_dispatcher_witness:
  "\<exists>n' d'. phase_download (upgrade_env (\<lambda>n. if n = 3 then Breaks else Works)) 0 checked_disk
     = (Some (Inl UPDATE_NOT_AVAILABLE), n', d')"
proof -
  let ?j = "(sample_journal Checking)\<lparr>last_step := Some ''checked''\<rparr>"
  have j: "has_journal checked_disk ?j" by (simp add: has_journal_def checked_disk_def run_sample)
  show ?thesis
    using failed_download_wedges_dispatcher [OF j, of "''upd-1''" "''1.1.0''"
        "upgrade_env (\<lambda>n. if n = 3 then Breaks else Works)" 0]
    by (auto simp: sample_journal_def default_journal_def)
qed

section \<open>A restart that fails\<close>

text \<open>
  After the old server was stopped, a failure before the switch reports
  \<^verbatim>\<open>FailedOldHealthy\<close> even when the old server could not be started again: the result of
  the restart is ignored and no server runs.
\<close>

theorem failed_restart_reported_healthy:
  assumes "has_journal d j" "server d = None"
    and "verdict e n = Works" "verdict e (Suc n) = Works" "verdict e (Suc (Suc n)) = Breaks"
      "verdict e (Suc (Suc (Suc n))) = Works" "verdict e (Suc (Suc (Suc (Suc n)))) = Works"
  shows "\<exists>n' d'. fail_after_stop c True e n d = (Some (FailedOldHealthy c), n', d') \<and> server d' = None"
proof -
  have j: "jfile d = Present j" "schema_version j = STATE_SCHEMA_VERSION"
    using assms(1) by (simp_all add: has_journal_def)
  then show ?thesis
    using assms(2-) by (simp add: run_combinators run_engine load_journal_file_def Let_def
        set_failed_idle_def)
qed

theorem failed_restart_reported_healthy_witness:
  "\<exists>n' d'. fail_after_stop ARTIFACT_INVALID True (upgrade_env (\<lambda>n. if n = 2 then Breaks else Works)) 0
       ((sample_disk Snapshotting)\<lparr>server := None\<rparr>)
     = (Some (FailedOldHealthy ARTIFACT_INVALID), n', d') \<and> server d' = None"
proof -
  have j: "has_journal ((sample_disk Snapshotting)\<lparr>server := None\<rparr>) (sample_journal Snapshotting)"
    by (simp add: has_journal_def run_sample)
  show ?thesis by (rule failed_restart_reported_healthy [OF j]) simp_all
qed

end
