(* ===== verification/Control.thy ===== *)
theory Control
  imports RustStr
begin

text \<open>
  Who may send input to a target (\<^verbatim>\<open>server/src/core/control.rs\<close>). The operations are
  split where the code releases its lock or awaits the gate; a task between two such
  parts is an element of the system state, and dropping its future is a step of its own.
  One target is modelled: the registry is a map of independent targets.
\<close>

section \<open>Leases, phases, identities\<close>

record control_lease =
  cl_target :: string
  cl_owner :: string
  cl_generation :: nat

record manual_lease =
  ml_target :: string
  ml_generation :: nat

datatype control_phase = Idle | Running | Pausing | Paused | Resuming | Stopping

record control_state =
  c_owner :: "string option"
  c_generation :: nat
  c_manual_generation :: nat
  c_phase :: control_phase

definition default_control :: control_state where
  "default_control = \<lparr>c_owner = None, c_generation = 0, c_manual_generation = 0, c_phase = Idle\<rparr>"

record control_view =
  cs_phase :: control_phase
  cs_owner :: "string option"
  cs_generation :: nat
  cs_manual_allowed :: bool

datatype identity =
    Owned control_lease
  | Manual manual_lease
  | Automatic string
  | Cleanup string

datatype control_error =
    StaleGeneration | AiPaused | ManualExpired | ControlOwnedByAi | ControlOwned
  | EmptyOwner | TransitionRefused | TargetMismatch | SourceMismatch

definition control_status :: "control_state \<Rightarrow> control_view" where
  "control_status s = \<lparr>cs_phase = c_phase s, cs_owner = c_owner s,
     cs_generation = c_generation s, cs_manual_allowed = c_phase s \<in> {Idle, Paused}\<rparr>"

definition when_idle :: "control_state \<Rightarrow> 'r \<Rightarrow> 'r option" where
  "when_idle s r = (if c_phase s \<noteq> Idle \<or> c_owner s \<noteq> None then None else Some r)"

definition manual_lease_of :: "string \<Rightarrow> control_state \<Rightarrow> manual_lease" where
  "manual_lease_of i s = \<lparr>ml_target = i, ml_generation = c_manual_generation s\<rparr>"

section \<open>Admission\<close>

definition holds_lease :: "control_lease \<Rightarrow> control_state \<Rightarrow> bool" where
  "holds_lease l s \<longleftrightarrow> c_owner s = Some (cl_owner l) \<and> c_generation s = cl_generation l"

definition check_identity :: "control_state \<Rightarrow> identity \<Rightarrow> (control_error, unit) result" where
  "check_identity s i =
     (case i of
        Owned l \<Rightarrow>
          and_then (ensure (holds_lease l s) StaleGeneration) (\<lambda>_.
            ensure (c_phase s = Running) AiPaused)
      | Manual l \<Rightarrow>
          and_then (ensure (c_manual_generation s = ml_generation l) ManualExpired) (\<lambda>_.
            ensure (c_phase s \<in> {Idle, Paused}) ControlOwnedByAi)
      | Automatic _ \<Rightarrow> ensure (c_phase s = Idle) ControlOwned
      | Cleanup _ \<Rightarrow> Inr ())"

text \<open>
  An admission either inherits the identity the task already has or must enter through
  the gate. The ambient identity is the task-local \<^verbatim>\<open>ADMISSION\<close>.
\<close>

datatype control_entry = Inherit identity | Enter identity

fun identity_target :: "identity \<Rightarrow> string" where
  "identity_target (Owned l) = cl_target l"
| "identity_target (Manual l) = ml_target l"
| "identity_target (Automatic t) = t"
| "identity_target (Cleanup t) = t"

definition admit_input :: "identity option \<Rightarrow> string \<Rightarrow> (control_error, control_entry) result" where
  "admit_input ambient i =
     (case ambient of
        Some w \<Rightarrow> if identity_target w \<noteq> i then Inl TargetMismatch else Inr (Inherit w)
      | None \<Rightarrow> Inr (Enter (Automatic i)))"

definition identity_of :: "identity option \<Rightarrow> string \<Rightarrow> identity" where
  "identity_of ambient i = (case ambient of Some w \<Rightarrow> w | None \<Rightarrow> Automatic i)"

definition admit_identity ::
  "identity option \<Rightarrow> control_state \<Rightarrow> identity \<Rightarrow> (control_error, control_entry) result" where
  "admit_identity ambient s w =
     (if (case (ambient, w) of
            (Some (Owned a), Owned b) \<Rightarrow> a = b
          | (Some (Manual a), Manual b) \<Rightarrow> a = b
          | (Some (Automatic a), Automatic b) \<Rightarrow> a = b
          | _ \<Rightarrow> False)
      then Inr (Inherit w)
      else and_then (check_identity s w) (\<lambda>_. Inr (Enter w)))"

definition admit_manual ::
  "identity option \<Rightarrow> string \<Rightarrow> control_state \<Rightarrow> (control_error, control_entry) result" where
  "admit_manual ambient i s =
     (case ambient of
        Some (Manual l) \<Rightarrow>
          if ml_target l = i then Inr (Inherit (Manual l)) else Inl SourceMismatch
      | Some _ \<Rightarrow> Inl SourceMismatch
      | None \<Rightarrow> Inr (Enter (Manual (manual_lease_of i s))))"

definition manual_with :: "identity option \<Rightarrow> manual_lease \<Rightarrow> (control_error, control_entry) result" where
  "manual_with ambient l =
     (case ambient of
        Some w \<Rightarrow> if w = Manual l then Inr (Inherit w) else Inl SourceMismatch
      | None \<Rightarrow> Inr (Enter (Manual l)))"

definition manual_scoped :: "identity option \<Rightarrow> string \<Rightarrow> bool" where
  "manual_scoped ambient i \<longleftrightarrow> (case ambient of Some (Manual l) \<Rightarrow> ml_target l = i | _ \<Rightarrow> False)"

section \<open>Claims and transitions\<close>

definition claim_begin ::
  "string \<Rightarrow> string \<Rightarrow> control_state \<Rightarrow> (control_error, control_lease \<times> nat) result \<times> control_state"
where
  "claim_begin i owner s =
     (if owner = [] then (Inl EmptyOwner, s)
      else if c_phase s \<noteq> Idle then (Inl ControlOwned, s)
      else (Inr (\<lparr>cl_target = i, cl_owner = owner, cl_generation = c_generation s + 1\<rparr>,
                 c_manual_generation s),
            \<lparr>c_owner = Some owner, c_generation = c_generation s + 1,
             c_manual_generation = c_manual_generation s + 1, c_phase = Resuming\<rparr>))"

text \<open>Under the gate; the lease is returned.\<close>

definition claim_finish :: "control_state \<Rightarrow> control_state" where
  "claim_finish s = s\<lparr>c_phase := Running\<rparr>"

definition claim_drop :: "control_lease \<Rightarrow> nat \<Rightarrow> control_state \<Rightarrow> control_state" where
  "claim_drop l prev s =
     (if holds_lease l s \<and> c_phase s = Resuming
      then s\<lparr>c_owner := None, c_phase := Idle, c_manual_generation := prev\<rparr> else s)"

definition transition_begin ::
  "control_lease \<Rightarrow> control_phase \<Rightarrow> control_phase \<Rightarrow> control_state
   \<Rightarrow> (control_error, control_lease) result \<times> control_state" where
  "transition_begin l from during s =
     (if \<not> holds_lease l s then (Inl StaleGeneration, s)
      else if c_phase s \<noteq> from then (Inl TransitionRefused, s)
      else (Inr (l\<lparr>cl_generation := c_generation s + 1\<rparr>),
            s\<lparr>c_phase := during, c_generation := c_generation s + 1,
              c_manual_generation := c_manual_generation s + 1\<rparr>))"

definition transition_finish ::
  "control_lease \<Rightarrow> control_phase \<Rightarrow> control_state
   \<Rightarrow> (control_error, control_lease) result \<times> control_state" where
  "transition_finish next after s =
     (if \<not> holds_lease next s then (Inl StaleGeneration, s)
      else (Inr next,
            s\<lparr>c_phase := after, c_owner := (if after = Idle then None else c_owner s)\<rparr>))"

definition transition_drop :: "control_lease \<Rightarrow> nat \<Rightarrow> control_state \<Rightarrow> control_state" where
  "transition_drop original current s =
     (if c_owner s = Some (cl_owner original) \<and> c_generation s = current
      then s\<lparr>c_generation := cl_generation original\<rparr> else s)"

datatype transition_kind = Pause | Resume | Release

text \<open>
  What a transition starts from, passes through and ends in. A release reads the phase
  in a lock of its own first; \<open>seen\<close> is that phase.
\<close>

definition from_phase :: "transition_kind \<Rightarrow> control_phase \<Rightarrow> control_phase" where
  "from_phase k seen = (case k of Pause \<Rightarrow> Running | Resume \<Rightarrow> Paused | Release \<Rightarrow> seen)"

definition during_phase :: "transition_kind \<Rightarrow> control_phase" where
  "during_phase k = (case k of Pause \<Rightarrow> Pausing | Resume \<Rightarrow> Resuming | Release \<Rightarrow> Stopping)"

definition after_phase :: "transition_kind \<Rightarrow> control_phase" where
  "after_phase k = (case k of Pause \<Rightarrow> Paused | Resume \<Rightarrow> Running | Release \<Rightarrow> Idle)"

text \<open>The first lock of a release: nothing to do for a stale lease.\<close>

definition release_sees :: "control_lease \<Rightarrow> control_state \<Rightarrow> control_phase option" where
  "release_sees l s = (if \<not> holds_lease l s then None else Some (c_phase s))"

definition cleanup_manual_runs :: "manual_lease \<Rightarrow> control_state \<Rightarrow> bool" where
  "cleanup_manual_runs l s \<longleftrightarrow>
     \<not> (c_manual_generation s \<noteq> ml_generation l \<or> c_phase s \<notin> {Idle, Paused})"

section \<open>The system of one target\<close>

text \<open>
  Tasks in flight: a claim that waits for the gate, a transition before or under the
  gate, and a release between its two locks. \<open>issued\<close> is the generation of the last lease
  handed out; callers present only leases they were given.
\<close>

datatype control_task =
    Claiming control_lease nat
  | Moving transition_kind control_lease control_lease
  | Releasing control_lease control_phase

datatype gate_holder = Operation identity | Cleaning control_task

record control_sys =
  core :: control_state
  gate :: "gate_holder option"
  tasks :: "control_task list"
  issued :: nat

definition control_init :: "control_sys \<Rightarrow> bool" where
  "control_init s \<longleftrightarrow> s = \<lparr>core = default_control, gate = None, tasks = [], issued = 0\<rparr>"

definition end_task :: "control_task \<Rightarrow> control_state \<Rightarrow> control_sys \<Rightarrow> control_sys" where
  "end_task m c s = s\<lparr>core := c, tasks := remove1 m (tasks s)\<rparr>"

inductive control_step :: "control_sys \<Rightarrow> control_sys \<Rightarrow> bool" where
  enter: "gate s = None \<Longrightarrow> check_identity (core s) w = Inr ()
    \<Longrightarrow> control_step s (s\<lparr>gate := Some (Operation w)\<rparr>)"
| leave: "gate s = Some (Operation w) \<Longrightarrow> control_step s (s\<lparr>gate := None\<rparr>)"
| claim_starts: "claim_begin i owner (core s) = (Inr (l, prev), c)
    \<Longrightarrow> control_step s (s\<lparr>core := c, tasks := Claiming l prev # tasks s\<rparr>)"
| claim_completes: "Claiming l prev \<in> set (tasks s) \<Longrightarrow> gate s = None
    \<Longrightarrow> control_step s ((end_task (Claiming l prev) (claim_finish (core s)) s)
          \<lparr>issued := cl_generation l\<rparr>)"
| claim_dropped: "Claiming l prev \<in> set (tasks s)
    \<Longrightarrow> control_step s (end_task (Claiming l prev) (claim_drop l prev (core s)) s)"
| release_looks: "cl_generation l \<le> issued s \<Longrightarrow> release_sees l (core s) = Some ph
    \<Longrightarrow> control_step s (s\<lparr>tasks := Releasing l ph # tasks s\<rparr>)"
| release_refused: "Releasing l ph \<in> set (tasks s)
    \<Longrightarrow> control_step s (end_task (Releasing l ph) (core s) s)"
| release_starts: "Releasing l ph \<in> set (tasks s)
    \<Longrightarrow> transition_begin l ph Stopping (core s) = (Inr n, c)
    \<Longrightarrow> control_step s ((end_task (Releasing l ph) c s)
          \<lparr>tasks := Moving Release l n # remove1 (Releasing l ph) (tasks s)\<rparr>)"
| move_starts: "k \<noteq> Release \<Longrightarrow> cl_generation l \<le> issued s
    \<Longrightarrow> transition_begin l (from_phase k ph) (during_phase k) (core s) = (Inr n, c)
    \<Longrightarrow> control_step s (s\<lparr>core := c, tasks := Moving k l n # tasks s\<rparr>)"
| move_gated: "Moving k l n \<in> set (tasks s) \<Longrightarrow> gate s = None
    \<Longrightarrow> control_step s (s\<lparr>gate := Some (Cleaning (Moving k l n))\<rparr>)"
| move_completes: "gate s = Some (Cleaning (Moving k l n))
    \<Longrightarrow> transition_finish n (after_phase k) (core s) = (Inr n', c)
    \<Longrightarrow> control_step s ((end_task (Moving k l n) c s)
          \<lparr>gate := None, issued := (if k = Release then issued s else cl_generation n)\<rparr>)"
| move_fails: "gate s = Some (Cleaning (Moving k l n))
    \<Longrightarrow> control_step s ((end_task (Moving k l n)
          (transition_drop l (cl_generation n) (core s)) s)\<lparr>gate := None\<rparr>)"
| move_dropped: "Moving k l n \<in> set (tasks s) \<Longrightarrow> gate s \<noteq> Some (Cleaning (Moving k l n))
    \<Longrightarrow> control_step s (end_task (Moving k l n)
          (transition_drop l (cl_generation n) (core s)) s)"

section \<open>The invariant\<close>

fun is_pending :: "control_task \<Rightarrow> bool" where
  "is_pending (Releasing l ph) = False"
| "is_pending m = True"

definition pending :: "control_sys \<Rightarrow> control_task list" where
  "pending s = filter is_pending (tasks s)"

fun task_inv :: "control_state \<Rightarrow> nat \<Rightarrow> control_task list \<Rightarrow> bool" where
  "task_inv c g [] \<longleftrightarrow>
     (case c_owner c of
        None \<Rightarrow> c_phase c = Idle \<and> g \<le> c_generation c
      | Some _ \<Rightarrow> c_phase c \<noteq> Idle \<and> c_generation c = g)"
| "task_inv c g [Claiming l prev] \<longleftrightarrow> c_phase c = Resuming \<and> holds_lease l c \<and> g < cl_generation l"
| "task_inv c g [Moving k l n] \<longleftrightarrow> c_phase c = during_phase k \<and> holds_lease n c
     \<and> cl_generation n = Suc (cl_generation l) \<and> cl_generation l = g \<and> cl_owner l = cl_owner n"
| "task_inv c g _ \<longleftrightarrow> False"

definition gate_inv :: "control_sys \<Rightarrow> bool" where
  "gate_inv s \<longleftrightarrow>
     (case gate s of
        None \<Rightarrow> True
      | Some (Operation (Owned l)) \<Rightarrow> c_phase (core s) \<in> {Running, Pausing, Stopping}
      | Some (Operation (Manual l)) \<Rightarrow> c_phase (core s) \<in> {Idle, Paused, Resuming, Stopping}
      | Some (Operation (Automatic t)) \<Rightarrow>
          c_phase (core s) = Idle \<or> (\<exists>l prev. pending s = [Claiming l prev])
      | Some (Operation (Cleanup t)) \<Rightarrow> True
      | Some (Cleaning m) \<Rightarrow> pending s = [m] \<and> (\<exists>k l n. m = Moving k l n))"

definition control_inv :: "control_sys \<Rightarrow> bool" where
  "control_inv s \<longleftrightarrow> task_inv (core s) (issued s) (pending s) \<and> gate_inv s
     \<and> (\<forall>l ph. Releasing l ph \<in> set (tasks s) \<longrightarrow> cl_generation l \<le> issued s)"

lemma pending_end [simp]:
  "is_pending m \<Longrightarrow> pending (end_task m c s) = remove1 m (pending s)"
  "\<not> is_pending m \<Longrightarrow> pending (end_task m c s) = pending s"
  by (simp_all add: pending_def end_task_def filter_remove1 remove1_idem)

lemma task_inv_short: "task_inv c g ms \<Longrightarrow> length ms \<le> 1"
  by (induction c g ms rule: task_inv.induct) auto

lemma pending_single:
  assumes "control_inv s" "m \<in> set (tasks s)" "is_pending m"
  shows "pending s = [m]"
proof -
  have "m \<in> set (pending s)" using assms(2,3) by (simp add: pending_def)
  moreover have "length (pending s) \<le> 1"
    using assms(1) task_inv_short by (auto simp: control_inv_def)
  ultimately show ?thesis by (cases "pending s") auto
qed

lemma end_task_simps [simp]:
  "core (end_task m c s) = c" "gate (end_task m c s) = gate s" "issued (end_task m c s) = issued s"
  by (simp_all add: end_task_def)

lemma pending_update [simp]:
  "pending (s\<lparr>core := c\<rparr>) = pending s" "pending (s\<lparr>gate := g\<rparr>) = pending s"
  "pending (s\<lparr>issued := n\<rparr>) = pending s"
  "pending (s\<lparr>core := c, tasks := m # ms\<rparr>)
     = (if is_pending m then [m] else []) @ pending (s\<lparr>tasks := ms\<rparr>)"
  "pending (s\<lparr>tasks := m # ms\<rparr>) = (if is_pending m then [m] else []) @ pending (s\<lparr>tasks := ms\<rparr>)"
  "pending (s\<lparr>tasks := tasks s\<rparr>) = pending s"
  "pending (s\<lparr>core := c, tasks := ms\<rparr>) = pending (s\<lparr>tasks := ms\<rparr>)"
  by (simp_all add: pending_def)

lemmas control_defs = control_inv_def gate_inv_def holds_lease_def

text \<open>A lease that may begin a transition meets a target without pending tasks.\<close>

lemma task_inv_quiet:
  assumes "task_inv c g ms" "cl_generation l \<le> g" "holds_lease l c"
  shows "ms = [] \<and> cl_generation l = g \<and> c_phase c \<noteq> Idle"
proof (cases ms)
  case Nil
  with assms show ?thesis by (auto simp: holds_lease_def)
next
  case (Cons m ms')
  with assms show ?thesis
    by (cases m; cases ms') (auto simp: holds_lease_def)
qed

lemma transition_begin_quiet:
  assumes "control_inv s" "cl_generation l \<le> issued s" "holds_lease l (core s)"
  shows "pending s = [] \<and> cl_generation l = issued s \<and> c_phase (core s) \<noteq> Idle"
  using task_inv_quiet assms by (auto simp: control_inv_def)

lemma end_task_releasing:
  "Releasing l ph \<in> set (tasks (end_task m c s)) \<Longrightarrow> Releasing l ph \<in> set (tasks s)"
  by (simp add: end_task_def) (rule set_remove1_subset [THEN subsetD])

lemma control_invE:
  assumes "control_inv s"
  shows "task_inv (core s) (issued s) (pending s)" "gate_inv s"
    "Releasing l ph \<in> set (tasks s) \<Longrightarrow> cl_generation l \<le> issued s"
  using assms by (auto simp: control_inv_def)

lemma enter_inv:
  assumes "control_inv s" "check_identity (core s) w = Inr ()"
  shows "control_inv (s\<lparr>gate := Some (Operation w)\<rparr>)"
  using assms
  by (cases w) (auto simp: control_inv_def gate_inv_def check_identity_def and_then_eq_Inr)

lemma idle_not_pending: "task_inv c g ms \<Longrightarrow> c_phase c = Idle \<Longrightarrow> ms = []"
  by (cases "(c, g, ms)" rule: task_inv.cases) (auto simp: during_phase_def split: transition_kind.splits)

lemma claim_starts_inv:
  assumes "control_inv s" "claim_begin i owner (core s) = (Inr (l, prev), c)"
  shows "control_inv (s\<lparr>core := c, tasks := Claiming l prev # tasks s\<rparr>)"
proof -
  have idle: "c_phase (core s) = Idle"
    and l: "cl_generation l = Suc (c_generation (core s))" "cl_owner l = owner"
    and c: "c = \<lparr>c_owner = Some owner, c_generation = Suc (c_generation (core s)),
             c_manual_generation = Suc (c_manual_generation (core s)), c_phase = Resuming\<rparr>"
    using assms(2) by (auto simp: claim_begin_def split: if_splits)
  have p: "pending s = []" by (rule idle_not_pending [OF control_invE(1) [OF assms(1)] idle])
  have g: "issued s \<le> c_generation (core s)"
    using control_invE(1) [OF assms(1)] p by (auto split: option.splits)
  have "gate_inv (s\<lparr>core := c, tasks := Claiming l prev # tasks s\<rparr>)"
    using control_invE(2) [OF assms(1)] idle p
    by (auto simp: gate_inv_def c split: option.splits gate_holder.splits identity.splits)
  then show ?thesis
    using control_invE(3) [OF assms(1)] p g l
    by (auto simp: control_inv_def c holds_lease_def)
qed

text \<open>A transition that begins: the target has no pending task and the lease is the issued one.\<close>

lemma begins_inv:
  assumes inv: "control_inv s" and l: "cl_generation l \<le> issued s"
    and b: "transition_begin l from (during_phase k) (core s) = (Inr n, c)"
    and src: "k = Pause \<Longrightarrow> from = Running" "k = Resume \<Longrightarrow> from = Paused"
    and ms: "pending (s\<lparr>tasks := ms\<rparr>) = pending s" "\<And>l ph. Releasing l ph \<in> set ms \<Longrightarrow> Releasing l ph \<in> set (tasks s)"
  shows "control_inv (s\<lparr>core := c, tasks := Moving k l n # ms\<rparr>)"
proof -
  have h: "holds_lease l (core s)" and ph: "c_phase (core s) = from"
    and n: "n = l\<lparr>cl_generation := Suc (c_generation (core s))\<rparr>"
    and c: "c = (core s)\<lparr>c_phase := during_phase k, c_generation := Suc (c_generation (core s)),
              c_manual_generation := Suc (c_manual_generation (core s))\<rparr>"
    using b by (auto simp: transition_begin_def split: if_splits)
  from transition_begin_quiet [OF inv l h]
  have q: "pending s = []" "cl_generation l = issued s" "from \<noteq> Idle" using ph by auto
  have "gate_inv (s\<lparr>core := c, tasks := Moving k l n # ms\<rparr>)"
    using control_invE(2) [OF inv] ph q src ms(1)
    by (cases k) (auto simp: gate_inv_def c during_phase_def
        split: option.splits gate_holder.splits identity.splits)
  moreover have "task_inv c (issued s) [Moving k l n]"
    using h q(2) by (simp add: c n holds_lease_def)
  ultimately show ?thesis
    using control_invE(3) [OF inv] ms q(1) by (auto simp: control_inv_def)
qed

lemma claim_ends_inv:
  assumes inv: "control_inv s" and m: "Claiming l prev \<in> set (tasks s)"
  shows "gate s = None \<Longrightarrow> control_inv ((end_task (Claiming l prev) (claim_finish (core s)) s)\<lparr>issued := cl_generation l\<rparr>)"
    and "control_inv (end_task (Claiming l prev) (claim_drop l prev (core s)) s)"
proof -
  have p: "pending s = [Claiming l prev]" by (rule pending_single [OF inv m]) simp
  have t: "c_phase (core s) = Resuming" "c_owner (core s) = Some (cl_owner l)"
    "c_generation (core s) = cl_generation l" "issued s < cl_generation l"
    using control_invE(1) [OF inv] p by (auto simp: holds_lease_def)
  have r: "cl_generation l' \<le> issued s" if "Releasing l' ph \<in> set (tasks (end_task m' c' s))" for l' ph m' c'
    using end_task_releasing [OF that] control_invE(3) [OF inv] by blast
  show "control_inv ((end_task (Claiming l prev) (claim_finish (core s)) s)\<lparr>issued := cl_generation l\<rparr>)"
    if "gate s = None"
  proof -
    have "cl_generation l' \<le> cl_generation l" if "Releasing l' ph \<in> set (tasks (end_task m' c' s))"
      for l' ph m' c'
      using r [OF that] t(4) by simp
    then show ?thesis
      using that p t by (auto simp: control_inv_def gate_inv_def claim_finish_def)
  qed
  show "control_inv (end_task (Claiming l prev) (claim_drop l prev (core s)) s)"
    using control_invE(2) [OF inv] p t r
    by (auto simp: control_inv_def gate_inv_def claim_drop_def holds_lease_def
        split: option.splits gate_holder.splits identity.splits)
qed

lemma move_ends_inv:
  assumes inv: "control_inv s" and m: "Moving k l n \<in> set (tasks s)"
  shows "gate s \<noteq> Some (Cleaning (Moving k l n))
      \<Longrightarrow> control_inv (end_task (Moving k l n) (transition_drop l (cl_generation n) (core s)) s)"
    and "control_inv ((end_task (Moving k l n) (transition_drop l (cl_generation n) (core s)) s)\<lparr>gate := None\<rparr>)"
    and "transition_finish n (after_phase k) (core s) = (Inr n', c) \<Longrightarrow> control_inv
      ((end_task (Moving k l n) c s)\<lparr>gate := None, issued := (if k = Release then issued s else cl_generation n)\<rparr>)"
proof -
  have p: "pending s = [Moving k l n]" by (rule pending_single [OF inv m]) simp
  have t: "c_phase (core s) = during_phase k" "c_owner (core s) = Some (cl_owner n)"
    "c_generation (core s) = cl_generation n" "cl_generation n = Suc (cl_generation l)"
    "cl_generation l = issued s" "cl_owner l = cl_owner n"
    using control_invE(1) [OF inv] p by (auto simp: holds_lease_def)
  have d: "during_phase k \<noteq> Idle" by (simp add: during_phase_def split: transition_kind.splits)
  have r: "cl_generation l' \<le> issued s" if "Releasing l' ph \<in> set (tasks (end_task m' c' s))" for l' ph m' c'
    using end_task_releasing [OF that] control_invE(3) [OF inv] by blast
  note r' = le_SucI [OF r]
  show "control_inv (end_task (Moving k l n) (transition_drop l (cl_generation n) (core s)) s)"
    if "gate s \<noteq> Some (Cleaning (Moving k l n))"
    using control_invE(2) [OF inv] that p t d r
    by (auto simp: control_inv_def gate_inv_def transition_drop_def
        split: option.splits gate_holder.splits identity.splits)
  show "control_inv ((end_task (Moving k l n) (transition_drop l (cl_generation n) (core s)) s)\<lparr>gate := None\<rparr>)"
    using p t d r by (auto simp: control_inv_def gate_inv_def transition_drop_def)
  show "control_inv ((end_task (Moving k l n) c s)
      \<lparr>gate := None, issued := (if k = Release then issued s else cl_generation n)\<rparr>)"
    if "transition_finish n (after_phase k) (core s) = (Inr n', c)"
  proof -
    have c: "c = (core s)\<lparr>c_phase := after_phase k,
        c_owner := (if after_phase k = Idle then None else c_owner (core s))\<rparr>"
      using that by (auto simp: transition_finish_def split: if_splits)
    show ?thesis
      using p t r r' by (cases k) (auto simp: control_inv_def gate_inv_def c after_phase_def)
  qed
qed

lemma pending_remove_releasing [simp]:
  "pending (s\<lparr>tasks := remove1 (Releasing l ph) (tasks s)\<rparr>) = pending s"
  by (simp add: pending_def filter_remove1 remove1_idem)

lemma gate_inv_cong:
  assumes "gate t = gate s" "core t = core s" "pending t = pending s"
  shows "gate_inv t = gate_inv s"
  unfolding gate_inv_def assms ..

lemma control_inv_step:
  assumes "control_step s t" "control_inv s"
  shows "control_inv t"
  using assms
proof (induction rule: control_step.induct)
  case (release_starts l ph s n c)
  have "control_inv (s\<lparr>core := c, tasks := Moving Release l n # remove1 (Releasing l ph) (tasks s)\<rparr>)"
    by (rule begins_inv [OF release_starts(3) control_invE(3) [OF release_starts(3,1)]])
      (use release_starts(2) in
        \<open>auto simp: during_phase_def dest: set_remove1_subset [THEN subsetD]\<close>)
  then show ?case by (simp add: end_task_def)
next
  case (move_starts k l s ph n c)
  show ?case
    by (rule begins_inv [OF move_starts(4,2,3)]) (simp_all add: from_phase_def)
next
  case (claim_completes l prev s)
  then show ?case by (intro claim_ends_inv)
next
  case (claim_dropped l prev s)
  then show ?case by (intro claim_ends_inv)
next
  case (move_completes s k l n n' c)
  then have "Moving k l n \<in> set (tasks s)"
    by (auto simp: control_inv_def gate_inv_def pending_def dest: filter_eq_ConsD)
  then show ?case using move_completes by (intro move_ends_inv)
next
  case (move_fails s k l n)
  then have "Moving k l n \<in> set (tasks s)"
    by (auto simp: control_inv_def gate_inv_def pending_def dest: filter_eq_ConsD)
  then show ?case using move_fails by (intro move_ends_inv)
next
  case (move_dropped k l n s)
  then show ?case by (intro move_ends_inv)
next
  case (move_gated k l n s)
  then show ?case using pending_single [OF move_gated(3,1)] by (auto simp: control_inv_def gate_inv_def)
next
  case (release_looks l s ph)
  have "gate_inv (s\<lparr>tasks := Releasing l ph # tasks s\<rparr>) = gate_inv s"
    by (rule gate_inv_cong) simp_all
  then show ?case using release_looks by (auto simp: control_inv_def)
next
  case (release_refused l ph s)
  have "gate_inv (end_task (Releasing l ph) (core s) s) = gate_inv s"
    by (rule gate_inv_cong) simp_all
  then show ?case using release_refused end_task_releasing by (simp add: control_inv_def) blast
next
  case (enter s w)
  then show ?case by (intro enter_inv)
next
  case (leave s w)
  then show ?case by (simp add: control_inv_def gate_inv_def)
next
  case (claim_starts i owner s l prev c)
  then show ?case by (intro claim_starts_inv)
qed

lemma issued_step:
  assumes "control_step s t" "control_inv s"
  shows "issued s \<le> issued t"
  using assms
proof (induction rule: control_step.induct)
  case (claim_completes l prev s)
  then show ?case using pending_single [OF claim_completes(3,1)] by (auto simp: control_inv_def)
next
  case (move_completes s k l n n' c)
  then show ?case by (auto simp: control_inv_def gate_inv_def)
qed (simp_all add: end_task_def)

section \<open>Interfaces\<close>

interpretation control: guarded_system control_init control_step control_inv
proof
  show "control_init s \<Longrightarrow> control_inv s" for s
    by (simp add: control_init_def control_inv_def gate_inv_def pending_def default_control_def)
qed (rule control_inv_step)

text \<open>The generation of the last lease only grows; the states are those that satisfy the invariant.\<close>

interpretation lease_count: monotone_system "\<lambda>s t. control_inv s \<and> control_step s t" issued
  by unfold_locales (auto intro: issued_step)

lemma invariant_steps:
  assumes "control_step\<^sup>*\<^sup>* s t" "control_inv s"
  shows "(\<lambda>s t. control_inv s \<and> control_step s t)\<^sup>*\<^sup>* s t"
  using assms
proof (induction rule: rtranclp_induct)
  case (step u v)
  then have "control_inv u" using control.reach_inv_steps by blast
  with step show ?case by (auto intro: rtranclp.rtrancl_into_rtrancl)
qed simp

section \<open>Properties\<close>

text \<open>
  C1. Input barrier. Under every interleaving of claims, pauses, resumes, releases,
  admissions and dropped futures: while the AI's session is running no manual or automatic
  action is inside the gate, and once a target is idle or paused no action of the AI is,
  not even one admitted before the pause began.
\<close>

theorem control_barrier:
  assumes "reach control_init control_step s"
  shows "(c_phase (core s) = Running \<longrightarrow>
       (case gate s of Some (Operation (Manual _)) \<Rightarrow> False | Some (Operation (Automatic _)) \<Rightarrow> False | _ \<Rightarrow> True))
    \<and> (c_phase (core s) \<in> {Idle, Paused} \<longrightarrow>
       (case gate s of Some (Operation (Owned _)) \<Rightarrow> False | _ \<Rightarrow> True))"
  using control.reach_inv [OF assms]
  by (cases "pending s")
    (auto simp: control_inv_def gate_inv_def split: option.splits gate_holder.splits identity.splits)

text \<open>A claim that completes, and an action under its lease.\<close>

definition running_sys :: control_sys where
  "running_sys = \<lparr>core = \<lparr>c_owner = Some ''ai'', c_generation = 1, c_manual_generation = 1,
      c_phase = Running\<rparr>, gate = None, tasks = [], issued = 1\<rparr>"

definition sample_lease :: control_lease where
  "sample_lease = \<lparr>cl_target = ''d'', cl_owner = ''ai'', cl_generation = 1\<rparr>"

definition claiming_sys :: control_sys where
  "claiming_sys = \<lparr>core = \<lparr>c_owner = Some ''ai'', c_generation = 1, c_manual_generation = 1,
      c_phase = Resuming\<rparr>, gate = None, tasks = [Claiming sample_lease 0], issued = 0\<rparr>"

lemma running_reachable: "reach control_init control_step running_sys"
proof -
  let ?s0 = "\<lparr>core = default_control, gate = None, tasks = [], issued = 0\<rparr>"
  have "claim_begin ''d'' ''ai'' default_control = (Inr (sample_lease, 0), core claiming_sys)"
    by (simp add: claim_begin_def default_control_def claiming_sys_def sample_lease_def)
  then have "control_step ?s0 (?s0\<lparr>core := core claiming_sys, tasks := [Claiming sample_lease 0]\<rparr>)"
    using claim_starts [where s = ?s0] by fastforce
  then have s1: "control_step ?s0 claiming_sys" by (simp add: claiming_sys_def)
  have "control_step claiming_sys ((end_task (Claiming sample_lease 0)
      (claim_finish (core claiming_sys)) claiming_sys)\<lparr>issued := cl_generation sample_lease\<rparr>)"
    by (rule claim_completes) (simp_all add: claiming_sys_def)
  then have s2: "control_step claiming_sys running_sys"
    by (simp add: claiming_sys_def running_sys_def sample_lease_def end_task_def claim_finish_def)
  have "reach control_init control_step ?s0" by (rule reach_init) (simp add: control_init_def)
  from reach_step [OF reach_step [OF this s1] s2] show ?thesis .
qed

theorem control_barrier_witness:
  "c_phase (core running_sys) = Running
   \<and> (case gate running_sys of Some (Operation (Manual _)) \<Rightarrow> False | _ \<Rightarrow> True)"
  using control_barrier [OF running_reachable] by (simp add: running_sys_def)

text \<open>
  C26. A superseded lease is dead for good. Every lease handed out carries a higher
  generation than all before it, and from then on no interleaving, dropped futures that
  put a generation back included, lets an older lease pass the check again.
\<close>

theorem stale_lease_never_valid_again:
  assumes "reach control_init control_step s" "control_step\<^sup>*\<^sup>* s t"
    and "cl_generation l < issued s"
  shows "check_identity (core t) (Owned l) \<noteq> Inr () \<and> \<not> holds_lease l (core t)
    \<and> issued s \<le> issued t"
proof -
  have inv: "control_inv s" by (rule control.reach_inv [OF assms(1)])
  then have t: "control_inv t" by (rule control.reach_inv_steps [OF assms(2)])
  have le: "issued s \<le> issued t" by (rule lease_count.measure_mono [OF invariant_steps [OF assms(2) inv]])
  have "\<not> holds_lease l (core t)"
  proof
    assume "holds_lease l (core t)"
    from transition_begin_quiet [OF t _ this] assms(3) le show False by simp
  qed
  then show ?thesis using le by (simp add: check_identity_def ensure_def)
qed

theorem stale_lease_never_valid_again_witness:
  "check_identity (core running_sys) (Owned \<lparr>cl_target = ''d'', cl_owner = ''ai'', cl_generation = 0\<rparr>) \<noteq> Inr ()"
  using stale_lease_never_valid_again [OF running_reachable rtranclp.rtrancl_refl,
      of "\<lparr>cl_target = ''d'', cl_owner = ''ai'', cl_generation = 0\<rparr>"]
  by (simp add: running_sys_def)

text \<open>
  A transition whose future is dropped half-way closes the target but keeps its
  lease: while it is under way a release with that lease is taken for a stale one and
  does nothing; after the drop the same lease is held again, no action of the AI, of a
  user or of an automation is admitted, and a release with the lease begins.
\<close>

theorem dropped_transition_keeps_lease:
  assumes "transition_begin l from_p (during_phase k) s = (Inr n, s1)"
  shows "release_sees l s1 = None
    \<and> (let s2 = transition_drop l (cl_generation n) s1
       in holds_lease l s2
          \<and> check_identity s2 (Owned m) \<noteq> Inr () \<and> check_identity s2 (Manual ml) \<noteq> Inr ()
          \<and> check_identity s2 (Automatic t) \<noteq> Inr ()
          \<and> (\<exists>n' s3. release_sees l s2 = Some (during_phase k)
               \<and> transition_begin l (during_phase k) Stopping s2 = (Inr n', s3)))"
proof -
  have h: "holds_lease l s" and n: "n = l\<lparr>cl_generation := Suc (c_generation s)\<rparr>"
    and s1: "s1 = s\<lparr>c_phase := during_phase k, c_generation := Suc (c_generation s),
        c_manual_generation := Suc (c_manual_generation s)\<rparr>"
    using assms by (auto simp: transition_begin_def split: if_splits)
  have "during_phase k \<notin> {Running, Idle, Paused}"
    by (cases k) (simp_all add: during_phase_def)
  with h show ?thesis
    by (simp add: n s1 release_sees_def holds_lease_def transition_drop_def Let_def
        check_identity_def transition_begin_def and_then_eq_Inr)
qed

theorem dropped_transition_keeps_lease_witness:
  "\<exists>n s1. transition_begin sample_lease Running (during_phase Pause) (core running_sys) = (Inr n, s1)
     \<and> release_sees sample_lease s1 = None"
proof -
  obtain n s1 where t: "transition_begin sample_lease Running (during_phase Pause) (core running_sys)
      = (Inr n, s1)"
    by (simp add: transition_begin_def holds_lease_def running_sys_def sample_lease_def)
  then show ?thesis using dropped_transition_keeps_lease [OF t] by blast
qed

end
