(* ===== verification/Identity.thy ===== *)
theory Identity
  imports Json
begin

text \<open>
  The boundary values of the core (\<^verbatim>\<open>server/src/core/models.rs\<close>): identifiers and
  their validation, the context of a run, the request handed to a runner, the frozen
  delegation a task may carry, and the three-part identity of a package resource.
\<close>

section \<open>Identifiers\<close>

datatype model_error =
    EmptyValue string
  | ControlCharacter string
  | PathSeparator string
  | InvalidLogicalPath string
  | DeviceMismatch string string
  | EmptyRequestField string
  | ControlCharacterRequestField string

text \<open>The messages of \<^verbatim>\<open>thiserror\<close>.\<close>

fun model_error_text :: "model_error \<Rightarrow> string" where
  "model_error_text (EmptyValue k) = k @ '' must not be empty''"
| "model_error_text (ControlCharacter k) = k @ '' contains a control character''"
| "model_error_text (PathSeparator k) = k @ '' must not contain a path separator''"
| "model_error_text (InvalidLogicalPath r) = ''resource logical path is invalid: '' @ r"
| "model_error_text (DeviceMismatch r a) = ''run request device_id does not match app.device_id''"
| "model_error_text (EmptyRequestField f) = f @ '' must not be empty''"
| "model_error_text (ControlCharacterRequestField f) = f @ '' contains a control character''"

definition validate_identifier :: "string \<Rightarrow> string \<Rightarrow> (model_error, string) result" where
  "validate_identifier kind value =
     (let v = trim value
      in if v = [] then Inl (EmptyValue kind)
         else if any_control v then Inl (ControlCharacter kind)
         else if CHR ''/'' \<in> set v \<or> CHR 0x5C \<in> set v then Inl (PathSeparator kind)
         else Inr v)"

text \<open>
  The newtypes of \<^verbatim>\<open>string_id!\<close> are their strings; every constructor goes through
  the validation with the kind of its type.
\<close>

definition device_id_new :: "string \<Rightarrow> (model_error, string) result" where
  "device_id_new = validate_identifier ''device_id''"

definition android_package_new :: "string \<Rightarrow> (model_error, string) result" where
  "android_package_new = validate_identifier ''android_package''"

definition app_package_id_new :: "string \<Rightarrow> (model_error, string) result" where
  "app_package_id_new = validate_identifier ''content_package''"

definition run_id_new :: "string \<Rightarrow> (model_error, string) result" where
  "run_id_new = validate_identifier ''run_id''"

record app_context =
  app_device :: string
  app_android_package :: "string option"
  app_content_package :: "string option"

record run_context =
  ctx_run_id :: string
  ctx_app :: app_context

section \<open>Delegations\<close>

text \<open>
  A frozen delegation. Its two \<^verbatim>\<open>BTreeSet<String>\<close>s are strictly ascending lists,
  kept so by insertion.
\<close>

fun set_insert :: "string \<Rightarrow> string list \<Rightarrow> string list" where
  "set_insert x [] = [x]"
| "set_insert x (y # ys) =
     (case str_cmp x y of
        Less \<Rightarrow> x # y # ys
      | Equal \<Rightarrow> y # ys
      | Greater \<Rightarrow> y # set_insert x ys)"

definition btree_set :: "string list \<Rightarrow> string list" where
  "btree_set xs = foldl (\<lambda>s x. set_insert x s) [] xs"

record execution_policy =
  token_id :: string
  allowed_plugins :: "string list"
  scopes :: "string list"

definition allows_plugin :: "execution_policy \<Rightarrow> string \<Rightarrow> bool" where
  "allows_plugin p i \<longleftrightarrow> i \<in> set (allowed_plugins p) \<or> ''*'' \<in> set (allowed_plugins p)"

definition has_scope :: "execution_policy \<Rightarrow> string \<Rightarrow> bool" where
  "has_scope p s \<longleftrightarrow> ''*'' \<in> set (scopes p) \<or> s \<in> set (scopes p)"

definition TASK_KEY :: string where "TASK_KEY = ''gamer.core.external_execution''"

text \<open>
  The derived deserialisation: an object with exactly the three fields
  (\<^verbatim>\<open>deny_unknown_fields\<close>), or an array of their values in order.
\<close>

definition strings_of :: "json list \<Rightarrow> string list option" where
  "strings_of js = collect_opt (map as_str js)"

definition string_set_of :: "json \<Rightarrow> string list option" where
  "string_set_of j = (case j of JArray xs \<Rightarrow> map_option btree_set (strings_of xs) | _ \<Rightarrow> None)"

definition policy_of_fields :: "json \<Rightarrow> json \<Rightarrow> json \<Rightarrow> execution_policy option" where
  "policy_of_fields t a s =
     (case (as_str t, string_set_of a, string_set_of s) of
        (Some t', Some a', Some s') \<Rightarrow>
          Some \<lparr>token_id = t', allowed_plugins = a', scopes = s'\<rparr>
      | _ \<Rightarrow> None)"

definition policy_of_json :: "json \<Rightarrow> execution_policy option" where
  "policy_of_json j =
     (case j of
        JObject m \<Rightarrow>
          (if \<forall>(k, v) \<in> set m. k \<in> {''token_id'', ''allowed_plugins'', ''scopes''}
           then (case (map_of m ''token_id'', map_of m ''allowed_plugins'', map_of m ''scopes'') of
                   (Some t, Some a, Some s) \<Rightarrow> policy_of_fields t a s
                 | _ \<Rightarrow> None)
           else None)
      | JArray [t, a, s] \<Rightarrow> policy_of_fields t a s
      | _ \<Rightarrow> None)"

definition policy_json :: "execution_policy \<Rightarrow> json" where
  "policy_json p = json_object
     [(''token_id'', JString (token_id p)),
      (''allowed_plugins'', JArray (map JString (allowed_plugins p))),
      (''scopes'', JArray (map JString (scopes p)))]"

text \<open>An absent key is no delegation; a key that does not deserialise is an error.\<close>

definition from_task_extensions :: "json \<Rightarrow> (unit, execution_policy option) result" where
  "from_task_extensions j =
     (case json_get TASK_KEY j of
        None \<Rightarrow> Inr None
      | Some v \<Rightarrow> (case policy_of_json v of None \<Rightarrow> Inl () | Some p \<Rightarrow> Inr (Some p)))"

definition store_in_task :: "execution_policy \<Rightarrow> json \<Rightarrow> (unit, json) result" where
  "store_in_task p j =
     (case as_object j of
        None \<Rightarrow> Inl ()
      | Some m \<Rightarrow> Inr (JObject (obj_insert TASK_KEY (policy_json p) m)))"

section \<open>Run requests\<close>

record run_request =
  rq_device :: string
  rq_app :: app_context
  rq_runner :: string
  rq_entrypoint :: string
  rq_payload :: json
  rq_policy :: "execution_policy option"

definition validate_request_field :: "string \<Rightarrow> string \<Rightarrow> (model_error, unit) result" where
  "validate_request_field field value =
     (if trim value = [] then Inl (EmptyRequestField field)
      else if any_control value then Inl (ControlCharacterRequestField field)
      else Inr ())"

definition validate_request :: "run_request \<Rightarrow> (model_error, unit) result" where
  "validate_request r =
     (if rq_device r \<noteq> app_device (rq_app r)
      then Inl (DeviceMismatch (rq_device r) (app_device (rq_app r)))
      else and_then (validate_request_field ''runner_id'' (rq_runner r)) (\<lambda>_.
             validate_request_field ''entrypoint'' (rq_entrypoint r)))"

definition run_request_new ::
  "string \<Rightarrow> app_context \<Rightarrow> string \<Rightarrow> string \<Rightarrow> json \<Rightarrow> (model_error, run_request) result" where
  "run_request_new device app runner entrypoint payload =
     (let r = \<lparr>rq_device = device, rq_app = app, rq_runner = runner,
               rq_entrypoint = entrypoint, rq_payload = payload, rq_policy = None\<rparr>
      in and_then (validate_request r) (\<lambda>_. Inr r))"

definition for_app ::
  "app_context \<Rightarrow> string \<Rightarrow> string \<Rightarrow> json \<Rightarrow> (model_error, run_request) result" where
  "for_app app = run_request_new (app_device app) app"

section \<open>Resource identities\<close>

record resource_id =
  res_package :: string
  res_plugin :: string
  res_path :: string

definition scope_char :: "char \<Rightarrow> bool" where
  "scope_char c \<longleftrightarrow> is_ascii_lowercase c \<or> is_ascii_digit c \<or> c \<in> {CHR ''.'', CHR ''-'', CHR ''_''}"

definition validate_scope_identifier :: "string \<Rightarrow> (model_error, unit) result" where
  "validate_scope_identifier value =
     (case value of
        [] \<Rightarrow> Inl (InvalidLogicalPath ''package/plugin must start with a lowercase letter or digit'')
      | first # rest \<Rightarrow>
          if \<not> (is_ascii_lowercase first \<or> is_ascii_digit first)
          then Inl (InvalidLogicalPath ''package/plugin must start with a lowercase letter or digit'')
          else if \<not> (\<forall>c \<in> set rest. scope_char c)
          then Inl (InvalidLogicalPath
                 ''package/plugin may only contain lowercase letters, digits and . _ -'')
          else if value = ''.'' \<or> value = ''..''
               \<or> length (filter (\<lambda>c. c = CHR ''.'') value) = length value
          then Inl (InvalidLogicalPath ''package/plugin must not be a bare dot sequence'')
          else if 100 < length value
          then Inl (InvalidLogicalPath ''package/plugin too long'')
          else Inr ())"

definition validate_logical_path :: "string \<Rightarrow> (model_error, string) result" where
  "validate_logical_path path =
     (if path = [] then Inl (InvalidLogicalPath ''path must not be empty'')
      else if starts_with path ''/'' \<or> ends_with path ''/''
      then Inl (InvalidLogicalPath ''path must be relative'')
      else if CHR 0x5C \<in> set path
      then Inl (InvalidLogicalPath ''path must use '/' separators'')
      else if \<exists>seg \<in> set (split_on (CHR ''/'') path). seg = [] \<or> seg = ''.'' \<or> seg = ''..''
      then Inl (InvalidLogicalPath ''path contains an empty or traversal segment'')
      else if any_control path
      then Inl (InvalidLogicalPath ''path contains a control character'')
      else Inr path)"

definition resource_id_new ::
  "string \<Rightarrow> string \<Rightarrow> string \<Rightarrow> (model_error, resource_id) result" where
  "resource_id_new package plugin path =
     and_then (validate_logical_path path) (\<lambda>p.
       and_then (validate_scope_identifier package) (\<lambda>_.
         and_then (validate_scope_identifier plugin) (\<lambda>_.
           Inr \<lparr>res_package = package, res_plugin = plugin, res_path = p\<rparr>)))"

text \<open>\<^verbatim>\<open>splitn(3, '/')\<close> with the missing parts empty.\<close>

definition splitn3 :: "string \<Rightarrow> string \<times> string \<times> string" where
  "splitn3 s =
     (case split_once (CHR ''/'') s of
        None \<Rightarrow> (s, [], [])
      | Some (a, t) \<Rightarrow>
          (case split_once (CHR ''/'') t of
             None \<Rightarrow> (a, t, [])
           | Some (b, c) \<Rightarrow> (a, b, c)))"

definition from_composite_key :: "string \<Rightarrow> (model_error, resource_id) result" where
  "from_composite_key key =
     (case splitn3 key of
        (package, plugin, path) \<Rightarrow>
          if plugin = [] \<or> path = []
          then Inl (InvalidLogicalPath
                 ''composite key must contain a package, plugin and resource path'')
          else resource_id_new package plugin path)"

definition composite_key :: "resource_id \<Rightarrow> string" where
  "composite_key r = res_package r @ ''/'' @ res_plugin r @ ''/'' @ res_path r"

section \<open>Lemmas\<close>

lemma validate_identifier_Inr:
  "validate_identifier k v = Inr i \<Longrightarrow>
     i = trim v \<and> i \<noteq> [] \<and> \<not> any_control i \<and> CHR ''/'' \<notin> set i \<and> CHR 0x5C \<notin> set i"
  by (auto simp: validate_identifier_def Let_def split: if_splits)

lemma for_app_Inr:
  "for_app app runner entry payload = Inr r \<longleftrightarrow>
     trim runner \<noteq> [] \<and> \<not> any_control runner \<and> trim entry \<noteq> [] \<and> \<not> any_control entry
     \<and> r = \<lparr>rq_device = app_device app, rq_app = app, rq_runner = runner,
            rq_entrypoint = entry, rq_payload = payload, rq_policy = None\<rparr>"
  by (auto simp: for_app_def run_request_new_def validate_request_def
      validate_request_field_def Let_def and_then_eq_Inr)

lemma scope_identifier_Inr:
  "validate_scope_identifier v = Inr () \<longleftrightarrow>
     v \<noteq> [] \<and> (is_ascii_lowercase (hd v) \<or> is_ascii_digit (hd v))
     \<and> (\<forall>c \<in> set (tl v). scope_char c) \<and> length v \<le> 100"
proof (cases v)
  case (Cons c cs)
  have "\<not> (is_ascii_lowercase c \<or> is_ascii_digit c)" if "c = CHR ''.''"
    using that by (simp add: ascii_defs)
  moreover have "length (filter (\<lambda>c. c = CHR ''.'') v) \<noteq> length v" if "c \<noteq> CHR ''.''"
    using that Cons by simp (metis Suc_n_not_le_n length_filter_le)
  ultimately show ?thesis
    using Cons by (auto simp: validate_scope_identifier_def)
qed (simp add: validate_scope_identifier_def)

lemma scope_identifier_no_slash:
  assumes "validate_scope_identifier v = Inr ()"
  shows "CHR ''/'' \<notin> set v" "v \<noteq> []"
proof -
  have "\<not> scope_char (CHR ''/'')"
    by (simp add: scope_char_def ascii_defs)
  moreover have "\<not> (is_ascii_lowercase (CHR ''/'') \<or> is_ascii_digit (CHR ''/''))"
    by (simp add: ascii_defs)
  ultimately show "CHR ''/'' \<notin> set v" "v \<noteq> []"
    using assms by (cases v; auto simp: scope_identifier_Inr)+
qed

lemma split_on_snoc: "split_on c (t @ [c]) = split_on c t @ [[]]"
proof (induction t)
  case (Cons a t)
  then show ?case by (cases "split_on c t") auto
qed simp

lemma logical_path_Inr:
  "validate_logical_path p = Inr q \<longleftrightarrow>
     q = p \<and> CHR 0x5C \<notin> set p \<and> \<not> any_control p
     \<and> (\<forall>seg \<in> set (split_on (CHR ''/'') p). seg \<noteq> [] \<and> seg \<noteq> ''.'' \<and> seg \<noteq> ''..'')"
proof -
  have "\<exists>seg \<in> set (split_on (CHR ''/'') p). seg = []" if "starts_with p ''/'' \<or> ends_with p ''/''"
  proof -
    from that consider t where "p = [] @ CHR ''/'' # t" | t where "p = t @ CHR ''/'' # []"
      by (auto simp: starts_with_iff ends_with_iff)
    then show ?thesis
    proof cases
      case 1
      then show ?thesis using split_on_append [of "CHR ''/''" "[]" t] by simp
    next
      case 2
      then show ?thesis by (auto simp: split_on_snoc)
    qed
  qed
  then show ?thesis
    by (auto simp: validate_logical_path_def split: if_splits)
qed

lemma splitn3_join:
  "CHR ''/'' \<notin> set a \<Longrightarrow> CHR ''/'' \<notin> set b \<Longrightarrow> splitn3 (a @ ''/'' @ b @ ''/'' @ c) = (a, b, c)"
  by (simp add: splitn3_def)

lemma splitn3_key:
  "splitn3 k = (a, b, c) \<Longrightarrow> b \<noteq> [] \<Longrightarrow> c \<noteq> [] \<Longrightarrow> k = a @ ''/'' @ b @ ''/'' @ c"
  by (auto simp: splitn3_def split_once_Some split: option.splits prod.splits)

lemma resource_id_new_Inr:
  "resource_id_new a b p = Inr r \<longleftrightarrow>
     r = \<lparr>res_package = a, res_plugin = b, res_path = p\<rparr>
     \<and> validate_scope_identifier a = Inr () \<and> validate_scope_identifier b = Inr ()
     \<and> validate_logical_path p = Inr p"
  by (auto simp: resource_id_new_def and_then_eq_Inr logical_path_Inr)

lemma composite_key_parsed:
  assumes "resource_id_new a b p = Inr r"
  shows "from_composite_key (composite_key r) = Inr r"
proof -
  have p: "p \<noteq> []"
  proof
    assume "p = []"
    with assms show False by (auto simp: resource_id_new_Inr logical_path_Inr)
  qed
  have a: "CHR ''/'' \<notin> set a" and b: "CHR ''/'' \<notin> set b" "b \<noteq> []"
    using assms scope_identifier_no_slash by (auto simp: resource_id_new_Inr)
  have r: "r = \<lparr>res_package = a, res_plugin = b, res_path = p\<rparr>"
    using assms by (simp add: resource_id_new_Inr)
  show ?thesis
    using splitn3_join [OF a b(1), of p] p b assms
    by (simp add: from_composite_key_def composite_key_def r)
qed

lemma composite_key_printed:
  assumes "from_composite_key k = Inr r"
  shows "composite_key r = k" "\<exists>a b p. resource_id_new a b p = Inr r"
proof -
  obtain a b c where k: "splitn3 k = (a, b, c)" by (cases "splitn3 k")
  from assms have ne: "b \<noteq> []" "c \<noteq> []" and r: "resource_id_new a b c = Inr r"
    by (auto simp: from_composite_key_def k split: if_splits)
  then have r': "r = \<lparr>res_package = a, res_plugin = b, res_path = c\<rparr>"
    by (simp add: resource_id_new_Inr)
  show "composite_key r = k"
    using splitn3_key [OF k ne] by (simp add: composite_key_def r')
  show "\<exists>a b p. resource_id_new a b p = Inr r"
    using r by blast
qed

text \<open>
  A delegation whose sets are in order (every set built by insertion is) comes back
  unchanged from the extensions it was stored in, and no other key is touched.
\<close>

fun ascending :: "string list \<Rightarrow> bool" where
  "ascending [] = True"
| "ascending (x # xs) = ((\<forall>y \<in> set xs. str_cmp x y = Less) \<and> ascending xs)"

lemma set_set_insert: "set (set_insert x ys) = insert x (set ys)"
  by (induction ys) (auto simp: str_ord.cmp_Equal split: ordering.splits)

lemma ascending_insert: "ascending ys \<Longrightarrow> ascending (set_insert x ys)"
proof (induction ys)
  case (Cons y ys)
  then show ?case
    by (auto simp: set_set_insert str_ord.cmp_Greater split: ordering.splits
        intro: str_ord.cmp_Less_trans)
qed simp

lemma btree_set_ascending: "ascending (btree_set xs)"
proof -
  have "ascending s \<Longrightarrow> ascending (foldl (\<lambda>s x. set_insert x s) s xs)" for s
    by (induction xs arbitrary: s) (auto intro: ascending_insert)
  then show ?thesis by (simp add: btree_set_def)
qed

lemma set_insert_last: "\<forall>y \<in> set ys. str_cmp y x = Less \<Longrightarrow> set_insert x ys = ys @ [x]"
proof (induction ys)
  case (Cons y ys)
  then have "str_cmp x y = Greater" by (simp add: str_ord.cmp_Greater)
  with Cons show ?case by simp
qed simp

lemma btree_set_id: "ascending xs \<Longrightarrow> btree_set xs = xs"
proof -
  have "ascending (s @ xs) \<Longrightarrow> foldl (\<lambda>s x. set_insert x s) s xs = s @ xs" for s
  proof (induction xs arbitrary: s)
    case (Cons x xs)
    have "ascending (s @ x # xs) \<Longrightarrow> \<forall>y \<in> set s. str_cmp y x = Less"
      by (induction s) auto
    with Cons.prems have "set_insert x s = s @ [x]" by (intro set_insert_last) simp
    with Cons show ?case by simp
  qed simp
  then show "ascending xs \<Longrightarrow> btree_set xs = xs" by (simp add: btree_set_def)
qed

definition policy_ordered :: "execution_policy \<Rightarrow> bool" where
  "policy_ordered p \<longleftrightarrow> ascending (allowed_plugins p) \<and> ascending (scopes p)"

lemma strings_of_map [simp]: "strings_of (map JString xs) = Some xs"
  by (simp add: strings_of_def collect_opt_Some)

lemma policy_read_back: "policy_ordered p \<Longrightarrow> policy_of_json (policy_json p) = Some p"
proof -
  assume p: "policy_ordered p"
  let ?fs = "[(''token_id'', JString (token_id p)),
      (''allowed_plugins'', JArray (map JString (allowed_plugins p))),
      (''scopes'', JArray (map JString (scopes p)))]"
  obtain m where m: "json_object ?fs = JObject m" "keys_sorted str_cmp m"
    using json_object_sorted by blast
  have get: "map_of m k = map_of (rev ?fs) k" for k
    using json_get_object [of k ?fs] m(1) by simp
  have "fst ` set m = dom (map_of m)" by (simp add: dom_map_of_conv_image_fst)
  also have "\<dots> = {''token_id'', ''allowed_plugins'', ''scopes''}"
    by (auto simp: dom_def get split: if_splits)
  finally have "\<forall>(k, v) \<in> set m. k \<in> {''token_id'', ''allowed_plugins'', ''scopes''}" by force
  then show ?thesis
    using p by (simp add: policy_json_def m(1) policy_of_json_def get policy_of_fields_def
        string_set_of_def policy_ordered_def btree_set_id)
qed

lemma delegation_stored:
  assumes "store_in_task p (JObject m) = Inr j" "policy_ordered p" "keys_sorted str_cmp m"
  shows "from_task_extensions j = Inr (Some p)"
    and "k \<noteq> TASK_KEY \<Longrightarrow> json_get k j = json_get k (JObject m)"
  using assms
  by (auto simp: store_in_task_def from_task_extensions_def obj_insert_def str_ord.ins_get
      policy_read_back)

text \<open>What a resource identity promises: two scope names and a path that stays below them.\<close>

definition valid_scope :: "string \<Rightarrow> bool" where
  "valid_scope v \<longleftrightarrow> v \<noteq> [] \<and> (is_ascii_lowercase (hd v) \<or> is_ascii_digit (hd v))
     \<and> (\<forall>c \<in> set (tl v). scope_char c) \<and> length v \<le> 100"

definition valid_resource :: "resource_id \<Rightarrow> bool" where
  "valid_resource r \<longleftrightarrow> valid_scope (res_package r) \<and> valid_scope (res_plugin r)
     \<and> CHR 0x5C \<notin> set (res_path r) \<and> \<not> any_control (res_path r)
     \<and> (\<forall>seg \<in> set (split_on (CHR ''/'') (res_path r)). seg \<noteq> [] \<and> seg \<noteq> ''.'' \<and> seg \<noteq> ''..'')"

lemma resource_id_new_valid: "(\<exists>a b p. resource_id_new a b p = Inr r) \<longleftrightarrow> valid_resource r"
proof
  show "\<exists>a b p. resource_id_new a b p = Inr r \<Longrightarrow> valid_resource r"
    by (auto simp: resource_id_new_Inr valid_resource_def valid_scope_def scope_identifier_Inr
        logical_path_Inr)
  assume "valid_resource r"
  then have "resource_id_new (res_package r) (res_plugin r) (res_path r) = Inr r"
    by (auto simp: resource_id_new_Inr valid_resource_def valid_scope_def scope_identifier_Inr
        logical_path_Inr)
  then show "\<exists>a b p. resource_id_new a b p = Inr r" by blast
qed

text \<open>
  The composite key names a resource: a key parses to an identity exactly when the
  identity is valid (two scope names, a relative path without empty, dot or dot-dot
  segments, backslashes and control characters) and the key is the identity's own.
\<close>

theorem composite_key_names_resource:
  "from_composite_key k = Inr r \<longleftrightarrow> valid_resource r \<and> composite_key r = k"
  using composite_key_parsed composite_key_printed [of k r] resource_id_new_valid [of r]
  by blast

end
