(* ===== verification/RunManager.thy ===== *)
theory RunManager
  imports Identity ActivationGate
begin

text \<open>
  The run registry (\<^verbatim>\<open>server/src/run_manager.rs\<close>): one run per device, a state
  machine per run, a bounded archive, cancellation, maintenance and drain. The body of a
  run (\<^verbatim>\<open>run_task\<close>) is split where it releases a lock or awaits its executor, and
  every such part is one step of the system; the answers of the executor, the fresh run
  ids, the clock and the trace store are arguments of the steps.
\<close>

section \<open>Records\<close>

datatype run_source = ManualRun | ScheduledRun | TaskNow

datatype run_state = Starting | Running | Stopping | Success | Failed | Cancelled

definition is_terminal :: "run_state \<Rightarrow> bool" where
  "is_terminal st \<longleftrightarrow> st \<in> {Success, Failed, Cancelled}"

definition state_is_active :: "run_state \<Rightarrow> bool" where
  "state_is_active st \<longleftrightarrow> \<not> is_terminal st"

lemma is_terminal_simps [simp]:
  "\<not> is_terminal Starting" "\<not> is_terminal Running" "\<not> is_terminal Stopping"
  "is_terminal Success" "is_terminal Failed" "is_terminal Cancelled"
  by (simp_all add: is_terminal_def)

record run_record =
  rec_id :: string
  rec_device :: string
  rec_runner :: string
  rec_entrypoint :: string
  rec_package :: "string option"
  rec_script :: string
  rec_source :: run_source
  rec_task :: "string option"
  rec_scheduled_at :: "int option"
  rec_state :: run_state
  rec_started :: int
  rec_finished :: "int option"
  rec_error :: "string option"

fun source_str :: "run_source \<Rightarrow> string" where
  "source_str ManualRun = ''manual''"
| "source_str ScheduledRun = ''scheduled''"
| "source_str TaskNow = ''task_now''"

text \<open>The body of a 409; the text of an instant is the clock crate's (\<open>rfc3339\<close>).\<close>

definition busy_payload :: "(int \<Rightarrow> string) \<Rightarrow> run_record \<Rightarrow> json" where
  "busy_payload rfc3339 r = json_object
     [(''error'', JString ''device_busy''),
      (''run_id'', JString (rec_id r)),
      (''script_id'', JString (rec_script r)),
      (''runner_id'', JString (rec_runner r)),
      (''entrypoint'', JString (rec_entrypoint r)),
      (''source'', JString (source_str (rec_source r))),
      (''started_at'', JString (rfc3339 (rec_started r)))]"

record start_request =
  sr_request :: run_request
  sr_source :: run_source
  sr_task :: "string option"
  sr_scheduled_at :: "int option"
  sr_realtime_logs :: bool

definition sr_device :: "start_request \<Rightarrow> string" where
  "sr_device q = rq_device (sr_request q)"

definition display_label :: "start_request \<Rightarrow> string" where
  "display_label q = rq_entrypoint (sr_request q)"

type_synonym logs = "(string \<times> string) list"

datatype run_outcome = OSuccess logs | OFailed string logs | OCancelled logs

fun outcome_logs :: "run_outcome \<Rightarrow> logs" where
  "outcome_logs (OSuccess l) = l"
| "outcome_logs (OFailed _ l) = l"
| "outcome_logs (OCancelled l) = l"

datatype start_error = Conflict run_record | ShuttingDown | Maintenance

datatype cancel_outcome = Accepted | NotFound | AlreadyFinished run_state

record active_run =
  ar_record :: run_record
  ar_stop :: bool
  ar_cancel :: bool

text \<open>
  \<open>rm_saved\<close> lists the records handed to the journal, whose errors are only logged;
  \<open>rm_observed\<close> is whether a result hook is installed.
\<close>

record run_manager =
  rm_devices :: "string \<rightharpoonup> string"
  rm_runs :: "string \<rightharpoonup> active_run"
  rm_history :: "run_record list"
  rm_draining :: bool
  rm_maintenance :: bool
  rm_inflight :: nat
  rm_saved :: "run_record list"
  rm_observed :: bool

definition HISTORY_CAP :: nat where "HISTORY_CAP = 256"

definition manager_new :: run_manager where
  "manager_new = \<lparr>rm_devices = Map.empty, rm_runs = Map.empty, rm_history = [],
     rm_draining = False, rm_maintenance = False, rm_inflight = 0, rm_saved = [],
     rm_observed = False\<rparr>"

definition set_result_hook :: "run_manager \<Rightarrow> run_manager" where
  "set_result_hook m = m\<lparr>rm_observed := True\<rparr>"

text \<open>Executors by runner id, with the default of the constructor.\<close>

definition register_executor :: "string \<Rightarrow> 'e \<Rightarrow> (string \<rightharpoonup> 'e) \<Rightarrow> (string \<rightharpoonup> 'e)" where
  "register_executor runner e es = es(runner \<mapsto> e)"

definition executor_for :: "(string \<rightharpoonup> 'e) \<Rightarrow> 'e \<Rightarrow> string \<Rightarrow> 'e" where
  "executor_for es d runner = (case es runner of Some e \<Rightarrow> e | None \<Rightarrow> d)"

definition persist :: "run_record \<Rightarrow> run_manager \<Rightarrow> run_manager" where
  "persist r m = m\<lparr>rm_saved := rm_saved m @ [r]\<rparr>"

section \<open>Queries\<close>

definition get_run :: "run_manager \<Rightarrow> string \<Rightarrow> run_record option" where
  "get_run m rid =
     (case rm_runs m rid of
        Some e \<Rightarrow> Some (ar_record e)
      | None \<Rightarrow> List.find (\<lambda>r. rec_id r = rid) (rm_history m))"

text \<open>The order of \<^verbatim>\<open>HashMap::values\<close> is an argument: the active run ids in some order.\<close>

definition records_for_scope ::
  "string list \<Rightarrow> string \<Rightarrow> string \<Rightarrow> string \<Rightarrow> run_manager \<Rightarrow> run_record list" where
  "records_for_scope order runner entrypoint package m =
     filter (\<lambda>r. rec_runner r = runner \<and> rec_entrypoint r = entrypoint
               \<and> rec_package r = Some package)
       (List.map_filter (\<lambda>i. map_option ar_record (rm_runs m i)) order @ rm_history m)"

definition active_for_device :: "run_manager \<Rightarrow> string \<Rightarrow> run_record option" where
  "active_for_device m d =
     (case rm_devices m d of
        None \<Rightarrow> None
      | Some rid \<Rightarrow> map_option ar_record (rm_runs m rid))"

definition active_count :: "run_manager \<Rightarrow> nat" where
  "active_count m = card (dom (rm_runs m))"

text \<open>What \<^verbatim>\<open>wait_terminal\<close> does with one look at the registry.\<close>

datatype wait_look = Vanished | Settled run_record | WaitMore

definition wait_terminal_look :: "run_manager \<Rightarrow> string \<Rightarrow> wait_look" where
  "wait_terminal_look m rid =
     (case get_run m rid of
        Some r \<Rightarrow>
          if is_terminal (rec_state r) \<and> rm_runs m rid = None then Settled r else WaitMore
      | None \<Rightarrow> Vanished)"

section \<open>Maintenance and removal of history\<close>

definition try_idle_maintenance :: "run_manager \<Rightarrow> bool \<times> run_manager" where
  "try_idle_maintenance m =
     (if dom (rm_devices m) \<noteq> {} \<or> rm_draining m then (False, m)
      else if rm_maintenance m then (False, m)
      else (True, m\<lparr>rm_maintenance := True\<rparr>))"

definition maintenance_drop :: "run_manager \<Rightarrow> run_manager" where
  "maintenance_drop m = m\<lparr>rm_maintenance := False\<rparr>"

text \<open>
  \<open>retained\<close> is the trace store's answer, \<open>deletes\<close> the database's: an error, or the
  number of rows removed.
\<close>

definition delete_terminal_records ::
  "(string \<Rightarrow> bool) \<Rightarrow> (string, nat) result \<Rightarrow> string list \<Rightarrow> run_manager
    \<Rightarrow> (string, nat) result \<times> run_manager" where
  "delete_terminal_records retained deletes ids m =
     (if \<exists>i \<in> set ids. rm_runs m i \<noteq> None then (Inl ''run_active'', m)
      else if \<exists>i \<in> set ids. retained i then (Inl ''run_retained'', m)
      else (case deletes of
              Inl e \<Rightarrow> (Inl e, m)
            | Inr n \<Rightarrow>
                (Inr n, m\<lparr>rm_history := filter (\<lambda>r. rec_id r \<notin> set ids) (rm_history m)\<rparr>)))"

section \<open>Submission\<close>

definition new_record :: "start_request \<Rightarrow> string \<Rightarrow> int \<Rightarrow> run_record" where
  "new_record q rid now =
     \<lparr>rec_id = rid, rec_device = sr_device q, rec_runner = rq_runner (sr_request q),
      rec_entrypoint = rq_entrypoint (sr_request q),
      rec_package = app_content_package (rq_app (sr_request q)),
      rec_script = display_label q, rec_source = sr_source q, rec_task = sr_task q,
      rec_scheduled_at = sr_scheduled_at q, rec_state = Starting, rec_started = now,
      rec_finished = None, rec_error = None\<rparr>"

text \<open>The result is the record; the task of the run is spawned with it.\<close>

definition submit_inner ::
  "start_request \<Rightarrow> string \<Rightarrow> int \<Rightarrow> run_manager \<Rightarrow> (start_error, run_record) result \<times> run_manager"
  where
  "submit_inner q rid now m =
     (let r = new_record q rid now;
          m1 = persist r m;
          m2 = m1\<lparr>rm_runs := (rm_runs m1)(rid \<mapsto> \<lparr>ar_record = r, ar_stop = False, ar_cancel = False\<rparr>)\<rparr>;
          m3 = m2\<lparr>rm_devices := (rm_devices m2)(sr_device q \<mapsto> rid)\<rparr>
      in (Inr r, m3))"

text \<open>
  The two parts of \<^verbatim>\<open>submit\<close>: the reservation and the drain flag are read first, the
  rest happens under the lock of the device slots. The reservation is held throughout.
\<close>

definition submit_gate :: "barrier \<Rightarrow> run_manager \<Rightarrow> (start_error, unit) result" where
  "submit_gate b m =
     (if \<not> reservation_ok b then Inl ShuttingDown
      else if rm_draining m then Inl ShuttingDown
      else Inr ())"

definition submit_locked ::
  "start_request \<Rightarrow> string \<Rightarrow> int \<Rightarrow> run_manager \<Rightarrow> (start_error, run_record) result \<times> run_manager"
  where
  "submit_locked q rid now m =
     (if rm_maintenance m then (Inl Maintenance, m)
      else (case rm_devices m (sr_device q) of
              None \<Rightarrow> submit_inner q rid now m
            | Some other \<Rightarrow>
                (case rm_runs m other of
                   Some e \<Rightarrow> (Inl (Conflict (ar_record e)), m)
                 | None \<Rightarrow>
                     submit_inner q rid now (m\<lparr>rm_devices := (rm_devices m)(sr_device q := None)\<rparr>))))"

definition submit_run ::
  "barrier \<Rightarrow> start_request \<Rightarrow> string \<Rightarrow> int \<Rightarrow> run_manager
    \<Rightarrow> (start_error, run_record) result \<times> run_manager" where
  "submit_run b q rid now m =
     (case submit_gate b m of
        Inl e \<Rightarrow> (Inl e, m)
      | Inr _ \<Rightarrow> submit_locked q rid now m)"

section \<open>Changes of a run's state\<close>

text \<open>\<^verbatim>\<open>with_entry\<close>: one entry changed under the lock, if it is there.\<close>

definition with_entry :: "string \<Rightarrow> (active_run \<Rightarrow> active_run) \<Rightarrow> run_manager \<Rightarrow> run_manager" where
  "with_entry rid f m =
     (case rm_runs m rid of
        None \<Rightarrow> m
      | Some e \<Rightarrow> m\<lparr>rm_runs := (rm_runs m)(rid \<mapsto> f e)\<rparr>)"

definition is_cancelled :: "run_manager \<Rightarrow> string \<Rightarrow> bool" where
  "is_cancelled m rid = (case rm_runs m rid of Some e \<Rightarrow> ar_cancel e | None \<Rightarrow> False)"

definition cancel :: "string \<Rightarrow> run_manager \<Rightarrow> cancel_outcome \<times> run_manager" where
  "cancel rid m =
     (case rm_runs m rid of
        Some e \<Rightarrow>
          if is_terminal (rec_state (ar_record e))
          then (AlreadyFinished (rec_state (ar_record e)), m)
          else (Accepted, with_entry rid (\<lambda>e. e\<lparr>ar_cancel := True,
                  ar_record := (ar_record e)\<lparr>rec_state := Stopping\<rparr>, ar_stop := True\<rparr>) m)
      | None \<Rightarrow>
          (case List.find (\<lambda>r. rec_id r = rid) (rm_history m) of
             Some r \<Rightarrow> (AlreadyFinished (rec_state r), m)
           | None \<Rightarrow> (NotFound, m)))"

definition mark_state ::
  "string \<Rightarrow> run_state \<Rightarrow> string option \<Rightarrow> int \<Rightarrow> run_manager \<Rightarrow> run_manager" where
  "mark_state rid st err now m =
     with_entry rid (\<lambda>e. e\<lparr>ar_record := (ar_record e)\<lparr>rec_state := st, rec_error := err,
       rec_finished := (if is_terminal st then Some now else rec_finished (ar_record e))\<rparr>\<rparr>) m"

datatype outcome_class = ClassSuccess | ClassFailed | ClassCancelled

fun class_state :: "outcome_class \<Rightarrow> run_state" where
  "class_state ClassSuccess = Success"
| "class_state ClassFailed = Failed"
| "class_state ClassCancelled = Cancelled"

definition mark_terminal_checked ::
  "string \<Rightarrow> outcome_class \<Rightarrow> string option \<Rightarrow> int \<Rightarrow> run_manager \<Rightarrow> bool \<times> run_manager" where
  "mark_terminal_checked rid cls err now m =
     (case rm_runs m rid of
        None \<Rightarrow> (False, m)
      | Some e \<Rightarrow>
          if is_terminal (rec_state (ar_record e))
          then (rec_state (ar_record e) = Cancelled, m)
          else
            let st = (if ar_cancel e then Cancelled else class_state cls)
            in (st = Cancelled,
                with_entry rid (\<lambda>e. e\<lparr>ar_record := (ar_record e)\<lparr>rec_state := st,
                  rec_error := (if st = Cancelled then None else err),
                  rec_finished := Some now\<rparr>\<rparr>) m))"

definition snapshot_or_placeholder :: "string \<Rightarrow> int \<Rightarrow> run_manager \<Rightarrow> run_record" where
  "snapshot_or_placeholder rid now m =
     (case get_run m rid of
        Some r \<Rightarrow> r
      | None \<Rightarrow>
          \<lparr>rec_id = rid, rec_device = [], rec_runner = [], rec_entrypoint = [], rec_package = None,
           rec_script = [], rec_source = ManualRun, rec_task = None, rec_scheduled_at = None,
           rec_state = Failed, rec_started = now, rec_finished = Some now,
           rec_error = Some ''record vanished''\<rparr>)"

definition STOPPED_TEXT :: string where
  "STOPPED_TEXT = utf8 [229, 183, 178, 229, 129, 156, 230, 173, 162]"

definition ABNORMAL_TEXT :: string where
  "ABNORMAL_TEXT = utf8
    [230, 137, 167, 232, 161, 140, 229, 188, 130, 229, 184, 184, 231, 187, 136, 230, 173, 162,
     239, 188, 136, 112, 97, 110, 105, 99, 32, 230, 136, 150, 230, 156, 170, 230, 173, 163, 229,
     184, 184, 230, 148, 182, 229, 176, 190, 239, 188, 137]"

text \<open>The record that \<^verbatim>\<open>finalize\<close> archives: a left-over state is classified.\<close>

definition settle :: "active_run \<Rightarrow> int \<Rightarrow> run_record" where
  "settle e now =
     (let r = ar_record e
      in if is_terminal (rec_state r) then r
         else r\<lparr>rec_state := (if ar_cancel e then Cancelled else Failed),
                rec_error := (case rec_error r of
                    None \<Rightarrow> Some (if ar_cancel e then STOPPED_TEXT else ABNORMAL_TEXT)
                  | Some t \<Rightarrow> Some t),
                rec_finished := Some now\<rparr>)"

definition archive :: "run_record \<Rightarrow> run_record list \<Rightarrow> run_record list" where
  "archive r h = (if HISTORY_CAP \<le> length h then tl h else h) @ [r]"

definition finalize :: "string \<Rightarrow> int \<Rightarrow> run_manager \<Rightarrow> run_record option \<times> run_manager" where
  "finalize rid now m =
     (case rm_runs m rid of
        None \<Rightarrow> (None, m)
      | Some e \<Rightarrow>
          let r = settle e now;
              m1 = m\<lparr>rm_runs := (rm_runs m)(rid := None)\<rparr>;
              m2 = (if rm_devices m1 (rec_device r) = Some rid
                    then m1\<lparr>rm_devices := (rm_devices m1)(rec_device r := None)\<rparr> else m1);
              m3 = m2\<lparr>rm_history := archive r (rm_history m2)\<rparr>
          in (Some r, persist r m3))"

section \<open>The finish guard\<close>

fun class_of_outcome :: "run_outcome \<Rightarrow> outcome_class" where
  "class_of_outcome (OSuccess _) = ClassSuccess"
| "class_of_outcome (OFailed _ _) = ClassFailed"
| "class_of_outcome (OCancelled _) = ClassCancelled"

fun outcome_error :: "run_outcome \<Rightarrow> string option" where
  "outcome_error (OFailed e _) = Some e"
| "outcome_error _ = None"

text \<open>\<^verbatim>\<open>complete\<close> up to the call of the hook: the outcome the hook will see.\<close>

definition complete_mark ::
  "string \<Rightarrow> run_outcome \<Rightarrow> int \<Rightarrow> run_manager \<Rightarrow> run_outcome \<times> run_manager" where
  "complete_mark rid out now m =
     (case mark_terminal_checked rid (class_of_outcome out) (outcome_error out) now m of
        (cancelled, m') \<Rightarrow> (if cancelled then OCancelled (outcome_logs out) else out, m'))"

text \<open>The outcome \<^verbatim>\<open>drop\<close> derives from the archived record.\<close>

definition drop_outcome :: "run_record \<Rightarrow> run_outcome" where
  "drop_outcome r =
     (case rec_state r of
        Success \<Rightarrow> OSuccess []
      | Cancelled \<Rightarrow> OCancelled []
      | _ \<Rightarrow> OFailed (case rec_error r of Some e \<Rightarrow> e | None \<Rightarrow> ABNORMAL_TEXT) [])"

definition late_outcome :: "run_record \<Rightarrow> run_outcome" where
  "late_outcome r =
     (case rec_state r of
        Success \<Rightarrow> OSuccess []
      | Cancelled \<Rightarrow> OCancelled []
      | Failed \<Rightarrow> OFailed (case rec_error r of Some e \<Rightarrow> e | None \<Rightarrow> ABNORMAL_TEXT) []
      | _ \<Rightarrow> OFailed ABNORMAL_TEXT [])"

section \<open>The body of a run\<close>

text \<open>
  Where a run's task stands. \<open>Marking\<close> to \<open>Releasing\<close> hold the activity lease;
  \<open>Dropping\<close> to \<open>LateHook\<close> are the drop of the finish guard.
\<close>

datatype run_pc =
    Spawned
  | Preparing
  | PrepareFailed string
  | Acquiring
  | Marking
  | Checking
  | Entering
  | Executing
  | Classifying "(string, logs) result"
  | Releasing run_outcome
  | Completing run_outcome
  | Hooking run_outcome
  | Dropping
  | Observing run_record
  | LateHook run_record
  | Ended

text \<open>What a step is answered: by the executor, or nothing (\<open>Go\<close>).\<close>

datatype answer =
    Go
  | Prepared "(string, unit) result"
  | Leased "(string, unit) result"
  | Executed "(string, logs) result"
  | Released

datatype hook_kind = OnFinish | Observer

record hook_call =
  hc_kind :: hook_kind
  hc_record :: run_record
  hc_outcome :: run_outcome

record run_task =
  t_pc :: run_pc
  t_request :: start_request
  t_hook :: bool

definition CONNECT_TEXT :: string where
  "CONNECT_TEXT = utf8 [232, 191, 158, 230, 142, 165, 229, 164, 177, 232, 180, 165, 58, 32]"

definition LEASE_TEXT :: string where
  "LEASE_TEXT = utf8
    [232, 174, 190, 229, 164, 135, 230, 180, 187, 229, 138, 168, 231, 167, 159, 231, 186, 166,
     232, 142, 183, 229, 143, 150, 229, 164, 177, 232, 180, 165, 58, 32]"

definition ENTRY_LOST_TEXT :: string where
  "ENTRY_LOST_TEXT = utf8
    [230, 179, 168, 229, 134, 140, 232, 161, 168, 230, 157, 161, 231, 155, 174, 228, 184, 162,
     229, 164, 177]"

text \<open>How \<^verbatim>\<open>execute\<close> reads its executor's result.\<close>

definition classify :: "bool \<Rightarrow> (string, logs) result \<Rightarrow> run_outcome" where
  "classify cancelled r =
     (case r of
        Inr logs \<Rightarrow> if cancelled then OCancelled logs else OSuccess logs
      | Inl e \<Rightarrow> if cancelled then OCancelled [] else OFailed e [])"

definition inflight_new :: "run_manager \<Rightarrow> run_manager" where
  "inflight_new m = m\<lparr>rm_inflight := rm_inflight m + 1\<rparr>"

definition inflight_drop :: "run_manager \<Rightarrow> run_manager" where
  "inflight_drop m = m\<lparr>rm_inflight := rm_inflight m - 1\<rparr>"

text \<open>
  The next state of the task, the registry and the hook calls made, for the run \<open>rid\<close>
  at position \<open>pc\<close>; \<open>None\<close> when the answer does not fit the position.
\<close>

definition body_step ::
  "answer \<Rightarrow> int \<Rightarrow> string \<Rightarrow> run_pc \<Rightarrow> run_manager \<Rightarrow> (run_pc \<times> run_manager) option" where
  "body_step a now rid pc m =
     (case (pc, a) of
        (Spawned, Go) \<Rightarrow>
          Some (let m' = inflight_new m
                in (if is_cancelled m' rid then Completing (OCancelled []) else Preparing, m'))
      | (Preparing, Prepared (Inr _)) \<Rightarrow> Some (Acquiring, m)
      | (Preparing, Prepared (Inl e)) \<Rightarrow> Some (PrepareFailed e, m)
      | (PrepareFailed e, Go) \<Rightarrow>
          Some (Completing (if is_cancelled m rid then OCancelled []
                            else OFailed (CONNECT_TEXT @ e) []), m)
      | (Acquiring, Leased (Inr _)) \<Rightarrow> Some (Marking, m)
      | (Acquiring, Leased (Inl e)) \<Rightarrow> Some (Completing (OFailed (LEASE_TEXT @ e) []), m)
      | (Marking, Go) \<Rightarrow> Some (Checking, mark_state rid Running None now m)
      | (Checking, Go) \<Rightarrow>
          Some (if is_cancelled m rid then Releasing (OCancelled []) else Entering, m)
      | (Entering, Go) \<Rightarrow>
          Some (case rm_runs m rid of
                  None \<Rightarrow> Releasing (OFailed ENTRY_LOST_TEXT [])
                | Some e \<Rightarrow> Executing, m)
      | (Executing, Executed r) \<Rightarrow> Some (Classifying r, m)
      | (Classifying r, Go) \<Rightarrow> Some (Releasing (classify (is_cancelled m rid) r), m)
      | (Releasing out, Released) \<Rightarrow> Some (Completing out, m)
      | (Completing out, Go) \<Rightarrow>
          Some (case complete_mark rid out now m of (out', m') \<Rightarrow> (Hooking out', m'))
      | _ \<Rightarrow> None)"

definition call_if :: "bool \<Rightarrow> hook_kind \<Rightarrow> run_record \<Rightarrow> run_outcome \<Rightarrow> hook_call list" where
  "call_if b k r out = (if b then [\<lparr>hc_kind = k, hc_record = r, hc_outcome = out\<rparr>] else [])"

definition task_step ::
  "answer \<Rightarrow> int \<Rightarrow> string \<Rightarrow> run_task \<Rightarrow> run_manager
    \<Rightarrow> (run_task \<times> run_manager \<times> hook_call list) option" where
  "task_step a now rid t m =
     (case t_pc t of
        Hooking out \<Rightarrow>
          if a = Go then
            Some (t\<lparr>t_pc := Dropping, t_hook := False\<rparr>, m,
                  call_if (t_hook t) OnFinish (snapshot_or_placeholder rid now m) out)
          else None
      | Dropping \<Rightarrow>
          if a = Go then
            (case finalize rid now m of
               (None, m') \<Rightarrow> Some (t\<lparr>t_pc := Ended\<rparr>, inflight_drop m', [])
             | (Some r, m') \<Rightarrow> Some (t\<lparr>t_pc := Observing r\<rparr>, m', []))
          else None
      | Observing r \<Rightarrow>
          if a = Go then
            Some (t\<lparr>t_pc := LateHook r\<rparr>, m, call_if (rm_observed m) Observer r (drop_outcome r))
          else None
      | LateHook r \<Rightarrow>
          if a = Go then
            Some (t\<lparr>t_pc := Ended, t_hook := False\<rparr>, inflight_drop m,
                  call_if (t_hook t) OnFinish r (late_outcome r))
          else None
      | pc \<Rightarrow>
          (case body_step a now rid pc m of
             None \<Rightarrow> None
           | Some (pc', m') \<Rightarrow> Some (t\<lparr>t_pc := pc'\<rparr>, m', [])))"

text \<open>
  A panic of the executor, or a dropped future, unwinds into the guard from any await
  and from any call into the executor.
\<close>

fun can_unwind :: "run_pc \<Rightarrow> bool" where
  "can_unwind Preparing = True"
| "can_unwind Acquiring = True"
| "can_unwind Executing = True"
| "can_unwind (Releasing _) = True"
| "can_unwind _ = False"

section \<open>Drain\<close>

definition drain_start :: "run_manager \<Rightarrow> run_manager" where
  "drain_start m = m\<lparr>rm_draining := True\<rparr>"

datatype drain_poll = Drained | Forced "string list" | DrainWait

text \<open>
  One round of the wait of \<^verbatim>\<open>begin_shutdown\<close>; \<open>order\<close> is the order of the active ids in the map.
\<close>

definition force_cancel :: "string list \<Rightarrow> run_manager \<Rightarrow> run_manager" where
  "force_cancel ids m = foldl (\<lambda>m i. snd (cancel i m)) m ids"

definition drain_round :: "bool \<Rightarrow> string list \<Rightarrow> run_manager \<Rightarrow> drain_poll \<times> run_manager" where
  "drain_round timed_out order m =
     (if active_count m = 0 then (Drained, m)
      else if timed_out then
        let ids = filter (\<lambda>i. case rm_runs m i of
                    Some e \<Rightarrow> state_is_active (rec_state (ar_record e)) | None \<Rightarrow> False) order
        in (Forced ids, force_cancel ids m)
      else (DrainWait, m))"

section \<open>The system\<close>

text \<open>
  The registry beside the update barrier, with every task of the server interleaved. A
  submission that passed the gate holds the barrier's lock until it settles (\<open>admitted\<close>,
  with whether a completion hook came with it). \<open>frozen\<close> remembers that the barrier was
  closed by an install that found the server idle, \<open>accepted\<close> the runs whose cancellation
  was answered with acceptance, \<open>hooked\<close> those submitted with a completion hook. A run
  id is a fresh UUID: one that no task has had.
\<close>

record run_sys =
  mgr :: run_manager
  bar :: barrier
  frozen :: bool
  admitted :: "(start_request \<times> bool) option"
  tasks :: "string \<rightharpoonup> run_task"
  calls :: "hook_call list"
  accepted :: "string set"
  hooked :: "string set"

definition run_init :: "run_sys \<Rightarrow> bool" where
  "run_init s \<longleftrightarrow> (mgr s = manager_new \<or> mgr s = set_result_hook manager_new)
     \<and> \<not> paused (bar s) \<and> \<not> frozen s \<and> admitted s = None \<and> tasks s = Map.empty
     \<and> calls s = [] \<and> accepted s = {} \<and> hooked s = {}"

inductive run_step :: "run_sys \<Rightarrow> run_sys \<Rightarrow> bool" where
  submit_passes: "admitted s = None \<Longrightarrow> submit_gate (bar s) (mgr s) = Inr ()
    \<Longrightarrow> run_step s (s\<lparr>admitted := Some (q, h)\<rparr>)"
| submit_settles: "admitted s = Some (q, h) \<Longrightarrow> tasks s rid = None
    \<Longrightarrow> submit_locked q rid now (mgr s) = (Inr r, m)
    \<Longrightarrow> run_step s (s\<lparr>mgr := m, admitted := None,
          tasks := (tasks s)(rid \<mapsto> \<lparr>t_pc = Spawned, t_request = q, t_hook = h\<rparr>),
          hooked := (if h then insert rid (hooked s) else hooked s)\<rparr>)"
| submit_refused: "admitted s = Some (q, h)
    \<Longrightarrow> submit_locked q rid now (mgr s) = (Inl e, m)
    \<Longrightarrow> run_step s (s\<lparr>mgr := m, admitted := None\<rparr>)"
| task_moves: "tasks s rid = Some t \<Longrightarrow> task_step a now rid t (mgr s) = Some (t', m, cs)
    \<Longrightarrow> run_step s (s\<lparr>mgr := m, tasks := (tasks s)(rid \<mapsto> t'), calls := calls s @ cs\<rparr>)"
| task_unwinds: "tasks s rid = Some t \<Longrightarrow> can_unwind (t_pc t)
    \<Longrightarrow> run_step s (s\<lparr>tasks := (tasks s)(rid \<mapsto> t\<lparr>t_pc := Dropping\<rparr>)\<rparr>)"
| cancels: "cancel rid (mgr s) = (c, m)
    \<Longrightarrow> run_step s (s\<lparr>mgr := m,
          accepted := (if c = Accepted then insert rid (accepted s) else accepted s)\<rparr>)"
| drains: "run_step s (s\<lparr>mgr := drain_start (mgr s)\<rparr>)"
| maintenance_starts: "try_idle_maintenance (mgr s) = (b, m) \<Longrightarrow> run_step s (s\<lparr>mgr := m\<rparr>)"
| maintenance_ends: "run_step s (s\<lparr>mgr := maintenance_drop (mgr s)\<rparr>)"
| deletes: "delete_terminal_records kept dbres ids (mgr s) = (res, m)
    \<Longrightarrow> run_step s (s\<lparr>mgr := m\<rparr>)"
| freezes: "admitted s = None
    \<Longrightarrow> freeze_if_idle (active_count (mgr s) = 0 \<and> others) (bar s) = (ok, b)
    \<Longrightarrow> run_step s (s\<lparr>bar := b, frozen := (ok \<or> frozen s)\<rparr>)"
| pauses: "admitted s = None \<Longrightarrow> run_step s (s\<lparr>bar := pause (bar s)\<rparr>)"
| resumes: "admitted s = None \<Longrightarrow> run_step s (s\<lparr>bar := resume (bar s), frozen := False\<rparr>)"
| media_starts: "admitted s = None \<Longrightarrow> activity (bar s) = Some b \<Longrightarrow> run_step s (s\<lparr>bar := b\<rparr>)"
| media_ends: "run_step s (s\<lparr>bar := activity_drop (bar s)\<rparr>)"

inductive_cases run_stepE: "run_step s s'"

section \<open>The invariant\<close>

fun outcome_state :: "run_outcome \<Rightarrow> run_state" where
  "outcome_state (OSuccess _) = Success"
| "outcome_state (OFailed _ _) = Failed"
| "outcome_state (OCancelled _) = Cancelled"

definition finished_ok :: "bool \<Rightarrow> string \<Rightarrow> run_record \<Rightarrow> bool" where
  "finished_ok acc rid r \<longleftrightarrow> rec_id r = rid \<and> is_terminal (rec_state r) \<and> rec_finished r \<noteq> None
     \<and> (acc \<longrightarrow> rec_state r = Cancelled)"

definition call_ok :: "bool \<Rightarrow> string \<Rightarrow> hook_call \<Rightarrow> bool" where
  "call_ok acc rid c \<longleftrightarrow> finished_ok acc rid (hc_record c)
     \<and> outcome_state (hc_outcome c) = rec_state (hc_record c)"

text \<open>
  What is true of one run: its entry, its task, the hook calls made for it and its
  archived record, each phase of the task with what it has and has not done.
\<close>

record run_view =
  v_entry :: "active_run option"
  v_task :: "run_task option"
  v_final :: "hook_call list"
  v_observed :: "hook_call list"
  v_history :: "run_record list"

definition view :: "run_sys \<Rightarrow> string \<Rightarrow> run_view" where
  "view s rid = \<lparr>v_entry = rm_runs (mgr s) rid, v_task = tasks s rid,
     v_final = filter (\<lambda>c. hc_kind c = OnFinish \<and> rec_id (hc_record c) = rid) (calls s),
     v_observed = filter (\<lambda>c. hc_kind c = Observer \<and> rec_id (hc_record c) = rid) (calls s),
     v_history = filter (\<lambda>r. rec_id r = rid) (rm_history (mgr s))\<rparr>"

definition agree :: "run_view \<Rightarrow> run_state \<Rightarrow> bool" where
  "agree v st \<longleftrightarrow> (\<forall>c \<in> set (v_final v) \<union> set (v_observed v). rec_state (hc_record c) = st)"

text \<open>An entry the task has not settled yet, and one it has.\<close>

definition open_entry :: "bool \<Rightarrow> string \<Rightarrow> active_run \<Rightarrow> bool" where
  "open_entry acc rid e \<longleftrightarrow> rec_id (ar_record e) = rid \<and> (ar_cancel e \<longleftrightarrow> acc)
     \<and> \<not> is_terminal (rec_state (ar_record e))"

definition done_entry :: "bool \<Rightarrow> string \<Rightarrow> active_run \<Rightarrow> bool" where
  "done_entry acc rid e \<longleftrightarrow> finished_ok acc rid (ar_record e)"

fun phase_ok :: "bool \<Rightarrow> bool \<Rightarrow> string \<Rightarrow> run_pc \<Rightarrow> run_view \<Rightarrow> bool" where
  "phase_ok obs acc rid (Hooking out) v \<longleftrightarrow>
     (\<exists>e. v_entry v = Some e \<and> done_entry acc rid e \<and> rec_state (ar_record e) = outcome_state out)
     \<and> v_final v = [] \<and> v_observed v = [] \<and> v_history v = []"
| "phase_ok obs acc rid Dropping v \<longleftrightarrow>
     (\<exists>e. v_entry v = Some e
        \<and> (open_entry acc rid e \<and> v_final v = []
           \<or> done_entry acc rid e \<and> agree v (rec_state (ar_record e))))
     \<and> v_observed v = [] \<and> v_history v = []"
| "phase_ok obs acc rid (Observing r) v \<longleftrightarrow>
     v_entry v = None \<and> finished_ok acc rid r \<and> agree v (rec_state r) \<and> v_observed v = []
     \<and> set (v_history v) \<subseteq> {r}"
| "phase_ok obs acc rid (LateHook r) v \<longleftrightarrow>
     v_entry v = None \<and> finished_ok acc rid r \<and> agree v (rec_state r)
     \<and> length (v_observed v) = (if obs then 1 else 0) \<and> set (v_history v) \<subseteq> {r}"
| "phase_ok obs acc rid Ended v \<longleftrightarrow>
     v_entry v = None \<and> length (v_observed v) = (if obs then 1 else 0)
     \<and> (\<forall>r \<in> set (v_history v). finished_ok acc rid r \<and> agree v (rec_state r))"
| "phase_ok obs acc rid pc v \<longleftrightarrow>
     (\<exists>e. v_entry v = Some e \<and> open_entry acc rid e)
     \<and> v_final v = [] \<and> v_observed v = [] \<and> v_history v = []"

definition view_ok :: "bool \<Rightarrow> bool \<Rightarrow> bool \<Rightarrow> string \<Rightarrow> run_view \<Rightarrow> bool" where
  "view_ok obs acc hk rid v \<longleftrightarrow> length (v_history v) \<le> 1 \<and>
     (case v_task v of
        None \<Rightarrow> v = \<lparr>v_entry = None, v_task = None, v_final = [], v_observed = [], v_history = []\<rparr>
          \<and> \<not> acc \<and> \<not> hk
      | Some t \<Rightarrow> phase_ok obs acc rid (t_pc t) v \<and> (t_hook t \<longrightarrow> hk)
          \<and> length (v_final v) = (if hk \<and> \<not> t_hook t then 1 else 0)
          \<and> (t_pc t = Ended \<longrightarrow> \<not> t_hook t)
          \<and> (\<forall>c \<in> set (v_final v) \<union> set (v_observed v). call_ok acc rid c))"

definition run_ok :: "run_sys \<Rightarrow> string \<Rightarrow> bool" where
  "run_ok s rid \<longleftrightarrow>
     view_ok (rm_observed (mgr s)) (rid \<in> accepted s) (rid \<in> hooked s) rid (view s rid)"

text \<open>The device slots are exactly the devices of the active runs.\<close>

definition slots_ok :: "run_manager \<Rightarrow> bool" where
  "slots_ok m \<longleftrightarrow> finite (dom (rm_runs m))
     \<and> (\<forall>d rid. rm_devices m d = Some rid
          \<longleftrightarrow> (\<exists>e. rm_runs m rid = Some e \<and> rec_device (ar_record e) = d))"

definition barrier_ok :: "run_sys \<Rightarrow> bool" where
  "barrier_ok s \<longleftrightarrow> (admitted s \<noteq> None \<longrightarrow> \<not> paused (bar s))
     \<and> (frozen s \<longrightarrow> paused (bar s) \<and> rm_runs (mgr s) = Map.empty)"

definition run_inv :: "run_sys \<Rightarrow> bool" where
  "run_inv s \<longleftrightarrow> (\<forall>rid. run_ok s rid) \<and> slots_ok (mgr s) \<and> barrier_ok s
     \<and> length (rm_history (mgr s)) \<le> HISTORY_CAP"

end
