(* ===== verification/RunSafety.thy ===== *)
theory RunSafety
  imports RunManager
begin

text \<open>
  The invariant of the run registry is kept by every step, and the task of a run,
  driven alone, ends: the phases of one run, the frame of a step for the other runs, and
  the rank of a task's position.
\<close>

section \<open>One run\<close>

lemma with_entry_Some [simp]:
  "rm_runs m rid = Some e \<Longrightarrow> with_entry rid f m = m\<lparr>rm_runs := (rm_runs m)(rid \<mapsto> f e)\<rparr>"
  by (simp add: with_entry_def)

lemma with_entry_fields [simp]:
  "rm_devices (with_entry rid f m) = rm_devices m"
  "rm_history (with_entry rid f m) = rm_history m"
  "rm_observed (with_entry rid f m) = rm_observed m"
  "rm_draining (with_entry rid f m) = rm_draining m"
  "rm_maintenance (with_entry rid f m) = rm_maintenance m"
  by (simp_all add: with_entry_def split: option.splits)

definition open_pc :: "run_pc \<Rightarrow> bool" where
  "open_pc pc \<longleftrightarrow> (case pc of Hooking _ \<Rightarrow> False | Dropping \<Rightarrow> False | Observing _ \<Rightarrow> False
     | LateHook _ \<Rightarrow> False | Ended \<Rightarrow> False | _ \<Rightarrow> True)"

lemma open_pc_simps [simp]:
  "open_pc Spawned" "open_pc Preparing" "open_pc (PrepareFailed x)" "open_pc Acquiring"
  "open_pc Marking" "open_pc Checking" "open_pc Entering" "open_pc Executing"
  "open_pc (Classifying y)" "open_pc (Releasing out)" "open_pc (Completing out)"
  "\<not> open_pc (Hooking out)" "\<not> open_pc Dropping" "\<not> open_pc (Observing r)"
  "\<not> open_pc (LateHook r)" "\<not> open_pc Ended"
  by (simp_all add: open_pc_def)

lemma phase_ok_open:
  "open_pc pc \<Longrightarrow> phase_ok obs acc rid pc v \<longleftrightarrow>
     (\<exists>e. v_entry v = Some e \<and> open_entry acc rid e)
     \<and> v_final v = [] \<and> v_observed v = [] \<and> v_history v = []"
  by (cases pc) simp_all

lemma complete_mark_open:
  assumes "rm_runs m rid = Some e" "open_entry acc rid e"
  obtains e' out' where
    "complete_mark rid out now m = (out', m\<lparr>rm_runs := (rm_runs m)(rid \<mapsto> e')\<rparr>)"
    "done_entry acc rid e'" "rec_state (ar_record e') = outcome_state out'"
    "rec_device (ar_record e') = rec_device (ar_record e)"
proof -
  let ?st = "if acc then Cancelled else class_state (class_of_outcome out)"
  let ?r = "(ar_record e)\<lparr>rec_state := ?st,
    rec_error := (if ?st = Cancelled then None else outcome_error out), rec_finished := Some now\<rparr>"
  let ?out = "if ?st = Cancelled then OCancelled (outcome_logs out) else out"
  have "complete_mark rid out now m
      = (?out, m\<lparr>rm_runs := (rm_runs m)(rid \<mapsto> e\<lparr>ar_record := ?r\<rparr>)\<rparr>)"
    using assms by (simp add: complete_mark_def mark_terminal_checked_def open_entry_def)
  moreover have "is_terminal ?st" by (cases out) auto
  moreover have "?st = outcome_state ?out" by (cases out) auto
  ultimately show ?thesis
    using assms that [of ?out "e\<lparr>ar_record := ?r\<rparr>"]
    by (auto simp: done_entry_def finished_ok_def open_entry_def)
qed

lemma body_step_ok:
  assumes e: "rm_runs m rid = Some e" "open_entry acc rid e"
    and s: "body_step a now rid pc m = Some (pc', m')"
  obtains e' where
    "m' = m\<lparr>rm_runs := (rm_runs m)(rid \<mapsto> e'), rm_inflight := rm_inflight m'\<rparr>"
    "rec_device (ar_record e') = rec_device (ar_record e)"
    "open_pc pc' \<and> open_entry acc rid e'
     \<or> (\<exists>out. pc' = Hooking out \<and> done_entry acc rid e' \<and> rec_state (ar_record e') = outcome_state out)"
proof (cases "\<exists>out. pc = Completing out \<and> a = Go")
  case True
  then obtain out where out: "pc = Completing out" "a = Go" by blast
  obtain e' out' where c:
    "complete_mark rid out now m = (out', m\<lparr>rm_runs := (rm_runs m)(rid \<mapsto> e')\<rparr>)"
    "done_entry acc rid e'" "rec_state (ar_record e') = outcome_state out'"
    "rec_device (ar_record e') = rec_device (ar_record e)"
    using complete_mark_open [OF e] by blast
  have "pc' = Hooking out'" "m' = m\<lparr>rm_runs := (rm_runs m)(rid \<mapsto> e')\<rparr>"
    using s out c(1) by (auto simp: body_step_def)
  then show ?thesis using that [of e'] c by simp
next
  case False
  show ?thesis
  proof (cases "pc = Marking \<and> a = Go")
    case True
    then have "pc' = Checking" "m' = mark_state rid Running None now m"
      using s by (auto simp: body_step_def)
    then show ?thesis
      using that [of "e\<lparr>ar_record := (ar_record e)\<lparr>rec_state := Running, rec_error := None\<rparr>\<rparr>"] e
      by (simp add: mark_state_def open_entry_def)
  next
    case ne: False
    have "open_pc pc' \<and> (m' = m \<or> m' = inflight_new m)"
      using s False ne
      by (cases pc; cases a) (auto simp: body_step_def Let_def split: sum.splits option.splits)
    then show ?thesis
      using that [of e] e by (auto simp: inflight_new_def fun_upd_idem)
  qed
qed

lemma view_ok_shrink:
  assumes "view_ok obs acc hk rid v" "set h \<subseteq> set (v_history v)" "length h \<le> length (v_history v)"
  shows "view_ok obs acc hk rid (v\<lparr>v_history := h\<rparr>)"
proof (cases "v_task v")
  case None
  with assms show ?thesis by (auto simp: view_ok_def)
next
  case (Some t)
  have "phase_ok obs acc rid (t_pc t) v \<Longrightarrow> phase_ok obs acc rid (t_pc t) (v\<lparr>v_history := h\<rparr>)"
    using assms(2,3) by (cases "t_pc t") (auto simp: agree_def)
  with assms Some show ?thesis by (auto simp: view_ok_def)
qed

lemma archive_other:
  assumes "rec_id r \<noteq> rid"
  shows "set (filter (\<lambda>r. rec_id r = rid) (archive r h)) \<subseteq> set (filter (\<lambda>r. rec_id r = rid) h)"
    and "length (filter (\<lambda>r. rec_id r = rid) (archive r h)) \<le> length (filter (\<lambda>r. rec_id r = rid) h)"
  using assms by (cases h; auto simp: archive_def)+

lemma archive_length: "length h \<le> HISTORY_CAP \<Longrightarrow> length (archive r h) \<le> HISTORY_CAP"
  by (auto simp: archive_def HISTORY_CAP_def)

lemma archive_same:
  assumes "filter (\<lambda>r. rec_id r = rid) h = []" "rec_id r = rid"
  shows "filter (\<lambda>r. rec_id r = rid) (archive r h) = [r]"
  using assms by (cases h) (auto simp: archive_def split: if_splits)

text \<open>What a change of the system leaves of the other runs.\<close>

definition frame :: "string \<Rightarrow> run_sys \<Rightarrow> run_sys \<Rightarrow> bool" where
  "frame rid s s' \<longleftrightarrow> rm_observed (mgr s') = rm_observed (mgr s)
     \<and> (\<forall>i. i \<noteq> rid \<longrightarrow>
          (i \<in> accepted s' \<longleftrightarrow> i \<in> accepted s) \<and> (i \<in> hooked s' \<longleftrightarrow> i \<in> hooked s)
          \<and> (\<exists>h. view s' i = (view s i)\<lparr>v_history := h\<rparr>
                \<and> set h \<subseteq> set (v_history (view s i)) \<and> length h \<le> length (v_history (view s i))))"

lemma frame_run_ok:
  assumes "frame rid s s'" "\<forall>i. run_ok s i" "run_ok s' rid"
  shows "\<forall>i. run_ok s' i"
proof
  fix i
  show "run_ok s' i"
  proof (cases "i = rid")
    case False
    with assms(1) obtain h where h: "view s' i = (view s i)\<lparr>v_history := h\<rparr>"
      "set h \<subseteq> set (v_history (view s i))" "length h \<le> length (v_history (view s i))"
      and same: "i \<in> accepted s' \<longleftrightarrow> i \<in> accepted s" "i \<in> hooked s' \<longleftrightarrow> i \<in> hooked s"
        "rm_observed (mgr s') = rm_observed (mgr s)"
      unfolding frame_def by blast
    have "run_ok s i" using assms(2) by blast
    then show ?thesis
      using view_ok_shrink [OF _ h(2,3)] h(1) same by (simp add: run_ok_def)
  qed (use assms(3) in simp)
qed

lemma view_same [simp]:
  "v_entry (view s i) = rm_runs (mgr s) i" "v_task (view s i) = tasks s i"
  "v_history (view s i) = filter (\<lambda>r. rec_id r = i) (rm_history (mgr s))"
  by (simp_all add: view_def)

section \<open>Steps keep the invariant\<close>

lemma run_ok_cong:
  assumes "rm_runs (mgr s') = rm_runs (mgr s)" "rm_history (mgr s') = rm_history (mgr s)"
    "rm_observed (mgr s') = rm_observed (mgr s)" "tasks s' = tasks s" "calls s' = calls s"
    "accepted s' = accepted s" "hooked s' = hooked s"
  shows "run_ok s' = run_ok s"
  using assms by (simp add: run_ok_def view_def fun_eq_iff)

lemma slots_ok_cong:
  "rm_runs m' = rm_runs m \<Longrightarrow> rm_devices m' = rm_devices m \<Longrightarrow> slots_ok m' = slots_ok m"
  by (simp add: slots_ok_def)

text \<open>Replacing an entry by one of the same device.\<close>

lemma slots_ok_entry:
  assumes "slots_ok m" "rm_runs m rid = Some e" "rec_device (ar_record e') = rec_device (ar_record e)"
    "rm_runs m' = (rm_runs m)(rid \<mapsto> e')" "rm_devices m' = rm_devices m"
  shows "slots_ok m'"
  using assms by (auto simp: slots_ok_def)

lemma run_ok_task:
  assumes "run_ok s rid" "tasks s rid = Some t"
  shows "phase_ok (rm_observed (mgr s)) (rid \<in> accepted s) rid (t_pc t) (view s rid)"
    and "t_hook t \<Longrightarrow> rid \<in> hooked s"
    and "length (v_final (view s rid)) = (if rid \<in> hooked s \<and> \<not> t_hook t then 1 else 0)"
    and "\<forall>c \<in> set (v_final (view s rid)) \<union> set (v_observed (view s rid)). call_ok (rid \<in> accepted s) rid c"
    and "length (v_history (view s rid)) \<le> 1"
  using assms by (auto simp: run_ok_def view_ok_def)

lemma run_ok_known: "run_ok s rid \<Longrightarrow> rm_runs (mgr s) rid = Some e \<Longrightarrow> tasks s rid \<noteq> None"
  by (auto simp: run_ok_def view_ok_def view_def split: option.splits)

text \<open>A step of the body before the terminal mark.\<close>

lemma body_moves:
  assumes inv: "run_inv s" and t: "tasks s rid = Some t" "open_pc (t_pc t)"
    and b: "body_step a now rid (t_pc t) (mgr s) = Some (pc', m)"
    and s': "s' = s\<lparr>mgr := m, tasks := (tasks s)(rid \<mapsto> t\<lparr>t_pc := pc'\<rparr>), calls := calls s @ []\<rparr>"
  shows "run_inv s'"
proof -
  let ?acc = "rid \<in> accepted s"
  have ok: "run_ok s rid" and sl: "slots_ok (mgr s)" using inv by (simp_all add: run_inv_def)
  note phase = run_ok_task [OF ok t(1)]
  obtain e where e: "rm_runs (mgr s) rid = Some e" "open_entry ?acc rid e"
    and nil: "v_final (view s rid) = []" "v_observed (view s rid) = []" "v_history (view s rid) = []"
    using phase(1) t(2) by (auto simp: phase_ok_open)
  obtain e' where m: "m = mgr s\<lparr>rm_runs := (rm_runs (mgr s))(rid \<mapsto> e'), rm_inflight := rm_inflight m\<rparr>"
    and dev: "rec_device (ar_record e') = rec_device (ar_record e)"
    and pc': "open_pc pc' \<and> open_entry ?acc rid e'
      \<or> (\<exists>out. pc' = Hooking out \<and> done_entry ?acc rid e'
           \<and> rec_state (ar_record e') = outcome_state out)"
    using body_step_ok [OF e b] by blast
  have runs: "rm_runs m = (rm_runs (mgr s))(rid \<mapsto> e')" "rm_devices m = rm_devices (mgr s)"
    "rm_history m = rm_history (mgr s)" "rm_observed m = rm_observed (mgr s)"
    by (subst m, simp)+
  have sf: "mgr s' = m" "accepted s' = accepted s" "hooked s' = hooked s" by (simp_all add: s')
  have view: "view s' rid = (view s rid)\<lparr>v_entry := Some e', v_task := Some (t\<lparr>t_pc := pc'\<rparr>)\<rparr>"
    by (simp add: s' view_def runs)
  have "pc' \<noteq> Ended" using pc' by auto
  have "phase_ok (rm_observed m) ?acc rid pc' (view s' rid)"
    using pc'
  proof
    assume "open_pc pc' \<and> open_entry ?acc rid e'"
    then show ?thesis using nil by (simp add: phase_ok_open view)
  next
    assume "\<exists>out. pc' = Hooking out \<and> done_entry ?acc rid e'
           \<and> rec_state (ar_record e') = outcome_state out"
    then show ?thesis using nil by (auto simp: view)
  qed
  then have "run_ok s' rid"
    using phase nil \<open>pc' \<noteq> Ended\<close> by (simp add: run_ok_def view_ok_def view sf runs)
  moreover have "frame rid s s'"
    by (auto simp: frame_def s' view_def runs intro!: exI [where x = "v_history (view s i)" for i])
  ultimately have "\<forall>i. run_ok s' i"
    using inv frame_run_ok unfolding run_inv_def by blast
  moreover have "slots_ok m" by (rule slots_ok_entry [OF sl e(1) dev runs(1,2)])
  moreover have "barrier_ok s'"
    using inv e(1) by (auto simp: run_inv_def barrier_ok_def s' )
  ultimately show ?thesis
    using inv by (simp add: run_inv_def s' runs)
qed

lemma run_inv_by_frame:
  assumes "run_inv s" "frame rid s s'" "run_ok s' rid" "slots_ok (mgr s')" "barrier_ok s'"
    "length (rm_history (mgr s')) \<le> HISTORY_CAP"
  shows "run_inv s'"
  using assms frame_run_ok [OF assms(2) _ assms(3)] by (simp add: run_inv_def)

lemma run_invD:
  assumes "run_inv s"
  shows "run_ok s i" "slots_ok (mgr s)" "barrier_ok s" "length (rm_history (mgr s)) \<le> HISTORY_CAP"
  using assms by (simp_all add: run_inv_def)

lemma call_if_filter [simp]:
  "filter (\<lambda>c. hc_kind c = k \<and> rec_id (hc_record c) = i) (call_if b k' r out)
     = (if k = k' \<and> rec_id r = i then call_if b k' r out else [])"
  by (simp add: call_if_def)

lemma call_if_set [simp]:
  "set (call_if b k r out) = (if b then {\<lparr>hc_kind = k, hc_record = r, hc_outcome = out\<rparr>} else {})"
  by (simp add: call_if_def)

lemma call_if_length [simp]: "length (call_if b k r out) = (if b then 1 else 0)"
  by (simp add: call_if_def)

lemma frame_calls:
  assumes "rm_runs m = rm_runs (mgr s)" "rm_history m = rm_history (mgr s)"
    "rm_observed m = rm_observed (mgr s)" "rec_id r = rid"
  shows "frame rid s (s\<lparr>mgr := m, tasks := (tasks s)(rid \<mapsto> t'),
           calls := calls s @ call_if b k r out\<rparr>)"
  using assms
  by (auto simp: frame_def view_def intro!: exI [where x = "v_history (view s i)" for i])

lemma hook_moves:
  assumes inv: "run_inv s" and t: "tasks s rid = Some t" "t_pc t = Hooking out"
    and s': "s' = s\<lparr>mgr := mgr s, tasks := (tasks s)(rid \<mapsto> t\<lparr>t_pc := Dropping, t_hook := False\<rparr>),
      calls := calls s @ call_if (t_hook t) OnFinish (snapshot_or_placeholder rid now (mgr s)) out\<rparr>"
  shows "run_inv s'"
proof -
  note phase = run_ok_task [OF run_invD(1) [OF inv] t(1)]
  obtain e where e: "rm_runs (mgr s) rid = Some e" "done_entry (rid \<in> accepted s) rid e"
    "rec_state (ar_record e) = outcome_state out"
    and nil: "v_final (view s rid) = []" "v_observed (view s rid) = []" "v_history (view s rid) = []"
    using phase(1) t(2) by auto
  have snap: "snapshot_or_placeholder rid now (mgr s) = ar_record e"
    by (simp add: snapshot_or_placeholder_def get_run_def e(1))
  have rid: "rec_id (ar_record e) = rid" using e(2) by (simp add: done_entry_def finished_ok_def)
  have sf: "mgr s' = mgr s" "accepted s' = accepted s" "hooked s' = hooked s" by (simp_all add: s')
  have view: "view s' rid = (view s rid)\<lparr>v_task := Some (t\<lparr>t_pc := Dropping, t_hook := False\<rparr>),
      v_final := v_final (view s rid) @ call_if (t_hook t) OnFinish (ar_record e) out\<rparr>"
    by (simp add: s' view_def snap rid)
  have "run_ok s' rid"
    using phase nil e
    by (auto simp: run_ok_def view_ok_def view sf agree_def call_ok_def done_entry_def
        split: if_splits)
  moreover have "frame rid s s'"
    unfolding s' snap by (rule frame_calls) (simp_all add: rid)
  ultimately show ?thesis
    using run_inv_by_frame [OF inv] run_invD [OF inv] by (simp add: sf barrier_ok_def s')
qed

lemma observer_moves:
  assumes inv: "run_inv s" and t: "tasks s rid = Some t" "t_pc t = Observing r"
    and s': "s' = s\<lparr>mgr := mgr s, tasks := (tasks s)(rid \<mapsto> t\<lparr>t_pc := LateHook r\<rparr>),
      calls := calls s @ call_if (rm_observed (mgr s)) Observer r (drop_outcome r)\<rparr>"
  shows "run_inv s'"
proof -
  note phase = run_ok_task [OF run_invD(1) [OF inv] t(1)]
  have p: "rm_runs (mgr s) rid = None" "finished_ok (rid \<in> accepted s) rid r"
    "agree (view s rid) (rec_state r)" "v_observed (view s rid) = []"
    "set (v_history (view s rid)) \<subseteq> {r}"
    using phase(1) t(2) by auto
  have rid: "rec_id r = rid" and "outcome_state (drop_outcome r) = rec_state r"
    using p(2) by (auto simp: finished_ok_def drop_outcome_def is_terminal_def)
  have sf: "mgr s' = mgr s" "accepted s' = accepted s" "hooked s' = hooked s" by (simp_all add: s')
  have view: "view s' rid = (view s rid)\<lparr>v_task := Some (t\<lparr>t_pc := LateHook r\<rparr>),
      v_observed := v_observed (view s rid)
        @ call_if (rm_observed (mgr s)) Observer r (drop_outcome r)\<rparr>"
    by (simp add: s' view_def rid)
  have "run_ok s' rid"
    using phase p \<open>outcome_state (drop_outcome r) = rec_state r\<close>
    by (auto simp: run_ok_def view_ok_def view sf agree_def call_ok_def)
  moreover have "frame rid s s'"
    unfolding s' by (rule frame_calls) (simp_all add: rid)
  ultimately show ?thesis
    using run_inv_by_frame [OF inv] run_invD [OF inv] by (simp add: sf barrier_ok_def s')
qed

lemma late_hook_moves:
  assumes inv: "run_inv s" and t: "tasks s rid = Some t" "t_pc t = LateHook r"
    and s': "s' = s\<lparr>mgr := inflight_drop (mgr s),
      tasks := (tasks s)(rid \<mapsto> t\<lparr>t_pc := Ended, t_hook := False\<rparr>),
      calls := calls s @ call_if (t_hook t) OnFinish r (late_outcome r)\<rparr>"
  shows "run_inv s'"
proof -
  note phase = run_ok_task [OF run_invD(1) [OF inv] t(1)]
  have p: "rm_runs (mgr s) rid = None" "finished_ok (rid \<in> accepted s) rid r"
    "agree (view s rid) (rec_state r)" "length (v_observed (view s rid)) = (if rm_observed (mgr s) then 1 else 0)"
    "set (v_history (view s rid)) \<subseteq> {r}"
    using phase(1) t(2) by auto
  have rid: "rec_id r = rid" and "outcome_state (late_outcome r) = rec_state r"
    using p(2) by (auto simp: finished_ok_def late_outcome_def is_terminal_def)
  have sf: "mgr s' = inflight_drop (mgr s)" "accepted s' = accepted s" "hooked s' = hooked s"
    by (simp_all add: s')
  have m: "rm_runs (inflight_drop (mgr s)) = rm_runs (mgr s)"
    "rm_history (inflight_drop (mgr s)) = rm_history (mgr s)"
    "rm_observed (inflight_drop (mgr s)) = rm_observed (mgr s)"
    "rm_devices (inflight_drop (mgr s)) = rm_devices (mgr s)"
    by (simp_all add: inflight_drop_def)
  have view: "view s' rid = (view s rid)\<lparr>v_task := Some (t\<lparr>t_pc := Ended, t_hook := False\<rparr>),
      v_final := v_final (view s rid) @ call_if (t_hook t) OnFinish r (late_outcome r)\<rparr>"
    by (simp add: s' view_def rid m)
  have "run_ok s' rid"
    using phase p \<open>outcome_state (late_outcome r) = rec_state r\<close>
    by (auto simp: run_ok_def view_ok_def view sf m agree_def call_ok_def)
  moreover have "frame rid s s'"
    unfolding s' by (rule frame_calls) (simp_all add: rid m)
  moreover have "slots_ok (mgr s')" using run_invD(2) [OF inv] by (simp add: sf slots_ok_def m)
  ultimately show ?thesis
    using run_inv_by_frame [OF inv] run_invD [OF inv] by (simp add: sf barrier_ok_def s' m)
qed

lemma slots_ok_device:
  assumes "slots_ok m" "rm_runs m rid = Some e" "rm_runs m i = Some e'"
    "rec_device (ar_record e') = rec_device (ar_record e)"
  shows "i = rid"
proof -
  have "rm_devices m (rec_device (ar_record e)) = Some rid"
    "rm_devices m (rec_device (ar_record e)) = Some i"
    using assms by (auto simp: slots_ok_def)
  then show ?thesis by simp
qed

lemma slots_ok_removed:
  assumes sl: "slots_ok m" and e: "rm_runs m rid = Some e"
  shows "slots_ok (m\<lparr>rm_runs := (rm_runs m)(rid := None),
    rm_devices := (rm_devices m)(rec_device (ar_record e) := None)\<rparr>)"
proof -
  have "((rm_devices m)(rec_device (ar_record e) := None)) d = Some i
      \<longleftrightarrow> (\<exists>e'. ((rm_runs m)(rid := None)) i = Some e' \<and> rec_device (ar_record e') = d)" for d i
  proof (cases "i = rid")
    case True
    have "rm_devices m d = Some rid \<Longrightarrow> d = rec_device (ar_record e)"
      using sl e by (auto simp: slots_ok_def)
    with True show ?thesis by auto
  next
    case False
    then have "rm_runs m i = Some e' \<Longrightarrow> rec_device (ar_record e') \<noteq> rec_device (ar_record e)" for e'
      using slots_ok_device [OF sl e] by blast
    moreover have "rm_devices m d = Some i
        \<longleftrightarrow> (\<exists>e'. rm_runs m i = Some e' \<and> rec_device (ar_record e') = d)"
      using sl by (simp add: slots_ok_def)
    ultimately show ?thesis using False by auto
  qed
  then show ?thesis using sl by (simp add: slots_ok_def)
qed

text \<open>The drop of the guard: the entry leaves the registry for the archive.\<close>

lemma settle_finished:
  assumes "open_entry acc rid e \<or> done_entry acc rid e"
  shows "finished_ok acc rid (settle e now)"
    and "rec_device (settle e now) = rec_device (ar_record e)"
    and "done_entry acc rid e \<Longrightarrow> settle e now = ar_record e"
  using assms
  by (auto simp: settle_def open_entry_def done_entry_def finished_ok_def Let_def is_terminal_def)

lemma finalize_Some:
  assumes "rm_runs m rid = Some e" "rm_devices m (rec_device (ar_record e)) = Some rid"
    "rec_device (settle e now) = rec_device (ar_record e)"
  shows "finalize rid now m = (Some (settle e now),
     m\<lparr>rm_runs := (rm_runs m)(rid := None),
       rm_devices := (rm_devices m)(rec_device (ar_record e) := None),
       rm_history := archive (settle e now) (rm_history m),
       rm_saved := rm_saved m @ [settle e now]\<rparr>)"
  using assms by (simp add: finalize_def Let_def persist_def)

lemma finalize_moves:
  assumes inv: "run_inv s" and t: "tasks s rid = Some t" "t_pc t = Dropping"
    and f: "finalize rid now (mgr s) = (ro, m)"
  obtains r where "ro = Some r"
    "run_inv (s\<lparr>mgr := m, tasks := (tasks s)(rid \<mapsto> t\<lparr>t_pc := Observing r\<rparr>), calls := calls s @ []\<rparr>)"
proof -
  let ?acc = "rid \<in> accepted s"
  note phase = run_ok_task [OF run_invD(1) [OF inv] t(1)]
  obtain e where e: "rm_runs (mgr s) rid = Some e"
    and st: "open_entry ?acc rid e \<and> v_final (view s rid) = []
      \<or> done_entry ?acc rid e \<and> agree (view s rid) (rec_state (ar_record e))"
    and nil: "v_observed (view s rid) = []" "v_history (view s rid) = []"
    using phase(1) t(2) by auto
  let ?r = "settle e now" and ?d = "rec_device (ar_record e)"
  have fin: "finished_ok ?acc rid ?r" "rec_device ?r = ?d"
    using st settle_finished(1,2) by blast+
  have agree: "agree (view s rid) (rec_state ?r)"
    using st settle_finished(3) [of ?acc rid e now] nil(1) by (auto simp: agree_def)
  have rid: "rec_id ?r = rid" using fin(1) by (simp add: finished_ok_def)
  have sl: "slots_ok (mgr s)" by (rule run_invD(2) [OF inv])
  have d: "rm_devices (mgr s) ?d = Some rid" using sl e by (auto simp: slots_ok_def)
  have m: "ro = Some ?r"
    "rm_runs m = (rm_runs (mgr s))(rid := None)" "rm_devices m = (rm_devices (mgr s))(?d := None)"
    "rm_history m = archive ?r (rm_history (mgr s))" "rm_observed m = rm_observed (mgr s)"
    using f by (auto simp: finalize_Some [OF e d fin(2)])
  define s' where "s' = s\<lparr>mgr := m, tasks := (tasks s)(rid \<mapsto> t\<lparr>t_pc := Observing ?r\<rparr>), calls := calls s @ []\<rparr>"
  have sf: "mgr s' = m" "accepted s' = accepted s" "hooked s' = hooked s" "bar s' = bar s"
    "admitted s' = admitted s" "frozen s' = frozen s"
    by (simp_all add: s'_def)
  have hist: "filter (\<lambda>r. rec_id r = rid) (rm_history m) = [?r]"
    using nil(2) archive_same [of rid "rm_history (mgr s)" ?r] rid by (simp add: m(4))
  have view: "view s' rid = (view s rid)\<lparr>v_entry := None, v_history := [?r],
      v_task := Some (t\<lparr>t_pc := Observing ?r\<rparr>)\<rparr>"
    using hist by (simp add: s'_def view_def m(2))
  have "run_ok s' rid"
    using phase nil agree fin(1)
    by (auto simp: run_ok_def view_ok_def view sf m agree_def call_ok_def)
  moreover have "frame rid s s'"
    unfolding frame_def
  proof (intro conjI allI impI)
    fix i assume "i \<noteq> rid"
    then show "\<exists>h. view s' i = (view s i)\<lparr>v_history := h\<rparr>
        \<and> set h \<subseteq> set (v_history (view s i)) \<and> length h \<le> length (v_history (view s i))"
      using archive_other [of ?r i "rm_history (mgr s)"] rid
      by (intro exI [where x = "filter (\<lambda>r. rec_id r = i) (rm_history m)"])
        (simp add: s'_def view_def m)
  qed (simp_all add: sf m)
  moreover have "slots_ok m" using slots_ok_removed [OF sl e] by (simp add: slots_ok_def m)
  moreover have "barrier_ok s'" using run_invD(3) [OF inv] e by (auto simp: barrier_ok_def sf m)
  moreover have "length (rm_history m) \<le> HISTORY_CAP"
    using run_invD(4) [OF inv] archive_length by (simp add: m)
  ultimately have "run_inv s'" using run_inv_by_frame [OF inv] by (simp add: sf)
  then show ?thesis using that m(1) unfolding s'_def by blast
qed

lemma unwind_moves:
  assumes inv: "run_inv s" and t: "tasks s rid = Some t" "can_unwind (t_pc t)"
  shows "run_inv (s\<lparr>tasks := (tasks s)(rid \<mapsto> t\<lparr>t_pc := Dropping\<rparr>)\<rparr>)" (is "run_inv ?s")
proof -
  note phase = run_ok_task [OF run_invD(1) [OF inv] t(1)]
  have "open_pc (t_pc t)" using t(2) by (cases "t_pc t") simp_all
  then obtain e where e: "rm_runs (mgr s) rid = Some e" "open_entry (rid \<in> accepted s) rid e"
    and nil: "v_final (view s rid) = []" "v_observed (view s rid) = []" "v_history (view s rid) = []"
    using phase(1) by (auto simp: phase_ok_open)
  have view: "view ?s rid = (view s rid)\<lparr>v_task := Some (t\<lparr>t_pc := Dropping\<rparr>)\<rparr>"
    by (simp add: view_def)
  have "run_ok ?s rid"
    using phase nil e by (auto simp: run_ok_def view_ok_def view split: if_splits)
  moreover have "frame rid s ?s"
    by (auto simp: frame_def view_def intro!: exI [where x = "v_history (view s i)" for i])
  ultimately show ?thesis
    using run_inv_by_frame [OF inv] run_invD [OF inv] by (simp add: barrier_ok_def)
qed

lemma cancel_moves:
  assumes inv: "run_inv s" and c: "cancel rid (mgr s) = (c, m)"
  shows "run_inv (s\<lparr>mgr := m, accepted := (if c = Accepted then insert rid (accepted s) else accepted s)\<rparr>)"
proof (cases "\<exists>e. rm_runs (mgr s) rid = Some e \<and> \<not> is_terminal (rec_state (ar_record e))")
  case True
  then obtain e where e: "rm_runs (mgr s) rid = Some e" "\<not> is_terminal (rec_state (ar_record e))"
    by blast
  define e' where "e' = e\<lparr>ar_cancel := True, ar_record := (ar_record e)\<lparr>rec_state := Stopping\<rparr>, ar_stop := True\<rparr>"
  define s' where "s' = s\<lparr>mgr := m, accepted := insert rid (accepted s)\<rparr>"
  have m: "c = Accepted" "m = (mgr s)\<lparr>rm_runs := (rm_runs (mgr s))(rid \<mapsto> e')\<rparr>"
    using c e by (simp_all add: cancel_def e'_def)
  have sf: "mgr s' = m" "accepted s' = insert rid (accepted s)" "hooked s' = hooked s"
    "bar s' = bar s" "admitted s' = admitted s" "frozen s' = frozen s"
    by (simp_all add: s'_def)
  have ok: "run_ok s rid" by (rule run_invD(1) [OF inv])
  obtain t where t: "tasks s rid = Some t" using run_ok_known [OF ok e(1)] by blast
  note phase = run_ok_task [OF ok t]
  have view: "view s' rid = (view s rid)\<lparr>v_entry := Some e'\<rparr>"
    by (simp add: s'_def view_def m)
  have open': "open_entry True rid e'" if "open_entry (rid \<in> accepted s) rid e"
    using that by (simp add: open_entry_def e'_def)
  have pc: "open_pc (t_pc t) \<or> t_pc t = Dropping"
    and nil: "v_final (view s rid) = []" "v_observed (view s rid) = []" "v_history (view s rid) = []"
    and op: "open_entry (rid \<in> accepted s) rid e"
    using phase(1) e by (cases "t_pc t"; auto simp: done_entry_def finished_ok_def)+
  have "phase_ok (rm_observed (mgr s)) True rid (t_pc t) (view s' rid)"
    using pc nil open' [OF op] by (auto simp: phase_ok_open view)
  moreover have "t_pc t \<noteq> Ended" using pc by auto
  ultimately have "run_ok s' rid"
    using phase nil t by (simp add: run_ok_def view_ok_def view sf m)
  moreover have "frame rid s s'"
    by (auto simp: frame_def s'_def view_def m intro!: exI [where x = "v_history (view s i)" for i])
  moreover have "slots_ok m"
    by (rule slots_ok_entry [OF run_invD(2) [OF inv] e(1)]) (simp_all add: m e'_def)
  ultimately have "run_inv s'"
    using run_inv_by_frame [OF inv] run_invD [OF inv] e(1) by (auto simp: sf barrier_ok_def m)
  then show ?thesis by (simp add: s'_def m(1))
next
  case False
  then have "c \<noteq> Accepted" "m = mgr s"
    using c by (auto simp: cancel_def split: option.splits if_splits)
  then show ?thesis using inv by simp
qed

text \<open>A consistent registry never reaches the branch that reclaims a stale slot.\<close>

lemma submit_locked_cases:
  assumes "slots_ok m" "submit_locked q rid now m = (res, m')"
  obtains (refused) e where "res = Inl e" "m' = m"
      "rm_maintenance m \<and> e = Maintenance
       \<or> (\<exists>other x. rm_devices m (sr_device q) = Some other \<and> rm_runs m other = Some x
            \<and> e = Conflict (ar_record x))"
  | (started) "\<not> rm_maintenance m" "rm_devices m (sr_device q) = None"
      "res = Inr (new_record q rid now)"
      "m' = m\<lparr>rm_saved := rm_saved m @ [new_record q rid now],
         rm_runs := (rm_runs m)(rid \<mapsto> \<lparr>ar_record = new_record q rid now, ar_stop = False, ar_cancel = False\<rparr>),
         rm_devices := (rm_devices m)(sr_device q \<mapsto> rid)\<rparr>"
proof (cases "rm_maintenance m")
  case True
  then have "res = Inl Maintenance" "m' = m" using assms(2) by (simp_all add: submit_locked_def)
  then show ?thesis using refused True by blast
next
  case False
  show ?thesis
  proof (cases "rm_devices m (sr_device q)")
    case None
    then have "submit_inner q rid now m = (res, m')"
      using assms(2) False by (simp add: submit_locked_def)
    then show ?thesis
      using started False None by (simp add: submit_inner_def persist_def Let_def)
  next
    case (Some other)
    then obtain x where x: "rm_runs m other = Some x"
      using assms(1) by (auto simp: slots_ok_def)
    then have "res = Inl (Conflict (ar_record x))" "m' = m"
      using assms(2) Some False by (simp_all add: submit_locked_def)
    then show ?thesis using refused Some x by blast
  qed
qed

lemma slots_ok_added:
  assumes sl: "slots_ok m" and none: "rm_runs m rid = None"
    and free: "rm_devices m (rec_device (ar_record e)) = None"
  shows "slots_ok (m\<lparr>rm_runs := (rm_runs m)(rid \<mapsto> e),
    rm_devices := (rm_devices m)(rec_device (ar_record e) \<mapsto> rid)\<rparr>)"
proof -
  have "((rm_devices m)(rec_device (ar_record e) \<mapsto> rid)) d = Some i
      \<longleftrightarrow> (\<exists>e'. ((rm_runs m)(rid \<mapsto> e)) i = Some e' \<and> rec_device (ar_record e') = d)" for d i
  proof (cases "i = rid")
    case True
    have "rm_devices m d \<noteq> Some rid" using sl none by (auto simp: slots_ok_def)
    with True show ?thesis by auto
  next
    case False
    have "rm_runs m i = Some e' \<Longrightarrow> rec_device (ar_record e') \<noteq> rec_device (ar_record e)" for e'
    proof
      assume a: "rm_runs m i = Some e'" "rec_device (ar_record e') = rec_device (ar_record e)"
      then have "rm_devices m (rec_device (ar_record e)) = Some i" using sl by (auto simp: slots_ok_def)
      with free show False by simp
    qed
    moreover have "rm_devices m d = Some i
        \<longleftrightarrow> (\<exists>e'. rm_runs m i = Some e' \<and> rec_device (ar_record e') = d)"
      using sl by (simp add: slots_ok_def)
    ultimately show ?thesis using False by auto
  qed
  then show ?thesis using sl by (simp add: slots_ok_def)
qed

lemma settle_moves:
  assumes inv: "run_inv s" and adm: "admitted s = Some (q, h)" and new: "tasks s rid = None"
    and l: "submit_locked q rid now (mgr s) = (Inr r, m)"
    and s': "s' = s\<lparr>mgr := m, admitted := None,
      tasks := (tasks s)(rid \<mapsto> \<lparr>t_pc = Spawned, t_request = q, t_hook = h\<rparr>),
      hooked := (if h then insert rid (hooked s) else hooked s)\<rparr>"
  shows "run_inv s'"
proof -
  have sl: "slots_ok (mgr s)" by (rule run_invD(2) [OF inv])
  define e where "e = \<lparr>ar_record = new_record q rid now, ar_stop = False, ar_cancel = False\<rparr>"
  have free: "rm_devices (mgr s) (sr_device q) = None"
    and m: "rm_runs m = (rm_runs (mgr s))(rid \<mapsto> e)"
      "rm_devices m = (rm_devices (mgr s))(sr_device q \<mapsto> rid)"
      "rm_history m = rm_history (mgr s)" "rm_observed m = rm_observed (mgr s)"
    by (rule submit_locked_cases [OF sl l]; simp add: e_def)+
  have e: "rec_id (ar_record e) = rid" "rec_device (ar_record e) = sr_device q"
    "rec_state (ar_record e) = Starting" "\<not> ar_cancel e"
    by (simp_all add: e_def new_record_def)
  have sf: "mgr s' = m" "accepted s' = accepted s" "rid \<in> hooked s' \<longleftrightarrow> h \<or> rid \<in> hooked s"
    "bar s' = bar s" "admitted s' = None" "frozen s' = frozen s"
    by (simp_all add: s')
  have ok: "run_ok s rid" by (rule run_invD(1) [OF inv])
  with new have old: "view s rid = \<lparr>v_entry = None, v_task = None, v_final = [], v_observed = [], v_history = []\<rparr>"
    "rid \<notin> accepted s" "rid \<notin> hooked s"
    by (simp_all add: run_ok_def view_ok_def)
  have view: "view s' rid = \<lparr>v_entry = Some e, v_task = Some \<lparr>t_pc = Spawned, t_request = q, t_hook = h\<rparr>,
      v_final = [], v_observed = [], v_history = []\<rparr>"
    using old(1) by (simp add: s' view_def m)
  have "run_ok s' rid"
    using old(2,3) e by (simp add: run_ok_def view_ok_def view sf open_entry_def del: view_same)
  moreover have "frame rid s s'"
    by (auto simp: frame_def s' view_def m intro!: exI [where x = "v_history (view s i)" for i])
  moreover have "slots_ok m"
  proof -
    have none: "rm_runs (mgr s) rid = None" using old(1) by (simp add: view_def)
    show ?thesis using slots_ok_added [OF sl none, of e] free e(2) by (simp add: slots_ok_def m)
  qed
  moreover have "\<not> frozen s" "\<not> paused (bar s)"
    using run_invD(3) [OF inv] adm by (auto simp: barrier_ok_def)
  then have "barrier_ok s'" by (simp add: barrier_ok_def sf)
  ultimately show ?thesis
    using run_inv_by_frame [OF inv] run_invD(4) [OF inv] by (simp add: sf m)
qed

lemma delete_moves:
  assumes inv: "run_inv s" and d: "delete_terminal_records kept dbres ids (mgr s) = (res, m)"
  shows "run_inv (s\<lparr>mgr := m\<rparr>)"
proof (cases "m = mgr s")
  case True
  then show ?thesis using inv by simp
next
  case False
  then have m: "m = (mgr s)\<lparr>rm_history := filter (\<lambda>r. rec_id r \<notin> set ids) (rm_history (mgr s))\<rparr>"
    using d by (auto simp: delete_terminal_records_def split: if_splits sum.splits)
  have "run_ok (s\<lparr>mgr := m\<rparr>) i" for i
  proof -
    let ?h = "filter (\<lambda>r. rec_id r = i) (rm_history m)"
    have "set ?h \<subseteq> set (v_history (view s i))" "length ?h \<le> length (v_history (view s i))"
      using length_filter_le [of "\<lambda>r. rec_id r \<notin> set ids" "filter (\<lambda>r. rec_id r = i) (rm_history (mgr s))"]
      by (auto simp: m conj_commute)
    moreover have "view (s\<lparr>mgr := m\<rparr>) i = (view s i)\<lparr>v_history := ?h\<rparr>"
      by (simp add: view_def m)
    ultimately show ?thesis
      using view_ok_shrink run_invD(1) [OF inv, of i] by (simp add: run_ok_def m)
  qed
  moreover have "slots_ok m" "barrier_ok (s\<lparr>mgr := m\<rparr>)"
    using run_invD(2,3) [OF inv] by (simp_all add: slots_ok_def barrier_ok_def m)
  moreover have "length (rm_history m) \<le> HISTORY_CAP"
    using order.trans [OF length_filter_le run_invD(4) [OF inv]] by (simp add: m)
  ultimately show ?thesis by (simp add: run_inv_def)
qed

text \<open>A step that leaves the runs, their tasks and the slots alone.\<close>

lemma quiet_moves:
  assumes inv: "run_inv s"
    and "rm_runs (mgr s') = rm_runs (mgr s)" "rm_history (mgr s') = rm_history (mgr s)"
    "rm_observed (mgr s') = rm_observed (mgr s)" "rm_devices (mgr s') = rm_devices (mgr s)"
    "tasks s' = tasks s" "calls s' = calls s" "accepted s' = accepted s" "hooked s' = hooked s"
    and b: "barrier_ok s'"
  shows "run_inv s'"
  using assms run_ok_cong [of s' s] slots_ok_cong [of "mgr s'" "mgr s"] by (simp add: run_inv_def)

lemma active_count_0: "slots_ok m \<Longrightarrow> active_count m = 0 \<longleftrightarrow> rm_runs m = Map.empty"
  by (simp add: active_count_def slots_ok_def)

lemma task_moves_ok:
  assumes inv: "run_inv s" and t: "tasks s rid = Some t"
    and st: "task_step a now rid t (mgr s) = Some (t', m, cs)"
  shows "run_inv (s\<lparr>mgr := m, tasks := (tasks s)(rid \<mapsto> t'), calls := calls s @ cs\<rparr>)"
proof (cases "open_pc (t_pc t)")
  case True
  then obtain pc' where "body_step a now rid (t_pc t) (mgr s) = Some (pc', m)" "t' = t\<lparr>t_pc := pc'\<rparr>" "cs = []"
    using st by (cases "t_pc t") (auto simp: task_step_def split: option.splits)
  then show ?thesis using body_moves [OF inv t True] by simp
next
  case False
  then consider out where "t_pc t = Hooking out" | "t_pc t = Dropping" | r where "t_pc t = Observing r"
    | r where "t_pc t = LateHook r" | "t_pc t = Ended"
    by (cases "t_pc t") auto
  then show ?thesis
  proof cases
    case 1
    then show ?thesis
      using st hook_moves [OF inv t 1 refl] by (auto simp: task_step_def split: if_splits)
  next
    case 2
    obtain ro m' where f: "finalize rid now (mgr s) = (ro, m')" by fastforce
    obtain r where "ro = Some r"
      "run_inv (s\<lparr>mgr := m', tasks := (tasks s)(rid \<mapsto> t\<lparr>t_pc := Observing r\<rparr>), calls := calls s @ []\<rparr>)"
      using finalize_moves [OF inv t 2 f] by blast
    then show ?thesis using st 2 f by (auto simp: task_step_def split: if_splits)
  next
    case 3
    then show ?thesis
      using st observer_moves [OF inv t 3 refl] by (auto simp: task_step_def split: if_splits)
  next
    case 4
    then show ?thesis
      using st late_hook_moves [OF inv t 4 refl] by (auto simp: task_step_def split: if_splits)
  next
    case 5
    then show ?thesis using st by (simp add: task_step_def body_step_def)
  qed
qed

lemma run_inv_init: "run_init s \<Longrightarrow> run_inv s"
  by (auto simp: run_init_def run_inv_def run_ok_def view_ok_def view_def manager_new_def
      set_result_hook_def slots_ok_def barrier_ok_def HISTORY_CAP_def)

lemma freeze_barrier_ok:
  assumes inv: "run_inv s" and "admitted s = None"
    and f: "freeze_if_idle (active_count (mgr s) = 0 \<and> others) (bar s) = (ok, b)"
  shows "barrier_ok (s\<lparr>bar := b, frozen := (ok \<or> frozen s)\<rparr>)"
proof (cases ok)
  case True
  then have "rm_runs (mgr s) = Map.empty" "paused b"
    using f active_count_0 [OF run_invD(2) [OF inv]] by (auto simp: freeze_if_idle_def split: if_splits)
  then show ?thesis using assms(2) by (simp add: barrier_ok_def)
next
  case False
  then have "b = bar s" using f by (auto simp: freeze_if_idle_def split: if_splits)
  then show ?thesis using False run_invD(3) [OF inv] by (simp add: barrier_ok_def)
qed

lemma submit_locked_refused:
  assumes "slots_ok m" "submit_locked q rid now m = (Inl e, m')"
  shows "m' = m"
proof (rule submit_locked_cases [OF assms])
  fix e' assume "m' = m" then show ?thesis .
next
  assume "Inl e = Inr (new_record q rid now)" then show ?thesis by simp
qed

lemma admission_barrier_ok:
  assumes "submit_gate (bar s) (mgr s) = Inr ()" "barrier_ok s"
  shows "barrier_ok (s\<lparr>admitted := Some (q, h)\<rparr>)"
proof -
  have "\<not> paused (bar s)"
    using assms(1) by (simp add: submit_gate_def reservation_ok_def split: if_splits)
  then show ?thesis using assms(2) by (simp add: barrier_ok_def)
qed

lemma run_inv_step: "run_step s s' \<Longrightarrow> run_inv s \<Longrightarrow> run_inv s'"
proof (induction rule: run_step.induct)
  case (submit_passes s q h)
  show ?case
    by (rule quiet_moves [OF submit_passes(3) _ _ _ _ _ _ _ _
          admission_barrier_ok [OF submit_passes(2) run_invD(3) [OF submit_passes(3)]]]) simp_all
next
  case (submit_settles s q h rid now r m)
  show ?case by (rule settle_moves [OF submit_settles(4,1,2,3) refl])
next
  case (submit_refused s q h rid now e m)
  have "m = mgr s"
    by (rule submit_locked_refused [OF run_invD(2) [OF submit_refused(3)] submit_refused(2)])
  moreover have "barrier_ok (s\<lparr>mgr := mgr s, admitted := None\<rparr>)"
    using run_invD(3) [OF submit_refused(3)] by (simp add: barrier_ok_def)
  ultimately show ?case using submit_refused(3)
    by - (rule quiet_moves [where s = s], simp_all)
next
  case (task_moves s rid t a now t' m cs)
  show ?case by (rule task_moves_ok [OF task_moves(3,1,2)])
next
  case (task_unwinds s rid t)
  show ?case by (rule unwind_moves [OF task_unwinds(3,1,2)])
next
  case (cancels rid s c m)
  show ?case by (rule cancel_moves [OF cancels(2,1)])
next
  case (drains s)
  have "barrier_ok (s\<lparr>mgr := drain_start (mgr s)\<rparr>)"
    using run_invD(3) [OF drains] by (simp add: barrier_ok_def drain_start_def)
  then show ?case using drains
    by - (rule quiet_moves [where s = s], simp_all add: drain_start_def)
next
  case (maintenance_starts s b m)
  have m: "rm_runs m = rm_runs (mgr s)" "rm_history m = rm_history (mgr s)"
    "rm_observed m = rm_observed (mgr s)" "rm_devices m = rm_devices (mgr s)"
    using maintenance_starts(1) by (auto simp: try_idle_maintenance_def split: if_splits)
  have "barrier_ok (s\<lparr>mgr := m\<rparr>)"
    using run_invD(3) [OF maintenance_starts(2)] by (simp add: barrier_ok_def m)
  then show ?case using maintenance_starts(2)
    by - (rule quiet_moves [where s = s], simp_all add: m)
next
  case (maintenance_ends s)
  have "barrier_ok (s\<lparr>mgr := maintenance_drop (mgr s)\<rparr>)"
    using run_invD(3) [OF maintenance_ends] by (simp add: barrier_ok_def maintenance_drop_def)
  then show ?case using maintenance_ends
    by - (rule quiet_moves [where s = s], simp_all add: maintenance_drop_def)
next
  case (deletes kept dbres ids s res m)
  show ?case by (rule delete_moves [OF deletes(2,1)])
next
  case (freezes s others ok b)
  show ?case
    by (rule quiet_moves [OF freezes(3) _ _ _ _ _ _ _ _ freeze_barrier_ok [OF freezes(3,1,2)]]) simp_all
next
  case (pauses s)
  have "barrier_ok (s\<lparr>bar := pause (bar s)\<rparr>)"
    using run_invD(3) [OF pauses(2)] pauses(1) by (simp add: barrier_ok_def pause_def)
  then show ?case using pauses(2)
    by - (rule quiet_moves [where s = s], simp_all)
next
  case (resumes s)
  have "barrier_ok (s\<lparr>bar := resume (bar s), frozen := False\<rparr>)"
    using resumes(1) by (simp add: barrier_ok_def resume_def)
  then show ?case using resumes(2)
    by - (rule quiet_moves [where s = s], simp_all)
next
  case (media_starts s b)
  then have "paused b \<longleftrightarrow> paused (bar s)"
    by (auto simp: activity_def split: if_splits)
  then have "barrier_ok (s\<lparr>bar := b\<rparr>)"
    using run_invD(3) [OF media_starts(3)] by (simp add: barrier_ok_def)
  then show ?case using media_starts(3)
    by - (rule quiet_moves [where s = s], simp_all)
next
  case (media_ends s)
  have "barrier_ok (s\<lparr>bar := activity_drop (bar s)\<rparr>)"
    using run_invD(3) [OF media_ends] by (simp add: barrier_ok_def activity_drop_def)
  then show ?case using media_ends
    by - (rule quiet_moves [where s = s], simp_all)
qed

interpretation runs: guarded_system run_init run_step run_inv
  by unfold_locales (auto intro: run_inv_init run_inv_step)

section \<open>Driving one run\<close>

text \<open>The answers that fit a position: any result of the call the task waits for.\<close>

fun fits :: "run_pc \<Rightarrow> answer \<Rightarrow> bool" where
  "fits Preparing a \<longleftrightarrow> (\<exists>r. a = Prepared r)"
| "fits Acquiring a \<longleftrightarrow> (\<exists>r. a = Leased r)"
| "fits Executing a \<longleftrightarrow> (\<exists>r. a = Executed r)"
| "fits (Releasing out) a \<longleftrightarrow> a = Released"
| "fits pc a \<longleftrightarrow> a = Go"

fun rank :: "run_pc \<Rightarrow> nat" where
  "rank Spawned = 14"
| "rank Preparing = 13"
| "rank (PrepareFailed _) = 12"
| "rank Acquiring = 12"
| "rank Marking = 11"
| "rank Checking = 10"
| "rank Entering = 9"
| "rank Executing = 8"
| "rank (Classifying _) = 7"
| "rank (Releasing _) = 6"
| "rank (Completing _) = 5"
| "rank (Hooking _) = 4"
| "rank Dropping = 3"
| "rank (Observing _) = 2"
| "rank (LateHook _) = 1"
| "rank Ended = 0"

definition drive_one :: "(run_pc \<Rightarrow> answer) \<Rightarrow> int \<Rightarrow> string \<Rightarrow> run_sys \<Rightarrow> run_sys" where
  "drive_one f now rid s =
     (case tasks s rid of
        None \<Rightarrow> s
      | Some t \<Rightarrow>
          (case task_step (f (t_pc t)) now rid t (mgr s) of
             None \<Rightarrow> s
           | Some (t', m, cs) \<Rightarrow>
               s\<lparr>mgr := m, tasks := (tasks s)(rid \<mapsto> t'), calls := calls s @ cs\<rparr>))"

text \<open>The task of \<open>rid\<close> alone, \<open>n\<close> steps long.\<close>

primrec drive :: "nat \<Rightarrow> (run_pc \<Rightarrow> answer) \<Rightarrow> int \<Rightarrow> string \<Rightarrow> run_sys \<Rightarrow> run_sys" where
  "drive 0 f now rid s = s"
| "drive (Suc n) f now rid s = drive n f now rid (drive_one f now rid s)"

lemma body_step_rank:
  "body_step a now rid pc m = Some (pc', m') \<Longrightarrow> rank pc' < rank pc"
  by (cases pc; cases a) (auto simp: body_step_def Let_def split: sum.splits option.splits prod.splits if_splits)

lemma body_step_fits:
  "open_pc pc \<Longrightarrow> fits pc a \<Longrightarrow> body_step a now rid pc m \<noteq> None"
  by (cases pc) (auto simp: body_step_def split: sum.splits)

lemma task_step_rank:
  assumes "task_step a now rid t m = Some (t', m', cs)"
  shows "rank (t_pc t') < rank (t_pc t)"
proof (cases "open_pc (t_pc t)")
  case True
  then obtain pc' where "body_step a now rid (t_pc t) m = Some (pc', m')" "t' = t\<lparr>t_pc := pc'\<rparr>"
    using assms by (cases "t_pc t") (auto simp: task_step_def split: option.splits)
  then show ?thesis using body_step_rank by simp
next
  case False
  then show ?thesis
    using assms by (cases "t_pc t")
      (auto simp: task_step_def body_step_def split: if_splits option.splits prod.splits)
qed

lemma task_step_fits:
  assumes "fits (t_pc t) a" "t_pc t \<noteq> Ended"
  shows "task_step a now rid t m \<noteq> None"
proof (cases "open_pc (t_pc t)")
  case True
  then have "body_step a now rid (t_pc t) m \<noteq> None" using assms body_step_fits by blast
  then show ?thesis using True by (cases "t_pc t") (auto simp: task_step_def)
next
  case False
  then show ?thesis
    using assms by (cases "t_pc t") (auto simp: task_step_def split: option.splits prod.splits)
qed

lemma drive_one_Some:
  assumes "tasks s rid = Some t" "\<forall>pc. fits pc (f pc)" "t_pc t \<noteq> Ended"
  obtains t' where "run_step s (drive_one f now rid s)" "tasks (drive_one f now rid s) rid = Some t'"
    "rank (t_pc t') < rank (t_pc t)" "hooked (drive_one f now rid s) = hooked s"
    "accepted (drive_one f now rid s) = accepted s"
proof -
  obtain t' m cs where st: "task_step (f (t_pc t)) now rid t (mgr s) = Some (t', m, cs)"
    using task_step_fits [of t "f (t_pc t)" now rid "mgr s"] assms by (auto split: prod.splits)
  have d: "drive_one f now rid s = s\<lparr>mgr := m, tasks := (tasks s)(rid \<mapsto> t'), calls := calls s @ cs\<rparr>"
    using assms(1) st by (simp add: drive_one_def)
  show ?thesis
    using that [of t'] run_step.task_moves [OF assms(1) st] task_step_rank [OF st]
    by (simp add: d)
qed

lemma drive_one_Ended:
  "tasks s rid = Some t \<Longrightarrow> t_pc t = Ended \<Longrightarrow> drive_one f now rid s = s"
  by (simp add: drive_one_def task_step_def body_step_def)

lemma drive_reaches:
  assumes "reach run_init run_step s" "tasks s rid = Some t" "\<forall>pc. fits pc (f pc)"
    "rank (t_pc t) \<le> n"
  obtains t' where "reach run_init run_step (drive n f now rid s)"
    "tasks (drive n f now rid s) rid = Some t'" "t_pc t' = Ended"
    "hooked (drive n f now rid s) = hooked s" "accepted (drive n f now rid s) = accepted s"
  using assms(1,2,4)
proof (induction n arbitrary: s t thesis)
  case 0
  then show ?case by (cases "t_pc t") auto
next
  case (Suc n)
  show ?case
  proof (cases "t_pc t = Ended")
    case True
    then have "drive_one f now rid s = s" using Suc.prems drive_one_Ended by blast
    then show ?thesis
      by - (rule Suc.IH [OF _ Suc.prems(2,3)], use Suc.prems(1) True in simp_all)
  next
    case False
    obtain t' where t': "run_step s (drive_one f now rid s)" "tasks (drive_one f now rid s) rid = Some t'"
      "rank (t_pc t') < rank (t_pc t)" "hooked (drive_one f now rid s) = hooked s"
      "accepted (drive_one f now rid s) = accepted s"
      using drive_one_Some [OF Suc.prems(3) assms(3) False] by blast
    have r: "reach run_init run_step (drive_one f now rid s)"
      by (rule reach_step [where s = s]) (fact Suc.prems(2), fact t'(1))
    have "rank (t_pc t') \<le> n" using t'(3) Suc.prems(4) by simp
    with r t'(2) obtain u where u:
      "reach run_init run_step (drive n f now rid (drive_one f now rid s))"
      "tasks (drive n f now rid (drive_one f now rid s)) rid = Some u" "t_pc u = Ended"
      "hooked (drive n f now rid (drive_one f now rid s)) = hooked (drive_one f now rid s)"
      "accepted (drive n f now rid (drive_one f now rid s)) = accepted (drive_one f now rid s)"
      by (rule Suc.IH [rotated])
    show ?thesis
      by (rule Suc.prems(1) [of u]) (simp_all add: u t'(4,5))
  qed
qed

text \<open>What the invariant says of a run whose task has ended.\<close>

lemma ended_run:
  assumes "reach run_init run_step s" "tasks s rid = Some t" "t_pc t = Ended"
  shows "rm_runs (mgr s) rid = None" "rm_devices (mgr s) d \<noteq> Some rid"
    and "length (v_final (view s rid)) = (if rid \<in> hooked s then 1 else 0)"
    and "length (v_observed (view s rid)) = (if rm_observed (mgr s) then 1 else 0)"
    and "c \<in> set (v_final (view s rid)) \<union> set (v_observed (view s rid))
      \<Longrightarrow> call_ok (rid \<in> accepted s) rid c"
    and "r \<in> set (rm_history (mgr s)) \<Longrightarrow> rec_id r = rid \<Longrightarrow>
      finished_ok (rid \<in> accepted s) rid r \<and> agree (view s rid) (rec_state r)"
proof -
  have inv: "run_inv s" by (rule runs.reach_inv [OF assms(1)])
  note phase = run_ok_task [OF run_invD(1) [OF inv] assms(2)]
  have p: "phase_ok (rm_observed (mgr s)) (rid \<in> accepted s) rid Ended (view s rid)"
    using phase(1) assms(3) by simp
  show none: "rm_runs (mgr s) rid = None" using p by simp
  show "rm_devices (mgr s) d \<noteq> Some rid"
    using run_invD(2) [OF inv] none by (auto simp: slots_ok_def)
  have "\<not> t_hook t"
    using run_invD(1) [OF inv, of rid] assms(2,3) by (simp add: run_ok_def view_ok_def)
  then show "length (v_final (view s rid)) = (if rid \<in> hooked s then 1 else 0)"
    using phase(3) by simp
  show "length (v_observed (view s rid)) = (if rm_observed (mgr s) then 1 else 0)"
    using p by simp
  show "c \<in> set (v_final (view s rid)) \<union> set (v_observed (view s rid))
      \<Longrightarrow> call_ok (rid \<in> accepted s) rid c"
    using phase(4) by blast
  show "r \<in> set (rm_history (mgr s)) \<Longrightarrow> rec_id r = rid \<Longrightarrow>
      finished_ok (rid \<in> accepted s) rid r \<and> agree (view s rid) (rec_state r)"
    using p by simp
qed

text \<open>The archive holds at most one record of a run, and only of runs that have left.\<close>

lemma distinct_by_filter:
  assumes "\<And>i. length (filter (\<lambda>r. f r = i) xs) \<le> 1"
  shows "distinct (map f xs)"
  using assms
proof (induction xs)
  case (Cons x xs)
  have "f x \<noteq> f y" if "y \<in> set xs" for y
  proof
    assume "f x = f y"
    then have "y \<in> set (filter (\<lambda>r. f r = f x) xs)" using that by simp
    then have "filter (\<lambda>r. f r = f x) xs \<noteq> []" by (metis empty_iff empty_set)
    with Cons.prems [of "f x"] show False by simp
  qed
  moreover have "length (filter (\<lambda>r. f r = i) xs) \<le> 1" for i
    using Cons.prems [of i] by (auto split: if_splits)
  ultimately show ?case using Cons.IH by auto
qed simp

lemma history_single: "run_ok s i \<Longrightarrow> length (filter (\<lambda>r. rec_id r = i) (rm_history (mgr s))) \<le> 1"
  by (simp add: run_ok_def view_ok_def)

lemma archived_run:
  assumes ok: "\<And>i. run_ok s i" and r: "r \<in> set (rm_history (mgr s))"
  shows "finished_ok (rec_id r \<in> accepted s) (rec_id r) r" "rm_runs (mgr s) (rec_id r) = None"
proof -
  have r': "r \<in> set (v_history (view s (rec_id r)))" using r by simp
  obtain t where t: "tasks s (rec_id r) = Some t"
    using ok [of "rec_id r"] r' by (cases "tasks s (rec_id r)") (auto simp: run_ok_def view_ok_def)
  note phase = run_ok_task(1) [OF ok t]
  show "finished_ok (rec_id r \<in> accepted s) (rec_id r) r" "rm_runs (mgr s) (rec_id r) = None"
    using phase r' by (cases "t_pc t"; auto)+
qed

lemma drive_one_reach:
  assumes "reach run_init run_step s"
  shows "reach run_init run_step (drive_one f now rid s)"
proof -
  have "drive_one f now rid s = s \<or> run_step s (drive_one f now rid s)"
    by (auto simp: drive_one_def intro: run_step.task_moves split: option.splits)
  then show ?thesis
  proof
    assume "run_step s (drive_one f now rid s)"
    with assms show ?thesis by (rule reach_step)
  qed (simp add: assms)
qed

lemma drive_reach: "reach run_init run_step s \<Longrightarrow> reach run_init run_step (drive n f now rid s)"
  by (induction n arbitrary: s) (simp_all add: drive_one_reach)

end
