(* ===== verification/RunTheorems.thy ===== *)
theory RunTheorems
  imports RunSafety
begin

text \<open>
  The promises of the run registry: one run per device and a sound archive, cancellation
  that sticks, runs that end and tell their hooks exactly once, an update freeze under
  which nothing runs; and the drain that can still admit a run.
\<close>

section \<open>The registry\<close>


section \<open>Cancellation\<close>

lemma accepted_grows_step: "run_step s t \<Longrightarrow> accepted s \<subseteq> accepted t"
  by (induction rule: run_step.induct) auto

lemma accepted_grows: "run_step\<^sup>*\<^sup>* s t \<Longrightarrow> accepted s \<subseteq> accepted t"
  by (induction rule: rtranclp_induct) (use accepted_grows_step in blast)+

text \<open>What is left to say of a run whose cancellation was accepted.\<close>

lemma accepted_calls:
  assumes "run_ok s rid" "rid \<in> accepted s" "c \<in> set (calls s)" "rec_id (hc_record c) = rid"
  shows "rec_state (hc_record c) = Cancelled" "\<exists>logs. hc_outcome c = OCancelled logs"
proof -
  have "hc_kind c = OnFinish \<or> hc_kind c = Observer" by (cases "hc_kind c") auto
  then have c: "c \<in> set (v_final (view s rid)) \<union> set (v_observed (view s rid))"
    using assms(3,4) by (auto simp: view_def)
  obtain t where t: "tasks s rid = Some t"
    using assms(1) c by (cases "tasks s rid") (auto simp: run_ok_def view_ok_def)
  have "call_ok True rid c" using run_ok_task(4) [OF assms(1) t] c assms(2) by simp
  then show "rec_state (hc_record c) = Cancelled" "\<exists>logs. hc_outcome c = OCancelled logs"
    by (cases "hc_outcome c"; simp add: call_ok_def finished_ok_def)+
qed

lemma accepted_record:
  assumes "\<And>i. run_ok s i" "rid \<in> accepted s" "get_run (mgr s) rid = Some r"
  shows "rec_state r \<notin> {Success, Failed}"
proof (cases "rm_runs (mgr s) rid")
  case None
  then have r: "r \<in> set (rm_history (mgr s))" "rec_id r = rid"
    using assms(3) by (auto simp: get_run_def dest: find_eq_Some_iff_hd)
  then show ?thesis using archived_run(1) [OF assms(1) r(1)] assms(2) by (simp add: finished_ok_def)
next
  case (Some e)
  then have r: "r = ar_record e" using assms(3) by (simp add: get_run_def)
  obtain t where t: "tasks s rid = Some t" using run_ok_known [OF assms(1) Some] by blast
  have "open_entry True rid e \<or> done_entry True rid e"
    using run_ok_task(1) [OF assms(1) t] Some assms(2)
    by (cases "open_pc (t_pc t)"; cases "t_pc t") auto
  then show ?thesis by (auto simp: r open_entry_def done_entry_def finished_ok_def)
qed

text \<open>
  C5. An accepted cancellation wins: whatever the executor answered, and however the
  steps interleave from there, every hook of the run is told a cancellation with a
  cancelled record, and the run is never seen as a success or a failure.
\<close>

theorem accepted_cancel_wins:
  assumes "reach run_init run_step s" "cancel rid (mgr s) = (Accepted, m)"
    "run_step\<^sup>*\<^sup>* (s\<lparr>mgr := m, accepted := insert rid (accepted s)\<rparr>) t"
  shows "list_all (\<lambda>c. rec_id (hc_record c) \<noteq> rid
             \<or> rec_state (hc_record c) = Cancelled \<and> (\<exists>logs. hc_outcome c = OCancelled logs)) (calls t)
    \<and> (get_run (mgr t) rid = Some r \<longrightarrow> rec_state r \<notin> {Success, Failed})"
proof -
  let ?s = "s\<lparr>mgr := m, accepted := insert rid (accepted s)\<rparr>"
  have "run_inv ?s"
    using cancel_moves [OF runs.reach_inv [OF assms(1)] assms(2)] by simp
  then have "run_inv t" by (rule runs.reach_inv_steps [OF assms(3)])
  note ok = run_invD(1) [OF this]
  have "rid \<in> accepted t" using accepted_grows [OF assms(3)] by auto
  then show ?thesis
    using accepted_calls [OF ok] accepted_record [OF ok] by (auto simp: list_all_iff)
qed

section \<open>Runs end\<close>

definition calls_for :: "hook_kind \<Rightarrow> string \<Rightarrow> run_sys \<Rightarrow> hook_call list" where
  "calls_for k rid s = filter (\<lambda>c. hc_kind c = k \<and> rec_id (hc_record c) = rid) (calls s)"

text \<open>
  C4. A run ends: from any reachable state fourteen steps of its own task are enough,
  whatever prepare, lease, execution and release answer. Then its device is free, its
  completion hook was called exactly once if it had one and the observer once if there
  is one, each with a settled record, the outcome of that record and the state that the
  archive keeps.
\<close>

theorem run_ends_and_is_told_once:
  assumes "reach run_init run_step s" "tasks s rid = Some t" "\<forall>pc. fits pc (f pc)"
    "s' = drive 14 f now rid s"
  shows "(\<exists>t'. tasks s' rid = Some t' \<and> t_pc t' = Ended)
    \<and> rm_runs (mgr s') rid = None \<and> rm_devices (mgr s') d \<noteq> Some rid
    \<and> length (calls_for OnFinish rid s') = (if rid \<in> hooked s then 1 else 0)
    \<and> length (calls_for Observer rid s') = (if rm_observed (mgr s') then 1 else 0)
    \<and> list_all (\<lambda>c. is_terminal (rec_state (hc_record c))
          \<and> outcome_state (hc_outcome c) = rec_state (hc_record c)
          \<and> list_all (\<lambda>r. rec_id r \<noteq> rid \<or> rec_state r = rec_state (hc_record c)) (rm_history (mgr s')))
        (calls_for OnFinish rid s' @ calls_for Observer rid s')"
proof -
  have "rank (t_pc t) \<le> 14" by (cases "t_pc t") simp_all
  then obtain t' where t': "reach run_init run_step s'" "tasks s' rid = Some t'" "t_pc t' = Ended"
    "hooked s' = hooked s"
    using drive_reaches [OF assms(1,2,3)] unfolding assms(4) by blast
  note ended = ended_run [OF t'(1,2,3)]
  have v: "v_final (view s' rid) = calls_for OnFinish rid s'"
    "v_observed (view s' rid) = calls_for Observer rid s'"
    by (simp_all add: view_def calls_for_def)
  have "is_terminal (rec_state (hc_record c)) \<and> outcome_state (hc_outcome c) = rec_state (hc_record c)
      \<and> (\<forall>r \<in> set (rm_history (mgr s')). rec_id r \<noteq> rid \<or> rec_state r = rec_state (hc_record c))"
    if "c \<in> set (calls_for OnFinish rid s') \<union> set (calls_for Observer rid s')" for c
    using ended(5) [of c] ended(6) that by (auto simp: v call_ok_def finished_ok_def agree_def)
  then show ?thesis
    using ended(1,2,3,4) t' by (auto simp: v list_all_iff)
qed

section \<open>Freeze and drain\<close>

text \<open>
  C14. Under an update freeze nothing runs: once an install found the server idle and
  closed the barrier, no run is active and no submission gets in until the barrier is
  lifted, under every interleaving of submissions, tasks, cancellations and maintenance.
\<close>

theorem frozen_server_runs_nothing:
  assumes "reach run_init run_step s" "admitted s = None"
    "freeze_if_idle (active_count (mgr s) = 0 \<and> others) (bar s) = (True, b)"
    "run_step\<^sup>*\<^sup>* (s\<lparr>bar := b, frozen := True\<rparr>) t" "frozen t"
  shows "rm_runs (mgr t) = Map.empty \<and> rm_devices (mgr t) = Map.empty \<and> admitted t = None
    \<and> submit_run (bar t) q rid now (mgr t) = (Inl ShuttingDown, mgr t)"
proof -
  have "run_step s (s\<lparr>bar := b, frozen := (True \<or> frozen s)\<rparr>)"
    by (rule run_step.freezes [OF assms(2,3)])
  then have "run_inv (s\<lparr>bar := b, frozen := True\<rparr>)"
    using run_inv_step runs.reach_inv [OF assms(1)] by fastforce
  then have inv: "run_inv t" by (rule runs.reach_inv_steps [OF assms(4)])
  have b: "paused (bar t)" "rm_runs (mgr t) = Map.empty" "admitted t = None"
    using run_invD(3) [OF inv] assms(5) by (cases "admitted t"; auto simp: barrier_ok_def)+
  have "rm_devices (mgr t) d = None" for d
    using run_invD(2) [OF inv] b(2) by (cases "rm_devices (mgr t) d") (auto simp: slots_ok_def)
  then show ?thesis
    using b by (simp add: submit_run_def submit_gate_def reservation_ok_def fun_eq_iff)
qed

section \<open>A sample run\<close>

definition sample_start :: start_request where
  "sample_start = \<lparr>sr_request = \<lparr>rq_device = ''d1'',
       rq_app = \<lparr>app_device = ''d1'', app_android_package = None, app_content_package = None\<rparr>,
       rq_runner = ''yaml'', rq_entrypoint = ''daily'', rq_payload = JNull, rq_policy = None\<rparr>,
     sr_source = ManualRun, sr_task = None, sr_scheduled_at = None, sr_realtime_logs = False\<rparr>"

definition idle_sys :: run_sys where
  "idle_sys = \<lparr>mgr = manager_new, bar = \<lparr>paused = False, active = 0\<rparr>, frozen = False,
     admitted = None, tasks = Map.empty, calls = [], accepted = {}, hooked = {}\<rparr>"

definition sample_record :: run_record where
  "sample_record = new_record sample_start ''r1'' 0"

definition started_sys :: run_sys where
  "started_sys = idle_sys\<lparr>
     mgr := manager_new\<lparr>rm_devices := [''d1'' \<mapsto> ''r1''],
       rm_runs := [''r1'' \<mapsto> \<lparr>ar_record = sample_record, ar_stop = False, ar_cancel = False\<rparr>],
       rm_saved := [sample_record]\<rparr>,
     tasks := [''r1'' \<mapsto> \<lparr>t_pc = Spawned, t_request = sample_start, t_hook = True\<rparr>],
     hooked := {''r1''}\<rparr>"

lemma idle_reach: "reach run_init run_step idle_sys"
  by (rule reach_init) (simp add: run_init_def idle_sys_def)

lemmas sample_simps = idle_sys_def manager_new_def sample_start_def sample_record_def
  started_sys_def sr_device_def display_label_def new_record_def submit_locked_def submit_inner_def
  submit_gate_def reservation_ok_def persist_def Let_def

lemma admitted_reach: "reach run_init run_step (idle_sys\<lparr>admitted := Some (sample_start, True)\<rparr>)"
  by (rule reach_step [OF idle_reach], rule run_step.submit_passes) (simp_all add: sample_simps)

lemma started_reach: "reach run_init run_step started_sys"
proof -
  let ?a = "idle_sys\<lparr>admitted := Some (sample_start, True)\<rparr>"
  have "run_step ?a (?a\<lparr>mgr := mgr started_sys, admitted := None,
      tasks := (tasks ?a)(''r1'' \<mapsto> \<lparr>t_pc = Spawned, t_request = sample_start, t_hook = True\<rparr>),
      hooked := (if True then insert ''r1'' (hooked ?a) else hooked ?a)\<rparr>)"
    by (rule run_step.submit_settles [where now = 0 and r = sample_record]) (simp_all add: sample_simps)
  also have "?a\<lparr>mgr := mgr started_sys, admitted := None,
      tasks := (tasks ?a)(''r1'' \<mapsto> \<lparr>t_pc = Spawned, t_request = sample_start, t_hook = True\<rparr>),
      hooked := (if True then insert ''r1'' (hooked ?a) else hooked ?a)\<rparr> = started_sys"
    by (simp add: sample_simps)
  finally show ?thesis using admitted_reach reach_step by metis
qed


text \<open>An executor whose every call succeeds.\<close>

definition all_well :: "run_pc \<Rightarrow> answer" where
  "all_well pc = (case pc of
     Preparing \<Rightarrow> Prepared (Inr ()) | Acquiring \<Rightarrow> Leased (Inr ()) | Executing \<Rightarrow> Executed (Inr [])
   | Releasing _ \<Rightarrow> Released | _ \<Rightarrow> Go)"

lemma all_well_fits: "\<forall>pc. fits pc (all_well pc)"
proof
  fix pc show "fits pc (all_well pc)" by (cases pc) (simp_all add: all_well_def)
qed

theorem run_ends_and_is_told_once_witness:
  "length (calls_for OnFinish ''r1'' (drive 14 all_well 5 ''r1'' started_sys)) = 1"
  using run_ends_and_is_told_once [OF started_reach _ all_well_fits refl, of "''r1''"]
  by (simp add: sample_simps)

text \<open>The sample run cancelled while its executor works.\<close>

definition cancelled_sys :: run_sys where
  "cancelled_sys = started_sys\<lparr>mgr := snd (cancel ''r1'' (mgr started_sys)), accepted := {''r1''}\<rparr>"

theorem accepted_cancel_wins_witness:
  "fst (cancel ''r1'' (mgr started_sys)) = Accepted
   \<and> list_all (\<lambda>c. rec_id (hc_record c) \<noteq> ''r1''
        \<or> rec_state (hc_record c) = Cancelled \<and> (\<exists>logs. hc_outcome c = OCancelled logs))
      (calls cancelled_sys)"
proof -
  have c: "cancel ''r1'' (mgr started_sys) = (Accepted, snd (cancel ''r1'' (mgr started_sys)))"
    by (simp add: sample_simps cancel_def)
  have "started_sys\<lparr>mgr := snd (cancel ''r1'' (mgr started_sys)),
      accepted := insert ''r1'' (accepted started_sys)\<rparr> = cancelled_sys"
    by (simp add: cancelled_sys_def, simp add: sample_simps)
  then have "run_step\<^sup>*\<^sup>* (started_sys\<lparr>mgr := snd (cancel ''r1'' (mgr started_sys)),
      accepted := insert ''r1'' (accepted started_sys)\<rparr>) cancelled_sys"
    by simp
  from accepted_cancel_wins [OF started_reach c this] show ?thesis
    using arg_cong [OF c, of fst] by simp
qed

theorem frozen_server_runs_nothing_witness:
  "submit_run (bar (idle_sys\<lparr>bar := \<lparr>paused = True, active = 0\<rparr>, frozen := True\<rparr>)) sample_start ''r1'' 0 manager_new
     = (Inl ShuttingDown, manager_new)"
proof -
  let ?s = "idle_sys\<lparr>bar := \<lparr>paused = True, active = 0\<rparr>, frozen := True\<rparr>"
  have "admitted idle_sys = None"
    "freeze_if_idle (active_count (mgr idle_sys) = 0 \<and> True) (bar idle_sys)
       = (True, \<lparr>paused = True, active = 0\<rparr>)"
    by (simp_all add: sample_simps freeze_if_idle_def active_count_def)
  from frozen_server_runs_nothing [OF idle_reach this rtranclp.rtrancl_refl, of sample_start "''r1''" 0]
  have "submit_run (bar ?s) sample_start ''r1'' 0 (mgr ?s) = (Inl ShuttingDown, mgr ?s)"
    by simp
  then show ?thesis by (simp add: idle_sys_def)
qed

text \<open>
  C40. The drain flag turns every later submission away, but a submission reads it before
  it takes the lock under which runs are counted: one that has passed the gate when the
  drain begins starts its run after the drain has found the server empty.
\<close>

theorem drain_admits_a_late_run:
  "submit_run b q rid now (drain_start m) = (Inl ShuttingDown, drain_start m)
   \<and> (\<exists>s t. reach run_init run_step s \<and> rm_draining (mgr s)
        \<and> fst (drain_round False [] (mgr s)) = Drained
        \<and> run_step s t \<and> active_count (mgr t) = 1)"
proof
  show "submit_run b q rid now (drain_start m) = (Inl ShuttingDown, drain_start m)"
    by (simp add: submit_run_def submit_gate_def drain_start_def)
  let ?a = "idle_sys\<lparr>admitted := Some (sample_start, True)\<rparr>"
  let ?s = "?a\<lparr>mgr := drain_start (mgr ?a)\<rparr>"
  let ?m = "(mgr started_sys)\<lparr>rm_draining := True\<rparr>"
  let ?t = "?s\<lparr>mgr := ?m, admitted := None,
      tasks := (tasks ?s)(''r1'' \<mapsto> \<lparr>t_pc = Spawned, t_request = sample_start, t_hook = True\<rparr>),
      hooked := (if True then insert ''r1'' (hooked ?s) else hooked ?s)\<rparr>"
  have "reach run_init run_step ?s"
    by (rule reach_step [OF admitted_reach], rule run_step.drains)
  moreover have "run_step ?s ?t"
    by (rule run_step.submit_settles [where now = 0 and r = sample_record])
      (simp_all add: sample_simps drain_start_def)
  moreover have "rm_draining (mgr ?s)" "fst (drain_round False [] (mgr ?s)) = Drained"
    by (simp_all add: sample_simps drain_start_def drain_round_def active_count_def)
  moreover have "active_count (mgr ?t) = 1"
    by (simp add: sample_simps active_count_def)
  ultimately show "\<exists>s t. reach run_init run_step s \<and> rm_draining (mgr s)
        \<and> fst (drain_round False [] (mgr s)) = Drained
        \<and> run_step s t \<and> active_count (mgr t) = 1"
    by blast
qed

text \<open>
  A cancellation accepted while the executor prepares is undone on the surface: the
  task marks the run as running again afterwards, over the stopping state, although the
  cancellation still decides how the run ends.
\<close>

theorem accepted_cancel_shown_running:
  "\<exists>s rid e. reach run_init run_step s \<and> rid \<in> accepted s \<and> rm_runs (mgr s) rid = Some e
     \<and> ar_cancel e \<and> rec_state (ar_record e) = Running"
proof -
  let ?p = "drive 3 all_well 5 ''r1'' started_sys"
  let ?e = "\<lparr>ar_record = sample_record, ar_stop = False, ar_cancel = False\<rparr>"
  have p: "tasks ?p ''r1'' = Some \<lparr>t_pc = Marking, t_request = sample_start, t_hook = True\<rparr>"
    "rm_runs (mgr ?p) ''r1'' = Some ?e"
    by (simp_all add: numeral_3_eq_3 drive_one_def task_step_def body_step_def all_well_def
        inflight_new_def is_cancelled_def started_sys_def idle_sys_def manager_new_def Let_def)
  have r: "reach run_init run_step ?p"
    by (rule drive_reach [OF started_reach])
  obtain m where c: "cancel ''r1'' (mgr ?p) = (Accepted, m)"
    and m: "rm_runs m ''r1'' = Some (?e\<lparr>ar_cancel := True,
      ar_record := sample_record\<lparr>rec_state := Stopping\<rparr>, ar_stop := True\<rparr>)"
    using p(2) by (simp add: cancel_def sample_record_def new_record_def)
  let ?q = "?p\<lparr>mgr := m, accepted := (if Accepted = Accepted then insert ''r1'' (accepted ?p) else accepted ?p)\<rparr>"
  have q: "reach run_init run_step ?q"
    by (rule reach_step [OF r], rule run_step.cancels [OF c])
  let ?t = "?q\<lparr>mgr := mark_state ''r1'' Running None 5 m,
    tasks := (tasks ?q)(''r1'' \<mapsto> \<lparr>t_pc = Checking, t_request = sample_start, t_hook = True\<rparr>),
    calls := calls ?q @ []\<rparr>"
  have "run_step ?q ?t"
    by (rule run_step.task_moves [where a = Go and now = 5
          and t = "\<lparr>t_pc = Marking, t_request = sample_start, t_hook = True\<rparr>"])
      (simp_all add: p(1) task_step_def body_step_def)
  with q have "reach run_init run_step ?t" by (rule reach_step)
  moreover have "''r1'' \<in> accepted ?t" by simp
  moreover have "rm_runs (mgr ?t) ''r1'' = Some (?e\<lparr>ar_cancel := True, ar_stop := True,
      ar_record := sample_record\<lparr>rec_state := Running, rec_error := None\<rparr>\<rparr>)"
    using m by (simp add: mark_state_def sample_record_def new_record_def)
  ultimately show ?thesis by fastforce
qed

end
