(* ===== verification/TimerTask.thy ===== *)
theory TimerTask
  imports Identity
begin

text \<open>
  Timed tasks (\<^verbatim>\<open>server/src/timer_core.rs\<close>, first part, and the row type of
  \<^verbatim>\<open>server/src/store.rs\<close>): the task and its validation, the merge of a payload with
  an input, presets, and the row a task is stored in. Instants are nanoseconds since the
  epoch. The text codecs of the JSON and time crates are arguments.
\<close>

section \<open>Schedules, states, errors\<close>

record task_schedule =
  provider_id :: string
  sched_config :: json

datatype timer_error =
    Blank string
  | HasControl string
  | BadExtensions
  | TooManyInputs
  | InputNotObject nat
  | InputBadId nat
  | InputTooLarge nat
  | UnknownState string
  | BadModel model_error
  | BadJson
  | BadTimestamp

definition schedule_new :: "string \<Rightarrow> json \<Rightarrow> (timer_error, task_schedule) result" where
  "schedule_new p c =
     (if trim p = [] then Inl (Blank ''schedule provider_id'')
      else Inr \<lparr>provider_id = p, sched_config = c\<rparr>)"

definition check_field :: "string \<Rightarrow> string \<Rightarrow> (timer_error, unit) result" where
  "check_field field value =
     (if trim value = [] then Inl (Blank field)
      else if any_control value then Inl (HasControl field)
      else Inr ())"

definition schedule_validate :: "task_schedule \<Rightarrow> (timer_error, unit) result" where
  "schedule_validate s = check_field ''schedule provider_id'' (provider_id s)"

datatype task_state = TaskActive | TaskSuspended | TaskCancelled | DependencyMissing

fun task_state_str :: "task_state \<Rightarrow> string" where
  "task_state_str TaskActive = ''active''"
| "task_state_str TaskSuspended = ''suspended''"
| "task_state_str TaskCancelled = ''cancelled''"
| "task_state_str DependencyMissing = ''dependency_missing''"

definition task_state_parse :: "string \<Rightarrow> (timer_error, task_state) result" where
  "task_state_parse v =
     (if v = ''active'' then Inr TaskActive
      else if v = ''suspended'' then Inr TaskSuspended
      else if v = ''cancelled'' then Inr TaskCancelled
      else if v = ''dependency_missing'' then Inr DependencyMissing
      else Inl (UnknownState v))"

section \<open>Tasks\<close>

record input_result =
  ir_input :: string
  ir_label :: "string option"
  ir_state :: string
  ir_error :: "string option"
  ir_finished :: int
  ir_elapsed :: nat

record timer_task =
  tk_id :: string
  tk_name :: string
  tk_app :: app_context
  tk_runner :: string
  tk_entrypoint :: string
  tk_payload :: json
  tk_extensions :: json
  tk_inputs :: "json list"
  tk_concurrency :: nat
  tk_summary :: "input_result list option"
  tk_schedule :: task_schedule
  tk_state :: task_state
  tk_enabled :: bool
  tk_next_wakeup :: "int option"
  tk_last_result :: "string option"
  tk_last_run :: "int option"
  tk_created :: int
  tk_updated :: int
  tk_preset :: "string option"
  tk_reason :: "string option"

definition TASK_MAX_INPUTS :: nat where "TASK_MAX_INPUTS = 64"
definition TASK_MAX_CONCURRENCY :: nat where "TASK_MAX_CONCURRENCY = 64"

definition empty_extensions :: json where "empty_extensions = JObject []"

definition concurrency_limit :: "timer_task \<Rightarrow> nat" where
  "concurrency_limit t = min (max (tk_concurrency t) 1) TASK_MAX_CONCURRENCY"

definition is_schedulable :: "timer_task \<Rightarrow> bool" where
  "is_schedulable t \<longleftrightarrow> tk_enabled t \<and> tk_state t = TaskActive"

text \<open>The id of an input, empty when it is missing or not a text.\<close>

definition input_id :: "json \<Rightarrow> string" where
  "input_id j = (case json_get ''id'' j of
     Some v \<Rightarrow> (case as_str v of Some s \<Rightarrow> s | None \<Rightarrow> []) | None \<Rightarrow> [])"

text \<open>\<open>sz\<close> is the length of \<^verbatim>\<open>Value::to_string\<close>.\<close>

definition validate_input :: "(json \<Rightarrow> nat) \<Rightarrow> nat \<Rightarrow> json \<Rightarrow> (timer_error, unit) result" where
  "validate_input sz i j =
     (if as_object j = None then Inl (InputNotObject i)
      else if trim (input_id j) = [] \<or> 255 < length (trim (input_id j)) then Inl (InputBadId i)
      else if 16 * 1024 < sz j then Inl (InputTooLarge i)
      else Inr ())"

fun validate_inputs :: "(json \<Rightarrow> nat) \<Rightarrow> nat \<Rightarrow> json list \<Rightarrow> (timer_error, unit) result" where
  "validate_inputs sz i [] = Inr ()"
| "validate_inputs sz i (j # js) =
     and_then (validate_input sz i j) (\<lambda>_. validate_inputs sz (Suc i) js)"

definition task_validate :: "(json \<Rightarrow> nat) \<Rightarrow> timer_task \<Rightarrow> (timer_error, unit) result" where
  "task_validate sz t =
     and_then (check_field ''task id'' (tk_id t)) (\<lambda>_.
     and_then (check_field ''task name'' (tk_name t)) (\<lambda>_.
     and_then (check_field ''runner_id'' (tk_runner t)) (\<lambda>_.
     and_then (check_field ''entrypoint'' (tk_entrypoint t)) (\<lambda>_.
     if as_object (tk_extensions t) = None \<or> 64 * 1024 < sz (tk_extensions t)
     then Inl BadExtensions
     else if TASK_MAX_INPUTS < length (tk_inputs t) then Inl TooManyInputs
     else and_then (validate_inputs sz 0 (tk_inputs t)) (\<lambda>_.
       schedule_validate (tk_schedule t))))))"

definition task_new ::
  "(json \<Rightarrow> nat) \<Rightarrow> int \<Rightarrow> string \<Rightarrow> string \<Rightarrow> app_context \<Rightarrow> string \<Rightarrow> string \<Rightarrow> json
    \<Rightarrow> task_schedule \<Rightarrow> (timer_error, timer_task) result" where
  "task_new sz now i name app runner entrypoint payload schedule =
     (let t = \<lparr>tk_id = i, tk_name = name, tk_app = app, tk_runner = runner,
        tk_entrypoint = entrypoint, tk_payload = payload, tk_extensions = empty_extensions,
        tk_inputs = [], tk_concurrency = 0, tk_summary = None, tk_schedule = schedule,
        tk_state = TaskActive, tk_enabled = True, tk_next_wakeup = None, tk_last_result = None,
        tk_last_run = None, tk_created = now, tk_updated = now, tk_preset = None,
        tk_reason = None\<rparr>
      in and_then (task_validate sz t) (\<lambda>_. Inr t))"

text \<open>The error is a \<^verbatim>\<open>ModelError\<close>, or (\<open>None\<close>) that of a malformed delegation.\<close>

definition task_run_request :: "timer_task \<Rightarrow> (model_error option, run_request) result" where
  "task_run_request t =
     (case for_app (tk_app t) (tk_runner t) (tk_entrypoint t) (tk_payload t) of
        Inl e \<Rightarrow> Inl (Some e)
      | Inr r \<Rightarrow>
          (case from_task_extensions (tk_extensions t) of
             Inl _ \<Rightarrow> Inl None
           | Inr p \<Rightarrow> Inr (r\<lparr>rq_policy := p\<rparr>)))"

definition task_effective_inputs :: "timer_task \<Rightarrow> json list" where
  "task_effective_inputs t = (if tk_inputs t = [] then [JObject []] else tk_inputs t)"

text \<open>The input overrides the payload key by key, apart from its own three keys.\<close>

definition merge_payload :: "json \<Rightarrow> json \<Rightarrow> json" where
  "merge_payload base input =
     (let m = (case as_object base of Some m \<Rightarrow> m | None \<Rightarrow> [])
      in JObject (case as_object input of
           None \<Rightarrow> m
         | Some os \<Rightarrow>
             foldl (\<lambda>m (k, v). if k = ''id'' \<or> k = ''label'' \<or> k = ''device_id'' then m
                               else obj_insert k v m) m os))"

section \<open>Presets\<close>

record task_preset =
  pr_id :: string
  pr_package :: string
  pr_name :: string
  pr_runner :: string
  pr_entrypoint :: string
  pr_payload :: json
  pr_schedule :: task_schedule
  pr_created :: int

record package_preset =
  pp_name :: string
  pp_runner :: string
  pp_entrypoint :: string
  pp_payload :: json
  pp_schedule :: task_schedule

definition preset_validate :: "task_preset \<Rightarrow> (timer_error, unit) result" where
  "preset_validate p =
     and_then (check_field ''preset id'' (pr_id p)) (\<lambda>_.
     and_then (check_field ''preset name'' (pr_name p)) (\<lambda>_.
     and_then (check_field ''runner_id'' (pr_runner p)) (\<lambda>_.
     and_then (check_field ''entrypoint'' (pr_entrypoint p)) (\<lambda>_.
     and_then (check_field ''app_package'' (pr_package p)) (\<lambda>_.
       schedule_validate (pr_schedule p))))))"

definition package_preset_id :: "string \<Rightarrow> string \<Rightarrow> string" where
  "package_preset_id package name = package @ '':'' @ trim name"

section \<open>Rows\<close>

text \<open>
  The texts of the JSON and time crates: \<^verbatim>\<open>serde_json\<close> printing and parsing, an
  instant as \<^verbatim>\<open>to_rfc3339\<close> and as its serde form, the parser of \<^verbatim>\<open>DateTime\<close>, the
  fallback for local times, and \<^verbatim>\<open>from_timestamp\<close>.
\<close>

record codec =
  print_json :: "json \<Rightarrow> string"
  parse_json :: "string \<Rightarrow> json option"
  rfc3339 :: "int \<Rightarrow> string"
  serde_time :: "int \<Rightarrow> string"
  parse_utc :: "string \<Rightarrow> int option"
  parse_local :: "string \<Rightarrow> int option"
  from_secs :: "int \<Rightarrow> int option"

definition json_size :: "codec \<Rightarrow> json \<Rightarrow> nat" where
  "json_size c j = length (print_json c j)"

definition timestamp :: "int \<Rightarrow> int" where
  "timestamp t = t div 1000000000"

definition parse_timestamp :: "codec \<Rightarrow> string \<Rightarrow> (timer_error, int) result" where
  "parse_timestamp c v =
     (case parse_utc c v of
        Some t \<Rightarrow> Inr t
      | None \<Rightarrow> (case parse_local c v of Some t \<Rightarrow> Inr t | None \<Rightarrow> Inl BadTimestamp))"

record task_storage =
  ts_id :: string
  ts_name :: string
  ts_device :: string
  ts_android :: "string option"
  ts_content :: "string option"
  ts_runner :: string
  ts_entrypoint :: string
  ts_payload :: string
  ts_schedule :: string
  ts_state :: string
  ts_enabled :: bool
  ts_next_wakeup :: "int option"
  ts_last_result :: "string option"
  ts_last_run :: "string option"
  ts_created :: string
  ts_updated :: string
  ts_preset :: "string option"
  ts_reason :: "string option"
  ts_extensions :: string
  ts_inputs :: string
  ts_summary :: string
  ts_concurrency :: int

text \<open>The derived serialisation of schedules and result rows.\<close>

definition schedule_json :: "task_schedule \<Rightarrow> json" where
  "schedule_json s = json_object
     [(''provider_id'', JString (provider_id s)), (''config'', sched_config s)]"

definition schedule_of_json :: "json \<Rightarrow> task_schedule option" where
  "schedule_of_json j =
     (case j of
        JObject _ \<Rightarrow>
          (case (json_get ''provider_id'' j, json_get ''config'' j) of
             (Some (JString p), Some c) \<Rightarrow> Some \<lparr>provider_id = p, sched_config = c\<rparr>
           | _ \<Rightarrow> None)
      | JArray [JString p, c] \<Rightarrow> Some \<lparr>provider_id = p, sched_config = c\<rparr>
      | _ \<Rightarrow> None)"

definition result_json :: "codec \<Rightarrow> input_result \<Rightarrow> json" where
  "result_json c r = json_object
     [(''input_id'', JString (ir_input r)), (''label'', json_opt_str (ir_label r)),
      (''state'', JString (ir_state r)), (''error'', json_opt_str (ir_error r)),
      (''finished_at'', JString (serde_time c (ir_finished r))),
      (''elapsed_secs'', JNumber (PosInt (ir_elapsed r)))]"

text \<open>An absent or null \<^verbatim>\<open>Option<String>\<close> is none; any other value must be a text.\<close>

definition opt_text :: "json option \<Rightarrow> string option option" where
  "opt_text j = (case j of
     None \<Rightarrow> Some None
   | Some JNull \<Rightarrow> Some None
   | Some (JString s) \<Rightarrow> Some (Some s)
   | Some _ \<Rightarrow> None)"

definition result_fields ::
  "codec \<Rightarrow> json option \<Rightarrow> json option \<Rightarrow> json option \<Rightarrow> json option \<Rightarrow> json option \<Rightarrow> json option
    \<Rightarrow> input_result option" where
  "result_fields c i l s e f n =
     (case (i, opt_text l, s, opt_text e, f, n) of
        (Some (JString i'), Some l', Some (JString s'), Some e', Some (JString f'),
           Some (JNumber (PosInt n'))) \<Rightarrow>
          (case parse_utc c f' of
             None \<Rightarrow> None
           | Some t \<Rightarrow>
               if n' \<le> u64_max then
                 Some \<lparr>ir_input = i', ir_label = l', ir_state = s', ir_error = e',
                       ir_finished = t, ir_elapsed = n'\<rparr>
               else None)
      | _ \<Rightarrow> None)"

definition result_of_json :: "codec \<Rightarrow> json \<Rightarrow> input_result option" where
  "result_of_json c j =
     (case j of
        JObject _ \<Rightarrow> result_fields c (json_get ''input_id'' j) (json_get ''label'' j)
          (json_get ''state'' j) (json_get ''error'' j) (json_get ''finished_at'' j)
          (json_get ''elapsed_secs'' j)
      | JArray [i, l, s, e, f, n] \<Rightarrow>
          result_fields c (Some i) (Some l) (Some s) (Some e) (Some f) (Some n)
      | _ \<Rightarrow> None)"

text \<open>\<^verbatim>\<open>Option<Vec<TaskInputResult>>\<close>: null is none, an array its rows.\<close>

definition summary_of_json :: "codec \<Rightarrow> json \<Rightarrow> input_result list option option" where
  "summary_of_json c j =
     (case j of
        JNull \<Rightarrow> Some None
      | JArray xs \<Rightarrow> map_option Some (collect_opt (map (result_of_json c) xs))
      | _ \<Rightarrow> None)"

definition storage_from_task :: "codec \<Rightarrow> timer_task \<Rightarrow> (timer_error, task_storage) result" where
  "storage_from_task c t =
     and_then (task_validate (json_size c) t) (\<lambda>_. Inr
       \<lparr>ts_id = tk_id t, ts_name = tk_name t, ts_device = app_device (tk_app t),
        ts_android = app_android_package (tk_app t), ts_content = app_content_package (tk_app t),
        ts_runner = tk_runner t, ts_entrypoint = tk_entrypoint t,
        ts_payload = print_json c (tk_payload t),
        ts_schedule = print_json c (schedule_json (tk_schedule t)),
        ts_state = task_state_str (tk_state t), ts_enabled = tk_enabled t,
        ts_next_wakeup = map_option timestamp (tk_next_wakeup t),
        ts_last_result = tk_last_result t, ts_last_run = map_option (rfc3339 c) (tk_last_run t),
        ts_created = rfc3339 c (tk_created t), ts_updated = rfc3339 c (tk_updated t),
        ts_preset = tk_preset t, ts_reason = tk_reason t,
        ts_extensions = print_json c (tk_extensions t),
        ts_inputs = print_json c (JArray (tk_inputs t)),
        ts_summary = print_json c (JArray (map (result_json c)
          (case tk_summary t of Some rs \<Rightarrow> rs | None \<Rightarrow> []))),
        ts_concurrency = int (tk_concurrency t)\<rparr>)"

definition of_opt :: "'e \<Rightarrow> 'a option \<Rightarrow> ('e, 'a) result" where
  "of_opt e x = (case x of Some y \<Rightarrow> Inr y | None \<Rightarrow> Inl e)"

definition transpose_opt :: "('a \<Rightarrow> ('e, 'b) result) \<Rightarrow> 'a option \<Rightarrow> ('e, 'b option) result" where
  "transpose_opt f x = (case x of
     None \<Rightarrow> Inr None
   | Some y \<Rightarrow> (case f y of Inl e \<Rightarrow> Inl e | Inr z \<Rightarrow> Inr (Some z)))"

definition lift_model :: "(model_error, 'a) result \<Rightarrow> (timer_error, 'a) result" where
  "lift_model r = (case r of Inl e \<Rightarrow> Inl (BadModel e) | Inr x \<Rightarrow> Inr x)"

definition u32_max :: int where "u32_max = 4294967295"

definition task_from_storage :: "codec \<Rightarrow> task_storage \<Rightarrow> (timer_error, timer_task) result" where
  "task_from_storage c row =
     and_then (lift_model (device_id_new (ts_device row))) (\<lambda>device.
     and_then (transpose_opt (lift_model \<circ> android_package_new) (ts_android row)) (\<lambda>android.
     and_then (transpose_opt (lift_model \<circ> app_package_id_new) (ts_content row)) (\<lambda>content.
     and_then (of_opt BadJson (parse_json c (ts_payload row))) (\<lambda>payload.
     and_then (of_opt BadJson (Option.bind (parse_json c (ts_schedule row)) schedule_of_json)) (\<lambda>schedule.
     and_then (task_state_parse (ts_state row)) (\<lambda>state.
     and_then (transpose_opt (parse_timestamp c) (ts_last_run row)) (\<lambda>last_run.
     and_then (parse_timestamp c (ts_created row)) (\<lambda>created.
     and_then (parse_timestamp c (ts_updated row)) (\<lambda>updated.
     and_then (of_opt BadJson (parse_json c (ts_extensions row))) (\<lambda>extensions.
     and_then (of_opt BadJson (Option.bind (parse_json c (ts_inputs row)) as_array)) (\<lambda>inputs.
     and_then (of_opt BadJson (Option.bind (parse_json c (ts_summary row)) (summary_of_json c))) (\<lambda>summary.
     let n = max (ts_concurrency row) 0;
         t = \<lparr>tk_id = ts_id row, tk_name = ts_name row,
           tk_app = \<lparr>app_device = device, app_android_package = android,
                     app_content_package = content\<rparr>,
           tk_runner = ts_runner row, tk_entrypoint = ts_entrypoint row, tk_payload = payload,
           tk_extensions = extensions, tk_inputs = inputs,
           tk_concurrency = (if n \<le> u32_max then nat n else TASK_MAX_CONCURRENCY),
           tk_summary = summary, tk_schedule = schedule, tk_state = state,
           tk_enabled = ts_enabled row,
           tk_next_wakeup = Option.bind (ts_next_wakeup row) (from_secs c),
           tk_last_result = ts_last_result row, tk_last_run = last_run, tk_created = created,
           tk_updated = updated, tk_preset = ts_preset row, tk_reason = ts_reason row\<rparr>
     in and_then (task_validate (json_size c) t) (\<lambda>_. Inr t)))))))))))))"

section \<open>Rows read back\<close>

lemma json_get_object_cases:
  "json_object fs = JObject m \<Longrightarrow> map_of m k = map_of (rev fs) k"
  using json_get_object [of k fs] by simp

lemma schedule_read_back [simp]: "schedule_of_json (schedule_json s) = Some s"
proof -
  obtain m where m: "schedule_json s = JObject m"
    using json_object_sorted unfolding schedule_json_def by blast
  then have "map_of m ''provider_id'' = Some (JString (provider_id s))"
    "map_of m ''config'' = Some (sched_config s)"
    by (simp_all add: json_get_object_cases [OF m [unfolded schedule_json_def]])
  then show ?thesis by (simp add: m schedule_of_json_def)
qed

lemma opt_text_json [simp]: "opt_text (Some (json_opt_str s)) = Some s"
  by (cases s) (simp_all add: opt_text_def json_opt_str_def)

lemma result_read_back:
  assumes "parse_utc c (serde_time c (ir_finished r)) = Some (ir_finished r)" "ir_elapsed r \<le> u64_max"
  shows "result_of_json c (result_json c r) = Some r"
proof -
  obtain m where m: "result_json c r = JObject m"
    using json_object_sorted unfolding result_json_def by blast
  note get = json_get_object_cases [OF m [unfolded result_json_def]]
  have "map_of m ''input_id'' = Some (JString (ir_input r))"
    "map_of m ''label'' = Some (json_opt_str (ir_label r))"
    "map_of m ''state'' = Some (JString (ir_state r))"
    "map_of m ''error'' = Some (json_opt_str (ir_error r))"
    "map_of m ''finished_at'' = Some (JString (serde_time c (ir_finished r)))"
    "map_of m ''elapsed_secs'' = Some (JNumber (PosInt (ir_elapsed r)))"
    by (simp_all add: get)
  then show ?thesis using assms by (simp add: m result_of_json_def result_fields_def)
qed

lemma task_state_read_back [simp]: "task_state_parse (task_state_str st) = Inr st"
  by (cases st) (simp_all add: task_state_parse_def)

text \<open>
  What the crates promise of the texts a task is written as, and what its type promises:
  identifiers that passed their constructor, numbers within their width, an instant that
  can be rebuilt from its seconds.
\<close>

definition texts_ok :: "codec \<Rightarrow> timer_task \<Rightarrow> bool" where
  "texts_ok c t \<longleftrightarrow>
     list_all (\<lambda>j. parse_json c (print_json c j) = Some j)
       [tk_payload t, schedule_json (tk_schedule t), tk_extensions t, JArray (tk_inputs t),
        JArray (map (result_json c) (case tk_summary t of Some rs \<Rightarrow> rs | None \<Rightarrow> []))]
     \<and> list_all (\<lambda>x. parse_utc c (rfc3339 c x) = Some x)
         (tk_created t # tk_updated t # (case tk_last_run t of Some x \<Rightarrow> [x] | None \<Rightarrow> []))
     \<and> list_all (\<lambda>r. parse_utc c (serde_time c (ir_finished r)) = Some (ir_finished r))
         (case tk_summary t of Some rs \<Rightarrow> rs | None \<Rightarrow> [])
     \<and> (case tk_next_wakeup t of None \<Rightarrow> True
        | Some w \<Rightarrow> from_secs c (timestamp w) = Some (timestamp w * 1000000000))"

definition typed_task :: "timer_task \<Rightarrow> bool" where
  "typed_task t \<longleftrightarrow>
     device_id_new (app_device (tk_app t)) = Inr (app_device (tk_app t))
     \<and> (case app_android_package (tk_app t) of None \<Rightarrow> True | Some p \<Rightarrow> android_package_new p = Inr p)
     \<and> (case app_content_package (tk_app t) of None \<Rightarrow> True | Some p \<Rightarrow> app_package_id_new p = Inr p)
     \<and> int (tk_concurrency t) \<le> u32_max
     \<and> list_all (\<lambda>r. ir_elapsed r \<le> u64_max) (case tk_summary t of Some rs \<Rightarrow> rs | None \<Rightarrow> [])"

lemma transpose_opt_id: "(\<And>y. x = Some y \<Longrightarrow> f y = Inr y) \<Longrightarrow> transpose_opt f x = Inr x"
  by (cases x) (simp_all add: transpose_opt_def)

lemma transpose_opt_map:
  "(\<And>y. x = Some y \<Longrightarrow> f (g y) = Inr y) \<Longrightarrow> transpose_opt f (map_option g x) = Inr x"
  by (cases x) (simp_all add: transpose_opt_def)

text \<open>What a stored task is when it is read again.\<close>

definition stored_form :: "timer_task \<Rightarrow> timer_task" where
  "stored_form t = t\<lparr>tk_summary := Some (case tk_summary t of Some rs \<Rightarrow> rs | None \<Rightarrow> []),
     tk_next_wakeup := map_option (\<lambda>w. timestamp w * 1000000000) (tk_next_wakeup t)\<rparr>"

lemma validate_stored_form: "task_validate sz (stored_form t) = task_validate sz t"
  by (simp add: task_validate_def stored_form_def)

lemma row_read_back:
  assumes s: "storage_from_task c t = Inr row" and c: "texts_ok c t" and t: "typed_task t"
  shows "task_from_storage c row = Inr (stored_form t)"
proof -
  let ?rs = "case tk_summary t of Some rs \<Rightarrow> rs | None \<Rightarrow> []"
  have v: "task_validate (json_size c) t = Inr ()"
    using s by (auto simp: storage_from_task_def and_then_eq_Inr)
  have app: "lift_model (device_id_new (app_device (tk_app t))) = Inr (app_device (tk_app t))"
    "transpose_opt (lift_model \<circ> android_package_new) (app_android_package (tk_app t))
       = Inr (app_android_package (tk_app t))"
    "transpose_opt (lift_model \<circ> app_package_id_new) (app_content_package (tk_app t))
       = Inr (app_content_package (tk_app t))"
    using t by (auto simp: typed_task_def lift_model_def intro!: transpose_opt_id)
  have times: "parse_timestamp c (rfc3339 c (tk_created t)) = Inr (tk_created t)"
    "parse_timestamp c (rfc3339 c (tk_updated t)) = Inr (tk_updated t)"
    "transpose_opt (parse_timestamp c) (map_option (rfc3339 c) (tk_last_run t)) = Inr (tk_last_run t)"
    using c by (auto simp: texts_ok_def parse_timestamp_def intro!: transpose_opt_map)
  have "result_of_json c (result_json c r) = Some r" if "r \<in> set ?rs" for r
  proof (rule result_read_back)
    have "list_all (\<lambda>r. parse_utc c (serde_time c (ir_finished r)) = Some (ir_finished r)) ?rs"
      using c by (simp add: texts_ok_def)
    then show "parse_utc c (serde_time c (ir_finished r)) = Some (ir_finished r)"
      using that by (simp add: list_all_iff)
    have "list_all (\<lambda>r. ir_elapsed r \<le> u64_max) ?rs" using t by (simp add: typed_task_def)
    then show "ir_elapsed r \<le> u64_max" using that by (simp add: list_all_iff)
  qed
  then have "map (result_of_json c) (map (result_json c) ?rs) = map Some ?rs" by simp
  then have "collect_opt (map (result_of_json c) (map (result_json c) ?rs)) = Some ?rs"
    by (simp only: collect_opt_Some)
  then have summary: "summary_of_json c (JArray (map (result_json c) ?rs)) = Some (Some ?rs)"
    by (simp add: summary_of_json_def)
  have wake: "Option.bind (map_option timestamp (tk_next_wakeup t)) (from_secs c)
      = map_option (\<lambda>w. timestamp w * 1000000000) (tk_next_wakeup t)"
    using c by (cases "tk_next_wakeup t") (simp_all add: texts_ok_def)
  have json: "parse_json c (print_json c (tk_payload t)) = Some (tk_payload t)"
    "parse_json c (print_json c (schedule_json (tk_schedule t))) = Some (schedule_json (tk_schedule t))"
    "parse_json c (print_json c (tk_extensions t)) = Some (tk_extensions t)"
    "parse_json c (print_json c (JArray (tk_inputs t))) = Some (JArray (tk_inputs t))"
    "parse_json c (print_json c (JArray (map (result_json c) ?rs))) = Some (JArray (map (result_json c) ?rs))"
    using c by (simp_all add: texts_ok_def)
  have app': "\<lparr>app_device = app_device (tk_app t), app_android_package = app_android_package (tk_app t),
      app_content_package = app_content_package (tk_app t)\<rparr> = tk_app t"
    by simp
  have conc: "int (tk_concurrency t) \<le> u32_max" using t by (simp add: typed_task_def)
  have row: "row = \<lparr>ts_id = tk_id t, ts_name = tk_name t, ts_device = app_device (tk_app t),
        ts_android = app_android_package (tk_app t), ts_content = app_content_package (tk_app t),
        ts_runner = tk_runner t, ts_entrypoint = tk_entrypoint t,
        ts_payload = print_json c (tk_payload t),
        ts_schedule = print_json c (schedule_json (tk_schedule t)),
        ts_state = task_state_str (tk_state t), ts_enabled = tk_enabled t,
        ts_next_wakeup = map_option timestamp (tk_next_wakeup t),
        ts_last_result = tk_last_result t, ts_last_run = map_option (rfc3339 c) (tk_last_run t),
        ts_created = rfc3339 c (tk_created t), ts_updated = rfc3339 c (tk_updated t),
        ts_preset = tk_preset t, ts_reason = tk_reason t,
        ts_extensions = print_json c (tk_extensions t),
        ts_inputs = print_json c (JArray (tk_inputs t)),
        ts_summary = print_json c (JArray (map (result_json c) ?rs)),
        ts_concurrency = int (tk_concurrency t)\<rparr>"
    using s by (simp add: storage_from_task_def v)
  define t' where "t' = \<lparr>tk_id = tk_id t, tk_name = tk_name t, tk_app = tk_app t,
           tk_runner = tk_runner t, tk_entrypoint = tk_entrypoint t, tk_payload = tk_payload t,
           tk_extensions = tk_extensions t, tk_inputs = tk_inputs t,
           tk_concurrency = tk_concurrency t,
           tk_summary = Some ?rs, tk_schedule = tk_schedule t, tk_state = tk_state t,
           tk_enabled = tk_enabled t,
           tk_next_wakeup = map_option (\<lambda>w. timestamp w * 1000000000) (tk_next_wakeup t),
           tk_last_result = tk_last_result t, tk_last_run = tk_last_run t, tk_created = tk_created t,
           tk_updated = tk_updated t, tk_preset = tk_preset t, tk_reason = tk_reason t\<rparr>"
  have "t' = stored_form t" by (simp add: t'_def stored_form_def)
  moreover have "task_validate (json_size c) t' = Inr ()"
    by (simp add: \<open>t' = stored_form t\<close> validate_stored_form v)
  moreover have "task_from_storage c row = and_then (task_validate (json_size c) t') (\<lambda>_. Inr t')"
    by (simp add: task_from_storage_def row app times json summary wake of_opt_def app' conc
        Let_def t'_def)
  ultimately show ?thesis by simp
qed

end
