(* ===== verification/TimerStore.thy ===== *)
theory TimerStore
  imports TimerTask
begin

text \<open>
  What the timer keeps in the database (\<^verbatim>\<open>server/src/store.rs\<close>): the task rows
  and the claims of planned occurrences, one function per SQL statement. A row that does
  not exist makes an update a no-op. The texts of the row codec are left to
  \<open>TimerTask\<close>; here a row is the task it reads as, and instants are whole seconds
  where the column is.
\<close>

record sched_run =
  sn_state :: string
  sn_run :: "string option"
  sn_error :: "string option"

record timer_db =
  tb_tasks :: "string \<rightharpoonup> timer_task"
  tb_runs :: "string \<times> int \<rightharpoonup> sched_run"

definition update_row :: "string \<Rightarrow> (timer_task \<Rightarrow> timer_task) \<Rightarrow> timer_db \<Rightarrow> timer_db" where
  "update_row i f db =
     (case tb_tasks db i of
        None \<Rightarrow> db
      | Some t \<Rightarrow> db\<lparr>tb_tasks := (tb_tasks db)(i \<mapsto> f t)\<rparr>)"

definition seconds :: "int option \<Rightarrow> int option" where
  "seconds w = map_option (\<lambda>s. s * 1000000000) w"

text \<open>Tasks.\<close>

definition get_timer_task :: "timer_db \<Rightarrow> string \<Rightarrow> timer_task option" where
  "get_timer_task db i = tb_tasks db i"

definition upsert_timer_task :: "timer_task \<Rightarrow> timer_db \<Rightarrow> timer_db" where
  "upsert_timer_task t db = db\<lparr>tb_tasks := (tb_tasks db)(tk_id t \<mapsto> stored_form t)\<rparr>"

text \<open>\<open>admission\<close> is the write admission, asked before and after the comparison.\<close>

definition compare_save_timer_task ::
  "(bool \<times> bool) \<Rightarrow> timer_task \<Rightarrow> timer_task option \<Rightarrow> timer_db \<Rightarrow> bool option \<times> timer_db" where
  "compare_save_timer_task admission t expected db =
     (if \<not> fst admission then (None, db)
      else if tb_tasks db (tk_id t) \<noteq> expected then (Some False, db)
      else if \<not> snd admission then (None, db)
      else (Some True, upsert_timer_task t db))"

definition delete_timer_task :: "string \<Rightarrow> timer_db \<Rightarrow> timer_db" where
  "delete_timer_task i db = db\<lparr>tb_tasks := (tb_tasks db)(i := None)\<rparr>"

definition set_timer_task_wakeup :: "string \<Rightarrow> int option \<Rightarrow> int \<Rightarrow> timer_db \<Rightarrow> timer_db" where
  "set_timer_task_wakeup i next now =
     update_row i (\<lambda>t. t\<lparr>tk_next_wakeup := seconds next, tk_updated := now\<rparr>)"

definition set_timer_task_state ::
  "string \<Rightarrow> task_state \<Rightarrow> bool \<Rightarrow> string option \<Rightarrow> int \<Rightarrow> timer_db \<Rightarrow> timer_db" where
  "set_timer_task_state i st en reason now =
     update_row i (\<lambda>t. t\<lparr>tk_state := st, tk_enabled := en, tk_next_wakeup := None,
       tk_reason := reason, tk_updated := now\<rparr>)"

definition set_dependency_missing :: "string \<Rightarrow> string \<Rightarrow> int \<Rightarrow> timer_db \<Rightarrow> timer_db" where
  "set_dependency_missing i reason now =
     update_row i (\<lambda>t. t\<lparr>tk_state := DependencyMissing, tk_reason := Some reason,
       tk_next_wakeup := None, tk_updated := now\<rparr>)"

definition suspend_timer_task :: "string \<Rightarrow> string \<Rightarrow> int \<Rightarrow> timer_db \<Rightarrow> timer_db" where
  "suspend_timer_task i reason now =
     update_row i (\<lambda>t. t\<lparr>tk_state := TaskSuspended, tk_enabled := False, tk_next_wakeup := None,
       tk_reason := Some reason, tk_updated := now\<rparr>)"

text \<open>An update with a condition over all rows; the count of changed rows is the size of the set.\<close>

definition update_where ::
  "(timer_task \<Rightarrow> bool) \<Rightarrow> (timer_task \<Rightarrow> timer_task) \<Rightarrow> timer_db \<Rightarrow> timer_db" where
  "update_where P f db =
     db\<lparr>tb_tasks := (\<lambda>i. map_option (\<lambda>t. if P t then f t else t) (tb_tasks db i))\<rparr>"

definition count_where :: "(timer_task \<Rightarrow> bool) \<Rightarrow> timer_db \<Rightarrow> nat" where
  "count_where P db = card {i. \<exists>t. tb_tasks db i = Some t \<and> P t}"

definition suspend_tasks_for_package :: "string \<Rightarrow> string \<Rightarrow> int \<Rightarrow> timer_db \<Rightarrow> timer_db" where
  "suspend_tasks_for_package package reason now =
     update_where
       (\<lambda>t. app_android_package (tk_app t) = Some package \<or> app_content_package (tk_app t) = Some package)
       (\<lambda>t. t\<lparr>tk_state := TaskSuspended, tk_enabled := False, tk_next_wakeup := None,
         tk_reason := Some reason, tk_updated := now\<rparr>)"

definition missing_reason :: "string \<Rightarrow> string" where
  "missing_reason i = ''missing_dependency='' @ i"

definition bound_to :: "string \<Rightarrow> timer_task \<Rightarrow> bool" where
  "bound_to runner t \<longleftrightarrow> tk_runner t = runner \<and> tk_state t = TaskActive \<and> tk_enabled t"

definition suspend_active_for_runner :: "string \<Rightarrow> int \<Rightarrow> timer_db \<Rightarrow> timer_db" where
  "suspend_active_for_runner runner now =
     update_where (bound_to runner)
       (\<lambda>t. t\<lparr>tk_state := DependencyMissing, tk_reason := Some (missing_reason runner),
         tk_next_wakeup := None, tk_updated := now\<rparr>)"

definition misses_runner :: "string \<Rightarrow> timer_task \<Rightarrow> bool" where
  "misses_runner runner t \<longleftrightarrow> tk_runner t = runner \<and> tk_state t = DependencyMissing
     \<and> tk_reason t = Some (missing_reason runner)"

definition resume_from_missing ::
  "string \<Rightarrow> string \<Rightarrow> int option \<Rightarrow> int \<Rightarrow> timer_db \<Rightarrow> bool \<times> timer_db" where
  "resume_from_missing i runner next now db =
     (case tb_tasks db i of
        Some t \<Rightarrow>
          if tk_state t = DependencyMissing \<and> tk_reason t = Some (missing_reason runner)
          then (True, update_row i (\<lambda>t. t\<lparr>tk_state := TaskActive, tk_reason := None,
                        tk_next_wakeup := seconds next, tk_updated := now\<rparr>) db)
          else (False, db)
      | None \<Rightarrow> (False, db))"

definition update_task_result :: "string \<Rightarrow> string \<Rightarrow> int \<Rightarrow> timer_db \<Rightarrow> timer_db" where
  "update_task_result i r now =
     update_row i (\<lambda>t. t\<lparr>tk_last_result := Some r, tk_last_run := Some now, tk_updated := now\<rparr>)"

definition update_result_summary ::
  "string \<Rightarrow> input_result list \<Rightarrow> string option \<Rightarrow> int \<Rightarrow> timer_db \<Rightarrow> timer_db" where
  "update_result_summary i rows folded now =
     update_row i (\<lambda>t. case folded of
        Some f \<Rightarrow> t\<lparr>tk_summary := Some rows, tk_last_result := Some f, tk_last_run := Some now,
                    tk_updated := now\<rparr>
      | None \<Rightarrow> t\<lparr>tk_summary := Some rows\<rparr>)"

text \<open>Claims.\<close>

definition claim_scheduled_run :: "string \<Rightarrow> int \<Rightarrow> timer_db \<Rightarrow> bool \<times> timer_db" where
  "claim_scheduled_run i at db =
     (case tb_runs db (i, at) of
        Some _ \<Rightarrow> (False, db)
      | None \<Rightarrow>
          (True, db\<lparr>tb_runs := (tb_runs db)((i, at) \<mapsto>
             \<lparr>sn_state = ''running'', sn_run = None, sn_error = None\<rparr>)\<rparr>))"

definition attach_scheduled_run :: "string \<Rightarrow> int \<Rightarrow> string \<Rightarrow> timer_db \<Rightarrow> timer_db" where
  "attach_scheduled_run i at rid db =
     (case tb_runs db (i, at) of
        Some r \<Rightarrow>
          if sn_state r = ''running''
          then db\<lparr>tb_runs := (tb_runs db)((i, at) \<mapsto> r\<lparr>sn_run := Some rid\<rparr>)\<rparr> else db
      | None \<Rightarrow> db)"

definition finish_scheduled_run ::
  "string \<Rightarrow> int \<Rightarrow> string \<Rightarrow> string option \<Rightarrow> string option \<Rightarrow> timer_db \<Rightarrow> bool \<times> timer_db" where
  "finish_scheduled_run i at st rid err db =
     (case tb_runs db (i, at) of
        Some r \<Rightarrow>
          if sn_state r = ''running''
          then (True, db\<lparr>tb_runs := (tb_runs db)((i, at) \<mapsto>
                 r\<lparr>sn_state := st, sn_run := (case rid of None \<Rightarrow> sn_run r | Some x \<Rightarrow> Some x),
                   sn_error := err\<rparr>)\<rparr>)
          else (False, db)
      | None \<Rightarrow> (False, db))"

section \<open>Lemmas\<close>

lemma update_row_runs [simp]: "tb_runs (update_row i f db) = tb_runs db"
  by (simp add: update_row_def split: option.splits)

lemma update_row_Some [simp]:
  "tb_tasks db i = Some t \<Longrightarrow> tb_tasks (update_row i f db) = (tb_tasks db)(i \<mapsto> f t)"
  by (simp add: update_row_def)

lemma update_row_other [simp]: "j \<noteq> i \<Longrightarrow> tb_tasks (update_row i f db) j = tb_tasks db j"
  by (simp add: update_row_def split: option.splits)

lemmas row_updates = set_timer_task_wakeup_def set_timer_task_state_def set_dependency_missing_def
  suspend_timer_task_def update_task_result_def update_result_summary_def

lemma row_updates_runs [simp]:
  "tb_runs (set_timer_task_wakeup i n now db) = tb_runs db"
  "tb_runs (set_timer_task_state i st en reason now db) = tb_runs db"
  "tb_runs (set_dependency_missing i why now db) = tb_runs db"
  "tb_runs (suspend_timer_task i why now db) = tb_runs db"
  "tb_runs (update_task_result i r now db) = tb_runs db"
  "tb_runs (update_result_summary i rows f now db) = tb_runs db"
  by (simp_all add: row_updates)

lemma claims_kept:
  "tb_runs db k \<noteq> None \<Longrightarrow> tb_runs (attach_scheduled_run i at rid db) k \<noteq> None"
  "tb_runs db k \<noteq> None \<Longrightarrow> tb_runs (snd (finish_scheduled_run i at st r e db)) k \<noteq> None"
  "tb_runs db k \<noteq> None \<Longrightarrow> tb_runs (snd (claim_scheduled_run i at db)) k \<noteq> None"
  by (auto simp: attach_scheduled_run_def finish_scheduled_run_def claim_scheduled_run_def
      split: option.splits)

lemma claim_once:
  "fst (claim_scheduled_run i at db) \<longleftrightarrow> tb_runs db (i, at) = None"
  "tb_runs (snd (claim_scheduled_run i at db)) (i, at) \<noteq> None"
  by (auto simp: claim_scheduled_run_def split: option.splits)

end
