(* ===== verification/TimerCore.thy ===== *)
theory TimerCore
  imports TimerStore RunManager
begin

text \<open>
  The timer (\<^verbatim>\<open>server/src/timer_core.rs\<close>, second part, and
  \<^verbatim>\<open>server/src/scheduler.rs\<close>): the registries of schedules and runners, the
  decision of the scheduling loop about one task, dispatch, the settlement of a submitted
  run, and the life cycle of tasks. An operation is split where the code hands over to
  the runner; the runner's answer and its completion are arguments. A database access
  fails when the next fault says so.
\<close>

section \<open>Outcomes and errors of runners\<close>

datatype runner_error =
    RunnerMissing string
  | RunnerInvalid string
  | RunnerInvalidDetail string json
  | RunnerConflict run_record
  | RunnerShuttingDown
  | RunnerOther string

fun runner_error_text :: "runner_error \<Rightarrow> string" where
  "runner_error_text (RunnerMissing m) = ''dependency unavailable: '' @ m"
| "runner_error_text (RunnerInvalid m) = m"
| "runner_error_text (RunnerInvalidDetail m d) = m"
| "runner_error_text (RunnerConflict r) = ''device busy: '' @ rec_id r"
| "runner_error_text RunnerShuttingDown = ''server is shutting down''"
| "runner_error_text (RunnerOther m) = m"

datatype timer_outcome = TimerSuccess | TimerFailed string | TimerCancelled

record timer_completion =
  cp_task :: string
  cp_at :: "int option"
  cp_run :: string
  cp_outcome :: timer_outcome

record task_result =
  tr_event :: string
  tr_run :: "string option"
  tr_state :: string
  tr_error :: "string option"
  tr_finished :: int
  tr_elapsed :: nat

datatype sched_event = EvConflict | EvSkipped | EvFailed

definition outcome_of_error :: "runner_error \<Rightarrow> timer_outcome" where
  "outcome_of_error e =
     (case e of
        RunnerConflict _ \<Rightarrow> TimerCancelled
      | RunnerShuttingDown \<Rightarrow> TimerCancelled
      | _ \<Rightarrow> TimerFailed (runner_error_text e))"

fun outcome_name :: "timer_outcome \<Rightarrow> string" where
  "outcome_name TimerSuccess = ''success''"
| "outcome_name (TimerFailed _) = ''failed''"
| "outcome_name TimerCancelled = ''cancelled''"

section \<open>Registries\<close>

text \<open>
  Both registries are maps by id. An extension or a runner implementation is a value of
  its own type; what it answers is an argument of the operation that asks it.
\<close>

definition register_schedule ::
  "string \<Rightarrow> 'x \<Rightarrow> (string \<rightharpoonup> 'x) \<Rightarrow> (string, unit) result \<times> (string \<rightharpoonup> 'x)" where
  "register_schedule p x reg =
     (if trim p = [] then (Inl ''schedule extension provider_id must not be empty'', reg)
      else if reg p \<noteq> None then (Inl (''schedule extension already registered: '' @ p), reg)
      else (Inr (), reg(p \<mapsto> x)))"

text \<open>
  An extension answers \<^verbatim>\<open>next_after\<close> and \<^verbatim>\<open>latest_due\<close>; the registry forwards
  to the one the schedule names.
\<close>

record extension =
  ex_next :: "task_schedule \<Rightarrow> int \<Rightarrow> (string, int option) result"
  ex_latest :: "task_schedule \<Rightarrow> int \<Rightarrow> int \<Rightarrow> (string, int option) result"

definition unavailable :: "task_schedule \<Rightarrow> string" where
  "unavailable s = ''schedule extension unavailable: '' @ provider_id s"

definition registry_next ::
  "(string \<rightharpoonup> extension) \<Rightarrow> task_schedule \<Rightarrow> int \<Rightarrow> (string, int option) result" where
  "registry_next reg s after =
     (case reg (provider_id s) of None \<Rightarrow> Inl (unavailable s) | Some x \<Rightarrow> ex_next x s after)"

definition registry_latest ::
  "(string \<rightharpoonup> extension) \<Rightarrow> task_schedule \<Rightarrow> int \<Rightarrow> int \<Rightarrow> (string, int option) result" where
  "registry_latest reg s now lookback =
     (case reg (provider_id s) of None \<Rightarrow> Inl (unavailable s) | Some x \<Rightarrow> ex_latest x s now lookback)"

definition registry_probe ::
  "(string \<rightharpoonup> extension) \<Rightarrow> task_schedule \<Rightarrow> int \<Rightarrow> (string, unit) result" where
  "registry_probe reg s now =
     (case reg (provider_id s) of
        None \<Rightarrow> Inr ()
      | Some x \<Rightarrow> (case ex_next x s now of Inl e \<Rightarrow> Inl e | Inr _ \<Rightarrow> Inr ()))"

record 'x registered_runner =
  rg_runner :: string
  rg_owner :: string
  rg_impl :: 'x

definition register_runner ::
  "string \<Rightarrow> string \<Rightarrow> 'x \<Rightarrow> (string \<rightharpoonup> 'x registered_runner)
    \<Rightarrow> (string, unit) result \<times> (string \<rightharpoonup> 'x registered_runner)" where
  "register_runner i owner x reg =
     (if trim i = [] then (Inl ''runner id must not be empty'', reg)
      else if trim owner = [] then (Inl ''runner owner extension id must not be empty'', reg)
      else (case reg i of
              Some r \<Rightarrow>
                if rg_owner r \<noteq> owner
                then (Inl (''runner already registered by another extension: '' @ i
                           @ '' (owner '' @ rg_owner r @ '')''), reg)
                else (Inr (), reg(i \<mapsto> \<lparr>rg_runner = i, rg_owner = owner, rg_impl = x\<rparr>))
            | None \<Rightarrow> (Inr (), reg(i \<mapsto> \<lparr>rg_runner = i, rg_owner = owner, rg_impl = x\<rparr>))))"

definition unregister_runner ::
  "string \<Rightarrow> (string \<rightharpoonup> 'x registered_runner)
    \<Rightarrow> (string, unit) result \<times> (string \<rightharpoonup> 'x registered_runner)" where
  "unregister_runner i reg =
     (if reg i = None then Inl (''runner not registered: '' @ i) else Inr (), reg(i := None))"

text \<open>\<open>order\<close> is the order in which the map yields its values.\<close>

definition unregister_owner ::
  "string list \<Rightarrow> string \<Rightarrow> (string \<rightharpoonup> 'x registered_runner)
    \<Rightarrow> string list \<times> (string \<rightharpoonup> 'x registered_runner)" where
  "unregister_owner order owner reg =
     (let owned = filter (\<lambda>i. case reg i of Some r \<Rightarrow> rg_owner r = owner | None \<Rightarrow> False) order
      in (owned, foldl (\<lambda>reg i. reg(i := None)) reg owned))"

text \<open>
  \<^verbatim>\<open>submit\<close> of the registry, up to the implementation it hands over to: a delegated
  request only reaches a runner that enforces delegations and whose current owner the
  delegation names.
\<close>

definition registry_submit ::
  "('x \<Rightarrow> string \<Rightarrow> bool) \<Rightarrow> (string \<rightharpoonup> 'x registered_runner) \<Rightarrow> run_request \<Rightarrow> (runner_error, 'x) result"
  where
  "registry_submit external reg q =
     (case reg (rq_runner q) of
        None \<Rightarrow> Inl (RunnerMissing (''runner unavailable: '' @ rq_runner q))
      | Some r \<Rightarrow>
          (case rq_policy q of
             Some p \<Rightarrow>
               if \<not> external (rg_impl r) (rq_runner q) \<or> \<not> allows_plugin p (rg_owner r)
               then Inl (RunnerInvalid
                 ''Runner implementation or current owner is outside the frozen external grant'')
               else Inr (rg_impl r)
           | None \<Rightarrow> Inr (rg_impl r)))"

text \<open>\<^verbatim>\<open>cancel\<close> asks the runners in turn, in the map's order, until one accepts.\<close>

fun registry_cancel_loop :: "('x \<Rightarrow> (runner_error, unit) result) \<Rightarrow> runner_error option \<Rightarrow> 'x list
    \<Rightarrow> runner_error option" where
  "registry_cancel_loop f prev [] = prev"
| "registry_cancel_loop f prev (x # xs) =
     (case f x of Inr _ \<Rightarrow> None | Inl e \<Rightarrow> registry_cancel_loop f (Some e) xs)"

definition registry_cancel ::
  "('x \<Rightarrow> (runner_error, unit) result) \<Rightarrow> string \<Rightarrow> 'x list \<Rightarrow> (runner_error, unit) result" where
  "registry_cancel f rid xs =
     (if xs = [] then Inl (RunnerMissing (''runner unavailable for run: '' @ rid))
      else (case registry_cancel_loop f None xs of None \<Rightarrow> Inr () | Some e \<Rightarrow> Inl e))"

section \<open>The core\<close>

text \<open>
  \<open>tc_faults\<close> says of the coming database accesses which fail (none after its end);
  \<open>tc_results\<close> are the calls of the result hook, \<open>tc_events\<close> the metrics, \<open>tc_changed\<close>
  the wake-ups of the loop.
\<close>

record timer_core =
  tc_db :: timer_db
  tc_faults :: "bool list"
  tc_active :: "string \<rightharpoonup> string"
  tc_completed :: "string set"
  tc_generation :: nat
  tc_hook :: bool
  tc_results :: "(timer_task \<times> task_result) list"
  tc_events :: "sched_event list"
  tc_changed :: nat

text \<open>One access: whether it worked, its answer when it did, and the core after it.\<close>

definition db_access :: "(timer_db \<Rightarrow> 'a \<times> timer_db) \<Rightarrow> timer_core \<Rightarrow> 'a option \<times> timer_core" where
  "db_access f c =
     (case tc_faults c of
        True # fs \<Rightarrow> (None, c\<lparr>tc_faults := fs\<rparr>)
      | _ \<Rightarrow>
          (case f (tc_db c) of
             (a, db) \<Rightarrow> (Some a, c\<lparr>tc_db := db, tc_faults := tl (tc_faults c)\<rparr>)))"

definition db_try :: "(timer_db \<Rightarrow> timer_db) \<Rightarrow> timer_core \<Rightarrow> timer_core" where
  "db_try f c = snd (db_access (\<lambda>db. ((), f db)) c)"

definition db_ok :: "(timer_db \<Rightarrow> timer_db) \<Rightarrow> timer_core \<Rightarrow> bool" where
  "db_ok f c = (fst (db_access (\<lambda>db. ((), f db)) c) \<noteq> None)"

definition notify_changed :: "timer_core \<Rightarrow> timer_core" where
  "notify_changed c = c\<lparr>tc_changed := tc_changed c + 1\<rparr>"

definition event :: "sched_event \<Rightarrow> timer_core \<Rightarrow> timer_core" where
  "event e c = c\<lparr>tc_events := tc_events c @ [e]\<rparr>"

definition call_result_hook :: "timer_task \<Rightarrow> task_result \<Rightarrow> timer_core \<Rightarrow> timer_core" where
  "call_result_hook t r c = (if tc_hook c then c\<lparr>tc_results := tc_results c @ [(t, r)]\<rparr> else c)"

definition SUCCESS_LABEL :: string where "SUCCESS_LABEL = utf8 [230, 136, 144, 229, 138, 159]"
definition FAILURE_LABEL :: string where "FAILURE_LABEL = utf8 [229, 164, 177, 232, 180, 165]"
definition CANCEL_LABEL :: string where "CANCEL_LABEL = utf8 [229, 143, 150, 230, 182, 136]"
definition RUN_CANCELLED :: string where
  "RUN_CANCELLED = utf8 [232, 191, 144, 232, 161, 140, 232, 162, 171, 229, 143, 150, 230, 182, 136]"
definition DEVICE_BUSY :: string where
  "DEVICE_BUSY = utf8 [232, 174, 190, 229, 164, 135, 229, 191, 153]"
definition SERVER_CLOSING :: string where
  "SERVER_CLOSING = utf8 [230, 156, 141, 229, 138, 161, 230, 173, 163, 229, 156, 168, 229, 133, 179, 233,
     151, 173]"

text \<open>Decimal text of an integer.\<close>

fun nat_text :: "nat \<Rightarrow> string" where
  "nat_text n = (if n < 10 then [char_of (48 + n)] else nat_text (n div 10) @ [char_of (48 + n mod 10)])"

declare nat_text.simps [simp del]

definition int_text :: "int \<Rightarrow> string" where
  "int_text i = (if i < 0 then ''-'' @ nat_text (nat (- i)) else nat_text (nat i))"

text \<open>
  \<^verbatim>\<open>finish_rejected\<close>: the claim is closed, the hook told, the task's result
  written. \<open>uuid\<close> is the fresh event id of an unscheduled trigger.
\<close>

definition finish_rejected ::
  "int \<Rightarrow> string \<Rightarrow> timer_task \<Rightarrow> int option \<Rightarrow> string \<Rightarrow> string option \<Rightarrow> string option
    \<Rightarrow> timer_core \<Rightarrow> timer_core" where
  "finish_rejected now uuid t at st rid err c =
     (let c1 = (case at of
            Some x \<Rightarrow> db_try (\<lambda>db. snd (finish_scheduled_run (tk_id t) x st rid err db)) c
          | None \<Rightarrow> c);
          c2 = call_result_hook t
            \<lparr>tr_event = (case at of
                Some x \<Rightarrow> ''schedule:'' @ tk_id t @ '':'' @ int_text x | None \<Rightarrow> uuid),
             tr_run = rid, tr_state = st, tr_error = err, tr_finished = now, tr_elapsed = 0\<rparr> c1
      in db_try (update_task_result (tk_id t)
           (if st = ''success'' then SUCCESS_LABEL else FAILURE_LABEL) now) c2)"

definition handle_runner_error ::
  "int \<Rightarrow> string \<Rightarrow> timer_task \<Rightarrow> int option \<Rightarrow> runner_error \<Rightarrow> timer_core \<Rightarrow> timer_core" where
  "handle_runner_error now uuid t at e c =
     (case e of
        RunnerConflict _ \<Rightarrow>
          finish_rejected now uuid t at ''skipped'' None (Some DEVICE_BUSY) (event EvConflict c)
      | RunnerShuttingDown \<Rightarrow>
          finish_rejected now uuid t at ''skipped'' None (Some SERVER_CLOSING) (event EvSkipped c)
      | RunnerMissing m \<Rightarrow>
          finish_rejected now uuid t at ''failed'' None (Some m)
            (db_try (set_dependency_missing (tk_id t) m now) (event EvFailed c))
      | RunnerInvalidDetail m _ \<Rightarrow>
          finish_rejected now uuid t at ''failed'' None (Some m) (event EvFailed c)
      | RunnerInvalid m \<Rightarrow>
          finish_rejected now uuid t at ''failed'' None (Some m) (event EvFailed c)
      | RunnerOther m \<Rightarrow>
          finish_rejected now uuid t at ''failed'' None (Some m) (event EvFailed c))"

definition reject_schedule :: "int \<Rightarrow> string \<Rightarrow> timer_task \<Rightarrow> timer_core \<Rightarrow> timer_core" where
  "reject_schedule now uuid t c =
     (let reason = missing_reason (provider_id (tk_schedule t))
      in finish_rejected now uuid t None ''failed'' None (Some reason)
           (event EvFailed (db_try (set_dependency_missing (tk_id t) reason now) c)))"

section \<open>Dispatch\<close>

text \<open>
  What a dispatch does next: nothing more, hand one request to the runner, or fan the
  inputs out. The message of a failed request is that of its error.
\<close>

datatype dispatch_next = DispatchDone | SubmitOne run_request | SubmitMany "json list"

definition request_error_text :: "model_error option \<Rightarrow> string \<Rightarrow> string" where
  "request_error_text e policy_error =
     (case e of Some m \<Rightarrow> model_error_text m | None \<Rightarrow> policy_error)"

text \<open>\<open>policy_error\<close> is the JSON crate's message for a malformed delegation.\<close>

definition dispatch_request ::
  "string \<Rightarrow> int \<Rightarrow> string \<Rightarrow> timer_task \<Rightarrow> int option \<Rightarrow> timer_core \<Rightarrow> dispatch_next \<times> timer_core" where
  "dispatch_request policy_error now uuid t at c =
     (let inputs = task_effective_inputs t
      in if length inputs \<le> 1 then
           (case task_run_request t of
              Inl e \<Rightarrow>
                (DispatchDone,
                 handle_runner_error now uuid t at (RunnerInvalid (request_error_text e policy_error)) c)
            | Inr r \<Rightarrow> (SubmitOne r, c))
         else (SubmitMany inputs, c))"

definition dispatch_start ::
  "string \<Rightarrow> (string \<Rightarrow> bool) \<Rightarrow> int \<Rightarrow> string \<Rightarrow> timer_task \<Rightarrow> int option \<Rightarrow> timer_core
    \<Rightarrow> dispatch_next \<times> timer_core" where
  "dispatch_start policy_error supports now uuid t at c =
     (let (claimed, c1) = (case at of
            None \<Rightarrow> (Some True, c)
          | Some x \<Rightarrow> db_access (claim_scheduled_run (tk_id t) x) c)
      in case claimed of
           None \<Rightarrow> (DispatchDone, event EvFailed c1)
         | Some False \<Rightarrow> (DispatchDone, event EvSkipped c1)
         | Some True \<Rightarrow>
             if \<not> supports (tk_runner t) then
               let reason = missing_reason (tk_runner t)
               in (DispatchDone,
                   finish_rejected now uuid t at ''failed'' None (Some reason)
                     (db_try (set_dependency_missing (tk_id t) reason now) (event EvFailed c1)))
             else dispatch_request policy_error now uuid t at c1)"

text \<open>The registration of a run the runner accepted, and the completion it may have beaten.\<close>

definition register_active_run :: "string \<Rightarrow> string \<Rightarrow> timer_core \<Rightarrow> timer_core" where
  "register_active_run i rid c =
     (if rid \<in> tc_completed c then c\<lparr>tc_completed := tc_completed c - {rid}\<rparr>
      else c\<lparr>tc_active := (tc_active c)(i \<mapsto> rid)\<rparr>)"

definition dispatch_settle ::
  "int \<Rightarrow> string \<Rightarrow> timer_task \<Rightarrow> int option \<Rightarrow> (runner_error, string) result \<Rightarrow> timer_core
    \<Rightarrow> timer_core" where
  "dispatch_settle now uuid t at r c =
     (case r of
        Inr rid \<Rightarrow>
          let c1 = register_active_run (tk_id t) rid c
          in (case at of
                None \<Rightarrow> c1
              | Some x \<Rightarrow> db_try (attach_scheduled_run (tk_id t) x rid) c1)
      | Inl e \<Rightarrow> handle_runner_error now uuid t at e c)"

text \<open>The hook that a runner calls when a run ends, and the write it spawns.\<close>

definition completion_hook ::
  "bool \<Rightarrow> int \<Rightarrow> nat \<Rightarrow> timer_task \<Rightarrow> timer_completion \<Rightarrow> timer_core \<Rightarrow> timer_core" where
  "completion_hook hk now elapsed t cp c =
     (let (st, err) = (case cp_outcome cp of
            TimerSuccess \<Rightarrow> (''success'', None)
          | TimerFailed e \<Rightarrow> (''failed'', Some e)
          | TimerCancelled \<Rightarrow> (''cancelled'', None));
          c1 = (if hk then c\<lparr>tc_results := tc_results c @ [(t,
                 \<lparr>tr_event = ''run:'' @ cp_run cp, tr_run = Some (cp_run cp), tr_state = st,
                  tr_error = err, tr_finished = now, tr_elapsed = elapsed\<rparr>)]\<rparr> else c)
      in if tc_active c1 (cp_task cp) = Some (cp_run cp)
         then c1\<lparr>tc_active := (tc_active c1)(cp_task cp := None)\<rparr>
         else c1\<lparr>tc_completed := insert (cp_run cp) (tc_completed c1)\<rparr>)"

definition completion_write :: "int \<Rightarrow> timer_completion \<Rightarrow> timer_core \<Rightarrow> timer_core" where
  "completion_write now cp c =
     (let (st, label, err) = (case cp_outcome cp of
            TimerSuccess \<Rightarrow> (''success'', SUCCESS_LABEL, None)
          | TimerFailed e \<Rightarrow> (''failed'', FAILURE_LABEL, Some e)
          | TimerCancelled \<Rightarrow> (''skipped'', CANCEL_LABEL, Some RUN_CANCELLED));
          c1 = (case cp_at cp of
            Some x \<Rightarrow> db_try (\<lambda>db. snd (finish_scheduled_run (cp_task cp) x st (Some (cp_run cp)) err db)) c
          | None \<Rightarrow> c);
          c2 = db_try (update_task_result (cp_task cp) label now) c1
      in c2\<lparr>tc_generation := tc_generation c2 + 1\<rparr>)"

section \<open>Run now\<close>

text \<open>
  \<^verbatim>\<open>submit_now\<close> up to the runner: a refusal, or the request or inputs to hand over.
  Three accesses that may fail precede the refusal of a missing runner.
\<close>

definition submit_now_start ::
  "string \<Rightarrow> (string \<Rightarrow> bool) \<Rightarrow> int \<Rightarrow> string \<Rightarrow> string \<Rightarrow> timer_task \<Rightarrow> timer_core
    \<Rightarrow> (runner_error, dispatch_next) result \<times> timer_core" where
  "submit_now_start policy_error supports now uuid db_error t c =
     (if \<not> supports (tk_runner t) then
        let reason = missing_reason (tk_runner t);
            mark = set_dependency_missing (tk_id t) reason now;
            result = update_task_result (tk_id t) FAILURE_LABEL now
        in if \<not> db_ok mark c then (Inl (RunnerOther db_error), db_try mark c)
           else
             let c1 = db_try mark c
             in if \<not> db_ok result c1 then (Inl (RunnerOther db_error), db_try result c1)
                else
                  let c2 = finish_rejected now uuid t None ''failed'' None (Some reason) (db_try result c1)
                  in (Inl (RunnerMissing reason), notify_changed c2)
      else if \<not> is_schedulable t
      then (Inl (RunnerInvalid ''timer task is not active''), c)
      else
        let inputs = task_effective_inputs t
        in if 1 < length inputs then (Inr (SubmitMany inputs), c)
           else (case task_run_request t of
                   Inl e \<Rightarrow>
                     let err = RunnerInvalid (request_error_text e policy_error)
                     in (Inl err, handle_runner_error now uuid t None err c)
                 | Inr r \<Rightarrow> (Inr (SubmitOne r), c)))"

definition submit_now_settle ::
  "int \<Rightarrow> string \<Rightarrow> timer_task \<Rightarrow> (runner_error, string) result \<Rightarrow> timer_core
    \<Rightarrow> (runner_error, string) result \<times> timer_core" where
  "submit_now_settle now uuid t r c =
     (case r of
        Inr rid \<Rightarrow> (Inr rid, register_active_run (tk_id t) rid c)
      | Inl (RunnerMissing reason) \<Rightarrow>
          (Inl (RunnerMissing reason),
           finish_rejected now uuid t None ''failed'' None (Some reason)
             (db_try (set_dependency_missing (tk_id t) reason now) (event EvFailed c)))
      | Inl e \<Rightarrow> (Inl e, handle_runner_error now uuid t None e c))"

section \<open>Life cycle of tasks\<close>

definition save_task :: "timer_task \<Rightarrow> timer_core \<Rightarrow> bool \<times> timer_core" where
  "save_task t c =
     (if db_ok (upsert_timer_task t) c
      then (True, notify_changed (db_try (upsert_timer_task t) c))
      else (False, db_try (upsert_timer_task t) c))"

definition delete_task :: "string \<Rightarrow> timer_core \<Rightarrow> bool \<times> timer_core" where
  "delete_task i c =
     (if db_ok (delete_timer_task i) c
      then (True, notify_changed (db_try (delete_timer_task i) c))
      else (False, db_try (delete_timer_task i) c))"

definition active_task_run_id :: "string \<Rightarrow> timer_core \<Rightarrow> string option" where
  "active_task_run_id i c = tc_active c i"

text \<open>
  \<^verbatim>\<open>cancel_task\<close>: the run to cancel is the registered one; \<open>cancelled\<close> is the
  runners' answer for it. The result is whether the task was cancelled.
\<close>

definition cancel_task ::
  "(string \<Rightarrow> (runner_error, unit) result) \<Rightarrow> int \<Rightarrow> string \<Rightarrow> timer_core \<Rightarrow> bool \<times> timer_core" where
  "cancel_task cancelled now i c =
     (let mark = set_timer_task_state i TaskCancelled False None now
      in case tc_active c i of
           Some rid \<Rightarrow>
             (case cancelled rid of
                Inl _ \<Rightarrow> (False, c)
              | Inr _ \<Rightarrow> (db_ok mark c, notify_changed (db_try mark c)))
         | None \<Rightarrow> (db_ok mark c, notify_changed (db_try mark c)))"

definition suspend_task :: "int \<Rightarrow> string \<Rightarrow> string \<Rightarrow> timer_core \<Rightarrow> bool \<times> timer_core" where
  "suspend_task now i reason c =
     (let mark = suspend_timer_task i reason now
      in (db_ok mark c, notify_changed (db_try mark c)))"

datatype resume_error = ResumeDb | ResumeNotFound | ResumeCancelled | ResumeSchedule string

definition resume_task ::
  "(task_schedule \<Rightarrow> int \<Rightarrow> (string, int option) result) \<Rightarrow> int \<Rightarrow> string \<Rightarrow> timer_core
    \<Rightarrow> (resume_error, unit) result \<times> timer_core" where
  "resume_task next_after now i c =
     (case db_access (\<lambda>db. (get_timer_task db i, db)) c of
        (None, c1) \<Rightarrow> (Inl ResumeDb, c1)
      | (Some None, c1) \<Rightarrow> (Inl ResumeNotFound, c1)
      | (Some (Some t), c1) \<Rightarrow>
          if tk_state t = TaskCancelled then (Inl ResumeCancelled, c1)
          else (case next_after (tk_schedule t) now of
                  Inl e \<Rightarrow> (Inl (ResumeSchedule e), c1)
                | Inr next \<Rightarrow>
                    let mark = set_timer_task_state i TaskActive True None now;
                        wake = set_timer_task_wakeup i (map_option timestamp next) now
                    in if \<not> db_ok mark c1 then (Inl ResumeDb, db_try mark c1)
                       else
                         let c2 = db_try mark c1
                         in if \<not> db_ok wake c2 then (Inl ResumeDb, db_try wake c2)
                            else (Inr (), notify_changed (db_try wake c2))))"

text \<open>
  \<^verbatim>\<open>on_app_package_uninstalled\<close> over the listed tasks; it stops at the first
  access that fails.
\<close>

definition of_package :: "string \<Rightarrow> timer_task \<Rightarrow> bool" where
  "of_package package t \<longleftrightarrow> app_content_package (tk_app t) = Some package
     \<or> app_android_package (tk_app t) = Some package"

fun suspend_all :: "int \<Rightarrow> timer_task list \<Rightarrow> timer_core \<Rightarrow> bool \<times> timer_core" where
  "suspend_all now [] c = (True, c)"
| "suspend_all now (t # ts) c =
     (let mark = suspend_timer_task (tk_id t) ''app package unavailable'' now
      in if db_ok mark c then suspend_all now ts (db_try mark c) else (False, db_try mark c))"

definition on_app_package_uninstalled ::
  "int \<Rightarrow> timer_task list \<Rightarrow> string \<Rightarrow> timer_core \<Rightarrow> nat option \<times> timer_core" where
  "on_app_package_uninstalled now listed package c =
     (let matching = filter (of_package package) (filter is_schedulable listed)
      in case suspend_all now matching c of
           (True, c1) \<Rightarrow> (Some (length matching), notify_changed c1)
         | (False, c1) \<Rightarrow> (None, c1))"

definition suspend_tasks_missing_runner ::
  "int \<Rightarrow> string \<Rightarrow> timer_core \<Rightarrow> nat option \<times> timer_core" where
  "suspend_tasks_missing_runner now runner c =
     (case db_access (\<lambda>db. (count_where (bound_to runner) db, suspend_active_for_runner runner now db)) c of
        (None, c1) \<Rightarrow> (None, c1)
      | (Some n, c1) \<Rightarrow> (Some n, notify_changed c1))"

fun resume_all ::
  "(task_schedule \<Rightarrow> int \<Rightarrow> (string, int option) result) \<Rightarrow> int \<Rightarrow> string \<Rightarrow> timer_task list \<Rightarrow> nat
    \<Rightarrow> timer_core \<Rightarrow> nat option \<times> timer_core" where
  "resume_all next_after now runner [] n c = (Some n, c)"
| "resume_all next_after now runner (t # ts) n c =
     (case next_after (tk_schedule t) now of
        Inl _ \<Rightarrow> resume_all next_after now runner ts n c
      | Inr next \<Rightarrow>
          (case db_access (resume_from_missing (tk_id t) runner (map_option timestamp next) now) c of
             (None, c1) \<Rightarrow> (None, c1)
           | (Some b, c1) \<Rightarrow> resume_all next_after now runner ts (if b then n + 1 else n) c1))"

text \<open>\<open>listed\<close> are the rows of \<^verbatim>\<open>list_timer_tasks_missing_runner\<close>.\<close>

definition resume_tasks_missing_runner ::
  "(task_schedule \<Rightarrow> int \<Rightarrow> (string, int option) result) \<Rightarrow> int \<Rightarrow> timer_task list \<Rightarrow> string
    \<Rightarrow> timer_core \<Rightarrow> nat option \<times> timer_core" where
  "resume_tasks_missing_runner next_after now listed runner c =
     (case resume_all next_after now runner listed 0 c of
        (None, c1) \<Rightarrow> (None, c1)
      | (Some n, c1) \<Rightarrow> (Some n, notify_changed c1))"

section \<open>The scheduling loop\<close>

definition LOOKBACK :: int where "LOOKBACK = 3600 * 1000000000"

definition min_instant :: "int option \<Rightarrow> int \<Rightarrow> int option" where
  "min_instant current candidate =
     Some (case current of Some x \<Rightarrow> min x candidate | None \<Rightarrow> candidate)"

text \<open>
  Whether a task is due, after the cursor and the schedule: due at an instant, not due
  but to be woken at one, idle, or its schedule rejected. \<open>cursor\<close> asks that the instant
  be written as the new cursor.
\<close>

datatype due = Due int | WakeAt bool int | NoWake | Rejected

definition recompute ::
  "(int \<Rightarrow> int \<Rightarrow> (string, int option) result) \<Rightarrow> (int \<Rightarrow> (string, int option) result) \<Rightarrow> int \<Rightarrow> due" where
  "recompute latest next now =
     (case latest now LOOKBACK of
        Inl _ \<Rightarrow> Rejected
      | Inr (Some v) \<Rightarrow> Due v
      | Inr None \<Rightarrow>
          (case next now of
             Inl _ \<Rightarrow> Rejected
           | Inr (Some v) \<Rightarrow> WakeAt True v
           | Inr None \<Rightarrow> NoWake))"

definition due_decision ::
  "(int \<Rightarrow> int \<Rightarrow> (string, int option) result) \<Rightarrow> (int \<Rightarrow> (string, int option) result) \<Rightarrow> int
    \<Rightarrow> int option \<Rightarrow> due" where
  "due_decision latest next now wakeup =
     (let d = (case wakeup of
          Some v \<Rightarrow>
            if v \<le> now \<and> now - LOOKBACK \<le> v then Due v
            else if v < now - LOOKBACK then recompute latest next now
            else WakeAt False v
        | None \<Rightarrow> recompute latest next now)
      in case d of Due v \<Rightarrow> if now < v then WakeAt False v else Due v | _ \<Rightarrow> d)"

text \<open>
  One task of a round: the occurrence to dispatch, in seconds, with the task as it is
  handed over, the instant the loop is to be woken at, and the accesses made.
\<close>

definition visit_task ::
  "extension \<Rightarrow> int \<Rightarrow> string \<Rightarrow> timer_task \<Rightarrow> int option \<Rightarrow> timer_core
    \<Rightarrow> (timer_task \<times> int) option \<times> int option \<times> timer_core" where
  "visit_task x now uuid t wake c =
     (if \<not> is_schedulable t then (None, wake, c)
      else
        let next = ex_next x (tk_schedule t); latest = ex_latest x (tk_schedule t)
        in case due_decision latest next now (tk_next_wakeup t) of
             Rejected \<Rightarrow> (None, wake, reject_schedule now uuid t c)
           | NoWake \<Rightarrow> (None, wake, c)
           | WakeAt cursor v \<Rightarrow>
               (None, min_instant wake v,
                if cursor then db_try (set_timer_task_wakeup (tk_id t) (Some (timestamp v)) now) c else c)
           | Due v \<Rightarrow>
               (case next now of
                  Inl _ \<Rightarrow> (None, wake, reject_schedule now uuid t c)
                | Inr n \<Rightarrow>
                    let mark = set_timer_task_wakeup (tk_id t) (map_option timestamp n) now
                    in if db_ok mark c
                       then (Some (t\<lparr>tk_next_wakeup := n\<rparr>, timestamp v),
                             (case n of None \<Rightarrow> wake | Some w \<Rightarrow> min_instant wake w), db_try mark c)
                       else (None, wake, db_try mark c)))"

text \<open>How long the loop then sleeps, in nanoseconds.\<close>

definition loop_wait :: "int \<Rightarrow> int option \<Rightarrow> int" where
  "loop_wait now wake =
     min (case wake of
            Some v \<Rightarrow> if now \<le> v then v - now else 10 * 1000000000
          | None \<Rightarrow> 10 * 1000000000) (60 * 1000000000)"

text \<open>\<^verbatim>\<open>next_wakeup_at\<close> and \<^verbatim>\<open>next_wakeup_in\<close> over the listed tasks.\<close>

definition next_wakeup_at :: "timer_task list \<Rightarrow> int option" where
  "next_wakeup_at listed =
     (case List.map_filter tk_next_wakeup (filter is_schedulable listed) of
        [] \<Rightarrow> None
      | v # vs \<Rightarrow> Some (foldl min v vs))"

definition next_wakeup_in :: "timer_task list \<Rightarrow> int \<Rightarrow> int option" where
  "next_wakeup_in listed now =
     map_option (\<lambda>v. max 0 ((v - now) div 1000000000)) (next_wakeup_at listed)"

end
