(* ===== verification/TimerBatch.thy ===== *)
theory TimerBatch
  imports TimerCore
begin

text \<open>
  Tasks with several inputs (\<^verbatim>\<open>MultiFinisher\<close>, \<^verbatim>\<open>dispatch_multi\<close> of
  \<^verbatim>\<open>server/src/timer_core.rs\<close>): the request of each input, the shared finisher that
  settles the batch, and the batch as a system in which every input's task is
  interleaved under the permits of a semaphore.
\<close>

section \<open>The finisher\<close>

record multi_finisher =
  mf_expected :: nat
  mf_done :: bool
  mf_rows :: "input_result list"
  mf_task :: timer_task
  mf_at :: "int option"
  mf_event :: string

definition finisher_new :: "string \<Rightarrow> timer_task \<Rightarrow> nat \<Rightarrow> int option \<Rightarrow> multi_finisher" where
  "finisher_new uuid t expected at =
     \<lparr>mf_expected = expected, mf_done = False, mf_rows = [], mf_task = t, mf_at = at,
      mf_event = (case at of
        Some x \<Rightarrow> ''schedule:'' @ tk_id t @ '':summary:'' @ int_text x
      | None \<Rightarrow> ''task:'' @ tk_id t @ '':summary:'' @ uuid)\<rparr>"

definition CANCELLED_TEXT :: string where
  "CANCELLED_TEXT = utf8 [229, 183, 178, 229, 143, 150, 230, 182, 136]"

definition SUBMIT_FAILED_TEXT :: string where
  "SUBMIT_FAILED_TEXT = utf8 [230, 143, 144, 228, 186, 164, 229, 164, 177, 232, 180, 165]"

definition outcome_row :: "int \<Rightarrow> string \<Rightarrow> timer_outcome \<Rightarrow> nat \<Rightarrow> input_result" where
  "outcome_row now i out elapsed =
     \<lparr>ir_input = i, ir_label = None, ir_state = outcome_name out,
      ir_error = (case out of
        TimerFailed m \<Rightarrow> Some m | TimerCancelled \<Rightarrow> Some CANCELLED_TEXT | TimerSuccess \<Rightarrow> None),
      ir_finished = now, ir_elapsed = elapsed\<rparr>"

text \<open>One input's outcome, and whether it was the one that settles the batch.\<close>

definition finisher_record ::
  "int \<Rightarrow> string \<Rightarrow> timer_outcome \<Rightarrow> nat \<Rightarrow> multi_finisher \<Rightarrow> multi_finisher \<times> bool" where
  "finisher_record now i out elapsed f =
     (if mf_done f then (f, False)
      else
        let f1 = f\<lparr>mf_rows := mf_rows f @ [outcome_row now i out elapsed]\<rparr>
        in if mf_expected f1 \<le> length (mf_rows f1) then (f1\<lparr>mf_done := True\<rparr>, True) else (f1, False))"

definition input_label :: "json \<Rightarrow> string option" where
  "input_label j =
     (case Option.bind (json_get ''label'' j) as_str of
        None \<Rightarrow> None
      | Some s \<Rightarrow> if trim s = [] then None else Some (trim s))"

definition with_label :: "string option \<Rightarrow> input_result \<Rightarrow> input_result" where
  "with_label l r = (if ir_label r = None then r\<lparr>ir_label := l\<rparr> else r)"

definition missing_row :: "int \<Rightarrow> json \<Rightarrow> input_result" where
  "missing_row now j =
     \<lparr>ir_input = input_id j, ir_label = input_label j, ir_state = ''failed'',
      ir_error = Some SUBMIT_FAILED_TEXT, ir_finished = now, ir_elapsed = 0\<rparr>"

text \<open>The rows in the order of the inputs; each input consumes the first row of its id.\<close>

fun summary_rows :: "int \<Rightarrow> json list \<Rightarrow> input_result list \<Rightarrow> input_result list" where
  "summary_rows now [] rows = []"
| "summary_rows now (j # js) rows =
     (case remove_first (\<lambda>r. ir_input r = input_id j) rows of
        Some (r, rest) \<Rightarrow> with_label (input_label j) r # summary_rows now js rest
      | None \<Rightarrow> with_label (input_label j) (missing_row now j) # summary_rows now js rows)"

definition ordered_summary :: "int \<Rightarrow> multi_finisher \<Rightarrow> input_result list" where
  "ordered_summary now f = summary_rows now (tk_inputs (mf_task f)) (mf_rows f)"

definition ok_count :: "input_result list \<Rightarrow> nat" where
  "ok_count rows = length (filter (\<lambda>r. ir_state r = ''success'') rows)"

definition PARTIAL_TEXT :: string where
  "PARTIAL_TEXT = utf8 [233, 131, 168, 229, 136, 134, 230, 136, 144, 229, 138, 159, 32]"

definition folded_label :: "input_result list \<Rightarrow> string" where
  "folded_label rows =
     (let total = max (length rows) 1; ok = ok_count rows; failed = total - ok
      in if failed = 0 then SUCCESS_LABEL
         else if ok = 0 then FAILURE_LABEL
         else PARTIAL_TEXT @ nat_text ok @ ''/'' @ nat_text total)"

text \<open>The error text of the one notification.\<close>

definition row_text :: "input_result \<Rightarrow> string" where
  "row_text r = (case ir_label r of Some l \<Rightarrow> l | None \<Rightarrow> ir_input r) @ utf8 [239, 188, 154]
     @ (case ir_error r of Some e \<Rightarrow> e | None \<Rightarrow> ir_state r)"

fun join_texts :: "string \<Rightarrow> string list \<Rightarrow> string" where
  "join_texts sep [] = []"
| "join_texts sep [s] = s"
| "join_texts sep (s # t # ts) = s @ sep @ join_texts sep (t # ts)"

definition failed_rows :: "input_result list \<Rightarrow> input_result list" where
  "failed_rows rows = filter (\<lambda>r. ir_state r \<noteq> ''success'') rows"

definition summary_result :: "int \<Rightarrow> nat \<Rightarrow> multi_finisher \<Rightarrow> input_result list \<Rightarrow> task_result" where
  "summary_result now elapsed f rows =
     (let failed = length rows - ok_count rows
      in \<lparr>tr_event = mf_event f, tr_run = None,
          tr_state = (if failed = 0 then ''success'' else ''failed''),
          tr_error = (if 0 < failed
             then Some (join_texts (utf8 [239, 188, 155]) (map row_text (failed_rows rows))) else None),
          tr_finished = now, tr_elapsed = elapsed\<rparr>)"

text \<open>\<^verbatim>\<open>finalize\<close>: the summary and the claim are written, one notification is sent.\<close>

definition finisher_finalize ::
  "int \<Rightarrow> nat \<Rightarrow> multi_finisher \<Rightarrow> input_result list \<Rightarrow> timer_core \<Rightarrow> timer_core" where
  "finisher_finalize now elapsed f rows c =
     (let t = mf_task f; failed = max (length rows) 1 - ok_count rows;
          c1 = db_try (update_result_summary (tk_id t) rows (Some (folded_label rows)) now) c;
          c2 = (case mf_at f of
            None \<Rightarrow> c1
          | Some at \<Rightarrow>
              let err = (case List.map_filter ir_error (failed_rows rows) of e # _ \<Rightarrow> Some e | [] \<Rightarrow> None)
              in db_try (\<lambda>db. snd (finish_scheduled_run (tk_id t) at
                   (if failed = 0 then ''success'' else ''failed'') None err db)) c1)
      in call_result_hook (t\<lparr>tk_summary := Some rows\<rparr>) (summary_result now elapsed f rows) c2)"

section \<open>The request of one input\<close>

definition DEVICE_OVERRIDE_TEXT :: string where
  "DEVICE_OVERRIDE_TEXT = utf8
    [232, 174, 190, 229, 164, 135, 232, 166, 134, 231, 155, 150, 230, 151, 160, 230, 149, 136, 239,
     188, 154]"

definition override_device :: "app_context \<Rightarrow> json \<Rightarrow> (model_error, app_context) result" where
  "override_device app j =
     (case Option.bind (json_get ''device_id'' j) as_str of
        None \<Rightarrow> Inr app
      | Some d \<Rightarrow>
          (case device_id_new d of
             Inl e \<Rightarrow> Inl e
           | Inr i \<Rightarrow> Inr (app\<lparr>app_device := i\<rparr>)))"

definition input_request :: "string \<Rightarrow> timer_task \<Rightarrow> json \<Rightarrow> (runner_error, run_request) result" where
  "input_request policy_error t j =
     (case override_device (tk_app t) j of
        Inl e \<Rightarrow> Inl (RunnerInvalid (DEVICE_OVERRIDE_TEXT @ model_error_text e))
      | Inr app \<Rightarrow>
          (case for_app app (tk_runner t) (tk_entrypoint t) (merge_payload (tk_payload t) j) of
             Inl e \<Rightarrow> Inl (RunnerInvalid (model_error_text e))
           | Inr r \<Rightarrow>
               (case from_task_extensions (tk_extensions t) of
                  Inl _ \<Rightarrow> Inl (RunnerInvalid policy_error)
                | Inr p \<Rightarrow> Inr (r\<lparr>rq_policy := p\<rparr>))))"

section \<open>A batch\<close>

text \<open>
  Where an input's task stands. A permit is held from the acquisition to the completion
  or the refusal; \<open>Answered\<close> is a run that completed before its submission returned.
\<close>

datatype input_phase =
    PreFailed runner_error
  | Waiting
  | Submitting
  | Answered
  | InFlight
  | Finished

fun holds_permit :: "input_phase \<Rightarrow> bool" where
  "holds_permit Submitting = True"
| "holds_permit InFlight = True"
| "holds_permit _ = False"

record batch =
  bt_task :: timer_task
  bt_phase :: "input_phase list"
  bt_finisher :: multi_finisher
  bt_outcome :: "timer_outcome option list"
  bt_finals :: "input_result list list"

definition holders :: "batch \<Rightarrow> nat" where
  "holders b = length (filter holds_permit (bt_phase b))"

definition batch_start :: "string \<Rightarrow> string \<Rightarrow> timer_task \<Rightarrow> int option \<Rightarrow> batch" where
  "batch_start policy_error uuid t at =
     \<lparr>bt_task = t,
      bt_phase = map (\<lambda>j. case input_request policy_error t j of
                     Inl e \<Rightarrow> PreFailed e | Inr _ \<Rightarrow> Waiting) (tk_inputs t),
      bt_finisher = finisher_new uuid t (length (tk_inputs t)) at,
      bt_outcome = map (\<lambda>_. None) (tk_inputs t), bt_finals = []\<rparr>"

definition move :: "nat \<Rightarrow> input_phase \<Rightarrow> batch \<Rightarrow> batch" where
  "move i p b = b\<lparr>bt_phase := (bt_phase b)[i := p]\<rparr>"

definition note_outcome :: "int \<Rightarrow> nat \<Rightarrow> nat \<Rightarrow> timer_outcome \<Rightarrow> batch \<Rightarrow> batch" where
  "note_outcome now elapsed i out b =
     (case finisher_record now (input_id (tk_inputs (bt_task b) ! i)) out elapsed (bt_finisher b) of
        (f, settled) \<Rightarrow>
          b\<lparr>bt_finisher := f, bt_outcome := (bt_outcome b)[i := Some out],
            bt_finals := (if settled then bt_finals b @ [ordered_summary now f] else bt_finals b)\<rparr>)"

text \<open>
  The steps of the inputs' tasks. A runner that has called the completion does not refuse
  the submission afterwards; a submission that panics is recorded by its watcher.
\<close>

inductive batch_step :: "batch \<Rightarrow> batch \<Rightarrow> bool" where
  acquires: "i < length (bt_phase b) \<Longrightarrow> bt_phase b ! i = Waiting
    \<Longrightarrow> holders b < concurrency_limit (bt_task b) \<Longrightarrow> batch_step b (move i Submitting b)"
| completes_early: "i < length (bt_phase b) \<Longrightarrow> bt_phase b ! i = Submitting
    \<Longrightarrow> batch_step b (move i Answered (note_outcome now elapsed i out b))"
| completes: "i < length (bt_phase b) \<Longrightarrow> bt_phase b ! i = InFlight
    \<Longrightarrow> batch_step b (move i Finished (note_outcome now elapsed i out b))"
| accepted_run: "i < length (bt_phase b) \<Longrightarrow> bt_phase b ! i = Submitting
    \<Longrightarrow> batch_step b (move i InFlight b)"
| accepted_late: "i < length (bt_phase b) \<Longrightarrow> bt_phase b ! i = Answered
    \<Longrightarrow> batch_step b (move i Finished b)"
| refused: "i < length (bt_phase b) \<Longrightarrow> bt_phase b ! i = Submitting
    \<Longrightarrow> batch_step b (move i Finished (note_outcome now 0 i (outcome_of_error e) b))"
| panics: "i < length (bt_phase b) \<Longrightarrow> bt_phase b ! i = Submitting
    \<Longrightarrow> batch_step b (move i Finished (note_outcome now 0 i (TimerFailed m) b))"
| prefailed: "i < length (bt_phase b) \<Longrightarrow> bt_phase b ! i = PreFailed e
    \<Longrightarrow> batch_step b (move i Finished (note_outcome now 0 i (outcome_of_error e) b))"

end
