(* ===== verification/TimerSystem.thy ===== *)
theory TimerSystem
  imports TimerBatch
begin

text \<open>
  The timer as one system: every operation of the core, in any order, with any faults of
  the database, restarts of the server included; beside it the occurrences that were
  handed to a runner. No operation ever removes a claim.
\<close>

section \<open>Claims are kept\<close>

definition claims :: "timer_core \<Rightarrow> (string \<times> int) set" where
  "claims c = dom (tb_runs (tc_db c))"

definition grows :: "timer_core \<Rightarrow> timer_core \<Rightarrow> bool" where
  "grows c c' \<longleftrightarrow> claims c \<subseteq> claims c'"

lemma grows_refl [intro, simp]: "grows c c"
  by (simp add: grows_def)

lemma grows_trans: "grows a b \<Longrightarrow> grows b c \<Longrightarrow> grows a c"
  by (auto simp: grows_def)

text \<open>The contract of an access that keeps the claims, and what follows for a core.\<close>

locale claim_keeper =
  fixes access :: "timer_db \<Rightarrow> timer_db"
  assumes keeps: "dom (tb_runs db) \<subseteq> dom (tb_runs (access db))"
begin

lemma grows_try: "grows c d \<Longrightarrow> grows c (db_try access d)"
  using keeps [of "tc_db d"]
  by (auto simp: grows_def claims_def db_try_def db_access_def split: list.splits bool.splits)

end

interpretation wakeup_keeper: claim_keeper "set_timer_task_wakeup i n now" for i n now
  by unfold_locales simp
interpretation state_keeper: claim_keeper "set_timer_task_state i st en reason now" for i st en reason now
  by unfold_locales simp
interpretation missing_keeper: claim_keeper "set_dependency_missing i why now" for i why now
  by unfold_locales simp
interpretation suspend_keeper: claim_keeper "suspend_timer_task i why now" for i why now
  by unfold_locales simp
interpretation result_keeper: claim_keeper "update_task_result i r now" for i r now
  by unfold_locales simp
interpretation summary_keeper: claim_keeper "update_result_summary i rows f now" for i rows f now
  by unfold_locales simp
interpretation upsert_keeper: claim_keeper "upsert_timer_task t" for t
  by unfold_locales (simp add: upsert_timer_task_def)
interpretation delete_keeper: claim_keeper "delete_timer_task i" for i
  by unfold_locales (simp add: delete_timer_task_def)
interpretation attach_keeper: claim_keeper "attach_scheduled_run i at rid" for i at rid
  by unfold_locales (auto simp: attach_scheduled_run_def split: option.splits)
interpretation finish_keeper: claim_keeper "\<lambda>db. snd (finish_scheduled_run i at st r e db)" for i at st r e
  by unfold_locales (auto simp: finish_scheduled_run_def split: option.splits)

lemma same_claims:
  "claims (event e c) = claims c" "claims (call_result_hook t r c) = claims c"
  "claims (notify_changed c) = claims c" "claims (register_active_run i rid c) = claims c"
  "claims (completion_hook hk now el t cp c) = claims c"
  "claims (c\<lparr>tc_generation := n\<rparr>) = claims c" "claims (c\<lparr>tc_faults := fs\<rparr>) = claims c"
  by (auto simp: claims_def event_def call_result_hook_def notify_changed_def register_active_run_def
      completion_hook_def Let_def split: prod.splits timer_outcome.splits)

lemma grows_same:
  "grows c (event e d) \<longleftrightarrow> grows c d" "grows c (call_result_hook t r d) \<longleftrightarrow> grows c d"
  "grows c (notify_changed d) \<longleftrightarrow> grows c d" "grows c (register_active_run i rid d) \<longleftrightarrow> grows c d"
  "grows c (completion_hook hk now el t cp d) \<longleftrightarrow> grows c d"
  "grows c (d\<lparr>tc_generation := n\<rparr>) \<longleftrightarrow> grows c d" "grows c (d\<lparr>tc_faults := fs\<rparr>) \<longleftrightarrow> grows c d"
  by (simp_all add: grows_def same_claims)

text \<open>The rules by which the operations below are shown to keep the claims.\<close>

lemmas keepers = wakeup_keeper.grows_try state_keeper.grows_try missing_keeper.grows_try
  suspend_keeper.grows_try result_keeper.grows_try summary_keeper.grows_try
  upsert_keeper.grows_try delete_keeper.grows_try attach_keeper.grows_try
  finish_keeper.grows_try

lemma grows_access:
  assumes "db_access f c = (a, c')" "\<And>db. dom (tb_runs db) \<subseteq> dom (tb_runs (snd (f db)))"
  shows "grows c c'"
  using assms(1) assms(2) [of "tc_db c"]
  by (auto simp: grows_def claims_def db_access_def split: list.splits bool.splits prod.splits)

lemma grows_finish_rejected: "grows c d \<Longrightarrow> grows c (finish_rejected now uuid t at st rid err d)"
  by (cases at) (simp_all add: finish_rejected_def Let_def keepers grows_same)

lemma grows_handle_error: "grows c d \<Longrightarrow> grows c (handle_runner_error now uuid t at e d)"
  by (cases e) (simp_all add: handle_runner_error_def grows_finish_rejected keepers grows_same)

lemma grows_reject_schedule: "grows c d \<Longrightarrow> grows c (reject_schedule now uuid t d)"
  by (simp add: reject_schedule_def Let_def grows_finish_rejected keepers grows_same)

lemmas op_keepers = keepers grows_finish_rejected grows_handle_error grows_reject_schedule

lemma grows_dispatch_request: "grows c (snd (dispatch_request pe now uuid t at c))"
  by (auto simp: dispatch_request_def Let_def op_keepers split: sum.splits)

lemma grows_dispatch_settle: "grows c (dispatch_settle now uuid t at r c)"
  by (cases r; cases at) (simp_all add: dispatch_settle_def Let_def op_keepers grows_same)

lemma grows_completion_write: "grows c (completion_write now cp c)"
  by (cases "cp_outcome cp"; cases "cp_at cp")
    (simp_all add: completion_write_def Let_def op_keepers grows_same)

lemma grows_finalize: "grows c (finisher_finalize now el f rows c)"
  by (cases "mf_at f") (simp_all add: finisher_finalize_def Let_def op_keepers grows_same)

text \<open>A dispatch of an occurrence: it goes on only if the occurrence was unclaimed, and claims it.\<close>

lemma claim_access:
  assumes "db_access (claim_scheduled_run i x) c = (r, c1)"
  shows "grows c c1" "r = Some True \<longrightarrow> (i, x) \<notin> claims c \<and> (i, x) \<in> claims c1"
  using assms
  by (auto simp: grows_def claims_def db_access_def claim_scheduled_run_def
      split: list.splits bool.splits prod.splits option.splits)

lemma dispatch_start_planned:
  assumes "db_access (claim_scheduled_run (tk_id t) x) c = (r, c1)"
  shows "grows c1 (snd (dispatch_start pe supports now uuid t (Some x) c))"
    and "fst (dispatch_start pe supports now uuid t (Some x) c) \<noteq> DispatchDone \<longrightarrow> r = Some True"
  using grows_dispatch_request [of c1 pe now uuid t "Some x"]
  by (auto simp: dispatch_start_def assms Let_def op_keepers grows_same split: option.splits bool.splits)

lemma dispatch_start_claims:
  "grows c (snd (dispatch_start pe supports now uuid t (Some x) c))"
  "fst (dispatch_start pe supports now uuid t (Some x) c) \<noteq> DispatchDone
   \<Longrightarrow> (tk_id t, x) \<notin> claims c \<and> (tk_id t, x) \<in> claims (snd (dispatch_start pe supports now uuid t (Some x) c))"
proof -
  obtain r c1 where r: "db_access (claim_scheduled_run (tk_id t) x) c = (r, c1)" by fastforce
  note a = claim_access [OF r] and b = dispatch_start_planned [OF r, of pe supports now uuid]
  show "grows c (snd (dispatch_start pe supports now uuid t (Some x) c))"
    using a(1) b(1) by (rule grows_trans)
  assume "fst (dispatch_start pe supports now uuid t (Some x) c) \<noteq> DispatchDone"
  then show "(tk_id t, x) \<notin> claims c
      \<and> (tk_id t, x) \<in> claims (snd (dispatch_start pe supports now uuid t (Some x) c))"
    using a(2) b unfolding grows_def by blast
qed

lemma grows_dispatch_unplanned: "grows c (snd (dispatch_start pe supports now uuid t None c))"
  using grows_dispatch_request [of c pe now uuid t None]
  by (simp add: dispatch_start_def Let_def op_keepers grows_same)

lemma grows_submit_now_start: "grows c (snd (submit_now_start pe supports now uuid dbe t c))"
  by (auto simp: submit_now_start_def Let_def op_keepers grows_same split: sum.splits)

lemma grows_submit_now_settle: "grows c (snd (submit_now_settle now uuid t r c))"
  by (auto simp: submit_now_settle_def op_keepers grows_same split: sum.splits runner_error.splits)

text \<open>The life cycle of tasks, and the loop.\<close>

lemma grows_lifecycle:
  "grows c (snd (save_task t c))" "grows c (snd (delete_task i c))"
  "grows c (snd (cancel_task f now i c))" "grows c (snd (suspend_task now i why c))"
  by (auto simp: save_task_def delete_task_def cancel_task_def suspend_task_def Let_def op_keepers
      grows_same split: option.splits sum.splits)

lemma grows_resume: "grows c (snd (resume_task next now i c))"
proof -
  obtain r d where r: "db_access (\<lambda>db. (get_timer_task db i, db)) c = (r, d)" by fastforce
  have "grows c d" by (rule grows_access [OF r]) simp
  then show ?thesis
    by (auto simp: resume_task_def r Let_def op_keepers grows_same split: option.splits sum.splits)
qed

lemma grows_suspend_all: "suspend_all now ts d = (b, e) \<Longrightarrow> grows c d \<Longrightarrow> grows c e"
  by (induction ts arbitrary: d) (auto simp: Let_def op_keepers split: if_splits)

lemma grows_resume_all: "resume_all next now runner ts n d = (b, e) \<Longrightarrow> grows c d \<Longrightarrow> grows c e"
proof (induction ts arbitrary: n d)
  case (Cons t ts)
  show ?case
  proof (cases "next (tk_schedule t) now")
    case (Inl x)
    then show ?thesis using Cons by simp
  next
    case (Inr v)
    obtain r d' where r: "db_access (resume_from_missing (tk_id t) runner (map_option timestamp v) now) d = (r, d')"
      by fastforce
    have "grows d d'"
      by (rule grows_access [OF r]) (simp add: resume_from_missing_def split: option.splits)
    then have "grows c d'" using Cons.prems(2) by (rule grows_trans [rotated])
    then show ?thesis using Cons.prems(1) Cons.IH Inr r by (auto split: option.splits)
  qed
qed simp

lemma grows_packages:
  "grows c (snd (on_app_package_uninstalled now listed package c))"
  "grows c (snd (resume_tasks_missing_runner next now listed runner c))"
  using grows_suspend_all [OF _ grows_refl] grows_resume_all [OF _ grows_refl]
  by (auto simp: on_app_package_uninstalled_def resume_tasks_missing_runner_def Let_def grows_same
      split: prod.splits bool.splits option.splits)

lemma grows_missing: "grows c (snd (suspend_tasks_missing_runner now runner c))"
proof -
  obtain r d where r: "db_access (\<lambda>db. (count_where (bound_to runner) db,
      suspend_active_for_runner runner now db)) c = (r, d)" by fastforce
  have "grows c d" by (rule grows_access [OF r]) (simp add: suspend_active_for_runner_def update_where_def)
  then show ?thesis by (auto simp: suspend_tasks_missing_runner_def r grows_same split: option.splits)
qed

lemma grows_visit: "grows c (snd (snd (visit_task x now uuid t wake c)))"
  by (auto simp: visit_task_def Let_def op_keepers split: due.splits sum.splits)

section \<open>The system\<close>

text \<open>
  \<open>y_handed\<close> are the planned occurrences handed to a runner, in seconds as they are
  claimed. A restart loses everything but the database; a fault of a coming access is a
  step of the environment.
\<close>

record timer_sys =
  y_core :: timer_core
  y_handed :: "(string \<times> int) list"

definition restarted :: "bool list \<Rightarrow> bool \<Rightarrow> timer_core \<Rightarrow> timer_core" where
  "restarted faults hook c =
     \<lparr>tc_db = tc_db c, tc_faults = faults, tc_active = (\<lambda>_. None), tc_completed = {},
      tc_generation = 0, tc_hook = hook, tc_results = [], tc_events = [], tc_changed = 0\<rparr>"

definition dispatch_occurrence ::
  "string \<Rightarrow> (string \<Rightarrow> bool) \<Rightarrow> int \<Rightarrow> string \<Rightarrow> timer_task \<Rightarrow> int \<Rightarrow> timer_sys \<Rightarrow> timer_sys" where
  "dispatch_occurrence pe supports now uuid t x y =
     (let (next, c) = dispatch_start pe supports now uuid t (Some x) (y_core y)
      in y\<lparr>y_core := c,
           y_handed := (if next = DispatchDone then y_handed y else y_handed y @ [(tk_id t, x)])\<rparr>)"

text \<open>Every other operation changes only the core.\<close>

inductive other_op :: "timer_core \<Rightarrow> timer_core \<Rightarrow> bool" where
  op_unplanned: "other_op c (snd (dispatch_start pe supports now uuid t None c))"
| op_settle: "other_op c (dispatch_settle now uuid t at r c)"
| op_hook: "other_op c (completion_hook hk now el t cp c)"
| op_write: "other_op c (completion_write now cp c)"
| op_finalize: "other_op c (finisher_finalize now el f rows c)"
| op_now_start: "other_op c (snd (submit_now_start pe supports now uuid dbe t c))"
| op_now_settle: "other_op c (snd (submit_now_settle now uuid t rr c))"
| op_save: "other_op c (snd (save_task t c))"
| op_delete: "other_op c (snd (delete_task i c))"
| op_cancel: "other_op c (snd (cancel_task f' now i c))"
| op_suspend: "other_op c (snd (suspend_task now i why c))"
| op_resume: "other_op c (snd (resume_task next now i c))"
| op_package: "other_op c (snd (on_app_package_uninstalled now listed package c))"
| op_missing: "other_op c (snd (suspend_tasks_missing_runner now runner c))"
| op_back: "other_op c (snd (resume_tasks_missing_runner next now listed runner c))"
| op_visit: "other_op c (snd (snd (visit_task x now uuid t wake c)))"
| op_restart: "other_op c (restarted fs hook c)"
| op_faults: "other_op c (c\<lparr>tc_faults := fs\<rparr>)"

inductive timer_step :: "timer_sys \<Rightarrow> timer_sys \<Rightarrow> bool" where
  occurrence: "timer_step y (dispatch_occurrence pe supports now uuid t x y)"
| other: "other_op (y_core y) c \<Longrightarrow> timer_step y (y\<lparr>y_core := c\<rparr>)"

lemma other_op_grows: "other_op c c' \<Longrightarrow> grows c c'"
  by (induction rule: other_op.induct)
    (simp_all add: grows_dispatch_unplanned grows_dispatch_settle grows_same grows_completion_write
      grows_finalize grows_submit_now_start grows_submit_now_settle grows_lifecycle grows_resume
      grows_packages grows_missing grows_visit restarted_def grows_def [of _ "restarted _ _ _"]
      claims_def grows_def [of _ "\<lparr>tc_db = _, tc_faults = _, tc_active = _, tc_completed = _,
        tc_generation = _, tc_hook = _, tc_results = _, tc_events = _, tc_changed = _\<rparr>"])

definition handed_inv :: "timer_sys \<Rightarrow> bool" where
  "handed_inv y \<longleftrightarrow> distinct (y_handed y) \<and> set (y_handed y) \<subseteq> claims (y_core y)"

lemma handed_occurrence: "handed_inv y \<Longrightarrow> handed_inv (dispatch_occurrence pe supports now uuid t x y)"
proof -
  assume inv: "handed_inv y"
  let ?d = "dispatch_start pe supports now uuid t (Some x) (y_core y)"
  have d: "claims (y_core y) \<subseteq> claims (snd ?d)"
    "fst ?d \<noteq> DispatchDone \<Longrightarrow> (tk_id t, x) \<notin> claims (y_core y) \<and> (tk_id t, x) \<in> claims (snd ?d)"
    using dispatch_start_claims unfolding grows_def by blast+
  have "dispatch_occurrence pe supports now uuid t x y = y\<lparr>y_core := snd ?d, y_handed :=
      (if fst ?d = DispatchDone then y_handed y else y_handed y @ [(tk_id t, x)])\<rparr>"
    by (simp add: dispatch_occurrence_def case_prod_beta)
  then show ?thesis using inv d unfolding handed_inv_def by auto
qed

lemma handed_other: "handed_inv y \<Longrightarrow> grows (y_core y) c \<Longrightarrow> handed_inv (y\<lparr>y_core := c\<rparr>)"
  by (auto simp: handed_inv_def grows_def)

interpretation timer: guarded_system "\<lambda>y. y_handed y = []" timer_step handed_inv
proof unfold_locales
  show "handed_inv y" if "y_handed y = []" for y
    using that by (simp add: handed_inv_def)
  show "handed_inv z" if "handed_inv y" "timer_step y z" for y z
    using that(2,1) by (induction rule: timer_step.induct) (auto intro: handed_occurrence handed_other other_op_grows)
qed

end
