(* ===== verification/TimerTheorems.thy ===== *)
theory TimerTheorems
  imports TimerSystem
begin

text \<open>
  The promises of the timer: a stored task reads back, an occurrence is dispatched at
  most once, the loop replays nothing older than its window, a batch of inputs is settled
  exactly once with one row per input; and where cancellation and overrides get lost.
\<close>

section \<open>A batch is settled once\<close>

definition row_of :: "json \<Rightarrow> timer_outcome \<Rightarrow> input_result \<Rightarrow> bool" where
  "row_of j out r \<longleftrightarrow> (\<exists>now elapsed. r = outcome_row now (input_id j) out elapsed)"

lemma row_of_input [simp]: "row_of j out r \<Longrightarrow> ir_input r = input_id j"
  by (auto simp: row_of_def outcome_row_def)

text \<open>
  The rows of a finisher and the inputs they belong to, in the order of arrival.
\<close>

definition rows_ok :: "batch \<Rightarrow> nat list \<Rightarrow> bool" where
  "rows_ok b is \<longleftrightarrow> distinct is
     \<and> set is = {i. i < length (bt_outcome b) \<and> bt_outcome b ! i \<noteq> None}
     \<and> list_all2 (\<lambda>i r. row_of (tk_inputs (bt_task b) ! i) (the (bt_outcome b ! i)) r)
         is (mf_rows (bt_finisher b))"

definition batch_inv :: "batch \<Rightarrow> bool" where
  "batch_inv b \<longleftrightarrow>
     length (bt_phase b) = length (tk_inputs (bt_task b))
     \<and> length (bt_outcome b) = length (tk_inputs (bt_task b))
     \<and> mf_expected (bt_finisher b) = length (tk_inputs (bt_task b))
     \<and> mf_task (bt_finisher b) = bt_task b
     \<and> holders b \<le> concurrency_limit (bt_task b)
     \<and> (\<forall>i < length (bt_phase b). bt_outcome b ! i \<noteq> None \<longleftrightarrow> bt_phase b ! i \<in> {Answered, Finished})
     \<and> (\<exists>is. rows_ok b is)
     \<and> (mf_done (bt_finisher b) \<longleftrightarrow> mf_rows (bt_finisher b) \<noteq> []
          \<and> length (tk_inputs (bt_task b)) \<le> length (mf_rows (bt_finisher b)))
     \<and> (if mf_done (bt_finisher b)
        then \<exists>now. bt_finals b = [ordered_summary now (bt_finisher b)] else bt_finals b = [])"

lemma batch_invI:
  assumes "length (bt_phase b) = length (tk_inputs (bt_task b))"
    "length (bt_outcome b) = length (tk_inputs (bt_task b))"
    "mf_expected (bt_finisher b) = length (tk_inputs (bt_task b))"
    "mf_task (bt_finisher b) = bt_task b"
    "holders b \<le> concurrency_limit (bt_task b)"
    "\<And>i. i < length (tk_inputs (bt_task b)) \<Longrightarrow>
       bt_outcome b ! i \<noteq> None \<longleftrightarrow> bt_phase b ! i \<in> {Answered, Finished}"
    "rows_ok b is"
    "mf_done (bt_finisher b) \<longleftrightarrow> mf_rows (bt_finisher b) \<noteq> []
       \<and> length (tk_inputs (bt_task b)) \<le> length (mf_rows (bt_finisher b))"
    "if mf_done (bt_finisher b)
     then \<exists>now. bt_finals b = [ordered_summary now (bt_finisher b)] else bt_finals b = []"
  shows "batch_inv b"
  unfolding batch_inv_def using assms by (intro conjI) (simp_all, blast)

lemma batch_invD:
  assumes "batch_inv b"
  shows "length (bt_phase b) = length (tk_inputs (bt_task b))"
    "length (bt_outcome b) = length (tk_inputs (bt_task b))"
    "mf_expected (bt_finisher b) = length (tk_inputs (bt_task b))"
    "mf_task (bt_finisher b) = bt_task b"
    "holders b \<le> concurrency_limit (bt_task b)"
    "\<And>i. i < length (tk_inputs (bt_task b)) \<Longrightarrow>
       bt_outcome b ! i \<noteq> None \<longleftrightarrow> bt_phase b ! i \<in> {Answered, Finished}"
    "\<exists>is. rows_ok b is"
    "mf_done (bt_finisher b) \<longleftrightarrow> mf_rows (bt_finisher b) \<noteq> []
       \<and> length (tk_inputs (bt_task b)) \<le> length (mf_rows (bt_finisher b))"
    "if mf_done (bt_finisher b)
     then \<exists>now. bt_finals b = [ordered_summary now (bt_finisher b)] else bt_finals b = []"
  using assms unfolding batch_inv_def by (elim conjE; simp)+

lemma filter_update_length:
  assumes "i < length xs"
  shows "length (filter P (xs[i := x])) + (if P (xs ! i) then 1 else 0)
    = length (filter P xs) + (if P x then 1 else 0)"
proof -
  have xs: "xs = take i xs @ xs ! i # drop (Suc i) xs"
    using assms by (simp add: id_take_nth_drop)
  have "xs[i := x] = take i xs @ x # drop (Suc i) xs"
    using assms by (simp add: upd_conv_take_nth_drop)
  moreover have "length (filter P xs) = length (filter P (take i xs)) + (if P (xs ! i) then 1 else 0)
      + length (filter P (drop (Suc i) xs))"
    by (subst xs) simp
  ultimately show ?thesis by simp
qed

lemma holders_move:
  assumes "i < length (bt_phase b)"
  shows "holders (move i p b) + (if holds_permit (bt_phase b ! i) then 1 else 0)
    = holders b + (if holds_permit p then 1 else 0)"
  using filter_update_length [OF assms, of holds_permit p] by (simp add: holders_def move_def)

lemma move_simps [simp]:
  "bt_task (move i p b) = bt_task b" "bt_finisher (move i p b) = bt_finisher b"
  "bt_outcome (move i p b) = bt_outcome b" "bt_finals (move i p b) = bt_finals b"
  "bt_phase (move i p b) = (bt_phase b)[i := p]"
  by (simp_all add: move_def)

lemma note_simps [simp]:
  "bt_task (note_outcome now el i out b) = bt_task b"
  "bt_phase (note_outcome now el i out b) = bt_phase b"
  "bt_outcome (note_outcome now el i out b) = (bt_outcome b)[i := Some out]"
  by (simp_all add: note_outcome_def split: prod.splits)

lemma rows_ok_length:
  assumes "rows_ok b is"
  shows "length (mf_rows (bt_finisher b)) = card {i. i < length (bt_outcome b) \<and> bt_outcome b ! i \<noteq> None}"
  using assms list_all2_lengthD by (fastforce simp: rows_ok_def distinct_card [symmetric])

text \<open>An input that has no outcome yet finds the batch open.\<close>

lemma open_batch:
  assumes inv: "batch_inv b" and i: "i < length (bt_phase b)" "bt_outcome b ! i = None"
  shows "\<not> mf_done (bt_finisher b)" "length (mf_rows (bt_finisher b)) < length (tk_inputs (bt_task b))"
proof -
  let ?n = "length (tk_inputs (bt_task b))" and ?R = "{i. i < length (bt_outcome b) \<and> bt_outcome b ! i \<noteq> None}"
  obtain "is" where r: "rows_ok b is" using batch_invD(7) [OF inv] by blast
  have sub: "?R \<subseteq> {..<?n}" using batch_invD(2) [OF inv] by auto
  have "i \<in> {..<?n}" "i \<notin> ?R" using i batch_invD(1) [OF inv] by simp_all
  then have "?R \<subset> {..<?n}" using sub by blast
  then have "card ?R < ?n" by (metis card_lessThan finite_lessThan psubset_card_mono)
  then show less: "length (mf_rows (bt_finisher b)) < ?n" using rows_ok_length [OF r] by simp
  then show "\<not> mf_done (bt_finisher b)" using batch_invD(8) [OF inv] by simp
qed

lemma rows_ok_note:
  assumes r: "rows_ok b is" and i: "i < length (bt_outcome b)" "bt_outcome b ! i = None"
    and f: "mf_rows (bt_finisher b') = mf_rows (bt_finisher b)
      @ [outcome_row now (input_id (tk_inputs (bt_task b) ! i)) out el]"
    and b': "bt_task b' = bt_task b" "bt_outcome b' = (bt_outcome b)[i := Some out]"
  shows "rows_ok b' (is @ [i])"
proof -
  have s: "set is = {i. i < length (bt_outcome b) \<and> bt_outcome b ! i \<noteq> None}"
    and l: "list_all2 (\<lambda>i r. row_of (tk_inputs (bt_task b) ! i) (the (bt_outcome b ! i)) r)
         is (mf_rows (bt_finisher b))" and d: "distinct is"
    using r unfolding rows_ok_def by blast+
  have ni: "i \<notin> set is" using s i by simp
  have "list_all2 (\<lambda>k r. row_of (tk_inputs (bt_task b) ! k) (the ((bt_outcome b)[i := Some out] ! k)) r)
      is (mf_rows (bt_finisher b))"
    using l by (rule list.rel_mono_strong) (metis ni nth_list_update_neq)
  moreover have "row_of (tk_inputs (bt_task b) ! i) (the ((bt_outcome b)[i := Some out] ! i))
      (outcome_row now (input_id (tk_inputs (bt_task b) ! i)) out el)"
    unfolding row_of_def using i by auto
  ultimately have "list_all2 (\<lambda>k r. row_of (tk_inputs (bt_task b') ! k) (the (bt_outcome b' ! k)) r)
      (is @ [i]) (mf_rows (bt_finisher b'))"
    unfolding f b' by (intro list_all2_appendI) simp_all
  moreover have "set (is @ [i]) = {k. k < length (bt_outcome b') \<and> bt_outcome b' ! k \<noteq> None}"
    unfolding b' using s i by (auto simp: nth_list_update)
  ultimately show ?thesis unfolding rows_ok_def using d ni by simp
qed

lemma note_finisher:
  assumes "\<not> mf_done (bt_finisher b)"
    and "row = outcome_row now (input_id (tk_inputs (bt_task b) ! i)) out el"
    and "full \<longleftrightarrow> mf_expected (bt_finisher b) \<le> Suc (length (mf_rows (bt_finisher b)))"
  shows "bt_finisher (note_outcome now el i out b)
      = (bt_finisher b)\<lparr>mf_rows := mf_rows (bt_finisher b) @ [row], mf_done := full\<rparr>"
    "bt_finals (note_outcome now el i out b) = (if full
      then bt_finals b @ [ordered_summary now (bt_finisher (note_outcome now el i out b))]
      else bt_finals b)"
  using assms by (simp_all add: note_outcome_def finisher_record_def Let_def split: if_splits)

text \<open>A step that records an outcome, and one that only moves on.\<close>

lemma note_inv:
  assumes inv: "batch_inv b" and i: "i < length (bt_phase b)"
    and old: "bt_phase b ! i \<notin> {Answered, Finished}" and new: "p \<in> {Answered, Finished}"
  shows "batch_inv (move i p (note_outcome now el i out b))"
proof -
  let ?b = "move i p (note_outcome now el i out b)" and ?n = "length (tk_inputs (bt_task b))"
  let ?f = "bt_finisher b"
  note D = batch_invD [OF inv]
  have none: "bt_outcome b ! i = None" 
  proof (rule ccontr)
    assume "bt_outcome b ! i \<noteq> None"
    moreover have "i < length (tk_inputs (bt_task b))" using i D(1) by simp
    ultimately show False using D(6) [of i] old by blast
  qed
  note op = open_batch [OF inv i none]
  have fin: "bt_finals b = []" using D(9) op(1) by simp
  obtain "is" where r: "rows_ok b is" using D(7) by blast
  define row where "row = outcome_row now (input_id (tk_inputs (bt_task b) ! i)) out el"
  define full where "full \<longleftrightarrow> mf_expected ?f \<le> Suc (length (mf_rows ?f))"
  note nf = note_finisher [OF op(1) row_def full_def]
  have f: "bt_finisher ?b = ?f\<lparr>mf_rows := mf_rows ?f @ [row], mf_done := full\<rparr>" by (simp add: nf(1))
  have finals: "bt_finals ?b = (if full then [ordered_summary now (bt_finisher ?b)] else [])"
    by (simp only: move_simps nf(2) fin append_Nil)
  have "rows_ok ?b (is @ [i])"
    by (rule rows_ok_note [OF r]) (use D(1,2) i none f in \<open>simp_all add: row_def\<close>)
  moreover have "holders ?b \<le> concurrency_limit (bt_task ?b)"
    using holders_move [of i "note_outcome now el i out b" p] i new D(5) by (auto simp: holders_def)
  moreover have "bt_outcome ?b ! k \<noteq> None \<longleftrightarrow> bt_phase ?b ! k \<in> {Answered, Finished}"
    if "k < ?n" for k
    using D(1,2) D(6) [OF that] that i new by (cases "k = i") simp_all
  moreover have "full \<longleftrightarrow> ?n \<le> length (mf_rows ?f @ [row])" by (simp add: full_def D(3))
  moreover have "if full then \<exists>now. bt_finals ?b = [ordered_summary now (bt_finisher ?b)]
      else bt_finals ?b = []"
    by (simp only: finals split: if_split) blast
  ultimately show ?thesis
    by (intro batch_invI) (simp_all add: f nf(1) D(1-4) del: One_nat_def)
qed

lemma move_inv:
  assumes inv: "batch_inv b" and i: "i < length (bt_phase b)"
    and same: "bt_phase b ! i \<in> {Answered, Finished} \<longleftrightarrow> p \<in> {Answered, Finished}"
    and permits: "holds_permit p \<longrightarrow> holds_permit (bt_phase b ! i) \<or> holders b < concurrency_limit (bt_task b)"
  shows "batch_inv (move i p b)"
proof -
  note D = batch_invD [OF inv]
  have "holders (move i p b) \<le> concurrency_limit (bt_task b)"
    using holders_move [OF i, of p] permits D(5) by (auto split: if_splits)
  moreover have "bt_outcome b ! k \<noteq> None \<longleftrightarrow> (bt_phase b)[i := p] ! k \<in> {Answered, Finished}"
    if "k < length (tk_inputs (bt_task b))" for k
    using D(1) D(6) [OF that] that i same by (cases "k = i") simp_all
  moreover obtain "is" where "rows_ok b is" using D(7) by blast
  then have "rows_ok (move i p b) is" by (simp add: rows_ok_def)
  ultimately show ?thesis
    using D(8,9) by (intro batch_invI) (simp_all add: D(1-4))
qed

lemma batch_inv_step: "batch_step b b' \<Longrightarrow> batch_inv b \<Longrightarrow> batch_inv b'"
  by (erule batch_step.cases; hypsubst; (rule note_inv | rule move_inv); simp)

lemma batch_inv_start: "batch_inv (batch_start pe uuid t at)" (is "batch_inv ?b")
proof (rule batch_invI)
  have "filter holds_permit (map (\<lambda>j. case input_request pe t j of Inl e \<Rightarrow> PreFailed e | Inr _ \<Rightarrow> Waiting) js) = []"
    for js
    by (induction js) (auto split: sum.splits)
  then have "holders ?b = 0" by (simp add: holders_def batch_start_def)
  then show "holders ?b \<le> concurrency_limit (bt_task ?b)" by simp
  show "rows_ok ?b []"
    by (auto simp: rows_ok_def batch_start_def finisher_new_def)
  show "bt_outcome ?b ! i \<noteq> None \<longleftrightarrow> bt_phase ?b ! i \<in> {Answered, Finished}"
    if "i < length (tk_inputs (bt_task ?b))" for i
    using that by (auto simp: batch_start_def split: sum.splits)
qed (simp_all add: batch_start_def finisher_new_def)

lemma batch_task_step: "batch_step b b' \<Longrightarrow> bt_task b' = bt_task b"
  by (induction rule: batch_step.induct) simp_all

interpretation batch: guarded_system "\<lambda>b. b = batch_start pe uuid t at" batch_step
    "\<lambda>b. batch_inv b \<and> bt_task b = t" for pe uuid t at
proof unfold_locales
  show "batch_inv b \<and> bt_task b = t" if "b = batch_start pe uuid t at" for b
    unfolding that using batch_inv_start by (simp add: batch_start_def)
  show "batch_inv b' \<and> bt_task b' = t" if "batch_inv b \<and> bt_task b = t" "batch_step b b'" for b b'
    using that batch_inv_step batch_task_step by metis
qed

text \<open>Every input consumes the row of its own id.\<close>

lemma summary_rows_lookup:
  assumes "distinct (map input_id js)" "distinct (map ir_input rows)"
    and "\<And>j. j \<in> set js \<Longrightarrow> \<exists>r \<in> set rows. ir_input r = input_id j \<and> Q j r"
  shows "list_all2 (\<lambda>j r. \<exists>r0. Q j r0 \<and> ir_input r0 = input_id j \<and> r = with_label (input_label j) r0)
    js (summary_rows now js rows)"
  using assms
proof (induction js arbitrary: rows)
  case Nil
  then show ?case by simp
next
  case (Cons j js)
  obtain r where r: "r \<in> set rows" "ir_input r = input_id j" "Q j r" using Cons.prems(3) by auto
  obtain r' rest where rf: "remove_first (\<lambda>r. ir_input r = input_id j) rows = Some (r', rest)"
    using r by (cases "remove_first (\<lambda>r. ir_input r = input_id j) rows") auto
  note split = remove_first_Some [OF rf]
  have set: "set rows = insert r' (set rest)" using split by (metis set_mset_add_mset_insert set_mset_mset)
  have same: "r' = r"
    using Cons.prems(2) r split set by (metis distinct_map inj_onD insertI1)
  have rest: "distinct (map ir_input rest)"
    using Cons.prems(2) split by (metis distinct.simps(2) list.simps(9) mset.simps(2) mset_eq_imp_distinct_iff mset_map)
  have "\<exists>x \<in> set rest. ir_input x = input_id k \<and> Q k x" if k: "k \<in> set js" for k
  proof -
    obtain x where x: "x \<in> set rows" "ir_input x = input_id k" "Q k x" using Cons.prems(3) k by auto
    have "input_id k \<noteq> input_id j" using Cons.prems(1) k by (auto simp: image_iff)
    then have "x \<noteq> r'" using x same r by auto
    then show ?thesis using x set by auto
  qed
  then have "list_all2 (\<lambda>j r. \<exists>r0. Q j r0 \<and> ir_input r0 = input_id j \<and> r = with_label (input_label j) r0)
      js (summary_rows now js rest)"
    using Cons.IH [OF _ rest] Cons.prems(1) by simp
  then show ?case using rf same r by auto
qed

text \<open>The inputs of a closed batch all have an outcome, and each its row.\<close>

lemma closed_rows:
  assumes inv: "batch_inv b" and dn: "mf_done (bt_finisher b)"
    and ids: "distinct (map input_id (tk_inputs (bt_task b)))"
  shows "\<And>i. i < length (tk_inputs (bt_task b)) \<Longrightarrow> bt_outcome b ! i \<noteq> None"
    "distinct (map ir_input (mf_rows (bt_finisher b)))"
    "\<And>i. i < length (tk_inputs (bt_task b)) \<Longrightarrow> \<exists>r \<in> set (mf_rows (bt_finisher b)).
       row_of (tk_inputs (bt_task b) ! i) (the (bt_outcome b ! i)) r"
proof -
  let ?n = "length (tk_inputs (bt_task b))"
  note D = batch_invD [OF inv]
  obtain "is" where r: "rows_ok b is" using D(7) by blast
  have s: "set is = {i. i < ?n \<and> bt_outcome b ! i \<noteq> None}" and d: "distinct is"
    and l: "list_all2 (\<lambda>i r. row_of (tk_inputs (bt_task b) ! i) (the (bt_outcome b ! i)) r)
         is (mf_rows (bt_finisher b))"
    using r D(2) unfolding rows_ok_def by auto
  have "?n \<le> length is" using D(8) dn list_all2_lengthD [OF l] by simp
  then have "?n \<le> card (set is)" using distinct_card [OF d] by simp
  moreover have sub: "set is \<subseteq> {..<?n}" using s by auto
  ultimately have all: "set is = {..<?n}" by (intro card_subset_eq) (auto dest: card_mono [rotated])
  then show "bt_outcome b ! i \<noteq> None" if "i < ?n" for i using that s by auto
  have "map ir_input (mf_rows (bt_finisher b)) = map (\<lambda>i. input_id (tk_inputs (bt_task b) ! i)) is"
    using l by (induction rule: list_all2_induct) auto
  moreover have "inj_on (\<lambda>i. input_id (tk_inputs (bt_task b) ! i)) (set is)"
    using ids all by (auto simp: inj_on_def distinct_conv_nth)
  ultimately show "distinct (map ir_input (mf_rows (bt_finisher b)))" using d by (simp add: distinct_map)
  show "\<exists>r \<in> set (mf_rows (bt_finisher b)). row_of (tk_inputs (bt_task b) ! i) (the (bt_outcome b ! i)) r"
    if "i < ?n" for i
  proof -
    have "i \<in> set is" using that all by simp
    then obtain k where k: "k < length is" "is ! k = i" unfolding in_set_conv_nth by blast
    have "row_of (tk_inputs (bt_task b) ! i) (the (bt_outcome b ! i)) (mf_rows (bt_finisher b) ! k)"
      using list_all2_nthD [OF l k(1)] k(2) by simp
    moreover have "mf_rows (bt_finisher b) ! k \<in> set (mf_rows (bt_finisher b))"
      using list_all2_lengthD [OF l] k(1) by simp
    ultimately show ?thesis by blast
  qed
qed

definition row_for :: "batch \<Rightarrow> nat \<Rightarrow> input_result \<Rightarrow> bool" where
  "row_for b i r \<longleftrightarrow> (\<exists>out now elapsed. bt_outcome b ! i = Some out
     \<and> r = with_label (input_label (tk_inputs (bt_task b) ! i))
         (outcome_row now (input_id (tk_inputs (bt_task b) ! i)) out elapsed))"

definition all_answered :: "batch \<Rightarrow> bool" where
  "all_answered b \<longleftrightarrow> (\<forall>p \<in> set (bt_phase b). p \<in> {Answered, Finished})"

lemma batch_closed_iff:
  assumes inv: "batch_inv b" and ne: "tk_inputs (bt_task b) \<noteq> []"
  shows "mf_done (bt_finisher b) \<longleftrightarrow> all_answered b"
proof -
  let ?n = "length (tk_inputs (bt_task b))" and ?R = "{i. i < length (bt_outcome b) \<and> bt_outcome b ! i \<noteq> None}"
  note D = batch_invD [OF inv]
  obtain "is" where r: "rows_ok b is" using D(7) by blast
  have sub: "?R \<subseteq> {..<?n}" using D(2) by auto
  have "mf_done (bt_finisher b) \<longleftrightarrow> ?n \<le> card ?R"
    unfolding D(8) rows_ok_length [OF r, symmetric] using ne
    by (cases "mf_rows (bt_finisher b)") simp_all
  also have "\<dots> \<longleftrightarrow> ?R = {..<?n}"
  proof
    assume "?n \<le> card ?R"
    then have "card ?R = card {..<?n}" using card_mono [OF _ sub] by simp
    then show "?R = {..<?n}" using sub by (simp add: card_subset_eq)
  qed simp
  also have "\<dots> \<longleftrightarrow> all_answered b"
  proof
    assume R: "?R = {..<?n}"
    show "all_answered b"
      unfolding all_answered_def all_set_conv_all_nth
    proof (intro allI impI)
      fix i assume "i < length (bt_phase b)"
      then have "i < ?n" "i \<in> ?R" using D(1) R by simp_all
      then show "bt_phase b ! i \<in> {Answered, Finished}" using D(6) [of i] by blast
    qed
  next
    assume A: "all_answered b"
    have "i \<in> ?R" if i: "i < ?n" for i
      using A D(1,2) D(6) [OF i] i unfolding all_answered_def all_set_conv_all_nth by simp
    then show "?R = {..<?n}" using sub by blast
  qed
  finally show ?thesis .
qed


section \<open>A batch comes to its end\<close>

fun phase_rank :: "input_phase \<Rightarrow> nat" where
  "phase_rank Waiting = 3"
| "phase_rank Submitting = 2"
| "phase_rank Finished = 0"
| "phase_rank _ = 1"

definition batch_rank :: "batch \<Rightarrow> nat" where
  "batch_rank b = sum_list (map phase_rank (bt_phase b))"

lemma sum_list_update_less:
  fixes f :: "'a \<Rightarrow> nat"
  shows "i < length xs \<Longrightarrow> f x < f (xs ! i) \<Longrightarrow> sum_list (map f (xs[i := x])) < sum_list (map f xs)"
proof (induction xs arbitrary: i)
  case (Cons y ys)
  then show ?case by (cases i) auto
qed simp

lemma batch_step_rank: "batch_step b b' \<Longrightarrow> batch_rank b' < batch_rank b"
  by (induction rule: batch_step.induct) (simp_all add: batch_rank_def sum_list_update_less)

lemma holder_exists: "0 < holders b \<Longrightarrow> \<exists>i < length (bt_phase b). holds_permit (bt_phase b ! i)"
proof -
  assume "0 < holders b"
  then obtain p where "p \<in> set (bt_phase b)" "holds_permit p"
    unfolding holders_def by (metis filter_False length_greater_0_conv)
  then show ?thesis by (metis in_set_conv_nth)
qed

lemma input_moves:
  assumes i: "i < length (bt_phase b)" and p: "bt_phase b ! i \<noteq> Waiting" "bt_phase b ! i \<noteq> Finished"
  shows "\<exists>b'. batch_step b b'"
proof (cases "bt_phase b ! i")
  case (PreFailed e)
  then show ?thesis using batch_step.prefailed [OF i] by blast
next
  case Submitting
  then show ?thesis using batch_step.accepted_run [OF i] by blast
next
  case Answered
  then show ?thesis using batch_step.accepted_late [OF i] by blast
next
  case InFlight
  then show ?thesis using batch_step.completes [OF i] by blast
qed (use p in auto)

lemma batch_moves:
  assumes "\<not> (\<forall>p \<in> set (bt_phase b). p = Finished)"
  shows "\<exists>b'. batch_step b b'"
proof -
  obtain i where i: "i < length (bt_phase b)" "bt_phase b ! i \<noteq> Finished"
    using assms by (metis in_set_conv_nth)
  show ?thesis
  proof (cases "bt_phase b ! i = Waiting")
    case True
    show ?thesis
    proof (cases "holders b < concurrency_limit (bt_task b)")
      case True
      then show ?thesis using batch_step.acquires [OF i(1) \<open>bt_phase b ! i = Waiting\<close>] by blast
    next
      case False
      moreover have "0 < concurrency_limit (bt_task b)"
        by (simp add: concurrency_limit_def TASK_MAX_CONCURRENCY_def)
      ultimately obtain k where "k < length (bt_phase b)" "holds_permit (bt_phase b ! k)"
        using holder_exists [of b] by auto
      then show ?thesis by (intro input_moves [of k]) auto
    qed
  next
    case False
    then show ?thesis by (intro input_moves [OF i(1)]) (use i in auto)
  qed
qed

text \<open>
  A batch is never stuck and never goes on for ever: each of its steps lowers a rank
  of at most three per input, and while an input is not finished some step is possible,
  although inputs wait for permits that only other inputs give back; a batch at rest has
  all its inputs finished.
\<close>

theorem batch_comes_to_rest:
  "(batch_step b b' \<longrightarrow> batch_rank b' < batch_rank b)
   \<and> batch_rank b \<le> 3 * length (bt_phase b)
   \<and> ((\<exists>b'. batch_step b b') \<or> list_all (\<lambda>p. p = Finished) (bt_phase b))"
proof (intro conjI)
  show "batch_step b b' \<longrightarrow> batch_rank b' < batch_rank b" using batch_step_rank by blast
  have "phase_rank p \<le> 3" for p by (cases p) simp_all
  then have "sum_list (map phase_rank ps) \<le> 3 * length ps" for ps
  proof (induction ps)
    case (Cons p ps)
    from Cons.IH [OF Cons.prems] Cons.prems [of p] show ?case by simp
  qed simp
  then show "batch_rank b \<le> 3 * length (bt_phase b)" by (simp add: batch_rank_def)
  show "(\<exists>b'. batch_step b b') \<or> list_all (\<lambda>p. p = Finished) (bt_phase b)"
    using batch_moves [of b] by (auto simp: list_all_iff)
qed

section \<open>Occurrences\<close>

text \<open>
  C7. A planned occurrence is handed to a runner at most once, whatever operations of the
  timer run in whatever order, whichever database accesses fail and however often the
  server restarts; and an occurrence that was handed over is turned away from then on.
\<close>

theorem occurrence_dispatched_at_most_once:
  assumes "reach (\<lambda>y. y_handed y = []) timer_step y"
  shows "distinct (y_handed y)
    \<and> ((tk_id t, x) \<in> set (y_handed y)
      \<longrightarrow> fst (dispatch_start pe supports now uuid t (Some x) (y_core y)) = DispatchDone)"
proof (intro conjI impI)
  have inv: "handed_inv y" using timer.reach_inv [OF assms] .
  then show "distinct (y_handed y)" by (simp add: handed_inv_def)
  assume "(tk_id t, x) \<in> set (y_handed y)"
  then have "(tk_id t, x) \<in> claims (y_core y)" using inv by (auto simp: handed_inv_def)
  then show "fst (dispatch_start pe supports now uuid t (Some x) (y_core y)) = DispatchDone"
    using dispatch_start_claims(2) by blast
qed

text \<open>
  The loop hands over only occurrences of schedulable tasks that lie in the hour
  before now, and only once the cursor of the stored task has been moved on to its next
  instant; provided the extension's \<^verbatim>\<open>latest_due\<close> answers within the window it is
  asked for.
\<close>

theorem loop_replays_nothing_old:
  assumes "visit_task ext now uuid t wake c = (Some (t', x), wake', c')"
    and "\<And>v. ex_latest ext (tk_schedule t) now LOOKBACK = Inr (Some v) \<Longrightarrow> now - LOOKBACK \<le> v"
  shows "is_schedulable t
    \<and> timestamp (now - LOOKBACK) \<le> x \<and> x \<le> timestamp now
    \<and> ex_next ext (tk_schedule t) now = Inr (tk_next_wakeup t')
    \<and> (tb_tasks (tc_db c) (tk_id t) = Some s \<longrightarrow>
      (\<exists>s'. tb_tasks (tc_db c') (tk_id t) = Some s'
        \<and> tk_next_wakeup s' = seconds (map_option timestamp (tk_next_wakeup t'))))"
proof (intro conjI impI)
  let ?d = "due_decision (ex_latest ext (tk_schedule t)) (ex_next ext (tk_schedule t)) now (tk_next_wakeup t)"
  obtain v n where d: "?d = Due v" and n: "ex_next ext (tk_schedule t) now = Inr n"
    and ok: "db_ok (set_timer_task_wakeup (tk_id t) (map_option timestamp n) now) c"
    and t': "t' = t\<lparr>tk_next_wakeup := n\<rparr>" "x = timestamp v" and sched: "is_schedulable t"
    and c': "c' = db_try (set_timer_task_wakeup (tk_id t) (map_option timestamp n) now) c"
    using assms(1) by (auto simp: visit_task_def Let_def split: if_splits due.splits sum.splits)
  show "is_schedulable t" by (rule sched)
  have v: "now - LOOKBACK \<le> v" "v \<le> now"
    using d assms(2) by (auto simp: due_decision_def recompute_def Let_def
        split: option.splits if_splits due.splits sum.splits)
  show "timestamp (now - LOOKBACK) \<le> x" "x \<le> timestamp now"
    using v by (auto simp: t' timestamp_def intro: zdiv_mono1)
  show "ex_next ext (tk_schedule t) now = Inr (tk_next_wakeup t')" by (simp add: n t')
  show "\<exists>s'. tb_tasks (tc_db c') (tk_id t) = Some s'
        \<and> tk_next_wakeup s' = seconds (map_option timestamp (tk_next_wakeup t'))"
    if "tb_tasks (tc_db c) (tk_id t) = Some s"
    using ok that by (auto simp: c' t' db_ok_def db_try_def db_access_def set_timer_task_wakeup_def
        split: list.splits bool.splits)
qed

section \<open>Rows\<close>

text \<open>
  C35. A task that was written reads back as its stored form, which differs from it in
  two fields only: a missing summary is an empty one, and the cursor keeps whole seconds;
  provided the texts of the JSON and time crates read back and the task satisfies its
  types.
\<close>

theorem stored_task_reads_back:
  assumes "storage_from_task c t = Inr row" "texts_ok c t" "typed_task t"
  shows "task_from_storage c row = Inr (stored_form t)
    \<and> (stored_form t)\<lparr>tk_summary := tk_summary t, tk_next_wakeup := tk_next_wakeup t\<rparr> = t
    \<and> tk_summary (stored_form t) = Some (case tk_summary t of Some rs \<Rightarrow> rs | None \<Rightarrow> [])
    \<and> tk_next_wakeup (stored_form t) = map_option (\<lambda>w. w div 1000000000 * 1000000000) (tk_next_wakeup t)"
proof (intro conjI)
  show "task_from_storage c row = Inr (stored_form t)" by (rule row_read_back [OF assms])
qed (simp_all add: stored_form_def timestamp_def cong: option.case_cong)

lemma transpose_opt_Inr:
  "transpose_opt f x = Inr y \<longleftrightarrow> (case x of None \<Rightarrow> y = None | Some v \<Rightarrow> \<exists>w. f v = Inr w \<and> y = Some w)"
  by (cases x) (auto simp: transpose_opt_def split: sum.splits)

lemma identifier_again:
  assumes "validate_identifier k v = Inr i"
  shows "validate_identifier k i = Inr i"
proof -
  have t: "trim i = i" and r: "i \<noteq> []" "\<not> any_control i" "CHR ''/'' \<notin> set i" "CHR 0x5C \<notin> set i"
    using validate_identifier_Inr [OF assms] by auto
  show ?thesis unfolding validate_identifier_def Let_def t using r by simp
qed

lemma result_fields_elapsed:
  assumes "result_fields c i l s e f n = Some r"
  shows "ir_elapsed r \<le> u64_max"
proof -
  obtain i' l' s' e' f' n' where
    "i = Some (JString i')" "opt_text l = Some l'" "s = Some (JString s')" "opt_text e = Some e'"
    "f = Some (JString f')" "n = Some (JNumber (PosInt n'))"
    using assms unfolding result_fields_def
    by (auto split: option.split_asm json.split_asm json_number.split_asm)
  then show ?thesis using assms
    by (auto simp: result_fields_def split: option.split_asm if_split_asm)
qed

lemma result_elapsed: "result_of_json c j = Some r \<Longrightarrow> ir_elapsed r \<le> u64_max"
  unfolding result_of_json_def
  by (cases j; simp split: list.split_asm) (erule result_fields_elapsed)+

lemma summary_elapsed:
  assumes "summary_of_json c j = Some s"
  shows "list_all (\<lambda>r. ir_elapsed r \<le> u64_max) (case s of Some rs \<Rightarrow> rs | None \<Rightarrow> [])"
proof (cases s)
  case (Some rs)
  obtain xs where "collect_opt (map (result_of_json c) xs) = Some rs"
    using assms Some by (auto simp: summary_of_json_def split: json.splits)
  then have "list_all (\<lambda>r. ir_elapsed r \<le> u64_max) rs"
  proof (induction xs arbitrary: rs)
    case (Cons x xs)
    then show ?case by (auto split: option.splits dest: result_elapsed)
  qed simp
  then show ?thesis using Some by simp
qed simp

text \<open>
  C34. Whatever row is found in the database, a task that is read from it satisfies its
  types and its validation: identifiers as their constructors make them, numbers within
  their width, no blank field, inputs that are objects with ids; and so it can be
  written again.
\<close>

theorem read_task_is_well_formed:
  assumes "task_from_storage c row = Inr t"
  shows "typed_task t \<and> task_validate (json_size c) t = Inr ()
    \<and> (\<exists>row'. storage_from_task c t = Inr row')"
proof (intro conjI)
  note r = assms [unfolded task_from_storage_def and_then_eq_Inr Let_def sum.inject]
  show v: "task_validate (json_size c) t = Inr ()"
    using r by (elim exE conjE) simp
  then show "\<exists>row'. storage_from_task c t = Inr row'" by (simp add: storage_from_task_def)
  from r obtain device android content summary n
    where d: "lift_model (device_id_new (ts_device row)) = Inr device"
      "transpose_opt (lift_model \<circ> android_package_new) (ts_android row) = Inr android"
      "transpose_opt (lift_model \<circ> app_package_id_new) (ts_content row) = Inr content"
      "of_opt BadJson (Option.bind (parse_json c (ts_summary row)) (summary_of_json c)) = Inr summary"
    and t: "tk_app t = \<lparr>app_device = device, app_android_package = android, app_content_package = content\<rparr>"
      "tk_summary t = summary"
      "tk_concurrency t = (if n \<le> u32_max then nat n else TASK_MAX_CONCURRENCY)" "0 \<le> n"
    by (elim exE conjE) (rule that [of _ _ _ _ "max (ts_concurrency row) 0"], assumption+, auto)
  have "device_id_new device = Inr device"
    using d(1) identifier_again by (auto simp: lift_model_def device_id_new_def split: sum.splits)
  moreover have "case android of None \<Rightarrow> True | Some p \<Rightarrow> android_package_new p = Inr p"
    using d(2) identifier_again
    by (auto simp: transpose_opt_Inr lift_model_def android_package_new_def split: sum.splits option.splits)
  moreover have "case content of None \<Rightarrow> True | Some p \<Rightarrow> app_package_id_new p = Inr p"
    using d(3) identifier_again
    by (auto simp: transpose_opt_Inr lift_model_def app_package_id_new_def split: sum.splits option.splits)
  moreover have "int (tk_concurrency t) \<le> u32_max"
    using t(3,4) by (auto simp: u32_max_def TASK_MAX_CONCURRENCY_def)
  moreover have "list_all (\<lambda>r. ir_elapsed r \<le> u64_max) (case summary of Some rs \<Rightarrow> rs | None \<Rightarrow> [])"
    using d(4) by (auto simp: of_opt_def bind_eq_Some_conv split: option.splits dest!: summary_elapsed)
  ultimately show "typed_task t" by (simp add: typed_task_def t)
qed

section \<open>What gets lost\<close>

text \<open>
  Cancelling is not final. A cancelled task cannot be resumed directly, but
  suspending it overwrites the cancelled state, and after that it can: two requests turn
  a cancelled task into an active, enabled one.
\<close>

theorem cancelled_task_revived:
  assumes "tc_faults c = []" "tb_tasks (tc_db c) i = Some t" "tk_state t = TaskCancelled"
    and "next_after (tk_schedule t) now' = Inr next"
  shows "fst (resume_task next_after now' i c) = Inl ResumeCancelled
    \<and> fst (suspend_task now i why c)
    \<and> (\<exists>t'. fst (resume_task next_after now' i (snd (suspend_task now i why c))) = Inr ()
      \<and> tb_tasks (tc_db (snd (resume_task next_after now' i (snd (suspend_task now i why c))))) i = Some t'
      \<and> is_schedulable t')"
  using assms
  by (simp_all add: resume_task_def suspend_task_def Let_def db_access_def db_ok_def db_try_def
      get_timer_task_def notify_changed_def suspend_timer_task_def set_timer_task_state_def
      set_timer_task_wakeup_def is_schedulable_def)

text \<open>
  A task with exactly one input is dispatched as if it had none: the request carries
  the task's own device and payload, although the batch's request for that input would
  override both.
\<close>

theorem single_input_overrides_ignored:
  assumes "tk_inputs t = [j]" "dispatch_request pe now uuid t at c = (SubmitOne r, c')"
  shows "rq_device r = app_device (tk_app t)" and "rq_payload r = tk_payload t"
    and "dispatch_request pe now uuid (t\<lparr>tk_inputs := []\<rparr>) at c = (SubmitOne r, c')"
    and "input_request pe t j = Inr r' \<Longrightarrow> rq_payload r' = merge_payload (tk_payload t) j"
proof -
  obtain q p where q: "for_app (tk_app t) (tk_runner t) (tk_entrypoint t) (tk_payload t) = Inr q"
    "r = q\<lparr>rq_policy := p\<rparr>"
    using assms by (auto simp: dispatch_request_def task_effective_inputs_def task_run_request_def
        split: sum.splits)
  then show "rq_device r = app_device (tk_app t)" "rq_payload r = tk_payload t"
    by (auto simp: for_app_Inr)
  show "dispatch_request pe now uuid (t\<lparr>tk_inputs := []\<rparr>) at c = (SubmitOne r, c')"
    using assms by (auto simp: dispatch_request_def task_effective_inputs_def task_run_request_def
        split: sum.splits)
  show "rq_payload r' = merge_payload (tk_payload t) j" if "input_request pe t j = Inr r'"
    using that by (auto simp: input_request_def for_app_Inr split: sum.splits)
qed

text \<open>
  Cancelling a task whose inputs are running cancels none of its runs: a batch
  registers no run, neither when it is dispatched nor when it is settled, and without a
  registered run the runners are not asked and the cancellation still reports success.
\<close>

theorem cancel_misses_batch:
  assumes "dispatch_start pe supports now uuid t at c = (SubmitMany js, c')"
    and "tc_active c (tk_id t) = None"
  shows "tc_active c' (tk_id t) = None"
    and "tc_active (finisher_finalize now el f rows c') (tk_id t) = None"
    and "cancel_task ask later (tk_id t) c' = cancel_task ask' later (tk_id t) c'"
    and "tc_faults c' = [] \<Longrightarrow> fst (cancel_task ask later (tk_id t) c')"
proof -
  have tr: "tc_active (db_try g d) = tc_active d" for g d
    by (simp add: db_try_def db_access_def split: list.splits bool.splits)
  have a: "tc_active d' = tc_active d" if "db_access (claim_scheduled_run i x) d = (r, d')" for i x d r d'
    using that by (auto simp: db_access_def split: list.splits bool.splits prod.splits)
  have "tc_active c' = tc_active c"
    using assms(1) a
    by (auto simp: dispatch_start_def dispatch_request_def Let_def split: option.splits bool.splits
        if_splits sum.splits prod.splits)
  then show n: "tc_active c' (tk_id t) = None" using assms(2) by simp
  then show "tc_active (finisher_finalize now el f rows c') (tk_id t) = None"
    by (cases "mf_at f") (simp_all add: finisher_finalize_def Let_def tr call_result_hook_def)
  show "cancel_task ask later (tk_id t) c' = cancel_task ask' later (tk_id t) c'"
    using n by (simp add: cancel_task_def Let_def)
  show "fst (cancel_task ask later (tk_id t) c')" if "tc_faults c' = []"
    using n that by (simp add: cancel_task_def Let_def db_ok_def db_access_def)
qed

section \<open>Samples\<close>

definition sample_schedule :: task_schedule where
  "sample_schedule = \<lparr>provider_id = ''daily'', sched_config = JNull\<rparr>"

definition sample_input :: "string \<Rightarrow> json" where
  "sample_input i = JObject [(''id'', JString i)]"

definition sample_task :: "json list \<Rightarrow> timer_task" where
  "sample_task js =
     \<lparr>tk_id = ''t1'', tk_name = ''n'',
      tk_app = \<lparr>app_device = ''d1'', app_android_package = None, app_content_package = None\<rparr>,
      tk_runner = ''r'', tk_entrypoint = ''e'', tk_payload = JObject [], tk_extensions = JObject [],
      tk_inputs = js, tk_concurrency = 1, tk_summary = None, tk_schedule = sample_schedule,
      tk_state = TaskActive, tk_enabled = True, tk_next_wakeup = Some 5000000007,
      tk_last_result = None, tk_last_run = None, tk_created = 0, tk_updated = 0, tk_preset = None,
      tk_reason = None\<rparr>"

definition two_inputs :: timer_task where
  "two_inputs = sample_task [sample_input ''a'', sample_input ''b'']"

definition sample_core :: timer_core where
  "sample_core =
     \<lparr>tc_db = \<lparr>tb_tasks = (\<lambda>_. None), tb_runs = (\<lambda>_. None)\<rparr>, tc_faults = [],
      tc_active = (\<lambda>_. None), tc_completed = {}, tc_generation = 0, tc_hook = True,
      tc_results = [], tc_events = [], tc_changed = 0\<rparr>"

lemma trim_ascii:
  "trim ''t1'' = ''t1''" "trim ''n'' = ''n''" "trim ''r'' = ''r''" "trim ''e'' = ''e''"
  "trim ''daily'' = ''daily''" "trim ''d1'' = ''d1''" "trim ''a'' = ''a''" "trim ''b'' = ''b''"
  by code_simp+

lemma sample_request:
  "task_run_request (sample_task js) = Inr \<lparr>rq_device = ''d1'', rq_app = tk_app (sample_task js),
     rq_runner = ''r'', rq_entrypoint = ''e'', rq_payload = JObject [], rq_policy = None\<rparr>"
  by (simp add: task_run_request_def sample_task_def for_app_def run_request_new_def validate_request_def
      validate_request_field_def trim_ascii Let_def from_task_extensions_def)

text \<open>A printer for the texts of the sample, and a parser that reads them.\<close>

definition sample_texts :: "(json \<times> string) list" where
  "sample_texts = [(JObject [], ''{}''), (JArray [], ''[]''),
     (schedule_json sample_schedule, ''schedule''), (JArray (tk_inputs two_inputs), ''inputs'')]"

definition sample_codec :: codec where
  "sample_codec =
     \<lparr>print_json = (\<lambda>j. case map_of sample_texts j of Some s \<Rightarrow> s | None \<Rightarrow> ''?''),
      parse_json = (\<lambda>s. map_of (map (\<lambda>(j, s). (s, j)) sample_texts) s),
      rfc3339 = (\<lambda>_. ''1970''), serde_time = (\<lambda>_. ''1970''), parse_utc = (\<lambda>_. Some 0),
      parse_local = (\<lambda>_. None), from_secs = (\<lambda>s. Some (s * 1000000000))\<rparr>"

lemma sample_schedule_json:
  "schedule_json sample_schedule = JObject [(''config'', JNull), (''provider_id'', JString ''daily'')]"
  by code_simp

lemma sample_texts_ok: "texts_ok sample_codec two_inputs"
  by (simp add: texts_ok_def two_inputs_def sample_task_def sample_codec_def sample_texts_def
      sample_schedule_json sample_input_def timestamp_def)

lemma sample_typed: "typed_task two_inputs"
  by (simp add: typed_task_def two_inputs_def sample_task_def device_id_new_def validate_identifier_def
      trim_ascii u32_max_def)

lemma sample_stored: "\<exists>row. storage_from_task sample_codec two_inputs = Inr row"
  by (simp add: storage_from_task_def task_validate_def two_inputs_def sample_task_def check_field_def
      trim_ascii json_size_def sample_codec_def sample_texts_def sample_schedule_json sample_input_def
      TASK_MAX_INPUTS_def validate_input_def input_id_def schedule_validate_def sample_schedule_def)

theorem stored_task_reads_back_witness:
  "\<exists>row. storage_from_task sample_codec two_inputs = Inr row
     \<and> task_from_storage sample_codec row = Inr (two_inputs\<lparr>tk_summary := Some [],
         tk_next_wakeup := Some 5000000000\<rparr>)"
proof -
  obtain row where r: "storage_from_task sample_codec two_inputs = Inr row"
    using sample_stored by blast
  from stored_task_reads_back [OF r sample_texts_ok sample_typed]
  show ?thesis
    by (intro exI [of _ row] conjI [OF r], unfold stored_form_def)
      (simp add: two_inputs_def sample_task_def timestamp_def)
qed

theorem read_task_is_well_formed_witness:
  "\<exists>row t. task_from_storage sample_codec row = Inr t \<and> typed_task t \<and> length (tk_inputs t) = 2"
proof -
  obtain row where r: "storage_from_task sample_codec two_inputs = Inr row"
    using sample_stored by blast
  have b: "task_from_storage sample_codec row = Inr (stored_form two_inputs)"
    by (rule row_read_back [OF r sample_texts_ok sample_typed])
  have "length (tk_inputs (stored_form two_inputs)) = 2"
    by (simp add: stored_form_def two_inputs_def sample_task_def)
  then show ?thesis using read_task_is_well_formed [OF b] b by blast
qed

text \<open>The two inputs: the first completes before its submission returns, the second after.\<close>

definition sample_batch :: batch where
  "sample_batch = batch_start [] [] two_inputs None"

lemma sample_batch_open:
  "bt_phase sample_batch = [Waiting, Waiting]" "bt_task sample_batch = two_inputs"
  "bt_outcome sample_batch = [None, None]"
  by (simp_all add: sample_batch_def batch_start_def two_inputs_def sample_task_def sample_input_def
      input_request_def override_device_def for_app_def run_request_new_def validate_request_def
      validate_request_field_def trim_ascii Let_def from_task_extensions_def)

definition closed_batch :: batch where
  "closed_batch =
     (let b1 = move 0 Answered (note_outcome 7 3 0 TimerSuccess (move 0 Submitting sample_batch));
          b2 = move 1 InFlight (move 1 Submitting b1)
      in move 1 Finished (note_outcome 9 2 1 (TimerFailed ''boom'') b2))"

lemma sample_limit: "concurrency_limit two_inputs = 1"
  by (simp add: concurrency_limit_def two_inputs_def sample_task_def TASK_MAX_CONCURRENCY_def)

lemma closed_reach: "reach (\<lambda>b. b = batch_start [] [] two_inputs None) batch_step closed_batch"
proof -
  let ?R = "reach (\<lambda>b. b = batch_start [] [] two_inputs None) batch_step"
  note opened = sample_batch_open sample_limit holders_def
  let ?s1 = "move 0 Submitting sample_batch"
  let ?b1 = "move 0 Answered (note_outcome 7 3 0 TimerSuccess ?s1)"
  let ?s2 = "move 1 Submitting ?b1" and ?b2 = "move 1 InFlight (move 1 Submitting ?b1)"
  have "?R sample_batch" by (rule reach_init) (simp add: sample_batch_def)
  then have "?R ?s1" by (rule reach_step) (rule acquires, simp_all add: opened)
  then have "?R ?b1" by (rule reach_step) (rule completes_early, simp_all add: opened)
  then have "?R ?s2" by (rule reach_step) (rule acquires, simp_all add: opened)
  then have "?R ?b2" by (rule reach_step) (rule accepted_run, simp_all add: opened)
  then have "?R (move 1 Finished (note_outcome 9 2 1 (TimerFailed ''boom'') ?b2))"
    by (rule reach_step) (rule completes, simp_all add: opened)
  then show ?thesis by (simp add: closed_batch_def)
qed


theorem batch_comes_to_rest_witness:
  "batch_rank (move 0 Submitting sample_batch) < batch_rank sample_batch"
proof -
  have "batch_step sample_batch (move 0 Submitting sample_batch)"
    by (rule acquires) (simp_all add: sample_batch_open sample_limit holders_def)
  then show ?thesis using batch_comes_to_rest [of sample_batch "move 0 Submitting sample_batch"] by simp
qed

text \<open>An occurrence of a task without inputs, handed over once.\<close>

lemma short_inputs: "length (task_effective_inputs (sample_task [])) = 1"
  "length (task_effective_inputs (sample_task [j])) = 1"
  by (simp_all add: task_effective_inputs_def sample_task_def)

lemma sample_dispatch:
  "\<exists>q. fst (dispatch_start [] (\<lambda>_. True) 1 [] (sample_task []) (Some 5) sample_core) = SubmitOne q"
  by (simp add: dispatch_start_def sample_core_def db_access_def claim_scheduled_run_def dispatch_request_def
      short_inputs sample_request Let_def)

theorem occurrence_dispatched_at_most_once_witness:
  "\<exists>y. y_handed y = [(''t1'', 5)]
     \<and> fst (dispatch_start [] (\<lambda>_. True) 2 [] (sample_task []) (Some 5)
         (restarted [] True (y_core y))) = DispatchDone"
proof -
  let ?start = "\<lparr>y_core = sample_core, y_handed = []\<rparr>"
  let ?sent = "dispatch_occurrence [] (\<lambda>_. True) 1 [] (sample_task []) 5 ?start"
  let ?y = "?sent\<lparr>y_core := restarted [] True (y_core ?sent)\<rparr>"
  have "reach (\<lambda>y. y_handed y = []) timer_step ?start" by (rule reach_init) simp
  from reach_step [OF this occurrence]
  have "reach (\<lambda>y. y_handed y = []) timer_step ?sent" .
  from reach_step [OF this other [OF op_restart]]
  have r: "reach (\<lambda>y. y_handed y = []) timer_step ?y" .
  obtain q where q: "fst (dispatch_start [] (\<lambda>_. True) 1 [] (sample_task []) (Some 5) sample_core) = SubmitOne q"
    using sample_dispatch by blast
  have "tk_id (sample_task []) = ''t1''" by (simp add: sample_task_def)
  then have h: "y_handed ?y = [(''t1'', 5)]"
    by (simp add: dispatch_occurrence_def case_prod_beta q)
  then have "(tk_id (sample_task []), 5) \<in> set (y_handed ?y)" by (simp add: sample_task_def)
  from mp [OF conjunct2 [OF occurrence_dispatched_at_most_once [OF r, of "sample_task []" 5 "[]" "\<lambda>_. True" 2 "[]"]] this]
  have "fst (dispatch_start [] (\<lambda>_. True) 2 [] (sample_task []) (Some 5) (y_core ?y)) = DispatchDone" .
  then show ?thesis using h by (metis timer_sys.select_convs(1) timer_sys.surjective timer_sys.update_convs(1) timer_sys.select_convs(2))
qed

text \<open>An extension for which the sample is due.\<close>

definition sample_extension :: extension where
  "sample_extension = \<lparr>ex_next = (\<lambda>_ now. Inr (Some (now + 60000000000))),
     ex_latest = (\<lambda>_ now _. Inr (Some now))\<rparr>"

theorem loop_replays_nothing_old_witness:
  "fst (visit_task sample_extension 6000000000 [] (sample_task []) None sample_core)
     = Some ((sample_task [])\<lparr>tk_next_wakeup := Some 66000000000\<rparr>, 5)
   \<and> timestamp (6000000000 - LOOKBACK) \<le> 5"
proof -
  obtain w c' where v: "visit_task sample_extension 6000000000 [] (sample_task []) None sample_core
      = (Some ((sample_task [])\<lparr>tk_next_wakeup := Some 66000000000\<rparr>, 5), w, c')"
    by (simp add: visit_task_def sample_task_def is_schedulable_def due_decision_def LOOKBACK_def
        sample_extension_def Let_def db_ok_def db_access_def sample_core_def timestamp_def)
  show ?thesis
    using loop_replays_nothing_old [OF v] v by (simp add: sample_extension_def LOOKBACK_def)
qed

theorem cancelled_task_revived_witness:
  "\<exists>c t'. fst (resume_task (\<lambda>_ _. Inr None) 3 ''t1'' c) = Inl ResumeCancelled
     \<and> tb_tasks (tc_db (snd (resume_task (\<lambda>_ _. Inr None) 3 ''t1'' (snd (suspend_task 2 ''t1'' ''why'' c))))) ''t1''
       = Some t' \<and> is_schedulable t'"
proof -
  let ?t = "(sample_task [])\<lparr>tk_state := TaskCancelled, tk_enabled := False\<rparr>"
  let ?c = "sample_core\<lparr>tc_db := \<lparr>tb_tasks = (\<lambda>_. None)(''t1'' \<mapsto> ?t), tb_runs = (\<lambda>_. None)\<rparr>\<rparr>"
  have h: "tc_faults ?c = []" "tb_tasks (tc_db ?c) ''t1'' = Some ?t" "tk_state ?t = TaskCancelled"
    "(\<lambda>_ _. Inr None) (tk_schedule ?t) 3 = (Inr None :: (string, int option) result)"
    by (simp_all add: sample_core_def)
  from cancelled_task_revived [OF h] show ?thesis by blast
qed

theorem single_input_overrides_ignored_witness:
  "\<exists>r c'. dispatch_request [] 1 [] (sample_task [JObject [(''device_id'', JString ''d2'')]]) None sample_core
     = (SubmitOne r, c') \<and> rq_device r = ''d1''"
proof -
  obtain r c' where d: "dispatch_request [] 1 [] (sample_task [JObject [(''device_id'', JString ''d2'')]])
      None sample_core = (SubmitOne r, c')"
    by (simp add: dispatch_request_def short_inputs sample_request Let_def)
  have "tk_inputs (sample_task [JObject [(''device_id'', JString ''d2'')]]) = [JObject [(''device_id'', JString ''d2'')]]"
    by (simp add: sample_task_def)
  from single_input_overrides_ignored(1) [OF this d] d show ?thesis by (simp add: sample_task_def)
qed

theorem cancel_misses_batch_witness:
  "\<exists>js c'. dispatch_start [] (\<lambda>_. True) 1 [] two_inputs None sample_core = (SubmitMany js, c')
     \<and> fst (cancel_task (\<lambda>_. Inl RunnerShuttingDown) 2 ''t1'' c')"
proof -
  have d: "dispatch_start [] (\<lambda>_. True) 1 [] two_inputs None sample_core
      = (SubmitMany (tk_inputs two_inputs), sample_core)"
    by (simp add: dispatch_start_def dispatch_request_def task_effective_inputs_def two_inputs_def
        sample_task_def)
  have n: "tc_active sample_core (tk_id two_inputs) = None" "tc_faults sample_core = []"
    "tk_id two_inputs = ''t1''"
    by (simp_all add: sample_core_def two_inputs_def sample_task_def)
  show ?thesis
    using cancel_misses_batch(4) [OF d n(1) n(2), where ask = "\<lambda>_. Inl RunnerShuttingDown"] d n(3) by auto
qed

end
