(* ===== verification/TimerScheduler.thy ===== *)
theory TimerScheduler
  imports TimerTheorems
begin

text \<open>
  The composition of the registries with the core (\<^verbatim>\<open>server/src/scheduler.rs\<close>), the
  publication of package presets, and the batch of a run-now request
  (\<^verbatim>\<open>submit_now_multi\<close>), which submits its inputs one after the other.
\<close>

section \<open>Registering and unregistering runners\<close>

datatype register_error = RegisterRefused string | RegisterDb

definition register_extension_runner ::
  "(task_schedule \<Rightarrow> int \<Rightarrow> (string, int option) result) \<Rightarrow> int \<Rightarrow> timer_task list \<Rightarrow> string \<Rightarrow> string \<Rightarrow> 'x
    \<Rightarrow> (string \<rightharpoonup> 'x registered_runner) \<Rightarrow> timer_core
    \<Rightarrow> (register_error, nat) result \<times> (string \<rightharpoonup> 'x registered_runner) \<times> timer_core" where
  "register_extension_runner next_after now listed i owner x reg c =
     (case register_runner i owner x reg of
        (Inl e, reg1) \<Rightarrow> (Inl (RegisterRefused e), reg1, c)
      | (Inr _, reg1) \<Rightarrow>
          (case resume_tasks_missing_runner next_after now listed i c of
             (None, c1) \<Rightarrow> (Inl RegisterDb, reg1, c1)
           | (Some n, c1) \<Rightarrow> (Inr n, reg1, notify_changed c1)))"

fun suspend_removed :: "int \<Rightarrow> string list \<Rightarrow> timer_core \<Rightarrow> bool \<times> timer_core" where
  "suspend_removed now [] c = (True, c)"
| "suspend_removed now (i # is) c =
     (case suspend_tasks_missing_runner now i c of
        (None, c1) \<Rightarrow> (False, c1)
      | (Some _, c1) \<Rightarrow> suspend_removed now is c1)"

definition unregister_extension_owner ::
  "int \<Rightarrow> string list \<Rightarrow> string \<Rightarrow> (string \<rightharpoonup> 'x registered_runner) \<Rightarrow> timer_core
    \<Rightarrow> string list option \<times> (string \<rightharpoonup> 'x registered_runner) \<times> timer_core" where
  "unregister_extension_owner now order owner reg c =
     (let (removed, reg1) = unregister_owner order owner reg
      in case suspend_removed now removed c of
           (False, c1) \<Rightarrow> (None, reg1, c1)
         | (True, c1) \<Rightarrow> (Some removed, reg1, notify_changed c1))"

text \<open>The rows of \<^verbatim>\<open>list_timer_tasks_missing_runner\<close>, over a listing of the table.\<close>

definition list_missing_runner :: "timer_task list \<Rightarrow> string \<Rightarrow> timer_task list" where
  "list_missing_runner rows i = filter (misses_runner i) rows"

section \<open>Package presets\<close>

text \<open>The table of presets; a preset is written only when it is valid.\<close>

definition upsert_task_preset ::
  "task_preset \<Rightarrow> (string \<rightharpoonup> task_preset) \<Rightarrow> (timer_error, string \<rightharpoonup> task_preset) result" where
  "upsert_task_preset p db = and_then (preset_validate p) (\<lambda>_. Inr (db(pr_id p \<mapsto> p)))"

definition delete_task_preset ::
  "string \<Rightarrow> (string \<rightharpoonup> task_preset) \<Rightarrow> bool \<times> (string \<rightharpoonup> task_preset)" where
  "delete_task_preset i db = (db i \<noteq> None, db(i := None))"

definition preset_of ::
  "int \<Rightarrow> string \<Rightarrow> (string \<rightharpoonup> task_preset) \<Rightarrow> package_preset \<Rightarrow> task_preset" where
  "preset_of now package db p =
     (let i = package_preset_id package (pp_name p)
      in \<lparr>pr_id = i, pr_package = package, pr_name = pp_name p, pr_runner = pp_runner p,
          pr_entrypoint = pp_entrypoint p, pr_payload = pp_payload p, pr_schedule = pp_schedule p,
          pr_created = (case db i of Some old \<Rightarrow> pr_created old | None \<Rightarrow> now)\<rparr>)"

text \<open>Publication stops at the first preset that is invalid; those before it stay written.\<close>

fun publish_package_presets ::
  "int \<Rightarrow> string \<Rightarrow> package_preset list \<Rightarrow> nat \<Rightarrow> (string \<rightharpoonup> task_preset)
    \<Rightarrow> (timer_error, nat) result \<times> (string \<rightharpoonup> task_preset)" where
  "publish_package_presets now package [] n db = (Inr n, db)"
| "publish_package_presets now package (p # ps) n db =
     (case upsert_task_preset (preset_of now package db p) db of
        Inl e \<Rightarrow> (Inl e, db)
      | Inr db1 \<Rightarrow> publish_package_presets now package ps (n + 1) db1)"

section \<open>Run now with several inputs\<close>

text \<open>
  The request of an input; an input that yields none is answered with an error and
  recorded with an outcome of its own text.
\<close>

definition BAD_DEVICE_TEXT :: string where
  "BAD_DEVICE_TEXT = utf8 [232, 174, 190, 229, 164, 135, 232, 166, 134, 231, 155, 150, 230, 151, 160,
     230, 149, 136]"

definition now_request ::
  "string \<Rightarrow> timer_task \<Rightarrow> json \<Rightarrow> (runner_error \<times> timer_outcome, run_request) result" where
  "now_request policy_error t j =
     (case override_device (tk_app t) j of
        Inl e \<Rightarrow> Inl (RunnerInvalid (model_error_text e), TimerFailed BAD_DEVICE_TEXT)
      | Inr app \<Rightarrow>
          (case for_app app (tk_runner t) (tk_entrypoint t) (merge_payload (tk_payload t) j) of
             Inl e \<Rightarrow> Inl (RunnerInvalid (model_error_text e), TimerFailed (model_error_text e))
           | Inr r \<Rightarrow>
               (case from_task_extensions (tk_extensions t) of
                  Inl _ \<Rightarrow> Inl (RunnerInvalid policy_error, TimerFailed policy_error)
                | Inr p \<Rightarrow> Inr (r\<lparr>rq_policy := p\<rparr>))))"

record now_batch =
  nb_batch :: batch
  nb_cursor :: nat
  nb_run :: "string option"
  nb_error :: "runner_error option"

definition now_start :: "string \<Rightarrow> timer_task \<Rightarrow> now_batch" where
  "now_start uuid t =
     \<lparr>nb_batch = \<lparr>bt_task = t, bt_phase = map (\<lambda>_. Waiting) (tk_inputs t),
        bt_finisher = finisher_new uuid t (length (tk_inputs t)) None,
        bt_outcome = map (\<lambda>_. None) (tk_inputs t), bt_finals = []\<rparr>,
      nb_cursor = 0, nb_run = None, nb_error = None\<rparr>"

definition or_else :: "'a option \<Rightarrow> 'a \<Rightarrow> 'a option" where
  "or_else x y = (case x of None \<Rightarrow> Some y | Some _ \<Rightarrow> x)"

definition PANIC_TEXT :: string where
  "PANIC_TEXT = utf8 [230, 143, 144, 228, 186, 164, 228, 187, 187, 229, 138, 161, 229, 164, 177, 232, 180,
     165, 58, 32]"

definition NO_INPUT_TEXT :: string where
  "NO_INPUT_TEXT = utf8 [230, 178, 161, 230, 156, 137, 229, 143, 175, 232, 191, 144, 232, 161, 140, 231, 154,
     132, 232, 190, 147, 229, 133, 165]"

text \<open>
  The loop waits for each submission, permit included, before it goes on to the next
  input; runs that were accepted complete in between. A submission that panics is only
  noted as an error.
\<close>

inductive now_step :: "string \<Rightarrow> now_batch \<Rightarrow> now_batch \<Rightarrow> bool" for policy_error :: string where
  now_unusable: "nb_cursor s < length (bt_phase (nb_batch s))
    \<Longrightarrow> bt_phase (nb_batch s) ! nb_cursor s = Waiting
    \<Longrightarrow> now_request policy_error (bt_task (nb_batch s)) (tk_inputs (bt_task (nb_batch s)) ! nb_cursor s)
          = Inl (e, out)
    \<Longrightarrow> now_step policy_error s (s\<lparr>nb_batch := move (nb_cursor s) Finished
          (note_outcome now 0 (nb_cursor s) out (nb_batch s)),
        nb_cursor := nb_cursor s + 1, nb_error := or_else (nb_error s) e\<rparr>)"
| now_acquires: "nb_cursor s < length (bt_phase (nb_batch s))
    \<Longrightarrow> bt_phase (nb_batch s) ! nb_cursor s = Waiting
    \<Longrightarrow> now_request policy_error (bt_task (nb_batch s)) (tk_inputs (bt_task (nb_batch s)) ! nb_cursor s)
          = Inr r
    \<Longrightarrow> holders (nb_batch s) < concurrency_limit (bt_task (nb_batch s))
    \<Longrightarrow> now_step policy_error s (s\<lparr>nb_batch := move (nb_cursor s) Submitting (nb_batch s)\<rparr>)"
| now_completes_early: "nb_cursor s < length (bt_phase (nb_batch s))
    \<Longrightarrow> bt_phase (nb_batch s) ! nb_cursor s = Submitting
    \<Longrightarrow> now_step policy_error s (s\<lparr>nb_batch := move (nb_cursor s) Answered
          (note_outcome now elapsed (nb_cursor s) out (nb_batch s))\<rparr>)"
| now_accepted: "nb_cursor s < length (bt_phase (nb_batch s))
    \<Longrightarrow> bt_phase (nb_batch s) ! nb_cursor s = Submitting
    \<Longrightarrow> now_step policy_error s (s\<lparr>nb_batch := move (nb_cursor s) InFlight (nb_batch s),
        nb_cursor := nb_cursor s + 1, nb_run := or_else (nb_run s) rid\<rparr>)"
| now_accepted_late: "nb_cursor s < length (bt_phase (nb_batch s))
    \<Longrightarrow> bt_phase (nb_batch s) ! nb_cursor s = Answered
    \<Longrightarrow> now_step policy_error s (s\<lparr>nb_batch := move (nb_cursor s) Finished (nb_batch s),
        nb_cursor := nb_cursor s + 1, nb_run := or_else (nb_run s) rid\<rparr>)"
| now_refused: "nb_cursor s < length (bt_phase (nb_batch s))
    \<Longrightarrow> bt_phase (nb_batch s) ! nb_cursor s = Submitting
    \<Longrightarrow> now_step policy_error s (s\<lparr>nb_batch := move (nb_cursor s) Finished
          (note_outcome now 0 (nb_cursor s) (outcome_of_error e) (nb_batch s)),
        nb_cursor := nb_cursor s + 1, nb_error := or_else (nb_error s) e\<rparr>)"
| now_panics: "nb_cursor s < length (bt_phase (nb_batch s))
    \<Longrightarrow> bt_phase (nb_batch s) ! nb_cursor s = Submitting
    \<Longrightarrow> now_step policy_error s (s\<lparr>nb_batch := move (nb_cursor s) Finished (nb_batch s),
        nb_cursor := nb_cursor s + 1, nb_error := or_else (nb_error s) (RunnerOther (PANIC_TEXT @ why))\<rparr>)"
| now_completes: "i < length (bt_phase (nb_batch s)) \<Longrightarrow> bt_phase (nb_batch s) ! i = InFlight
    \<Longrightarrow> now_step policy_error s (s\<lparr>nb_batch := move i Finished
          (note_outcome now elapsed i out (nb_batch s))\<rparr>)"

text \<open>The answer once the loop is through.\<close>

definition now_reply :: "now_batch \<Rightarrow> (runner_error, string) result" where
  "now_reply s =
     (case nb_run s of
        Some rid \<Rightarrow> Inr rid
      | None \<Rightarrow> Inl (case nb_error s of Some e \<Rightarrow> e | None \<Rightarrow> RunnerInvalid NO_INPUT_TEXT))"

section \<open>A runner that goes and comes back\<close>

text \<open>An access of a core without faults.\<close>

lemma healthy_access:
  "tc_faults c = [] \<Longrightarrow> db_access f c = (Some (fst (f (tc_db c))), c\<lparr>tc_db := snd (f (tc_db c))\<rparr>)"
  by (cases "f (tc_db c)") (simp add: db_access_def)

definition row_at :: "timer_core \<Rightarrow> string \<Rightarrow> timer_task option" where
  "row_at c i = tb_tasks (tc_db c) i"

definition gone_row :: "string \<Rightarrow> int \<Rightarrow> timer_task \<Rightarrow> timer_task" where
  "gone_row runner now t = (if bound_to runner t
     then t\<lparr>tk_state := DependencyMissing, tk_reason := Some (missing_reason runner),
       tk_next_wakeup := None, tk_updated := now\<rparr> else t)"

lemma suspend_missing_healthy:
  assumes "tc_faults c = []"
  shows "\<exists>n c'. suspend_tasks_missing_runner now runner c = (Some n, c') \<and> tc_faults c' = []
     \<and> (\<forall>i. row_at c' i = map_option (gone_row runner now) (row_at c i))"
  using assms
  by (simp add: suspend_tasks_missing_runner_def healthy_access notify_changed_def row_at_def
      suspend_active_for_runner_def update_where_def gone_row_def [abs_def])

lemma gone_row_other: "tk_runner t \<noteq> runner \<Longrightarrow> gone_row runner now t = t"
  by (simp add: gone_row_def bound_to_def)

lemma gone_row_again: "tk_state t \<noteq> TaskActive \<Longrightarrow> gone_row runner now t = t"
  by (simp add: gone_row_def bound_to_def)

lemma suspend_removed_healthy:
  assumes "tc_faults c = []"
  shows "\<exists>c'. suspend_removed now is c = (True, c') \<and> tc_faults c' = []
     \<and> (\<forall>i. row_at c' i = map_option (\<lambda>t. if tk_runner t \<in> set is then gone_row (tk_runner t) now t else t)
         (row_at c i))"
  using assms
proof (induction "is" arbitrary: c)
  case Nil
  then show ?case by (simp add: option.map_ident)
next
  case (Cons r rs)
  obtain n c1 where s: "suspend_tasks_missing_runner now r c = (Some n, c1)" "tc_faults c1 = []"
    and r1: "\<And>i. row_at c1 i = map_option (gone_row r now) (row_at c i)"
    using suspend_missing_healthy [OF Cons.prems, of now r] by blast
  obtain c' where c': "suspend_removed now rs c1 = (True, c')" "tc_faults c' = []"
    and r2: "\<And>i. row_at c' i = map_option (\<lambda>t. if tk_runner t \<in> set rs then gone_row (tk_runner t) now t else t)
         (row_at c1 i)"
    using Cons.IH [OF s(2)] by blast
  have "row_at c' i = map_option (\<lambda>t. if tk_runner t \<in> set (r # rs) then gone_row (tk_runner t) now t else t)
         (row_at c i)" for i
  proof (cases "row_at c i")
    case (Some t)
    have run: "tk_runner (gone_row r now t) = tk_runner t" by (simp add: gone_row_def)
    show ?thesis
    proof (cases "bound_to r t")
      case True
      then have "tk_runner t = r" by (simp add: bound_to_def)
      moreover have "gone_row r now (gone_row r now t) = gone_row r now t"
        using True by (intro gone_row_again) (simp add: gone_row_def)
      ultimately show ?thesis using Some by (simp add: r2 r1 run)
    next
      case False
      then have "gone_row r now t = t" by (simp add: gone_row_def)
      then show ?thesis using Some by (simp add: r2 r1)
    qed
  qed (simp add: r1 r2)
  then show ?case using s c' by simp
qed

text \<open>Resuming touches only rows whose reason is exactly the missing runner.\<close>

definition resumed_row :: "int option \<Rightarrow> int \<Rightarrow> timer_task \<Rightarrow> timer_task" where
  "resumed_row next now t = t\<lparr>tk_state := TaskActive, tk_reason := None, tk_next_wakeup := seconds next,
     tk_updated := now\<rparr>"

lemma resume_from_missing_row:
  "tb_tasks (snd (resume_from_missing k runner next now db)) i
     = (case tb_tasks db i of
          Some t \<Rightarrow> Some (if i = k \<and> tk_state t = DependencyMissing \<and> tk_reason t = Some (missing_reason runner)
                         then resumed_row next now t else t)
        | None \<Rightarrow> None)"
  by (cases "i = k") (auto simp: resume_from_missing_def resumed_row_def split: option.splits)

definition awaits :: "string \<Rightarrow> timer_task \<Rightarrow> bool" where
  "awaits runner t \<longleftrightarrow> tk_state t = DependencyMissing \<and> tk_reason t = Some (missing_reason runner)"

lemma resume_all_row:
  assumes "tc_faults c = []"
  shows "\<exists>n' c'. resume_all next_after now runner ts n c = (Some n', c') \<and> tc_faults c' = []
    \<and> (\<forall>t. row_at c i = Some t \<and> \<not> awaits runner t \<longrightarrow> row_at c' i = Some t)
    \<and> (\<forall>t nx. row_at c i = Some t \<and> awaits runner t \<and> next_after (tk_schedule t) now = Inr nx
        \<and> (\<forall>u \<in> set ts. tk_id u = i \<longrightarrow> tk_schedule u = tk_schedule t)
        \<longrightarrow> row_at c' i = Some (if i \<in> tk_id ` set ts then resumed_row (map_option timestamp nx) now t else t))"
  using assms
proof (induction ts arbitrary: n c)
  case Nil
  then show ?case by simp
next
  case (Cons u us)
  show ?case
  proof (cases "next_after (tk_schedule u) now")
    case (Inl e)
    obtain n' c' where IH: "resume_all next_after now runner us n c = (Some n', c')" "tc_faults c' = []"
      "\<forall>t. row_at c i = Some t \<and> \<not> awaits runner t \<longrightarrow> row_at c' i = Some t"
      "\<forall>t nx. row_at c i = Some t \<and> awaits runner t \<and> next_after (tk_schedule t) now = Inr nx
        \<and> (\<forall>u \<in> set us. tk_id u = i \<longrightarrow> tk_schedule u = tk_schedule t)
        \<longrightarrow> row_at c' i = Some (if i \<in> tk_id ` set us then resumed_row (map_option timestamp nx) now t else t)"
      using Cons.IH [OF Cons.prems, of n] by blast
    have "row_at c' i = Some (if i \<in> tk_id ` set (u # us) then resumed_row (map_option timestamp nx) now t else t)"
      if "row_at c i = Some t" "awaits runner t" "next_after (tk_schedule t) now = Inr nx"
        "\<forall>v \<in> set (u # us). tk_id v = i \<longrightarrow> tk_schedule v = tk_schedule t" for t nx
    proof -
      have "tk_id u \<noteq> i" using that Inl by auto
      then show ?thesis using IH(4) that by auto
    qed
    then show ?thesis using IH(1-3) Inl by simp
  next
    case (Inr v)
    let ?f = "resume_from_missing (tk_id u) runner (map_option timestamp v) now"
    define d where "d = c\<lparr>tc_db := snd (?f (tc_db c))\<rparr>"
    have a: "db_access ?f c = (Some (fst (?f (tc_db c))), d)" and d: "tc_faults d = []"
      using Cons.prems by (simp_all add: healthy_access d_def)
    obtain n' c' where IH: "resume_all next_after now runner us (if fst (?f (tc_db c)) then n + 1 else n) d
        = (Some n', c')" "tc_faults c' = []"
      "\<forall>t. row_at d i = Some t \<and> \<not> awaits runner t \<longrightarrow> row_at c' i = Some t"
      "\<forall>t nx. row_at d i = Some t \<and> awaits runner t \<and> next_after (tk_schedule t) now = Inr nx
        \<and> (\<forall>u \<in> set us. tk_id u = i \<longrightarrow> tk_schedule u = tk_schedule t)
        \<longrightarrow> row_at c' i = Some (if i \<in> tk_id ` set us then resumed_row (map_option timestamp nx) now t else t)"
      using Cons.IH [OF d] by blast
    have row: "row_at d i = (case row_at c i of
        Some t \<Rightarrow> Some (if i = tk_id u \<and> awaits runner t then resumed_row (map_option timestamp v) now t else t)
      | None \<Rightarrow> None)"
      by (cases "tb_tasks (tc_db c) i") (simp_all add: row_at_def d_def resume_from_missing_row awaits_def)
    have e: "resume_all next_after now runner (u # us) n c = (Some n', c')" using Inr a IH(1) by simp
    have keep: "row_at c' i = Some t" if "row_at c i = Some t" "\<not> awaits runner t" for t
      using IH(3) row that by simp
    have hit: "row_at c' i = Some (if i \<in> tk_id ` set (u # us) then resumed_row (map_option timestamp nx) now t else t)"
      if t: "row_at c i = Some t" "awaits runner t" "next_after (tk_schedule t) now = Inr nx"
        and s: "\<forall>v \<in> set (u # us). tk_id v = i \<longrightarrow> tk_schedule v = tk_schedule t" for t nx
    proof (cases "i = tk_id u")
      case True
      then have v: "v = nx" using Inr t(3) s by simp
      have "row_at d i = Some (resumed_row (map_option timestamp nx) now t)" using row t True v by simp
      moreover have "\<not> awaits runner (resumed_row (map_option timestamp nx) now t)"
        by (simp add: awaits_def resumed_row_def)
      ultimately show ?thesis using IH(3) True by simp
    next
      case False
      then have "row_at d i = Some t" using row t by simp
      then show ?thesis using IH(4) t s False by auto
    qed
    show ?thesis using e IH(2) keep hit by blast
  qed
qed

lemma unregister_owner_removed:
  "fst (unregister_owner order owner reg)
     = filter (\<lambda>i. case reg i of Some r \<Rightarrow> rg_owner r = owner | None \<Rightarrow> False) order"
  by (simp add: unregister_owner_def Let_def)

text \<open>
  The life cycle of a runner and its tasks. When its owner is unregistered, exactly
  the active, enabled tasks bound to a removed runner stop waiting for their instants, with a
  reason that names the runner; every other row is left alone. When a runner of that name is
  registered again, the tasks that stopped for it become active again at an instant the
  schedule gives from then on, and nothing else of them has changed.
\<close>

theorem runner_gone_and_back:
  assumes "tc_faults c = []" "reg r = Some rr" "rg_owner rr = owner" "r \<in> set order"
    and "row_at c i = Some t" "tk_id t = i"
    and "unregister_extension_owner now order owner reg c = (gone, reg1, c1)"
    and "\<And>u. u \<in> set rows \<Longrightarrow> row_at c1 (tk_id u) = Some u"
      "\<And>k u. row_at c1 k = Some u \<Longrightarrow> u \<in> set rows"
    and "register_extension_runner next_after later (list_missing_runner rows r) r owner' x reg1 c1
      = (Inr n, reg2, c2)"
    and "next_after (tk_schedule t) later = Inr nx"
  shows "gone = Some (filter (\<lambda>k. case reg k of Some e \<Rightarrow> rg_owner e = owner | None \<Rightarrow> False) order)
    \<and> (bound_to r t \<longrightarrow> row_at c1 i = Some (gone_row r now t)
      \<and> row_at c2 i = Some (t\<lparr>tk_reason := None,
          tk_next_wakeup := seconds (map_option timestamp nx), tk_updated := later\<rparr>))
    \<and> (\<not> bound_to (tk_runner t) t \<longrightarrow> row_at c1 i = Some t)"
proof (intro conjI impI)
  let ?removed = "filter (\<lambda>k. case reg k of Some e \<Rightarrow> rg_owner e = owner | None \<Rightarrow> False) order"
  obtain d where d: "suspend_removed now ?removed c = (True, d)"
    and rows_d: "\<And>i. row_at d i = map_option
      (\<lambda>t. if tk_runner t \<in> set ?removed then gone_row (tk_runner t) now t else t) (row_at c i)"
    and fd: "tc_faults d = []"
    using suspend_removed_healthy [OF assms(1), of now ?removed] by blast
  have g: "gone = Some ?removed" and c1: "c1 = notify_changed d"
    using assms(7) d unregister_owner_removed [of order owner reg]
    by (auto simp: unregister_extension_owner_def case_prod_beta)
  show "gone = Some ?removed" by (rule g)
  have row1: "row_at c1 i = Some (if tk_runner t \<in> set ?removed then gone_row (tk_runner t) now t else t)"
    using rows_d [of i] assms(5) by (simp add: c1 notify_changed_def row_at_def)
  show "row_at c1 i = Some t" if "\<not> bound_to (tk_runner t) t"
    using row1 that by (simp add: gone_row_def)
  show gone: "row_at c1 i = Some (gone_row r now t)" if b: "bound_to r t"
  proof -
    have "tk_runner t = r" using b by (simp add: bound_to_def)
    then show ?thesis using row1 assms(2-4) by simp
  qed
  show "row_at c2 i = Some (t\<lparr>tk_reason := None, tk_next_wakeup := seconds (map_option timestamp nx),
      tk_updated := later\<rparr>)" if b: "bound_to r t"
  proof -
    let ?g = "gone_row r now t" and ?ts = "list_missing_runner rows r"
    have f1: "tc_faults c1 = []" using fd by (simp add: c1 notify_changed_def)
    have tg: "awaits r ?g" "tk_schedule ?g = tk_schedule t" "tk_id ?g = i" "misses_runner r ?g"
      using b assms(6) by (simp_all add: awaits_def gone_row_def misses_runner_def bound_to_def)
    have "?g \<in> set rows" using gone [OF b] assms(9) by blast
    then have mem: "i \<in> tk_id ` set ?ts" using tg by (force simp: list_missing_runner_def)
    have sched: "\<forall>u \<in> set ?ts. tk_id u = i \<longrightarrow> tk_schedule u = tk_schedule ?g"
      using assms(8) gone [OF b] by (fastforce simp: list_missing_runner_def)
    obtain n' c' where ra: "resume_all next_after later r ?ts 0 c1 = (Some n', c')"
      "row_at c' i = Some (if i \<in> tk_id ` set ?ts then resumed_row (map_option timestamp nx) later ?g else ?g)"
      using resume_all_row [OF f1, of next_after later r ?ts 0 i] gone [OF b] tg(1,2) assms(11) sched by metis
    then have "c2 = notify_changed (notify_changed c')"
      using assms(10) by (auto simp: register_extension_runner_def resume_tasks_missing_runner_def
          split: prod.splits sum.splits option.splits)
    then have "row_at c2 i = Some (resumed_row (map_option timestamp nx) later ?g)"
      using ra(2) mem by (simp add: notify_changed_def row_at_def)
    then show ?thesis using b by (simp add: resumed_row_def gone_row_def bound_to_def)
  qed
qed

lemma healthy_try:
  assumes "tc_faults k = []"
  shows "tc_faults (db_try f k) = []" "row_at (db_try f k) i = tb_tasks (f (tc_db k)) i"
  using assms by (simp_all add: db_try_def healthy_access row_at_def)

lemma finish_run_rows: "tb_tasks (snd (finish_scheduled_run i x st rid er db)) = tb_tasks db"
  by (simp add: finish_scheduled_run_def split: option.splits)

lemma finish_rejected_row:
  assumes "tc_faults k = []" "row_at k (tk_id t) = Some s"
  shows "tc_faults (finish_rejected now uuid t at st rid err k) = []"
    and "\<exists>l. row_at (finish_rejected now uuid t at st rid err k) (tk_id t)
      = Some (s\<lparr>tk_last_result := Some l, tk_last_run := Some now, tk_updated := now\<rparr>)"
proof -
  let ?k = "case at of Some x \<Rightarrow> db_try (\<lambda>db. snd (finish_scheduled_run (tk_id t) x st rid err db)) k | None \<Rightarrow> k"
  have k: "tc_faults (call_result_hook t' r ?k) = []" "row_at (call_result_hook t' r ?k) (tk_id t) = Some s" for t' r
    using assms healthy_try [OF assms(1)]
    by (auto simp: call_result_hook_def row_at_def finish_run_rows split: option.splits)
  show "tc_faults (finish_rejected now uuid t at st rid err k) = []"
    unfolding finish_rejected_def Let_def by (rule healthy_try(1)) (rule k(1))
  show "\<exists>l. row_at (finish_rejected now uuid t at st rid err k) (tk_id t)
      = Some (s\<lparr>tk_last_result := Some l, tk_last_run := Some now, tk_updated := now\<rparr>)"
    unfolding finish_rejected_def Let_def healthy_try(2) [OF k(1)]
    unfolding update_task_result_def update_row_Some [OF k(2) [unfolded row_at_def]] by auto
qed

text \<open>
  A task whose runner vanishes between the check and the submission is marked with
  the registry's message instead of the reason that names the runner; registering the
  runner again therefore never resumes it.
\<close>

theorem raced_missing_runner_not_resumed:
  assumes "tc_faults c = []" "reg (tk_runner t) = None" "rq_runner q = tk_runner t"
    and "row_at c (tk_id t) = Some s"
    and "registry_submit external reg q = Inl e"
    and "c1 = dispatch_settle now uuid t at (Inl e) c"
  shows "\<exists>s1. row_at c1 (tk_id t) = Some s1 \<and> tk_state s1 = DependencyMissing
    \<and> tk_reason s1 = Some (''runner unavailable: '' @ tk_runner t)
    \<and> (\<forall>rows owner x n reg2 c2.
         register_extension_runner next_after later rows (tk_runner t) owner x reg c1 = (Inr n, reg2, c2)
         \<longrightarrow> row_at c2 (tk_id t) = Some s1)"
proof -
  have e: "e = RunnerMissing (''runner unavailable: '' @ tk_runner t)"
    using assms(2,3,5) by (simp add: registry_submit_def)
  let ?m = "''runner unavailable: '' @ tk_runner t"
  let ?k = "db_try (set_dependency_missing (tk_id t) ?m now) (event EvFailed c)"
  have f: "tc_faults (event EvFailed c) = []" using assms(1) by (simp add: event_def)
  have "row_at ?k (tk_id t) = Some (s\<lparr>tk_state := DependencyMissing, tk_reason := Some ?m,
      tk_next_wakeup := None, tk_updated := now\<rparr>)"
    using assms(4) unfolding healthy_try(2) [OF f] by (simp add: set_dependency_missing_def row_at_def event_def)
  note fr = finish_rejected_row [OF healthy_try(1) [OF f] this]
  have "c1 = finish_rejected now uuid t at ''failed'' None (Some ?m) ?k"
    by (simp add: assms(6) e dispatch_settle_def handle_runner_error_def)
  then have c1: "tc_faults c1 = []" "\<exists>s1. row_at c1 (tk_id t) = Some s1 \<and> tk_state s1 = DependencyMissing
    \<and> tk_reason s1 = Some ?m"
    using fr [where now = now and uuid = uuid and at = at and st = "''failed''" and rid = None and err = "Some ?m"]
    by auto
  then obtain s1 where s1: "row_at c1 (tk_id t) = Some s1" "tk_state s1 = DependencyMissing"
    "tk_reason s1 = Some (''runner unavailable: '' @ tk_runner t)" by blast
  then have na: "\<not> awaits (tk_runner t) s1" by (simp add: awaits_def missing_reason_def)
  have "row_at c2 (tk_id t) = Some s1"
    if "register_extension_runner next_after later rows (tk_runner t) owner x reg c1 = (Inr n, reg2, c2)"
    for rows owner x n reg2 c2
  proof -
    obtain n' c' where "resume_all next_after later (tk_runner t) rows 0 c1 = (Some n', c')"
      "row_at c' (tk_id t) = Some s1"
      using resume_all_row [OF c1(1), of next_after later "tk_runner t" rows 0 "tk_id t"] s1(1) na by blast
    then show ?thesis
      using that by (auto simp: register_extension_runner_def resume_tasks_missing_runner_def
          notify_changed_def row_at_def split: prod.splits sum.splits option.splits)
  qed
  then show ?thesis using s1 by blast
qed

section \<open>Presets\<close>

definition created_of :: "int \<Rightarrow> (string \<rightharpoonup> task_preset) \<Rightarrow> string \<Rightarrow> int" where
  "created_of now db i = (case db i of Some old \<Rightarrow> pr_created old | None \<Rightarrow> now)"

definition published ::
  "int \<Rightarrow> string \<Rightarrow> package_preset list \<Rightarrow> (string \<rightharpoonup> task_preset) \<Rightarrow> string \<Rightarrow> task_preset option" where
  "published now package ps db i =
     (case filter (\<lambda>p. package_preset_id package (pp_name p) = i) ps of
        [] \<Rightarrow> db i
      | qs \<Rightarrow> Some ((preset_of now package db (last qs))))"

lemma preset_of_id [simp]: "pr_id (preset_of now package db p) = package_preset_id package (pp_name p)"
  by (simp add: preset_of_def Let_def)

lemma preset_of_again:
  "preset_of now package (db(package_preset_id package (pp_name p) \<mapsto> preset_of now package db p)) q
     = preset_of now package db q"
  by (simp add: preset_of_def Let_def)

lemma publish_lookup:
  "publish_package_presets now package ps n db = (Inr m, db') \<Longrightarrow>
     m = n + length ps \<and> list_all (\<lambda>p. preset_validate (preset_of now package db p) = Inr ()) ps
     \<and> db' = published now package ps db"
proof (induction ps arbitrary: n db)
  case Nil
  then show ?case by (simp add: published_def fun_eq_iff)
next
  case (Cons p ps)
  let ?i = "package_preset_id package (pp_name p)" and ?db = "db(package_preset_id package (pp_name p) \<mapsto> preset_of now package db p)"
  have v: "preset_validate (preset_of now package db p) = Inr ()"
    and r: "publish_package_presets now package ps (n + 1) ?db = (Inr m, db')"
    using Cons.prems by (auto simp: upsert_task_preset_def and_then_def split: sum.splits)
  note IH = Cons.IH [OF r, unfolded preset_of_again]
  have "published now package ps ?db = published now package (p # ps) db"
    by (auto simp: published_def fun_eq_iff preset_of_again split: list.splits)
  then show ?case using IH v by (simp del: fun_upd_apply)
qed

lemma publish_valid:
  "list_all (\<lambda>p. preset_validate (preset_of now package db p) = Inr ()) ps \<Longrightarrow>
     publish_package_presets now package ps n db = (Inr (n + length ps), published now package ps db)"
proof (induction ps arbitrary: n db)
  case Nil
  then show ?case by (simp add: published_def fun_eq_iff)
next
  case (Cons p ps)
  let ?db = "db(package_preset_id package (pp_name p) \<mapsto> preset_of now package db p)"
  have "published now package ps ?db = published now package (p # ps) db"
    by (auto simp: published_def fun_eq_iff preset_of_again split: list.splits)
  then show ?case using Cons.IH [of ?db "n + 1", unfolded preset_of_again] Cons.prems
    by (simp add: upsert_task_preset_def del: fun_upd_apply)
qed

lemma preset_validate_created:
  "preset_validate (preset_of a package db p) = preset_validate (preset_of b package db2 p)"
  by (simp add: preset_validate_def preset_of_def Let_def)

text \<open>
  Publishing the presets of a package is idempotent: a second publication, at any
  later time, succeeds and leaves the table as the first one made it, the instants of
  creation included; each preset is found under its package's id with the content that was
  published, and the rows of other ids are untouched.
\<close>

theorem publishing_is_idempotent:
  assumes "publish_package_presets now package ps 0 db = (Inr n, db1)"
  shows "n = length ps
    \<and> publish_package_presets later package ps 0 db1 = (Inr n, db1)
    \<and> (i \<notin> (\<lambda>p. package_preset_id package (pp_name p)) ` set ps \<longrightarrow> db1 i = db i)
    \<and> (ps = qs @ [p] \<longrightarrow> db1 (package_preset_id package (pp_name p))
      = Some (preset_of now package db p))"
proof (intro conjI impI)
  have l: "n = length ps" "list_all (\<lambda>p. preset_validate (preset_of now package db p) = Inr ()) ps"
    "db1 = published now package ps db"
    using publish_lookup [OF assms] by simp_all
  show "n = length ps" by (rule l(1))
  have same: "preset_of later package db1 p = preset_of now package db p" if p: "p \<in> set ps" for p
  proof -
    let ?i = "package_preset_id package (pp_name p)"
    obtain q qs where f: "filter (\<lambda>p. package_preset_id package (pp_name p) = ?i) ps = q # qs"
      using p by (cases "filter (\<lambda>p. package_preset_id package (pp_name p) = ?i) ps")
        (auto simp: filter_empty_conv)
    then have "last (q # qs) \<in> set (filter (\<lambda>p. package_preset_id package (pp_name p) = ?i) ps)"
      by (metis last_in_set list.discI)
    then have "package_preset_id package (pp_name (last (q # qs))) = ?i" by simp
    then have "db1 ?i = Some (preset_of now package db (last (q # qs)))"
      and "pr_created (preset_of now package db (last (q # qs))) = created_of now db ?i"
      using f by (simp_all add: l(3) published_def preset_of_def Let_def created_of_def)
    then show ?thesis by (simp add: preset_of_def Let_def created_of_def)
  qed
  have "list_all (\<lambda>p. preset_validate (preset_of later package db1 p) = Inr ()) ps"
    using l(2) same by (simp add: list_all_iff)
  note again = publish_valid [OF this, of 0]
  have "published later package ps db1 = db1"
  proof
    fix k
    show "published later package ps db1 k = db1 k"
    proof (cases "filter (\<lambda>p. package_preset_id package (pp_name p) = k) ps")
      case Nil
      then show ?thesis by (simp add: published_def)
    next
      case (Cons q qs)
      then have "last (q # qs) \<in> set (filter (\<lambda>p. package_preset_id package (pp_name p) = k) ps)"
        by (metis last_in_set list.discI)
      then have "last (q # qs) \<in> set ps" by simp
      from same [OF this] Cons show ?thesis by (simp add: published_def l(3))
    qed
  qed
  then show "publish_package_presets later package ps 0 db1 = (Inr n, db1)"
    using again l(1) by simp
  show "db1 i = db i" if "i \<notin> (\<lambda>p. package_preset_id package (pp_name p)) ` set ps"
  proof -
    have "filter (\<lambda>p. package_preset_id package (pp_name p) = i) ps = []"
      using that by (auto simp: filter_empty_conv)
    then show ?thesis by (simp add: l(3) published_def)
  qed
  show "db1 (package_preset_id package (pp_name p)) = Some (preset_of now package db p)" if "ps = qs @ [p]"
    by (cases "filter (\<lambda>q. package_preset_id package (pp_name q) = package_preset_id package (pp_name p)) qs")
      (simp_all add: l(3) published_def that)
qed

section \<open>Run now\<close>

text \<open>The second input's submission panics after the first one completed.\<close>

definition lost_now :: now_batch where
  "lost_now =
     (let s1 = (now_start [] two_inputs)\<lparr>nb_batch := move 0 Submitting (nb_batch (now_start [] two_inputs))\<rparr>;
          s2 = s1\<lparr>nb_batch := move 0 Answered (note_outcome 7 3 0 TimerSuccess (nb_batch s1))\<rparr>;
          s3 = s2\<lparr>nb_batch := move 0 Finished (nb_batch s2), nb_cursor := 1, nb_run := Some ''r1''\<rparr>;
          s4 = s3\<lparr>nb_batch := move 1 Submitting (nb_batch s3)\<rparr>
      in s4\<lparr>nb_batch := move 1 Finished (nb_batch s4), nb_cursor := 2,
           nb_error := Some (RunnerOther (PANIC_TEXT @ ''panic''))\<rparr>)"

lemma now_opened:
  "bt_phase (nb_batch (now_start [] two_inputs)) = [Waiting, Waiting]"
  "bt_task (nb_batch (now_start [] two_inputs)) = two_inputs"
  "bt_outcome (nb_batch (now_start [] two_inputs)) = [None, None]"
  "nb_cursor (now_start [] two_inputs) = 0" "nb_run (now_start [] two_inputs) = None"
  "nb_error (now_start [] two_inputs) = None"
  by (simp_all add: now_start_def two_inputs_def sample_task_def)

lemma now_requests: "k < 2 \<Longrightarrow> \<exists>r. now_request pe two_inputs (tk_inputs two_inputs ! k) = Inr r"
  by (auto simp: less_2_cases_iff now_request_def two_inputs_def sample_task_def sample_input_def override_device_def for_app_def
      run_request_new_def validate_request_def validate_request_field_def trim_ascii Let_def
      from_task_extensions_def)

lemma lost_reach: "reach (\<lambda>s. s = now_start [] two_inputs) (now_step pe) lost_now"
proof -
  let ?R = "reach (\<lambda>s. s = now_start [] two_inputs) (now_step pe)"
  let ?s = "now_start [] two_inputs"
  let ?a = "?s\<lparr>nb_batch := move (nb_cursor ?s) Submitting (nb_batch ?s)\<rparr>"
  let ?b = "?a\<lparr>nb_batch := move (nb_cursor ?a) Answered (note_outcome 7 3 (nb_cursor ?a) TimerSuccess (nb_batch ?a))\<rparr>"
  let ?c = "?b\<lparr>nb_batch := move (nb_cursor ?b) Finished (nb_batch ?b), nb_cursor := nb_cursor ?b + 1,
    nb_run := or_else (nb_run ?b) ''r1''\<rparr>"
  let ?d = "?c\<lparr>nb_batch := move (nb_cursor ?c) Submitting (nb_batch ?c)\<rparr>"
  let ?e = "?d\<lparr>nb_batch := move (nb_cursor ?d) Finished (nb_batch ?d), nb_cursor := nb_cursor ?d + 1,
    nb_error := or_else (nb_error ?d) (RunnerOther (PANIC_TEXT @ ''panic''))\<rparr>"
  note opened = now_opened sample_limit holders_def
  obtain q0 q1 where q: "now_request pe two_inputs (tk_inputs two_inputs ! 0) = Inr q0"
    "now_request pe two_inputs (tk_inputs two_inputs ! 1) = Inr q1"
    using now_requests [of 0 pe] now_requests [of 1 pe] by auto
  have "?R ?s" by (rule reach_init) simp
  then have "?R ?a" by (rule reach_step) (rule now_acquires [of _ _ q0], use q in \<open>simp_all add: opened\<close>)
  then have "?R ?b" by (rule reach_step) (rule now_completes_early, simp_all add: opened)
  then have "?R ?c" by (rule reach_step) (rule now_accepted_late, simp_all add: opened)
  then have "?R ?d" by (rule reach_step) (rule now_acquires [of _ _ q1], use q in \<open>simp_all add: opened\<close>)
  then have "?R ?e" by (rule reach_step) (rule now_panics, simp_all add: opened)
  moreover have "?e = lost_now" by (simp add: lost_now_def Let_def opened or_else_def)
  ultimately show ?thesis by simp
qed

text \<open>
  A run-now request whose second submission panics loses its batch: the request is
  answered with the first run, every input is through and no step is left, but no summary
  was ever written and no notification sent, because this loop, unlike that of a dispatch,
  does not record the input whose submission panicked.
\<close>

theorem run_now_panic_loses_summary:
  "reach (\<lambda>s. s = now_start [] two_inputs) (now_step pe) lost_now
   \<and> now_reply lost_now = Inr ''r1''
   \<and> list_all (\<lambda>p. p = Finished) (bt_phase (nb_batch lost_now))
   \<and> \<not> (\<exists>s'. now_step pe lost_now s')
   \<and> bt_finals (nb_batch lost_now) = [] \<and> length (mf_rows (bt_finisher (nb_batch lost_now))) = 1"
proof -
  have v: "bt_phase (nb_batch lost_now) = [Finished, Finished]" "nb_cursor lost_now = 2"
    "now_reply lost_now = Inr ''r1''"
    by (simp_all add: lost_now_def Let_def now_opened now_reply_def)
  have m: "mf_expected (bt_finisher (nb_batch (now_start [] two_inputs))) = 2"
    "mf_rows (bt_finisher (nb_batch (now_start [] two_inputs))) = []"
    "\<not> mf_done (bt_finisher (nb_batch (now_start [] two_inputs)))"
    "bt_finals (nb_batch (now_start [] two_inputs)) = []"
    by (simp_all add: now_start_def finisher_new_def two_inputs_def sample_task_def)
  have f: "bt_finals (nb_batch lost_now) = []" "length (mf_rows (bt_finisher (nb_batch lost_now))) = 1"
    by (simp_all add: lost_now_def Let_def note_outcome_def finisher_record_def m)
  have "\<not> now_step pe lost_now s'" for s'
    by (auto elim!: now_step.cases simp: v less_Suc_eq)
  then show ?thesis using lost_reach v f by simp
qed

section \<open>Samples\<close>

definition stored_core :: timer_core where
  "stored_core = sample_core\<lparr>tc_db := \<lparr>tb_tasks = (\<lambda>_. None)(''t1'' \<mapsto> sample_task []),
     tb_runs = (\<lambda>_. None)\<rparr>\<rparr>"

definition sample_registry :: "string \<rightharpoonup> unit registered_runner" where
  "sample_registry = (\<lambda>_. None)(''r'' \<mapsto> \<lparr>rg_runner = ''r'', rg_owner = ''o'', rg_impl = ()\<rparr>)"

theorem runner_gone_and_back_witness:
  "\<exists>gone reg1 c1 n reg2 c2. unregister_extension_owner 2 [''r''] ''o'' sample_registry stored_core = (gone, reg1, c1)
     \<and> register_extension_runner (\<lambda>_ _. Inr None) 3 (list_missing_runner [gone_row ''r'' 2 (sample_task [])] ''r'')
         ''r'' ''o'' () reg1 c1 = (Inr n, reg2, c2)
     \<and> row_at c2 ''t1'' = Some ((sample_task [])\<lparr>tk_reason := None, tk_next_wakeup := None, tk_updated := 3\<rparr>)"
proof -
  let ?t = "sample_task []"
  have b: "bound_to ''r'' ?t" and i: "tk_id ?t = ''t1''" "tk_id (gone_row ''r'' 2 ?t) = ''t1''"
    by (simp_all add: bound_to_def sample_task_def gone_row_def)
  have f: "tc_faults stored_core = []" "row_at stored_core ''t1'' = Some ?t"
    "\<And>k. k \<noteq> ''t1'' \<Longrightarrow> row_at stored_core k = None"
    by (simp_all add: stored_core_def sample_core_def row_at_def)
  have rg: "sample_registry ''r'' = Some \<lparr>rg_runner = ''r'', rg_owner = ''o'', rg_impl = ()\<rparr>"
    by (simp add: sample_registry_def)
  obtain gone reg1 c1 where u: "unregister_extension_owner 2 [''r''] ''o'' sample_registry stored_core = (gone, reg1, c1)"
    by (metis prod_cases3)
  obtain d where d: "suspend_removed 2 [''r''] stored_core = (True, d)"
    "\<And>i. row_at d i = map_option (\<lambda>t. if tk_runner t \<in> set [''r''] then gone_row (tk_runner t) 2 t else t)
       (row_at stored_core i)" "tc_faults d = []"
    using suspend_removed_healthy [OF f(1), of 2 "[''r'']"] by blast
  have c1: "c1 = notify_changed d" and reg1: "reg1 = (\<lambda>_. None)"
    using u d(1) by (auto simp: unregister_extension_owner_def unregister_owner_def rg Let_def sample_registry_def)
  have runner: "tk_runner ?t = ''r''" by (simp add: sample_task_def)
  have rows: "row_at c1 ''t1'' = Some (gone_row ''r'' 2 ?t)" "\<And>k. k \<noteq> ''t1'' \<Longrightarrow> row_at c1 k = None"
    using d(2) f(2,3) by (simp_all add: c1 notify_changed_def row_at_def runner)
  have only: "u \<in> set [gone_row ''r'' 2 ?t]" if "row_at c1 k = Some u" for k u
    using that rows by (cases "k = ''t1''") simp_all
  have stored: "row_at c1 (tk_id u) = Some u" if "u \<in> set [gone_row ''r'' 2 ?t]" for u
    using that rows(1) i by simp
  have f1: "tc_faults c1 = []" using d(3) by (simp add: c1 notify_changed_def)
  obtain n' c' where ra: "resume_all (\<lambda>_ _. Inr None) 3 ''r'' (list_missing_runner [gone_row ''r'' 2 ?t] ''r'') 0 c1
      = (Some n', c')"
    using resume_all_row [OF f1, of "\<lambda>_ _. Inr None" 3 "''r''" "list_missing_runner [gone_row ''r'' 2 ?t] ''r''" 0]
    by blast
  have tr: "trim ''o'' = ''o''" by code_simp
  have reg: "register_extension_runner (\<lambda>_ _. Inr None) 3 (list_missing_runner [gone_row ''r'' 2 ?t] ''r'')
      ''r'' ''o'' () reg1 c1 = (Inr n', reg1(''r'' \<mapsto> \<lparr>rg_runner = ''r'', rg_owner = ''o'', rg_impl = ()\<rparr>),
        notify_changed (notify_changed c'))"
    by (simp add: register_extension_runner_def register_runner_def trim_ascii tr reg1
        resume_tasks_missing_runner_def ra)
  from runner_gone_and_back [OF f(1) rg _ _ f(2) i(1) u stored only reg refl] b
  have "row_at (notify_changed (notify_changed c')) ''t1''
      = Some (?t\<lparr>tk_reason := None, tk_next_wakeup := None, tk_updated := 3\<rparr>)"
    by (simp add: seconds_def)
  then show ?thesis using u reg by blast
qed

theorem raced_missing_runner_not_resumed_witness:
  "\<exists>s1. row_at (dispatch_settle 2 [] (sample_task []) None
       (Inl (RunnerMissing (''runner unavailable: '' @ ''r''))) stored_core) ''t1'' = Some s1
     \<and> tk_state s1 = DependencyMissing"
proof -
  let ?q = "\<lparr>rq_device = ''d1'', rq_app = tk_app (sample_task []), rq_runner = ''r'', rq_entrypoint = ''e'',
    rq_payload = JObject [], rq_policy = None\<rparr>"
  have h: "tc_faults stored_core = []" "((\<lambda>_. None) :: string \<rightharpoonup> unit registered_runner) (tk_runner (sample_task [])) = None"
    "rq_runner ?q = tk_runner (sample_task [])"
    "row_at stored_core (tk_id (sample_task [])) = Some (sample_task [])"
    by (simp_all add: stored_core_def sample_core_def row_at_def sample_task_def)
  have s: "registry_submit (\<lambda>_ _. True) ((\<lambda>_. None) :: string \<rightharpoonup> unit registered_runner) ?q
      = Inl (RunnerMissing (''runner unavailable: '' @ ''r''))"
    by (simp add: registry_submit_def)
  have i: "tk_id (sample_task []) = ''t1''" by (simp add: sample_task_def)
  from raced_missing_runner_not_resumed [OF h s refl, of 2 "[]" None] show ?thesis
    unfolding i by blast
qed

definition sample_preset :: package_preset where
  "sample_preset = \<lparr>pp_name = ''n'', pp_runner = ''r'', pp_entrypoint = ''e'', pp_payload = JNull,
     pp_schedule = sample_schedule\<rparr>"

theorem publishing_is_idempotent_witness:
  "\<exists>db1. publish_package_presets 1 ''p'' [sample_preset] 0 (\<lambda>_. None) = (Inr 1, db1)
     \<and> publish_package_presets 9 ''p'' [sample_preset] 0 db1 = (Inr 1, db1)"
proof -
  have t: "trim ''p:n'' = ''p:n''" "trim ''p'' = ''p''" by code_simp+
  obtain db1 where d: "publish_package_presets 1 ''p'' [sample_preset] 0 (\<lambda>_. None) = (Inr 1, db1)"
    by (simp add: upsert_task_preset_def preset_validate_def preset_of_def package_preset_id_def sample_preset_def
        check_field_def trim_ascii t schedule_validate_def sample_schedule_def Let_def)
  from publishing_is_idempotent [OF d, of 9] d show ?thesis by blast
qed

end
