(* ===== verification/AuthCore.thy ===== *)
theory AuthCore
  imports ActivationGate "HOL-Library.AList"
begin

text \<open>
  Login and sessions (\<^verbatim>\<open>server/src/api/auth.rs\<close>, \<^verbatim>\<open>auth/session_store.rs\<close>,
  \<^verbatim>\<open>auth/account.rs\<close>): the state behind the lock and every operation on it. The
  password hash, the digest of a session id, random ids, both clocks and the outcome of a
  write are arguments. Instants of the monotonic clock are nanoseconds, those of the
  session clock milliseconds.
\<close>

section \<open>State\<close>

record auth_settings =
  as_abs_secs :: nat
  as_idle_secs :: nat
  as_max_fails :: nat
  as_window_secs :: nat

text \<open>The ranges \<^verbatim>\<open>Config::validate\<close> enforces for them.\<close>

definition valid_auth_settings :: "auth_settings \<Rightarrow> bool" where
  "valid_auth_settings s \<longleftrightarrow>
     60 \<le> as_abs_secs s \<and> as_abs_secs s \<le> 30 * 86400
     \<and> 60 \<le> as_idle_secs s \<and> as_idle_secs s \<le> 7 * 86400
     \<and> 1 \<le> as_max_fails s \<and> as_max_fails s \<le> 1000
     \<and> 1 \<le> as_window_secs s \<and> as_window_secs s \<le> 86400"

datatype credential_source = FromConfig | FromDevEnv

datatype credential = Argon2 string credential_source | NoCredential

text \<open>
  What the argon2 and sha2 crates do: whether a text is an accepted hash encoding, whether
  a password matches one, and the hexadecimal digest of a session id.
\<close>

record crypto =
  phc_ok :: "string \<Rightarrow> bool"
  matches_phc :: "string \<Rightarrow> string \<Rightarrow> bool"
  sid_digest :: "string \<Rightarrow> string"

record auth_session =
  se_user :: string
  se_abs_expire :: nat
  se_last_seen :: nat
  se_remember :: bool
  se_idle_secs :: "nat option"

record session_file =
  sx_schema :: nat
  sx_credential :: string
  sx_revision :: string
  sx_sessions :: "string \<rightharpoonup> auth_session"

type_synonym login_key = "string \<times> string"

record auth_state =
  au_sessions :: "string \<rightharpoonup> auth_session"
  au_fails :: "(login_key \<times> nat list) list"
  au_user :: string
  au_revision :: string
  au_credential :: credential
  au_cfg :: auth_settings
  au_live :: "auth_settings option"
  au_setup :: bool
  au_admin :: "string option"
  au_secure :: bool
  au_config :: string
  au_stored :: bool
  au_disk :: "session_file option"
  au_changes :: nat

definition MAX_TRACKED_LOGIN_KEYS :: nat where "MAX_TRACKED_LOGIN_KEYS = 10000"
definition REMEMBER_SECS :: nat where "REMEMBER_SECS = 30 * 24 * 3600"

definition login_settings :: "auth_state \<Rightarrow> auth_settings" where
  "login_settings st = (case au_live st of Some s \<Rightarrow> s | None \<Rightarrow> au_cfg st)"

definition credential_label :: "credential \<Rightarrow> string" where
  "credential_label c =
     (case c of
        Argon2 _ FromConfig \<Rightarrow> ''config:password_hash''
      | Argon2 _ FromDevEnv \<Rightarrow> ''env:GAMER_ADMIN_PASSWORD''
      | NoCredential \<Rightarrow> ''unavailable:invalid-or-missing-credential'')"

definition verify_credentials :: "crypto \<Rightarrow> credential \<Rightarrow> string \<Rightarrow> bool" where
  "verify_credentials x c input =
     (case c of
        Argon2 e _ \<Rightarrow> phc_ok x e \<and> matches_phc x e input
      | NoCredential \<Rightarrow> False)"

section \<open>Sessions\<close>

definition wrap_u64 :: "nat \<Rightarrow> nat" where "wrap_u64 n = n mod 2 ^ 64"

definition session_idle :: "auth_state \<Rightarrow> auth_session \<Rightarrow> nat" where
  "session_idle st s =
     (if se_remember s then REMEMBER_SECS
      else max (case se_idle_secs s of Some i \<Rightarrow> i | None \<Rightarrow> as_idle_secs (au_cfg st)) 1)"

definition session_active :: "auth_state \<Rightarrow> auth_session \<Rightarrow> nat \<Rightarrow> bool" where
  "session_active st s now \<longleftrightarrow>
     se_user s = au_user st \<and> now < se_abs_expire s
     \<and> now - se_last_seen s < wrap_u64 (session_idle st s * 1000)"

definition make_session :: "auth_state \<Rightarrow> bool \<Rightarrow> nat \<Rightarrow> auth_session" where
  "make_session st remember now =
     (let ttl = (if remember then REMEMBER_SECS else max (as_abs_secs (login_settings st)) 1)
      in \<lparr>se_user = au_user st, se_abs_expire = min (now + wrap_u64 (ttl * 1000)) u64_max,
          se_last_seen = now, se_remember = remember,
          se_idle_secs = Some (as_idle_secs (login_settings st))\<rparr>)"

text \<open>The write of the session file; without a store there is nothing to write.\<close>

definition persist_sessions :: "bool \<Rightarrow> auth_state \<Rightarrow> bool \<times> auth_state" where
  "persist_sessions written st =
     (if \<not> au_stored st then (True, st)
      else if \<not> written then (False, st)
      else (True, st\<lparr>au_disk := Some
        \<lparr>sx_schema = 1,
         sx_credential = (case au_credential st of Argon2 e _ \<Rightarrow> e | NoCredential \<Rightarrow> []),
         sx_revision = au_revision st, sx_sessions = au_sessions st\<rparr>\<rparr>))"

definition put_session :: "string \<Rightarrow> auth_session \<Rightarrow> auth_state \<Rightarrow> auth_state" where
  "put_session k s st = st\<lparr>au_sessions := (au_sessions st)(k \<mapsto> s)\<rparr>"

definition drop_session :: "string \<Rightarrow> auth_state \<Rightarrow> auth_state" where
  "drop_session k st = st\<lparr>au_sessions := (au_sessions st)(k := None)\<rparr>"

text \<open>The issue of a session under a fresh id, undone when it cannot be written.\<close>

definition issue_session ::
  "crypto \<Rightarrow> nat \<Rightarrow> string \<Rightarrow> bool \<Rightarrow> bool \<Rightarrow> auth_state \<Rightarrow> bool \<times> auth_state" where
  "issue_session x now sid remember written st =
     (let k = sid_digest x sid; st1 = put_session k (make_session st remember now) st
      in case persist_sessions written st1 of
           (True, st2) \<Rightarrow> (True, st2)
         | (False, st2) \<Rightarrow> (False, drop_session k st2))"

section \<open>Login\<close>

datatype login_error = LoginPersist | LoginInvalid | LoginLimited nat

definition window_nanos :: "auth_state \<Rightarrow> nat" where
  "window_nanos st = max (as_window_secs (login_settings st)) 1 * 1000000000"

definition prune_fails :: "nat \<Rightarrow> auth_state \<Rightarrow> auth_state" where
  "prune_fails now st =
     st\<lparr>au_fails := filter (\<lambda>(k, ts). ts \<noteq> [])
       (map (\<lambda>(k, ts). (k, filter (\<lambda>t. now - t < window_nanos st) ts)) (au_fails st))\<rparr>"

definition attempts_of :: "login_key \<Rightarrow> auth_state \<Rightarrow> nat list" where
  "attempts_of k st = (case map_of (au_fails st) k of Some ts \<Rightarrow> ts | None \<Rightarrow> [])"

definition over_limit :: "login_key \<Rightarrow> auth_state \<Rightarrow> bool" where
  "over_limit k st \<longleftrightarrow> map_of (au_fails st) k \<noteq> None
     \<and> as_max_fails (login_settings st) \<le> length (attempts_of k st)"

definition retry_after :: "nat \<Rightarrow> login_key \<Rightarrow> auth_state \<Rightarrow> nat" where
  "retry_after now k st =
     (let oldest = (case attempts_of k st of t # _ \<Rightarrow> t | [] \<Rightarrow> now)
      in if now - oldest \<le> window_nanos st
         then max ((window_nanos st - (now - oldest)) div 1000000000) 1 else 1)"

text \<open>\<^verbatim>\<open>pop_front\<close> until at most \<open>n\<close> are left.\<close>

definition keep_last :: "nat \<Rightarrow> 'a list \<Rightarrow> 'a list" where
  "keep_last n xs = drop (length xs - n) xs"

definition note_failure :: "nat \<Rightarrow> login_key \<Rightarrow> auth_state \<Rightarrow> auth_state" where
  "note_failure now k st =
     (let fs = AList.update k
            (keep_last (as_max_fails (login_settings st)) (attempts_of k st @ [now])) (au_fails st)
      in st\<lparr>au_fails := (if MAX_TRACKED_LOGIN_KEYS < length fs then [] else fs)\<rparr>)"

definition credentials_ok :: "crypto \<Rightarrow> string \<Rightarrow> string \<Rightarrow> auth_state \<Rightarrow> bool" where
  "credentials_ok x user pass st \<longleftrightarrow>
     user = au_user st \<and> user \<noteq> [] \<and> pass \<noteq> [] \<and> length pass \<le> 1024
     \<and> verify_credentials x (au_credential st) pass"

definition attempt_login_remember ::
  "crypto \<Rightarrow> nat \<Rightarrow> nat \<Rightarrow> string \<Rightarrow> bool \<Rightarrow> string \<Rightarrow> string \<Rightarrow> string \<Rightarrow> bool \<Rightarrow> auth_state
    \<Rightarrow> (login_error, string \<times> string) result \<times> auth_state" where
  "attempt_login_remember x now ms sid written user pass ip remember st =
     (let st1 = prune_fails now st; k = (ip, user)
      in if over_limit k st1 then (Inl (LoginLimited (retry_after now k st1)), st1)
         else if \<not> credentials_ok x user pass st1 then (Inl LoginInvalid, note_failure now k st1)
         else
           let st2 = st1\<lparr>au_fails := AList.delete k (au_fails st1)\<rparr>
           in case issue_session x ms sid remember written st2 of
                (True, st3) \<Rightarrow> (Inr (sid, au_user st), st3)
              | (False, st3) \<Rightarrow> (Inl LoginPersist, st3))"

definition issue_admin_session ::
  "crypto \<Rightarrow> nat \<Rightarrow> string \<Rightarrow> bool \<Rightarrow> bool \<Rightarrow> auth_state
    \<Rightarrow> (login_error, string \<times> string) result \<times> auth_state" where
  "issue_admin_session x ms sid written remember st =
     (case issue_session x ms sid remember written st of
        (True, st1) \<Rightarrow> (Inr (sid, au_user st1), st1)
      | (False, st1) \<Rightarrow> (Inl LoginPersist, st1))"

section \<open>Validation, logout, sweeping\<close>

definition validate_session ::
  "crypto \<Rightarrow> nat \<Rightarrow> bool \<Rightarrow> string \<Rightarrow> auth_state \<Rightarrow> string option \<times> auth_state" where
  "validate_session x now written sid st =
     (let k = sid_digest x sid
      in case au_sessions st k of
           None \<Rightarrow> (None, st)
         | Some s \<Rightarrow>
             if \<not> session_active st s now then (None, drop_session k st)
             else if \<not> se_remember s \<and> now div 1000 \<noteq> se_last_seen s div 1000 then
               (case persist_sessions written (put_session k (s\<lparr>se_last_seen := now\<rparr>) st) of
                  (True, st1) \<Rightarrow> (Some (se_user s), st1)
                | (False, st1) \<Rightarrow> (None, put_session k s st1))
             else (Some (se_user s), st))"

definition destroy_session :: "crypto \<Rightarrow> bool \<Rightarrow> string \<Rightarrow> auth_state \<Rightarrow> bool \<times> auth_state" where
  "destroy_session x written sid st =
     (let k = sid_digest x sid
      in case persist_sessions written (drop_session k st) of
           (True, st1) \<Rightarrow> (True, st1)
         | (False, st1) \<Rightarrow>
             (False, case au_sessions st k of None \<Rightarrow> st1 | Some s \<Rightarrow> put_session k s st1))"

definition sweep :: "nat \<Rightarrow> nat \<Rightarrow> bool \<Rightarrow> auth_state \<Rightarrow> auth_state" where
  "sweep now ms written st =
     (let st1 = st\<lparr>au_sessions := (\<lambda>k. case au_sessions st k of
            Some s \<Rightarrow> if session_active st s ms then Some s else None | None \<Rightarrow> None)\<rparr>
      in prune_fails now (snd (persist_sessions written st1)))"

section \<open>First password and account\<close>

definition valid_username :: "string \<Rightarrow> bool" where
  "valid_username v \<longleftrightarrow> v \<noteq> [] \<and> length v \<le> 64
     \<and> list_all (\<lambda>c. is_ascii_alphanumeric c \<or> c \<in> set ''._-'') v"

record update_account =
  ua_user :: string
  ua_current :: string
  ua_new :: string
  ua_confirm :: string
  ua_revision :: string

datatype account_error =
    InvalidUsername | CurrentPasswordRequired | WeakPassword | PasswordMismatch | AccountUnauthorized
  | RevisionConflict | AccountUnchanged | ManagedByEnvironment | TooManyAttempts
  | InvalidCurrentPassword | ConfigReadFailed | ConfigInvalid | ConfigChanged | HashFailed
  | ConfigWriteFailed

fun account_status :: "account_error \<Rightarrow> nat" where
  "account_status AccountUnauthorized = 401"
| "account_status InvalidCurrentPassword = 403"
| "account_status RevisionConflict = 409"
| "account_status ManagedByEnvironment = 409"
| "account_status ConfigInvalid = 409"
| "account_status ConfigChanged = 409"
| "account_status TooManyAttempts = 429"
| "account_status ConfigReadFailed = 500"
| "account_status HashFailed = 500"
| "account_status ConfigWriteFailed = 500"
| "account_status _ = 400"

text \<open>
  The TOML crates over the configuration text: the account fields a text has (\<open>None\<close> when
  it does not parse), and the text with them replaced.
\<close>

record toml =
  read_account :: "string \<Rightarrow> (string \<times> string \<times> string) option"
  write_account :: "string \<Rightarrow> string \<Rightarrow> string \<Rightarrow> string option \<Rightarrow> string"

text \<open>
  The arguments of one call: both clocks, the configuration as it could be read, the hash
  of the new password if one could be made, the fresh revision, and whether the two files
  could be written.
\<close>

record change_env =
  ce_now :: nat
  ce_ms :: nat
  ce_read :: bool
  ce_hash :: "string option"
  ce_revision :: string
  ce_config_written :: bool
  ce_sessions_written :: bool

definition change_checks ::
  "crypto \<Rightarrow> change_env \<Rightarrow> update_account \<Rightarrow> string option \<Rightarrow> auth_state \<Rightarrow> account_error option" where
  "change_checks x e req sid st =
     (if \<not> valid_username (ua_user req) then Some InvalidUsername
      else if ua_current req = [] \<or> 1024 < length (ua_current req) then Some CurrentPasswordRequired
      else if ua_new req \<noteq> [] \<and> \<not> (8 \<le> length (ua_new req) \<and> length (ua_new req) \<le> 1024)
        then Some WeakPassword
      else if ua_new req \<noteq> ua_confirm req then Some PasswordMismatch
      else if (case sid of
                 None \<Rightarrow> False
               | Some i \<Rightarrow> (case au_sessions st (sid_digest x i) of
                   None \<Rightarrow> True | Some s \<Rightarrow> \<not> session_active st s (ce_ms e)))
        then Some AccountUnauthorized
      else if ua_revision req \<noteq> au_revision st then Some RevisionConflict
      else if ua_user req = au_user st \<and> ua_new req = [] then Some AccountUnchanged
      else if ua_new req \<noteq> [] \<and> (case au_credential st of Argon2 _ FromConfig \<Rightarrow> False | _ \<Rightarrow> True)
        then Some ManagedByEnvironment
      else None)"

text \<open>The configuration that is on disk must still be the one this process runs with.\<close>

definition config_agrees :: "toml \<Rightarrow> auth_state \<Rightarrow> account_error option" where
  "config_agrees tm st =
     (case read_account tm (au_config st) of
        None \<Rightarrow> Some ConfigInvalid
      | Some (u, r, h) \<Rightarrow>
          if u \<noteq> au_user st \<or> r \<noteq> au_revision st
             \<or> \<not> (case au_credential st of
                    Argon2 e FromConfig \<Rightarrow> h = e | Argon2 _ FromDevEnv \<Rightarrow> True | NoCredential \<Rightarrow> False)
          then Some ConfigChanged else None)"

definition commit_account ::
  "change_env \<Rightarrow> update_account \<Rightarrow> string option \<Rightarrow> toml \<Rightarrow> auth_state \<Rightarrow> auth_state" where
  "commit_account e req h tm st =
     (let st1 = st\<lparr>au_config := write_account tm (au_config st) (ua_user req) (ce_revision e) h,
            au_user := ua_user req, au_revision := ce_revision e,
            au_credential := (case h of Some n \<Rightarrow> Argon2 n FromConfig | None \<Rightarrow> au_credential st),
            au_sessions := (\<lambda>_. None), au_fails := [], au_changes := au_changes st + 1\<rparr>
      in snd (persist_sessions (ce_sessions_written e) st1))"

definition change_account ::
  "crypto \<Rightarrow> toml \<Rightarrow> change_env \<Rightarrow> update_account \<Rightarrow> string \<Rightarrow> string option \<Rightarrow> auth_state
    \<Rightarrow> (account_error, unit) result \<times> auth_state" where
  "change_account x tm e req ip sid st =
     (case change_checks x e req sid st of
        Some err \<Rightarrow> (Inl err, st)
      | None \<Rightarrow>
          let k = (ip, au_user st); st1 = prune_fails (ce_now e) st
          in if over_limit k st1 then (Inl TooManyAttempts, st1)
             else if \<not> verify_credentials x (au_credential st) (ua_current req)
             then (Inl InvalidCurrentPassword,
                   st1\<lparr>au_fails := AList.update k (attempts_of k st1 @ [ce_now e]) (au_fails st1)\<rparr>)
             else if \<not> ce_read e then (Inl ConfigReadFailed, st1)
             else (case config_agrees tm st1 of
                     Some err \<Rightarrow> (Inl err, st1)
                   | None \<Rightarrow>
                       if ua_new req \<noteq> [] \<and> ce_hash e = None then (Inl HashFailed, st1)
                       else if \<not> ce_config_written e then (Inl ConfigWriteFailed, st1)
                       else (Inr (), commit_account e req
                              (if ua_new req = [] then None else ce_hash e) tm st1)))"

section \<open>Starting\<close>

text \<open>The credential of a profile (\<open>dev\<close>); \<open>hashed\<close> is the hash of the environment's password.\<close>

definition resolve_credential :: "crypto \<Rightarrow> bool \<Rightarrow> string option \<Rightarrow> string option \<Rightarrow> string \<Rightarrow> credential" where
  "resolve_credential x dev env_password hashed config_hash =
     (if dev \<and> (case env_password of Some p \<Rightarrow> trim p \<noteq> [] | None \<Rightarrow> False)
      then (case hashed of Some e \<Rightarrow> Argon2 e FromDevEnv | None \<Rightarrow> NoCredential)
      else if trim config_hash \<noteq> [] \<and> phc_ok x (trim config_hash)
      then Argon2 (trim config_hash) FromConfig
      else NoCredential)"

definition setup_needed :: "bool \<Rightarrow> string option \<Rightarrow> string \<Rightarrow> bool" where
  "setup_needed dev env_password config_hash \<longleftrightarrow>
     dev \<and> trim config_hash = [] \<and> \<not> (case env_password of Some p \<Rightarrow> trim p \<noteq> [] | None \<Rightarrow> False)"

definition new_with_setup ::
  "credential \<Rightarrow> string \<Rightarrow> string \<Rightarrow> auth_settings \<Rightarrow> bool option \<Rightarrow> bool \<Rightarrow> string option \<Rightarrow> bool \<Rightarrow> string
    \<Rightarrow> auth_state" where
  "new_with_setup c user revision cfg cookie_secure secure admin setup config =
     \<lparr>au_sessions = (\<lambda>_. None), au_fails = [], au_user = user, au_revision = revision,
      au_credential = c, au_cfg = cfg, au_live = None, au_setup = setup, au_admin = admin,
      au_secure = (case cookie_secure of Some b \<Rightarrow> b | None \<Rightarrow> secure), au_config = config, au_stored = False, au_disk = None, au_changes = 0\<rparr>"

text \<open>
  The session file that was found is taken over when its credential and revision are those
  in force; the result is \<open>None\<close> when the start fails.
\<close>

definition same_credential :: "crypto \<Rightarrow> string option \<Rightarrow> credential \<Rightarrow> string \<Rightarrow> bool" where
  "same_credential x dev_password c stored =
     (case c of
        Argon2 e FromConfig \<Rightarrow> e = stored
      | Argon2 _ FromDevEnv \<Rightarrow>
          (case dev_password of
             None \<Rightarrow> False
           | Some p \<Rightarrow> verify_credentials x c p \<and> phc_ok x stored \<and> matches_phc x stored p)
      | NoCredential \<Rightarrow> False)"

definition loaded_session :: "auth_state \<Rightarrow> nat \<Rightarrow> string \<Rightarrow> auth_session \<Rightarrow> auth_session option" where
  "loaded_session st now k s =
     (if length k = 64 \<and> list_all is_ascii_hexdigit k \<and> session_active st s now
      then Some (s\<lparr>se_idle_secs := Some (case se_idle_secs s of
             Some i \<Rightarrow> i | None \<Rightarrow> as_idle_secs (au_cfg st))\<rparr>)
      else None)"

definition open_session_store ::
  "crypto \<Rightarrow> nat \<Rightarrow> bool \<Rightarrow> string option \<Rightarrow> session_file option \<Rightarrow> auth_state \<Rightarrow> auth_state option" where
  "open_session_store x now written dev_password found st =
     (let opened = (case found of
            None \<Rightarrow> Some st
          | Some f \<Rightarrow>
              if sx_schema f \<noteq> 1 then None
              else if same_credential x dev_password (au_credential st) (sx_credential f)
                      \<and> sx_revision f = au_revision st
              then Some (st\<lparr>au_sessions := (\<lambda>k. Option.bind (sx_sessions f k) (loaded_session st now k))\<rparr>)
              else Some st)
      in case opened of
           None \<Rightarrow> None
         | Some st1 \<Rightarrow>
             (case persist_sessions written (st1\<lparr>au_stored := True, au_disk := found\<rparr>) of
                (True, st2) \<Rightarrow> Some st2 | (False, _) \<Rightarrow> None))"

end
