(* ===== verification/AuthHttp.thy ===== *)
theory AuthHttp
  imports AuthCore
begin

text \<open>
  The request side of authentication (\<^verbatim>\<open>server/src/api/auth.rs\<close>): cookies, the
  same-origin check, the loopback token and the admission of a request, and the edit of the
  configuration text by which the first password is stored. Headers are a list of name and
  value in order; a value that is not visible ASCII reads as none.
\<close>

section \<open>Headers and cookies\<close>

type_synonym headers = "(string \<times> string) list"

definition SESSION_COOKIE :: string where "SESSION_COOKIE = ''gb_session''"
definition ADMIN_TOKEN_HEADER :: string where "ADMIN_TOKEN_HEADER = ''x-admin-token''"

definition eq_ignore_case :: "string \<Rightarrow> string \<Rightarrow> bool" where
  "eq_ignore_case a b \<longleftrightarrow> to_ascii_uppercase a = to_ascii_uppercase b"

definition header_values :: "string \<Rightarrow> headers \<Rightarrow> string list" where
  "header_values n hs = map snd (filter (\<lambda>(k, v). eq_ignore_case k n) hs)"

definition visible :: "string \<Rightarrow> bool" where
  "visible v = list_all (\<lambda>c. byte c = 9 \<or> 32 \<le> byte c \<and> byte c < 127) v"

definition header_get :: "string \<Rightarrow> headers \<Rightarrow> string option" where
  "header_get n hs = (case header_values n hs of
     v # _ \<Rightarrow> if visible v then Some v else None | [] \<Rightarrow> None)"

definition header_str :: "string \<Rightarrow> headers \<Rightarrow> string option" where
  "header_str n hs = (case header_get n hs of
     None \<Rightarrow> None | Some v \<Rightarrow> if trim v = [] then None else Some (trim v))"

definition strip_prefix :: "string \<Rightarrow> string \<Rightarrow> string option" where
  "strip_prefix p s = (if starts_with s p then Some (drop (length p) s) else None)"

fun find_map :: "('a \<Rightarrow> 'b option) \<Rightarrow> 'a list \<Rightarrow> 'b option" where
  "find_map f [] = None"
| "find_map f (x # xs) = (case f x of Some y \<Rightarrow> Some y | None \<Rightarrow> find_map f xs)"

definition cookie_sid :: "string \<Rightarrow> string option" where
  "cookie_sid pair =
     (case strip_prefix (SESSION_COOKIE @ ''='') (trim pair) of
        None \<Rightarrow> None | Some v \<Rightarrow> if v = [] then None else Some v)"

definition extract_sid :: "headers \<Rightarrow> string option" where
  "extract_sid hs =
     (case header_get ''cookie'' hs of
        None \<Rightarrow> None | Some raw \<Rightarrow> find_map cookie_sid (split_on CHR '';'' raw))"

definition secure_suffix :: "auth_state \<Rightarrow> string" where
  "secure_suffix st = (if au_secure st then ''; Secure'' else [])"

text \<open>\<open>num\<close> prints a number.\<close>

definition session_cookie_for :: "(nat \<Rightarrow> string) \<Rightarrow> crypto \<Rightarrow> nat \<Rightarrow> string \<Rightarrow> auth_state \<Rightarrow> string" where
  "session_cookie_for num x now sid st =
     (let persistent = (case au_sessions st (sid_digest x sid) of
            Some s \<Rightarrow> if se_remember s
              then ''; Max-Age='' @ num ((se_abs_expire s - now) div 1000) else []
          | None \<Rightarrow> [])
      in SESSION_COOKIE @ ''='' @ sid @ ''; Path=/; HttpOnly; SameSite=Strict'' @ persistent
         @ secure_suffix st)"

definition expired_cookie :: "auth_state \<Rightarrow> string" where
  "expired_cookie st =
     SESSION_COOKIE @ ''=; Path=/; Max-Age=0; HttpOnly; SameSite=Strict'' @ secure_suffix st"

section \<open>Same origin\<close>

text \<open>\<^verbatim>\<open>char::is_whitespace\<close> anywhere in a string.\<close>

fun any_whitespace :: "string \<Rightarrow> bool" where
  "any_whitespace [] = False"
| "any_whitespace (c # cs) = (ws_prefix (map byte (c # cs)) \<noteq> 0 \<or> any_whitespace cs)"

definition authority_of :: "string \<Rightarrow> string" where
  "authority_of rest = takeWhile (\<lambda>c. c \<notin> {CHR ''/'', CHR ''?'', CHR ''#''}) rest"

definition origin_rest :: "string \<Rightarrow> string option" where
  "origin_rest o' = (case strip_prefix ''http://'' o' of
     Some r \<Rightarrow> Some r | None \<Rightarrow> strip_prefix ''https://'' o')"

definition origin_allows :: "string option \<Rightarrow> string option \<Rightarrow> bool" where
  "origin_allows orig host =
     (case map_option trim orig of
        None \<Rightarrow> True
      | Some [] \<Rightarrow> True
      | Some (oc # os) \<Rightarrow>
          (case map_option trim host of
             None \<Rightarrow> False
           | Some [] \<Rightarrow> False
           | Some (hc # hs) \<Rightarrow>
               (case origin_rest (oc # os) of
                  None \<Rightarrow> False
                | Some rest \<Rightarrow>
                    let a = authority_of rest
                    in a \<noteq> [] \<and> CHR ''@'' \<notin> set a \<and> \<not> any_whitespace a \<and> eq_ignore_case a (hc # hs))))"

definition origin_allows_headers :: "headers \<Rightarrow> bool" where
  "origin_allows_headers hs =
     (if 1 < length (header_values ''origin'' hs) \<or> 1 < length (header_values ''host'' hs) then False
      else origin_allows (header_str ''origin'' hs) (header_str ''host'' hs))"

section \<open>Admission\<close>

definition ct_eq :: "string \<Rightarrow> string \<Rightarrow> bool" where
  "ct_eq a b \<longleftrightarrow> length a = length b
     \<and> (if length a \<noteq> length b then or (foldl xor_acc 0 (zip a b)) 1 else foldl xor_acc 0 (zip a b)) = 0"

definition admin_token_admits :: "ip_addr option \<Rightarrow> string option \<Rightarrow> auth_state \<Rightarrow> bool" where
  "admin_token_admits remote header_token st =
     (case au_admin st of
        None \<Rightarrow> False
      | Some tk \<Rightarrow>
          (case remote of
             None \<Rightarrow> False
           | Some ip \<Rightarrow>
               is_loopback ip
               \<and> (case map_option trim header_token of
                    None \<Rightarrow> False
                  | Some got \<Rightarrow> got \<noteq> [] \<and> ct_eq got tk)))"

datatype http_verb = Get | Head | Post | Put | Delete | Patch | OtherMethod string

definition is_state_changing :: "http_verb \<Rightarrow> bool" where
  "is_state_changing m \<longleftrightarrow> m \<in> {Post, Put, Delete, Patch}"

definition is_ws_upgrade :: "headers \<Rightarrow> bool" where
  "is_ws_upgrade hs = (case header_get ''upgrade'' hs of
     Some v \<Rightarrow> eq_ignore_case v ''websocket'' | None \<Rightarrow> False)"

datatype auth_decision = AuthAdmit | AuthForbidden | AuthUnauthorized

definition admit_request ::
  "crypto \<Rightarrow> nat \<Rightarrow> bool \<Rightarrow> http_verb \<Rightarrow> headers \<Rightarrow> ip_addr option \<Rightarrow> auth_state
    \<Rightarrow> auth_decision \<times> auth_state" where
  "admit_request x now written m hs remote st =
     (if admin_token_admits remote (header_str ADMIN_TOKEN_HEADER hs) st then (AuthAdmit, st)
      else if (is_state_changing m \<or> is_ws_upgrade hs) \<and> \<not> origin_allows_headers hs
      then (AuthForbidden, st)
      else (case extract_sid hs of
              None \<Rightarrow> (AuthUnauthorized, st)
            | Some sid \<Rightarrow>
                (case validate_session x now written sid st of
                   (Some _, st1) \<Rightarrow> (AuthAdmit, st1)
                 | (None, st1) \<Rightarrow> (AuthUnauthorized, st1))))"

section \<open>The configuration text\<close>

text \<open>
  \<^verbatim>\<open>str::lines\<close>: the pieces between line feeds, without a last empty one, each without
  its carriage returns at the end.
\<close>

definition text_lines :: "string \<Rightarrow> string list" where
  "text_lines s =
     (let ps = split_on CHR 0x0A s; qs = (if last ps = [] then butlast ps else ps)
      in map (\<lambda>l. rev (dropWhile ((=) CHR 0x0D) (rev l))) qs)"

definition is_table_header :: "string \<Rightarrow> bool" where
  "is_table_header l \<longleftrightarrow> starts_with (trim l) ''['' \<and> ends_with (trim l) '']''"

definition key_of_line :: "string \<Rightarrow> string" where
  "key_of_line l = trim (hd (split_on CHR ''='' (hd (split_on CHR ''#'' l))))"

text \<open>The white space in front of a line.\<close>

definition indent_of :: "string \<Rightarrow> string" where
  "indent_of l = take (length l - length (trim_start_bytes l)) l"

definition hash_line :: "string \<Rightarrow> string" where
  "hash_line e = ''password_hash = '' @ [CHR 0x22] @ e @ [CHR 0x22]"

fun find_index :: "('a \<Rightarrow> bool) \<Rightarrow> nat \<Rightarrow> 'a list \<Rightarrow> nat option" where
  "find_index P i [] = None"
| "find_index P i (x # xs) = (if P x then Some i else find_index P (Suc i) xs)"

definition edit_lines :: "string \<Rightarrow> string list \<Rightarrow> string list" where
  "edit_lines encoded ls =
     (case find_index (\<lambda>l. trim l = ''[auth]'') 0 ls of
        Some start \<Rightarrow>
          let body = drop (start + 1) ls;
              end = (case find_index is_table_header (start + 1) body of
                       Some i \<Rightarrow> i | None \<Rightarrow> length ls)
          in (case find_index (\<lambda>l. key_of_line l = ''password_hash'') (start + 1)
                     (take (end - (start + 1)) body) of
                Some i \<Rightarrow> ls[i := indent_of (ls ! i) @ hash_line encoded]
              | None \<Rightarrow> take end ls @ [hash_line encoded] @ drop end ls)
      | None \<Rightarrow>
          (if ls \<noteq> [] \<and> trim (last ls) \<noteq> [] then ls @ [[]] else ls)
          @ [''[auth]'', hash_line encoded])"

fun join_lines :: "string \<Rightarrow> string list \<Rightarrow> string" where
  "join_lines nl [] = []"
| "join_lines nl [l] = l"
| "join_lines nl (l # m # ls) = l @ nl @ join_lines nl (m # ls)"

definition has_crlf :: "string \<Rightarrow> bool" where
  "has_crlf s = (\<exists>i \<in> set [0..<length s]. take 2 (drop i s) = [CHR 0x0D, CHR 0x0A])"

definition replace_password_hash :: "string \<Rightarrow> string \<Rightarrow> string" where
  "replace_password_hash content encoded =
     (let nl = (if has_crlf content then [CHR 0x0D, CHR 0x0A] else [CHR 0x0A]);
          updated = join_lines nl (edit_lines encoded (text_lines content))
      in updated @ (if ends_with content [CHR 0x0A] then nl else []))"

datatype setup_error = AlreadyConfigured | SetupPersist

text \<open>\<open>hashed\<close> is the hash of the password if one could be made; a missing file reads as empty.\<close>

definition setup_initial_password ::
  "string option \<Rightarrow> bool \<Rightarrow> bool \<Rightarrow> auth_state \<Rightarrow> (setup_error, unit) result \<times> auth_state" where
  "setup_initial_password hashed readable written st =
     (case hashed of
        None \<Rightarrow> (Inl SetupPersist, st)
      | Some e \<Rightarrow>
          if \<not> au_setup st then (Inl AlreadyConfigured, st)
          else if \<not> readable \<or> \<not> written then (Inl SetupPersist, st)
          else (Inr (), st\<lparr>au_config := replace_password_hash (au_config st) e,
                  au_credential := Argon2 e FromConfig, au_setup := False\<rparr>))"

datatype setup_answer = SetupLocalOnly | SetupForbiddenOrigin | SetupWeak | SetupMismatch
  | SetupDone string string | SetupConflict | SetupFailed | SetupSessionFailed

definition api_setup_password ::
  "crypto \<Rightarrow> nat \<Rightarrow> string \<Rightarrow> string option \<Rightarrow> bool \<Rightarrow> bool \<Rightarrow> bool \<Rightarrow> ip_addr \<Rightarrow> headers \<Rightarrow> string \<Rightarrow> string
    \<Rightarrow> bool \<Rightarrow> auth_state \<Rightarrow> setup_answer \<times> auth_state" where
  "api_setup_password x ms sid hashed readable written stored remote hs pass confirm remember st =
     (if \<not> is_loopback remote then (SetupLocalOnly, st)
      else if \<not> origin_allows_headers hs then (SetupForbiddenOrigin, st)
      else if length pass < 8 \<or> 1024 < length pass then (SetupWeak, st)
      else if pass \<noteq> confirm then (SetupMismatch, st)
      else (case setup_initial_password hashed readable written st of
              (Inl AlreadyConfigured, st1) \<Rightarrow> (SetupConflict, st1)
            | (Inl SetupPersist, st1) \<Rightarrow> (SetupFailed, st1)
            | (Inr _, st1) \<Rightarrow>
                (case issue_admin_session x ms sid stored remember st1 of
                   (Inr (i, u), st2) \<Rightarrow> (SetupDone i u, st2)
                 | (Inl _, st2) \<Rightarrow> (SetupSessionFailed, st2))))"

datatype login_answer = LoginForbiddenOrigin | LoginBadRequest | LoginRefused login_error | LoginDone string string

definition api_login ::
  "crypto \<Rightarrow> nat \<Rightarrow> nat \<Rightarrow> string \<Rightarrow> bool \<Rightarrow> headers \<Rightarrow> string \<Rightarrow> string \<Rightarrow> string \<Rightarrow> bool \<Rightarrow> auth_state
    \<Rightarrow> login_answer \<times> auth_state" where
  "api_login x now ms sid written hs user pass ip remember st =
     (if \<not> origin_allows_headers hs then (LoginForbiddenOrigin, st)
      else if user = [] \<or> pass = [] \<or> 64 < length user \<or> 1024 < length pass then (LoginBadRequest, st)
      else (case attempt_login_remember x now ms sid written user pass ip remember st of
              (Inr (i, u), st1) \<Rightarrow> (LoginDone i u, st1)
            | (Inl e, st1) \<Rightarrow> (LoginRefused e, st1)))"

definition api_logout :: "crypto \<Rightarrow> bool \<Rightarrow> headers \<Rightarrow> auth_state \<Rightarrow> (nat, unit) result \<times> auth_state" where
  "api_logout x written hs st =
     (if \<not> origin_allows_headers hs then (Inl 403, st)
      else (case extract_sid hs of
              None \<Rightarrow> (Inr (), st)
            | Some sid \<Rightarrow>
                (case destroy_session x written sid st of
                   (True, st1) \<Rightarrow> (Inr (), st1) | (False, st1) \<Rightarrow> (Inl 500, st1))))"

end
