(* ===== verification/AuthSystem.thy ===== *)
theory AuthSystem
  imports AuthHttp
begin

text \<open>
  Authentication as a system: logins, validations, logouts, sweeps, account changes, the
  first password and restarts, in any order, with either file failing to be written. A
  session key that is out of use stays out of use; failed guesses are counted.
\<close>

section \<open>Revocation\<close>

text \<open>The account revision that a configuration text has.\<close>

definition cfg_revision :: "toml \<Rightarrow> string \<Rightarrow> string option" where
  "cfg_revision tm c = map_option (\<lambda>(u, r, h). r) (read_account tm c)"

text \<open>The stored session file belongs to an account that the configuration no longer has.\<close>

definition outdated :: "toml \<Rightarrow> session_file \<Rightarrow> auth_state \<Rightarrow> bool" where
  "outdated tm f st \<longleftrightarrow> sx_revision f \<noteq> au_revision st
     \<and> cfg_revision tm (au_config st) \<noteq> Some (sx_revision f)"

definition key_gone :: "toml \<Rightarrow> string \<Rightarrow> auth_state \<Rightarrow> bool" where
  "key_gone tm k st \<longleftrightarrow> au_sessions st k = None
     \<and> (case au_disk st of None \<Rightarrow> True | Some f \<Rightarrow> sx_sessions f k = None \<or> outdated tm f st)"

text \<open>A new process over the same files.\<close>

definition restart ::
  "crypto \<Rightarrow> toml \<Rightarrow> nat \<Rightarrow> bool \<Rightarrow> bool \<Rightarrow> string option \<Rightarrow> string option \<Rightarrow> auth_settings \<Rightarrow> bool option
    \<Rightarrow> bool \<Rightarrow> string option \<Rightarrow> auth_state \<Rightarrow> auth_state option" where
  "restart x tm ms written dev env_password hashed cfg cookie secure admin st =
     (case read_account tm (au_config st) of
        None \<Rightarrow> None
      | Some (u, r, h) \<Rightarrow>
          open_session_store x ms written env_password (au_disk st)
            (new_with_setup (resolve_credential x dev env_password hashed h) u r cfg cookie secure admin
               (setup_needed dev env_password h) (au_config st)))"

text \<open>
  What the TOML crates are relied on for: a text that was edited has the new revision. The
  edit of the first password leaves the revision of a text that still parses.
\<close>

definition toml_edits :: "toml \<Rightarrow> bool" where
  "toml_edits tm \<longleftrightarrow>
     (\<forall>c u r h r'. cfg_revision tm (write_account tm c u r h) = Some r' \<longrightarrow> r' = r)"

definition revision_kept :: "toml \<Rightarrow> string \<Rightarrow> string \<Rightarrow> bool" where
  "revision_kept tm old new \<longleftrightarrow>
     cfg_revision tm new = None \<or> cfg_revision tm new = cfg_revision tm old"

text \<open>
  Ids are drawn at random: none of those issued here has the digest \<open>k\<close>, and no revision
  is drawn a second time.
\<close>

definition fresh_revision :: "string \<Rightarrow> auth_state \<Rightarrow> bool" where
  "fresh_revision r st \<longleftrightarrow> (case au_disk st of None \<Rightarrow> True | Some f \<Rightarrow> sx_revision f \<noteq> r)"

inductive auth_step :: "crypto \<Rightarrow> toml \<Rightarrow> string \<Rightarrow> auth_state \<Rightarrow> auth_state \<Rightarrow> bool"
  for x :: crypto and tm :: toml and k :: string where
  logs_in: "sid_digest x sid \<noteq> k \<Longrightarrow>
    auth_step x tm k st (snd (attempt_login_remember x now ms sid w user pass ip remember st))"
| issues: "sid_digest x sid \<noteq> k \<Longrightarrow>
    auth_step x tm k st (snd (issue_admin_session x ms sid w remember st))"
| validates: "auth_step x tm k st (snd (validate_session x ms w sid st))"
| logs_out: "auth_step x tm k st (snd (destroy_session x w sid st))"
| sweeps: "auth_step x tm k st (sweep now ms w st)"
| changes: "fresh_revision (ce_revision e) st \<Longrightarrow>
    auth_step x tm k st (snd (change_account x tm e req ip sid st))"
| sets_up: "revision_kept tm (au_config st) (replace_password_hash (au_config st) e) \<Longrightarrow>
    auth_step x tm k st (snd (setup_initial_password (Some e) rd w st))"
| settings: "auth_step x tm k st (st\<lparr>au_live := live\<rparr>)"
| restarts: "restart x tm ms w dev env hashed cfg cookie secure admin st = Some st' \<Longrightarrow> auth_step x tm k st st'"

lemma gone_same:
  assumes "key_gone tm k st" "au_sessions st' k = au_sessions st k" "au_disk st' = au_disk st"
    "au_revision st' = au_revision st" "au_config st' = au_config st"
  shows "key_gone tm k st'"
  using assms by (simp add: key_gone_def outdated_def split: option.splits)

lemma gone_persist:
  assumes "key_gone tm k st"
  shows "key_gone tm k (snd (persist_sessions w st))"
  using assms by (auto simp: persist_sessions_def key_gone_def split: option.splits)

lemma persist_fields [simp]:
  "au_sessions (snd (persist_sessions w st)) = au_sessions st"
  "au_revision (snd (persist_sessions w st)) = au_revision st"
  "au_config (snd (persist_sessions w st)) = au_config st"
  "au_user (snd (persist_sessions w st)) = au_user st"
  "au_fails (snd (persist_sessions w st)) = au_fails st"
  by (simp_all add: persist_sessions_def)

lemma gone_sessions:
  assumes "key_gone tm k st" "m k = None"
  shows "key_gone tm k (st\<lparr>au_sessions := m\<rparr>)"
  using assms by (simp add: key_gone_def outdated_def split: option.splits)

lemma gone_put:
  assumes "key_gone tm k st" "j \<noteq> k"
  shows "key_gone tm k (put_session j s st)"
  unfolding put_session_def
  by (rule gone_sessions [OF assms(1)]) (use assms in \<open>simp add: key_gone_def\<close>)

lemma gone_drop: "key_gone tm k st \<Longrightarrow> key_gone tm k (drop_session j st)"
  by (auto simp: drop_session_def key_gone_def outdated_def split: option.splits)

lemma gone_fails: "key_gone tm k st \<Longrightarrow> key_gone tm k (st\<lparr>au_fails := fs\<rparr>)"
  by (simp add: key_gone_def outdated_def split: option.splits)

lemma gone_issue:
  assumes "key_gone tm k st" "sid_digest x sid \<noteq> k"
  shows "key_gone tm k (snd (issue_session x now sid remember w st))"
proof -
  have "key_gone tm k (snd (persist_sessions w (put_session (sid_digest x sid) (make_session st remember now) st)))"
    by (intro gone_persist gone_put assms)
  then show ?thesis
    by (auto simp: issue_session_def Let_def gone_drop split: prod.splits bool.splits)
qed

lemma gone_prune: "key_gone tm k st \<Longrightarrow> key_gone tm k (prune_fails now st)"
  by (simp add: prune_fails_def gone_fails)

lemma gone_login:
  assumes "key_gone tm k st" "sid_digest x sid \<noteq> k"
  shows "key_gone tm k (snd (attempt_login_remember x now ms sid w user pass ip remember st))"
proof -
  let ?st2 = "(prune_fails now st)\<lparr>au_fails := AList.delete (ip, user) (au_fails (prune_fails now st))\<rparr>"
  have p: "key_gone tm k (prune_fails now st)" by (intro gone_prune assms)
  then have "key_gone tm k (snd (issue_session x ms sid remember w ?st2))"
    by (intro gone_issue gone_fails assms(2))
  then show ?thesis
    using p by (auto simp: attempt_login_remember_def Let_def note_failure_def gone_fails
        split: prod.splits bool.splits)
qed

lemma gone_validate:
  assumes "key_gone tm k st"
  shows "key_gone tm k (snd (validate_session x ms w sid st))"
proof (cases "au_sessions st (sid_digest x sid)")
  case (Some s)
  have j: "sid_digest x sid \<noteq> k" using assms Some by (auto simp: key_gone_def)
  have "key_gone tm k (snd (persist_sessions w (put_session (sid_digest x sid) (s\<lparr>se_last_seen := ms\<rparr>) st)))"
    by (intro gone_persist gone_put assms j)
  then show ?thesis
    using assms Some j
    by (auto simp: validate_session_def Let_def gone_drop gone_put split: prod.splits bool.splits)
qed (use assms in \<open>simp add: validate_session_def\<close>)

lemma gone_destroy:
  assumes "key_gone tm k st"
  shows "key_gone tm k (snd (destroy_session x w sid st))"
proof -
  have "key_gone tm k (snd (persist_sessions w (drop_session (sid_digest x sid) st)))"
    by (intro gone_persist gone_drop assms)
  moreover have "sid_digest x sid \<noteq> k" if "au_sessions st (sid_digest x sid) \<noteq> None"
    using that assms by (auto simp: key_gone_def)
  ultimately show ?thesis
    by (auto simp: destroy_session_def Let_def gone_put split: prod.splits bool.splits option.splits)
qed

lemma gone_sweep: "key_gone tm k st \<Longrightarrow> key_gone tm k (sweep now ms w st)"
  unfolding sweep_def Let_def
  by (intro gone_prune gone_persist gone_sessions) (auto simp: key_gone_def)

lemma commit_gone:
  assumes f: "fresh_revision (ce_revision e) st" and law: "toml_edits tm"
  shows "key_gone tm k (commit_account e req hash tm st)"
proof -
  let ?st = "st\<lparr>au_config := write_account tm (au_config st) (ua_user req) (ce_revision e) hash,
            au_user := ua_user req, au_revision := ce_revision e,
            au_credential := (case hash of Some n \<Rightarrow> Argon2 n FromConfig | None \<Rightarrow> au_credential st),
            au_sessions := (\<lambda>_. None), au_fails := [], au_changes := au_changes st + 1\<rparr>"
  have "key_gone tm k ?st"
    using f law by (auto simp: key_gone_def outdated_def fresh_revision_def toml_edits_def split: option.splits)
  then show ?thesis unfolding commit_account_def Let_def by (rule gone_persist)
qed

text \<open>A change of the account commits, or touches no more than the counted failures.\<close>

lemma change_account_cases:
  obtains fs err where "change_account x tm e req ip sid st = (Inl err, st\<lparr>au_fails := fs\<rparr>)"
  | hash where "change_account x tm e req ip sid st
      = (Inr (), commit_account e req hash tm (prune_fails (ce_now e) st))"
proof (cases "change_checks x e req sid st")
  case (Some err)
  then have "change_account x tm e req ip sid st = (Inl err, st\<lparr>au_fails := au_fails st\<rparr>)"
    by (simp add: change_account_def)
  then show ?thesis by (rule that(1))
next
  case None
  note call = None change_account_def Let_def
  define st1 where "st1 = prune_fails (ce_now e) st"
  have st1: "st1 = st\<lparr>au_fails := au_fails st1\<rparr>" by (simp add: st1_def prune_fails_def)
  have "\<exists>fs. st1\<lparr>au_fails := gs\<rparr> = st\<lparr>au_fails := fs\<rparr>" for gs
    by (simp add: st1_def prune_fails_def) auto
  then have refused: thesis
    if "change_account x tm e req ip sid st = (Inl err, st1\<lparr>au_fails := gs\<rparr>)" for err gs
    using that \<open>\<And>fs err. change_account x tm e req ip sid st = (Inl err, st\<lparr>au_fails := fs\<rparr>) \<Longrightarrow> thesis\<close>
    by metis
  have refused': thesis if "change_account x tm e req ip sid st = (Inl err, st1)" for err
    using refused [of err "au_fails st1"] that by simp
  consider "over_limit (ip, au_user st) st1"
    | "\<not> over_limit (ip, au_user st) st1" "\<not> verify_credentials x (au_credential st) (ua_current req)"
    | "\<not> over_limit (ip, au_user st) st1" "verify_credentials x (au_credential st) (ua_current req)"
    by blast
  then show ?thesis
  proof cases
    case 1
    then show ?thesis by (intro refused') (simp add: call st1_def)
  next
    case 2
    then show ?thesis by (intro refused) (simp add: call st1_def)
  next
    case 3
    then show ?thesis
    proof (cases "config_agrees tm st1")
      case agrees: None
      show ?thesis
      proof (cases "\<not> ce_read e \<or> ua_new req \<noteq> [] \<and> ce_hash e = None \<or> \<not> ce_config_written e")
        case True
        then show ?thesis
          by (intro refused' [of "if \<not> ce_read e then ConfigReadFailed
                else if ua_new req \<noteq> [] \<and> ce_hash e = None then HashFailed else ConfigWriteFailed"])
            (use 3 agrees in \<open>auto simp: call st1_def\<close>)
      next
        case False
        then show ?thesis using 3 agrees by (intro that(2)) (simp add: call st1_def)
      qed
    next
      case (Some err)
      then show ?thesis
        by (intro refused' [of "if ce_read e then err else ConfigReadFailed"])
          (use 3 in \<open>simp add: call st1_def\<close>)
    qed
  qed
qed

lemma fresh_prune [simp]: "fresh_revision r (prune_fails now st) = fresh_revision r st"
  by (simp add: fresh_revision_def prune_fails_def)

lemma gone_change:
  assumes "key_gone tm k st" "fresh_revision (ce_revision e) st" "toml_edits tm"
  shows "key_gone tm k (snd (change_account x tm e req ip sid st))"
  by (rule change_account_cases [of x tm e req ip sid st])
    (use assms gone_fails commit_gone in \<open>simp_all\<close>)

lemma gone_setup:
  assumes "key_gone tm k st" "revision_kept tm (au_config st) (replace_password_hash (au_config st) e)"
  shows "key_gone tm k (snd (setup_initial_password (Some e) rd w st))"
  using assms
  by (auto simp: setup_initial_password_def key_gone_def outdated_def revision_kept_def
      split: option.splits)

lemma open_cases:
  assumes "open_session_store x now w pw found st = Some st'"
  obtains m where "st' = snd (persist_sessions w
      (st\<lparr>au_sessions := m, au_stored := True, au_disk := found\<rparr>))"
    and "m = au_sessions st \<or> (\<exists>f. found = Some f \<and> sx_revision f = au_revision st
      \<and> m = (\<lambda>k. Option.bind (sx_sessions f k) (loaded_session st now k)))"
proof (cases found)
  case None
  then show ?thesis
    using assms that [of "au_sessions st"]
    by (auto simp: open_session_store_def split: prod.splits bool.splits)
next
  case (Some f)
  show ?thesis
  proof (cases "same_credential x pw (au_credential st) (sx_credential f) \<and> sx_revision f = au_revision st")
    case True
    then show ?thesis
      using assms Some that [of "\<lambda>k. Option.bind (sx_sessions f k) (loaded_session st now k)"]
      by (auto simp: open_session_store_def split: prod.splits bool.splits if_splits)
  next
    case False
    then show ?thesis
      using assms Some that [of "au_sessions st"]
      by (auto simp: open_session_store_def split: prod.splits bool.splits if_splits)
  qed
qed

lemma gone_restart:
  assumes "key_gone tm k st" "restart x tm ms w dev env hashed cfg cookie secure admin st = Some st'"
  shows "key_gone tm k st'"
proof -
  obtain u r h where rd: "read_account tm (au_config st) = Some (u, r, h)"
    using assms(2) by (auto simp: restart_def split: option.splits)
  let ?new = "new_with_setup (resolve_credential x dev env hashed h) u r cfg cookie secure admin
    (setup_needed dev env h) (au_config st)"
  have "open_session_store x ms w env (au_disk st) ?new = Some st'"
    using assms(2) rd by (simp add: restart_def)
  then obtain m where
      st': "st' = snd (persist_sessions w (?new\<lparr>au_sessions := m, au_stored := True, au_disk := au_disk st\<rparr>))"
    and m: "m = au_sessions ?new \<or> (\<exists>f. au_disk st = Some f \<and> sx_revision f = au_revision ?new
      \<and> m = (\<lambda>k. Option.bind (sx_sessions f k) (loaded_session ?new ms k)))"
    by (rule open_cases)
  have "m k = None"
    using m assms(1) rd by (auto simp: key_gone_def outdated_def cfg_revision_def new_with_setup_def)
  then have "key_gone tm k (?new\<lparr>au_sessions := m, au_stored := True, au_disk := au_disk st\<rparr>)"
    using assms(1) rd
    by (auto simp: key_gone_def outdated_def cfg_revision_def new_with_setup_def split: option.splits)
  then show ?thesis unfolding st' by (rule gone_persist)
qed

lemma gone_issue_admin:
  "key_gone tm k st \<Longrightarrow> sid_digest x sid \<noteq> k \<Longrightarrow> key_gone tm k (snd (issue_admin_session x ms sid w remember st))"
  using gone_issue [of tm k st x sid ms remember w]
  by (auto simp: issue_admin_session_def split: prod.splits bool.splits)

lemma gone_step: "auth_step x tm k st st' \<Longrightarrow> toml_edits tm \<Longrightarrow> key_gone tm k st \<Longrightarrow> key_gone tm k st'"
proof (induction rule: auth_step.induct)
  case (settings st live)
  then show ?case by (simp add: key_gone_def outdated_def split: option.splits)
qed (simp_all add: gone_login gone_issue_admin gone_validate gone_destroy gone_sweep gone_change
    gone_setup gone_restart)

lemma gone_steps:
  "(auth_step x tm k)\<^sup>*\<^sup>* st st' \<Longrightarrow> toml_edits tm \<Longrightarrow> key_gone tm k st \<Longrightarrow> key_gone tm k st'"
  by (induction rule: rtranclp_induct) (auto intro: gone_step)

lemma gone_refused:
  "key_gone tm (sid_digest x sid) st \<Longrightarrow> fst (validate_session x now w sid st) = None"
  by (simp add: key_gone_def validate_session_def)

end
