(* ===== verification/AuthGuess.thy ===== *)
theory AuthGuess
  imports AuthSystem
begin

text \<open>
  The limit on password guesses: a run of logins, sweeps, validations and logouts, and the
  failures it lets a caller have.
\<close>

section \<open>Runs\<close>

record login_try =
  lt_user :: string
  lt_pass :: string
  lt_ip :: string
  lt_remember :: bool
  lt_sid :: string
  lt_ms :: nat
  lt_written :: bool

datatype auth_op = Guess login_try | Swept nat bool | Checked nat bool string | LoggedOut bool string

definition try_key :: "login_try \<Rightarrow> login_key" where
  "try_key a = (lt_ip a, lt_user a)"

text \<open>One operation at an instant; the answer of a login is the last component.\<close>

fun auth_op_at ::
  "crypto \<Rightarrow> nat \<times> auth_op \<Rightarrow> auth_state \<Rightarrow> (login_error, string \<times> string) result option \<times> auth_state" where
  "auth_op_at x (now, Guess a) st =
     (let (r, st') = attempt_login_remember x now (lt_ms a) (lt_sid a) (lt_written a) (lt_user a)
            (lt_pass a) (lt_ip a) (lt_remember a) st
      in (Some r, st'))"
| "auth_op_at x (now, Swept ms w) st = (None, sweep now ms w st)"
| "auth_op_at x (now, Checked ms w sid) st = (None, snd (validate_session x ms w sid st))"
| "auth_op_at x (now, LoggedOut w sid) st = (None, snd (destroy_session x w sid st))"

definition failed_guess :: "login_key \<Rightarrow> auth_op \<Rightarrow> (login_error, string \<times> string) result option \<Rightarrow> bool" where
  "failed_guess k op r \<longleftrightarrow>
     r = Some (Inl LoginInvalid) \<and> (case op of Guess a \<Rightarrow> try_key a = k | _ \<Rightarrow> False)"

text \<open>The instants at which the password of \<open>k\<close> was compared and found wrong.\<close>

fun failures :: "crypto \<Rightarrow> login_key \<Rightarrow> (nat \<times> auth_op) list \<Rightarrow> auth_state \<Rightarrow> nat list" where
  "failures x k [] st = []"
| "failures x k ((now, op) # ops) st =
     (case auth_op_at x (now, op) st of
        (r, st') \<Rightarrow> (if failed_guess k op r then [now] else []) @ failures x k ops st')"

definition guessed_keys :: "(nat \<times> auth_op) list \<Rightarrow> login_key set" where
  "guessed_keys ops = set (List.map_filter (\<lambda>(now, op). case op of Guess a \<Rightarrow> Some (try_key a) | _ \<Rightarrow> None) ops)"

text \<open>No attempt at \<open>k\<close> has the password.\<close>

definition only_wrong :: "crypto \<Rightarrow> login_key \<Rightarrow> auth_state \<Rightarrow> (nat \<times> auth_op) list \<Rightarrow> bool" where
  "only_wrong x k st ops \<longleftrightarrow>
     list_all (\<lambda>(now, op). case op of
         Guess a \<Rightarrow> try_key a = k \<longrightarrow> \<not> credentials_ok x (lt_user a) (lt_pass a) st
       | _ \<Rightarrow> True) ops"

section \<open>The counted failures\<close>

definition within :: "auth_state \<Rightarrow> nat \<Rightarrow> nat list \<Rightarrow> nat list" where
  "within st now ts = filter (\<lambda>t. now - t < window_nanos st) ts"

lemma within_within:
  "T \<le> now \<Longrightarrow> within st now (within st T ts) = within st now ts"
  by (induction ts) (auto simp: within_def)

lemma map_of_pruned:
  "distinct (map fst xs) \<Longrightarrow>
    map_of (filter (\<lambda>(k, ts). ts \<noteq> []) (map (\<lambda>(k, ts). (k, f ts)) xs)) k
    = (case map_of xs k of None \<Rightarrow> None | Some ts \<Rightarrow> if f ts = [] then None else Some (f ts))"
proof (induction xs)
  case (Cons p xs)
  obtain j ts where p: "p = (j, ts)" by (cases p)
  have "map_of xs j = None" using Cons.prems p by (simp add: map_of_eq_None_iff)
  then show ?case using Cons p by (cases "j = k") (simp_all split: option.splits)
qed simp

lemma distinct_pruned:
  "distinct (map fst xs) \<Longrightarrow>
    distinct (map fst (filter (\<lambda>(k, ts). ts \<noteq> []) (map (\<lambda>(k, ts). (k, f ts)) xs)))"
  by (induction xs) (auto simp: image_iff)

lemma attempts_pruned:
  "distinct (map fst (au_fails st)) \<Longrightarrow>
    attempts_of k (prune_fails now st) = within st now (attempts_of k st)"
  by (auto simp: attempts_of_def prune_fails_def map_of_pruned within_def split: option.splits)

lemma fails_pruned:
  "distinct (map fst (au_fails st)) \<Longrightarrow> distinct (map fst (au_fails (prune_fails now st)))"
  "fst ` set (au_fails (prune_fails now st)) \<subseteq> fst ` set (au_fails st)"
  by (force simp: prune_fails_def distinct_pruned)+

text \<open>What a login is checked against stays as it is.\<close>

definition same_login :: "auth_state \<Rightarrow> auth_state \<Rightarrow> bool" where
  "same_login st st' \<longleftrightarrow> au_cfg st' = au_cfg st \<and> au_live st' = au_live st
     \<and> au_user st' = au_user st \<and> au_credential st' = au_credential st"

definition same_fails :: "auth_state \<Rightarrow> auth_state \<Rightarrow> bool" where
  "same_fails st st' \<longleftrightarrow> same_login st st' \<and> au_fails st' = au_fails st"

lemma same_loginD:
  assumes "same_login st st'"
  shows "login_settings st' = login_settings st" "window_nanos st' = window_nanos st"
    "within st' = within st" "credentials_ok x u p st' = credentials_ok x u p st"
proof -
  show s: "login_settings st' = login_settings st"
    using assms by (simp add: same_login_def login_settings_def split: option.splits)
  show w: "window_nanos st' = window_nanos st" by (simp add: window_nanos_def s)
  show "within st' = within st" by (simp add: fun_eq_iff within_def w)
  show "credentials_ok x u p st' = credentials_ok x u p st"
    using assms by (simp add: same_login_def credentials_ok_def)
qed

lemma same_login_trans: "same_login st1 st2 \<Longrightarrow> same_login st2 st3 \<Longrightarrow> same_login st1 st3"
  by (simp add: same_login_def)

lemma same_fails_persist: "same_fails st (snd (persist_sessions w st))"
  by (simp add: same_fails_def same_login_def persist_sessions_def)

lemma same_fails_sessions: "same_fails st st1 \<Longrightarrow> same_fails st (st1\<lparr>au_sessions := m\<rparr>)"
  by (simp add: same_fails_def same_login_def)

lemma same_fails_trans: "same_fails st1 st2 \<Longrightarrow> same_fails st2 st3 \<Longrightarrow> same_fails st1 st3"
  by (simp add: same_fails_def same_login_def)

lemma same_fails_persisted: "same_fails st (snd (persist_sessions w (st\<lparr>au_sessions := m\<rparr>)))"
  by (simp add: same_fails_def same_login_def persist_sessions_def)

lemma same_fails_refl [simp]: "same_fails st st"
  by (simp add: same_fails_def same_login_def)

lemma same_fails_issue: "same_fails st (snd (issue_session x ms sid rem w st))"
  by (simp add: issue_session_def Let_def persist_sessions_def put_session_def drop_session_def
      same_fails_def same_login_def)

lemma same_fails_validate: "same_fails st (snd (validate_session x ms w sid st))"
  by (simp add: validate_session_def Let_def persist_sessions_def put_session_def drop_session_def
      same_fails_def same_login_def split: option.splits)

lemma same_fails_destroy: "same_fails st (snd (destroy_session x w sid st))"
  by (simp add: destroy_session_def Let_def persist_sessions_def put_session_def drop_session_def
      same_fails_def same_login_def split: option.splits)

lemma same_login_prune: "same_login st (prune_fails now st)"
  by (simp add: same_login_def prune_fails_def)

text \<open>A login is refused by the limit, fails, or empties its own key.\<close>

lemma login_cases:
  fixes st now user ip
  defines "st1 \<equiv> prune_fails now st"
  obtains (limited) t where
      "attempt_login_remember x now ms sid w user pass ip rem st = (Inl (LoginLimited t), st1)"
      "over_limit (ip, user) st1"
    | (wrong) "attempt_login_remember x now ms sid w user pass ip rem st
        = (Inl LoginInvalid, note_failure now (ip, user) st1)"
      "\<not> over_limit (ip, user) st1" "\<not> credentials_ok x user pass st1"
    | (right) r st' where "attempt_login_remember x now ms sid w user pass ip rem st = (r, st')"
      "r \<noteq> Inl LoginInvalid" "credentials_ok x user pass st1"
      "same_fails (st1\<lparr>au_fails := AList.delete (ip, user) (au_fails st1)\<rparr>) st'"
proof (cases "over_limit (ip, user) st1")
  case True
  then show ?thesis
    by (intro limited [of "retry_after now (ip, user) st1"])
      (simp_all add: attempt_login_remember_def Let_def st1_def)
next
  case False
  show ?thesis
  proof (cases "credentials_ok x user pass st1")
    case True
    let ?st2 = "st1\<lparr>au_fails := AList.delete (ip, user) (au_fails st1)\<rparr>"
    obtain ok st3 where issued: "issue_session x ms sid rem w ?st2 = (ok, st3)"
      by (cases "issue_session x ms sid rem w ?st2")
    have "same_fails ?st2 st3"
      using same_fails_issue [of ?st2 x ms sid rem w] by (simp add: issued)
    then show ?thesis
      using False True issued
      by (intro right [of "if ok then Inr (sid, au_user st) else Inl LoginPersist" st3])
        (simp_all add: attempt_login_remember_def Let_def st1_def split: bool.splits)
  next
    case wrong: False
    with False show ?thesis
      by (intro that(2)) (simp_all add: attempt_login_remember_def Let_def st1_def)
  qed
qed

section \<open>The limit\<close>

text \<open>
  After the failures \<open>log\<close> at a key, with the last pruning at \<open>T\<close>: the table has those of
  them that are still within the window, one entry for a key, and no window of the log has
  more than the limit.
\<close>

definition counted ::
  "login_key \<Rightarrow> login_key set \<Rightarrow> nat \<Rightarrow> nat list \<Rightarrow> auth_state \<Rightarrow> bool" where
  "counted k K T log st \<longleftrightarrow>
     distinct (map fst (au_fails st)) \<and> fst ` set (au_fails st) \<subseteq> K
     \<and> attempts_of k st = within st T log
     \<and> (\<forall>t0. length (filter (\<lambda>t. t0 \<le> t \<and> t < t0 + window_nanos st) log)
            \<le> as_max_fails (login_settings st))"

lemma attempts_ofI: "map_of (au_fails st) k = Some ts \<Longrightarrow> attempts_of k st = ts"
  by (simp add: attempts_of_def)

lemma counted_same:
  assumes "counted k K T log st" "same_fails st st'"
  shows "counted k K T log st'"
proof -
  have "same_login st st'" "au_fails st' = au_fails st" using assms(2) by (simp_all add: same_fails_def)
  then show ?thesis
    using assms(1) same_loginD [of st st'] by (simp add: counted_def attempts_of_def)
qed

lemma counted_prune:
  assumes "counted k K T log st" "T \<le> now"
  shows "counted k K now log (prune_fails now st)"
proof -
  have "fst ` set (au_fails (prune_fails now st)) \<subseteq> K"
    using assms(1) fails_pruned(2) [of now st] by (auto simp: counted_def simp del: image_subset_iff)
  then show ?thesis
    using assms fails_pruned(1) [of st now] same_loginD [OF same_login_prune [where st = st and now = now]]
    by (simp add: counted_def attempts_pruned within_within)
qed

lemma counted_delete:
  assumes "counted k K T log st" "j \<noteq> k"
  shows "counted k K T log (st\<lparr>au_fails := AList.delete j (au_fails st)\<rparr>)"
proof -
  have same: "same_login st (st\<lparr>au_fails := AList.delete j (au_fails st)\<rparr>)" by (simp add: same_login_def)
  have "fst ` set (AList.delete j (au_fails st)) \<subseteq> K"
    using assms(1) dom_delete_subset [of j "au_fails st"] unfolding counted_def by blast
  then show ?thesis
    using assms same_loginD [OF same] distinct_delete [of "au_fails st" j]
    by (simp add: counted_def attempts_of_def)
qed

lemma table_small:
  assumes "distinct (map fst fs)" "fst ` set fs \<subseteq> K" "finite K" "card K \<le> MAX_TRACKED_LOGIN_KEYS"
  shows "\<not> MAX_TRACKED_LOGIN_KEYS < length fs"
proof -
  have "length fs = card (fst ` set fs)" using distinct_card [OF assms(1)] by simp
  also have "\<dots> \<le> card K" by (rule card_mono) (use assms in auto)
  finally show ?thesis using assms(4) by simp
qed

lemma note_failure_noted:
  assumes "counted k K T log st" "finite K" "card K \<le> MAX_TRACKED_LOGIN_KEYS" "j \<in> K"
  shows "note_failure now j st = st\<lparr>au_fails := AList.update j
      (keep_last (as_max_fails (login_settings st)) (attempts_of j st @ [now])) (au_fails st)\<rparr>"
proof -
  let ?fs = "AList.update j (keep_last (as_max_fails (login_settings st)) (attempts_of j st @ [now])) (au_fails st)"
  have "distinct (map fst ?fs)" "fst ` set ?fs \<subseteq> K"
    using assms by (auto simp: counted_def distinct_update dom_update)
  then have "\<not> MAX_TRACKED_LOGIN_KEYS < length ?fs" using assms by (intro table_small) auto
  then show ?thesis by (simp add: note_failure_def Let_def)
qed

lemma window_grows:
  fixes W :: nat
  assumes "\<forall>t0. length (filter (\<lambda>t. t0 \<le> t \<and> t < t0 + W) log) \<le> m"
    "length (filter (\<lambda>t. now - t < W) log) < m"
  shows "length (filter (\<lambda>t. t0 \<le> t \<and> t < t0 + W) (log @ [now])) \<le> (m :: nat)"
proof (cases "t0 \<le> now \<and> now < t0 + W")
  case True
  have "length (filter (\<lambda>t. t0 \<le> t \<and> t < t0 + W) log) \<le> length (filter (\<lambda>t. now - t < W) log)"
  proof -
    have "now - t < W" if "t0 \<le> t" for t using True that by arith
    then show ?thesis by (induction log) auto
  qed
  with True assms(2) show ?thesis by simp
next
  case False
  then show ?thesis using assms(1) by auto
qed

lemma counted_note:
  assumes c: "counted k K now log st" and K: "finite K" "card K \<le> MAX_TRACKED_LOGIN_KEYS" "j \<in> K"
    and free: "\<not> over_limit j st" and m: "1 \<le> as_max_fails (login_settings st)"
  shows "counted k K now (if j = k then log @ [now] else log) (note_failure now j st)"
proof -
  let ?ts = "keep_last (as_max_fails (login_settings st)) (attempts_of j st @ [now])"
  have n: "note_failure now j st = st\<lparr>au_fails := AList.update j ?ts (au_fails st)\<rparr>"
    by (rule note_failure_noted [OF c K])
  have same: "same_login st (note_failure now j st)" by (simp add: n same_login_def)
  have less: "length (attempts_of j st) < as_max_fails (login_settings st)"
    using free m by (auto simp: over_limit_def attempts_of_def split: option.splits)
  then have ts: "?ts = attempts_of j st @ [now]" by (simp add: keep_last_def)
  have d: "distinct (map fst (AList.update j ?ts (au_fails st)))"
      "fst ` set (AList.update j ?ts (au_fails st)) \<subseteq> K"
    using c K(3) by (auto simp: counted_def distinct_update dom_update)
  then have d: "distinct (map fst (au_fails (note_failure now j st)))"
      "fst ` set (au_fails (note_failure now j st)) \<subseteq> K"
    by (simp_all add: n)
  show ?thesis
  proof (cases "j = k")
    case True
    have w: "0 < window_nanos st" by (simp add: window_nanos_def)
    have a: "attempts_of k st = filter (\<lambda>t. now - t < window_nanos st) log"
      using c by (simp add: counted_def within_def)
    have "\<forall>t0. length (filter (\<lambda>t. t0 \<le> t \<and> t < t0 + window_nanos st) (log @ [now]))
        \<le> as_max_fails (login_settings st)"
      using c less a True by (intro allI window_grows) (simp_all add: counted_def)
    moreover have "attempts_of k (note_failure now j st) = within st now (log @ [now])"
    proof -
      have "attempts_of j (note_failure now j st) = ?ts"
        by (rule attempts_ofI) (simp add: n update_conv')
      then show ?thesis using a w True unfolding ts by (simp add: within_def)
    qed
    ultimately show ?thesis
      using True d same_loginD [OF same] by (simp add: counted_def)
  next
    case False
    then have "attempts_of k (note_failure now j st) = attempts_of k st"
      by (simp add: n attempts_of_def update_conv')
    then show ?thesis
      using False c d same_loginD [OF same] by (simp add: counted_def)
  qed
qed

section \<open>Runs keep the count\<close>

text \<open>One operation: the count goes on, with the failure it may have been.\<close>

lemma failed_guess_Guess [simp]:
  "failed_guess k (Guess a) (Some r) \<longleftrightarrow> r = Inl LoginInvalid \<and> try_key a = k"
  by (simp add: failed_guess_def)

lemma failed_guess_None [simp]: "\<not> failed_guess k op None"
  by (simp add: failed_guess_def)

lemma counted_guess:
  assumes c: "counted k K T log st" and now: "T \<le> now"
    and K: "finite K" "card K \<le> MAX_TRACKED_LOGIN_KEYS" "try_key a \<in> K"
    and m: "1 \<le> as_max_fails (login_settings st)"
    and wrong: "try_key a = k \<Longrightarrow> \<not> credentials_ok x (lt_user a) (lt_pass a) st"
    and run: "attempt_login_remember x now ms sid w (lt_user a) (lt_pass a) (lt_ip a) rem st = (r, st')"
  shows "counted k K now (if r = Inl LoginInvalid \<and> try_key a = k then log @ [now] else log) st'
    \<and> same_login st st'"
proof -
  let ?st1 = "prune_fails now st"
  have c1: "counted k K now log ?st1" by (rule counted_prune [OF c now])
  have same1: "same_login st ?st1" by (rule same_login_prune)
  note same1' = same_loginD [OF same1]
  show ?thesis
  proof (rule login_cases [of x now ms sid w "lt_user a" "lt_pass a" "lt_ip a" rem st])
    fix t
    assume "attempt_login_remember x now ms sid w (lt_user a) (lt_pass a) (lt_ip a) rem st
      = (Inl (LoginLimited t), ?st1)"
    then show ?thesis using run c1 same1 by simp
  next
    assume 1: "attempt_login_remember x now ms sid w (lt_user a) (lt_pass a) (lt_ip a) rem st
        = (Inl LoginInvalid, note_failure now (lt_ip a, lt_user a) ?st1)"
      and free: "\<not> over_limit (lt_ip a, lt_user a) ?st1"
    have "counted k K now (if try_key a = k then log @ [now] else log) (note_failure now (try_key a) ?st1)"
      by (rule counted_note [OF c1 K]) (use m same1'(1) free in \<open>simp_all add: try_key_def\<close>)
    moreover have "same_login st (note_failure now (try_key a) ?st1)"
      using same1 by (simp add: note_failure_def Let_def same_login_def)
    ultimately show ?thesis using 1 run by (simp add: try_key_def)
  next
    fix r' st3
    assume 1: "attempt_login_remember x now ms sid w (lt_user a) (lt_pass a) (lt_ip a) rem st = (r', st3)"
        "r' \<noteq> Inl LoginInvalid"
      and ok: "credentials_ok x (lt_user a) (lt_pass a) ?st1"
      and same: "same_fails (?st1\<lparr>au_fails := AList.delete (lt_ip a, lt_user a) (au_fails ?st1)\<rparr>) st3"
    have other: "(lt_ip a, lt_user a) \<noteq> k"
      using wrong ok same1'(4) by (auto simp: try_key_def)
    have "counted k K now log st3"
      by (rule counted_same [OF counted_delete [OF c1 other] same])
    moreover have "same_login st st3"
      using same1 same by (simp add: same_fails_def same_login_def)
    ultimately show ?thesis using 1 run by simp
  qed
qed

lemma counted_swept:
  assumes "counted k K T log st" "T \<le> now"
  shows "counted k K now log (sweep now ms w st) \<and> same_login st (sweep now ms w st)"
proof -
  let ?st1 = "snd (persist_sessions w (st\<lparr>au_sessions := \<lambda>k. case au_sessions st k of
            Some s \<Rightarrow> if session_active st s ms then Some s else None | None \<Rightarrow> None\<rparr>))"
  have same: "same_fails st ?st1" by (rule same_fails_persisted)
  have "counted k K now log (prune_fails now ?st1)"
    by (rule counted_prune [OF counted_same [OF assms(1) same] assms(2)])
  moreover have "same_login st (prune_fails now ?st1)"
    using same same_login_prune [where st = ?st1 and now = now]
    by (auto simp: same_fails_def intro: same_login_trans)
  ultimately show ?thesis by (simp add: sweep_def Let_def)
qed

lemma counted_op:
  assumes c: "counted k K T log st" and now: "T \<le> now"
    and K: "finite K" "card K \<le> MAX_TRACKED_LOGIN_KEYS" "guessed_keys [(now, op)] \<subseteq> K"
    and m: "1 \<le> as_max_fails (login_settings st)" and wrong: "only_wrong x k st [(now, op)]"
    and run: "auth_op_at x (now, op) st = (r, st')"
  shows "\<exists>T'\<le>now. counted k K T' (log @ (if failed_guess k op r then [now] else [])) st' \<and> same_login st st'"
proof (cases op)
  case (Guess a)
  let ?l = "attempt_login_remember x now (lt_ms a) (lt_sid a) (lt_written a) (lt_user a) (lt_pass a)
      (lt_ip a) (lt_remember a) st"
  have r: "r = Some (fst ?l)" "?l = (fst ?l, st')"
    using run unfolding Guess by (cases ?l; simp)+
  have "try_key a \<in> K" using K(3) Guess by (simp add: guessed_keys_def map_filter_def)
  moreover have "try_key a = k \<Longrightarrow> \<not> credentials_ok x (lt_user a) (lt_pass a) st"
    using wrong Guess by (simp add: only_wrong_def)
  ultimately have "counted k K now (if fst ?l = Inl LoginInvalid \<and> try_key a = k then log @ [now] else log) st'
      \<and> same_login st st'"
    using counted_guess [OF c now K(1,2) _ m _ r(2)] by blast
  then show ?thesis unfolding r(1) Guess by (intro exI [of _ now]) (auto split: if_splits)
next
  case (Swept ms w)
  then show ?thesis using run counted_swept [OF c now, of ms w] by auto
next
  case (Checked ms w sid)
  then have "r = None" "st' = snd (validate_session x ms w sid st)" using run by simp_all
  then show ?thesis
    using now counted_same [OF c same_fails_validate] same_fails_validate [of st x ms w sid]
    by (intro exI [of _ T]) (simp add: same_fails_def)
next
  case (LoggedOut w sid)
  then have "r = None" "st' = snd (destroy_session x w sid st)" using run by simp_all
  then show ?thesis
    using now counted_same [OF c same_fails_destroy] same_fails_destroy [of st x w sid]
    by (intro exI [of _ T]) (simp add: same_fails_def)
qed

lemma guessed_keys_Cons:
  "guessed_keys ((now, op) # ops) = guessed_keys [(now, op)] \<union> guessed_keys ops"
  by (auto simp: guessed_keys_def map_filter_def split: auth_op.splits)

lemma only_wrong_Cons:
  "only_wrong x k st ((now, op) # ops) \<longleftrightarrow> only_wrong x k st [(now, op)] \<and> only_wrong x k st ops"
  by (auto simp: only_wrong_def)

lemma only_wrong_same: "same_login st st' \<Longrightarrow> only_wrong x k st' ops = only_wrong x k st ops"
  by (auto simp: only_wrong_def same_loginD list_all_iff split: auth_op.splits)

lemma failures_limited:
  assumes "counted k K T log st" "sorted (T # map fst ops)" "finite K" "card K \<le> MAX_TRACKED_LOGIN_KEYS"
    "guessed_keys ops \<subseteq> K" "1 \<le> as_max_fails (login_settings st)" "only_wrong x k st ops"
  shows "length (filter (\<lambda>t. t0 \<le> t \<and> t < t0 + window_nanos st) (log @ failures x k ops st))
    \<le> as_max_fails (login_settings st)"
  using assms
proof (induction ops arbitrary: st T log)
  case Nil
  then show ?case by (simp add: counted_def)
next
  case (Cons e ops)
  obtain now op where e: "e = (now, op)" by (cases e)
  obtain r st' where run: "auth_op_at x (now, op) st = (r, st')" by (cases "auth_op_at x (now, op) st")
  let ?new = "if failed_guess k op r then [now] else []"
  have "T \<le> now" "guessed_keys [(now, op)] \<subseteq> K" "only_wrong x k st [(now, op)]"
    using Cons.prems e guessed_keys_Cons [of now op ops] only_wrong_Cons [of x k st now op ops] by auto
  from counted_op [OF Cons.prems(1) this(1) Cons.prems(3,4) this(2) Cons.prems(6) this(3) run]
  obtain T' where T': "T' \<le> now" "counted k K T' (log @ ?new) st'" "same_login st st'" by auto
  have "sorted (T' # map fst ops)" using Cons.prems(2) e T'(1) by auto
  moreover have "guessed_keys ops \<subseteq> K" "only_wrong x k st' ops"
    using Cons.prems e guessed_keys_Cons [of now op ops] only_wrong_Cons [of x k st now op ops]
      only_wrong_same [OF T'(3)] by auto
  ultimately have "length (filter (\<lambda>t. t0 \<le> t \<and> t < t0 + window_nanos st')
      ((log @ ?new) @ failures x k ops st')) \<le> as_max_fails (login_settings st')"
    using Cons.IH [of T' "log @ ?new" st'] T' Cons.prems same_loginD(1) [OF T'(3)] by simp
  then show ?case using e run same_loginD [OF T'(3)] by simp
qed

end
