(* ===== verification/AuthTheorems.thy ===== *)
theory AuthTheorems
  imports AuthGuess
begin

text \<open>
  What authentication promises: a session that was ended stays ended, a password can only be
  guessed so often, a request gets in only with the token or a session; and what it does not.
\<close>

section \<open>Revocation\<close>

lemma persist_True:
  "persist_sessions w st = (True, st') \<Longrightarrow> au_stored st \<Longrightarrow>
    st' = st\<lparr>au_disk := Some \<lparr>sx_schema = 1,
         sx_credential = (case au_credential st of Argon2 e _ \<Rightarrow> e | NoCredential \<Rightarrow> []),
         sx_revision = au_revision st, sx_sessions = au_sessions st\<rparr>\<rparr>"
  by (auto simp: persist_sessions_def split: if_splits)

lemma destroyed_gone:
  assumes "destroy_session x w sid st = (True, st0)" "au_stored st"
  shows "key_gone tm (sid_digest x sid) st0"
proof -
  have "persist_sessions w (drop_session (sid_digest x sid) st) = (True, st0)"
    using assms(1) by (auto simp: destroy_session_def Let_def split: prod.splits bool.splits)
  from persist_True [OF this] assms(2) show ?thesis by (simp add: drop_session_def key_gone_def)
qed

lemma changed_gone:
  assumes "change_account x tm e req ip own st = (Inr (), st0)" "toml_edits tm"
    "fresh_revision (ce_revision e) st"
  shows "key_gone tm k st0"
proof (rule change_account_cases [of x tm e req ip own st])
  fix hash
  assume "change_account x tm e req ip own st = (Inr (), commit_account e req hash tm (prune_fails (ce_now e) st))"
  then show ?thesis using assms by (auto intro!: commit_gone)
qed (use assms in simp)

lemmas gone_for_good = gone_refused [OF gone_steps]

text \<open>
  C9. A logout that was answered with success holds: whatever happens next - other logins,
  other logouts, sweeps, changes of the account, restarts over the files that are there,
  each with its writes failing or not - the session id is refused.
\<close>

theorem revoked_session_stays_revoked:
  assumes "toml_edits tm" "au_stored st" "destroy_session x w sid st = (True, st0)"
    "(auth_step x tm (sid_digest x sid))\<^sup>*\<^sup>* st0 st'"
  shows "fst (validate_session x now w' sid st') = None"
  using assms by (intro gone_for_good) (auto intro: destroyed_gone)

text \<open>
  C32. A change of the account that succeeded ends every session there was, for good: even
  when the session file could not be cleared, a restart does not bring one back, because
  the file has the account revision of before.
\<close>

theorem account_change_ends_every_session:
  assumes "toml_edits tm" "fresh_revision (ce_revision e) st"
    "change_account x tm e req ip own st = (Inr (), st0)"
    "(auth_step x tm (sid_digest x sid))\<^sup>*\<^sup>* st0 st'"
  shows "fst (validate_session x now w' sid st') = None"
  using assms by (intro gone_for_good) (auto intro: changed_gone)

section \<open>A sample\<close>

definition sample_crypto :: crypto where
  "sample_crypto = \<lparr>phc_ok = (\<lambda>e. e \<noteq> []), matches_phc = (\<lambda>e p. e = CHR ''#'' # p),
     sid_digest = (\<lambda>s. CHR ''d'' # s)\<rparr>"

definition sample_toml :: toml where
  "sample_toml = \<lparr>read_account = (\<lambda>c. Some (''admin'', c, ''#original'')),
     write_account = (\<lambda>c u r h. r)\<rparr>"

definition sample_settings :: auth_settings where
  "sample_settings = \<lparr>as_abs_secs = 86400, as_idle_secs = 7200, as_max_fails = 5, as_window_secs = 300\<rparr>"

definition sample_auth :: auth_state where
  "sample_auth =
     (new_with_setup (Argon2 ''#original'' FromConfig) ''admin'' ''r0'' sample_settings None True
        (Some ''t0ken'') False ''r0'')
     \<lparr>au_sessions := [''ds1'' \<mapsto> \<lparr>se_user = ''admin'', se_abs_expire = 90000000, se_last_seen = 1000,
         se_remember = False, se_idle_secs = Some 7200\<rparr>], au_stored := True\<rparr>"

definition sample_change :: change_env where
  "sample_change = \<lparr>ce_now = 0, ce_ms = 2000, ce_read = True, ce_hash = None, ce_revision = ''r1'',
     ce_config_written = True, ce_sessions_written = False\<rparr>"

definition sample_update :: update_account where
  "sample_update = \<lparr>ua_user = ''owner'', ua_current = ''original'', ua_new = [], ua_confirm = [],
     ua_revision = ''r0''\<rparr>"

lemmas sample_auth_defs = sample_crypto_def sample_toml_def sample_settings_def sample_auth_def
  new_with_setup_def sample_change_def sample_update_def

lemma sample_toml_edits: "toml_edits sample_toml"
  by (simp add: toml_edits_def cfg_revision_def sample_toml_def)

theorem revoked_session_stays_revoked_witness:
  "\<exists>st0. destroy_session sample_crypto True ''s1'' sample_auth = (True, st0)
     \<and> fst (validate_session sample_crypto 2000 True ''s1'' sample_auth) = Some ''admin''
     \<and> fst (validate_session sample_crypto 2000 True ''s1'' st0) = None"
proof (intro exI conjI)
  let ?st0 = "snd (destroy_session sample_crypto True ''s1'' sample_auth)"
  show d: "destroy_session sample_crypto True ''s1'' sample_auth = (True, ?st0)"
    by (simp add: sample_auth_defs destroy_session_def persist_sessions_def drop_session_def)
  show "fst (validate_session sample_crypto 2000 True ''s1'' sample_auth) = Some ''admin''"
    by (simp add: sample_auth_defs validate_session_def session_active_def session_idle_def
        persist_sessions_def put_session_def wrap_u64_def Let_def)
  show "fst (validate_session sample_crypto 2000 True ''s1'' ?st0) = None"
    by (rule revoked_session_stays_revoked [OF sample_toml_edits _ d])
      (simp_all add: sample_auth_def new_with_setup_def)
qed

theorem account_change_ends_every_session_witness:
  "\<exists>st0 st'. change_account sample_crypto sample_toml sample_change sample_update ''a'' None sample_auth
       = (Inr (), st0)
     \<and> restart sample_crypto sample_toml 3000 True False None None sample_settings None True None st0 = Some st'
     \<and> fst (validate_session sample_crypto 3000 True ''s1'' st') = None"
proof (intro exI conjI)
  let ?st0 = "snd (change_account sample_crypto sample_toml sample_change sample_update ''a'' None sample_auth)"
  let ?st1 = "the (restart sample_crypto sample_toml 3000 True False None None sample_settings None True None ?st0)"
  note run = sample_auth_defs change_account_def change_checks_def valid_username_def
    is_ascii_alphanumeric_def is_ascii_alphabetic_def is_ascii_digit_def is_ascii_lowercase_def
    is_ascii_uppercase_def over_limit_def prune_fails_def verify_credentials_def config_agrees_def
    commit_account_def persist_sessions_def
  show d: "change_account sample_crypto sample_toml sample_change sample_update ''a'' None sample_auth = (Inr (), ?st0)"
    by (simp add: run)
  show r: "restart sample_crypto sample_toml 3000 True False None None sample_settings None True None ?st0 = Some ?st1"
    by (simp add: run restart_def open_session_store_def resolve_credential_def)
  show "fst (validate_session sample_crypto 3000 True ''s1'' ?st1) = None"
    by (rule account_change_ends_every_session [OF sample_toml_edits _ d])
      (use restarts [OF r] in \<open>auto simp: fresh_revision_def sample_auth_def new_with_setup_def\<close>)
qed

section \<open>Guessing\<close>


text \<open>
  A locked key is refused whatever password comes with it, and the time it is told to
  wait is at least a second and at most the window.
\<close>

theorem locked_key_refused:
  assumes "over_limit (ip, user) (prune_fails now st)"
  shows "\<exists>s. attempt_login_remember x now ms sid w user pass ip rem st
      = (Inl (LoginLimited s), prune_fails now st)
    \<and> 1 \<le> s \<and> s \<le> max (as_window_secs (login_settings st)) 1"
proof -
  let ?s = "retry_after now (ip, user) (prune_fails now st)"
  have w: "window_nanos (prune_fails now st) = max (as_window_secs (login_settings st)) 1 * 1000000000"
    using same_loginD(1,2) [OF same_login_prune [where st = st and now = now]] by (simp add: window_nanos_def)
  have "(window_nanos (prune_fails now st) - d) div 1000000000 \<le> max (as_window_secs (login_settings st)) 1" for d
  proof -
    have "(window_nanos (prune_fails now st) - d) div 1000000000 \<le> window_nanos (prune_fails now st) div 1000000000"
      by (rule div_le_mono) simp
    then show ?thesis by (simp add: w)
  qed
  then have "?s \<le> max (as_window_secs (login_settings st)) 1"
    unfolding retry_after_def Let_def by simp
  moreover have "1 \<le> ?s" unfolding retry_after_def Let_def by simp
  ultimately show ?thesis using assms by (simp add: attempt_login_remember_def Let_def)
qed

lemma update_new_length: "k \<notin> fst ` set xs \<Longrightarrow> length (AList.update k v xs) = Suc (length xs)"
  by (induction xs) auto

text \<open>
  C39. The limit can be lifted from outside: when the table holds as many keys as it may,
  one more failed login under a new key empties it, the counts of every other key included.
  The user name of a failed login need not exist, so one address can fill the table.
\<close>

theorem flood_clears_lockout:
  assumes "length (au_fails (prune_fails now st)) = MAX_TRACKED_LOGIN_KEYS"
    "(ip, user) \<notin> fst ` set (au_fails (prune_fails now st))" "user \<noteq> au_user st"
    "1 \<le> as_max_fails (login_settings st)"
  shows "\<not> over_limit k (snd (attempt_login_remember x now ms sid w user pass ip rem st))"
proof -
  let ?st1 = "prune_fails now st"
  have no: "map_of (au_fails ?st1) (ip, user) = None"
    using assms(2) by (simp add: map_of_eq_None_iff)
  have "\<not> over_limit (ip, user) ?st1" "\<not> credentials_ok x user pass ?st1"
    using no assms(3) by (simp_all add: over_limit_def credentials_ok_def prune_fails_def)
  then have "snd (attempt_login_remember x now ms sid w user pass ip rem st) = note_failure now (ip, user) ?st1"
    by (simp add: attempt_login_remember_def Let_def)
  moreover have "au_fails (note_failure now (ip, user) ?st1) = []"
    using update_new_length [OF assms(2)] assms(1) by (simp add: note_failure_def Let_def)
  ultimately show ?thesis by (simp add: over_limit_def)
qed

section \<open>Admission\<close>

lemma ct_eq_iff: "ct_eq a b \<longleftrightarrow> a = b"
  using constant_time_eq_iff [of a b] by (auto simp: ct_eq_def constant_time_eq_def)

lemma header_str_trimmed: "header_str n hs = Some v \<Longrightarrow> trim v = v \<and> v \<noteq> []"
  by (auto simp: header_str_def trim_idem split: option.splits if_splits)

lemma token_admits_iff:
  "admin_token_admits remote (header_str n hs) st \<longleftrightarrow>
     (\<exists>ip tk. remote = Some ip \<and> is_loopback ip \<and> au_admin st = Some tk \<and> header_str n hs = Some tk)"
  using header_str_trimmed [of n hs]
  by (auto simp: admin_token_admits_def ct_eq_iff split: option.splits)

text \<open>What a session id has to be for a request to pass: live, and renewed where it is due.\<close>

definition session_passes :: "crypto \<Rightarrow> nat \<Rightarrow> bool \<Rightarrow> string \<Rightarrow> auth_state \<Rightarrow> bool" where
  "session_passes x now written sid st \<longleftrightarrow>
     (\<exists>s. au_sessions st (sid_digest x sid) = Some s \<and> session_active st s now
        \<and> (se_remember s \<or> now div 1000 = se_last_seen s div 1000 \<or> written \<or> \<not> au_stored st))"

lemma validate_passes_iff:
  "(\<exists>u. fst (validate_session x now w sid st) = Some u) \<longleftrightarrow> session_passes x now w sid st"
  by (auto simp: validate_session_def session_passes_def Let_def persist_sessions_def put_session_def
      split: option.splits)

text \<open>
  C31. A protected request is let in exactly when it comes from this host with the very
  admin token, or when its cookie names a live session (whose renewal could be stored) and,
  for a request that changes state or opens a web socket, origin and host agree.
\<close>

theorem request_admitted_iff:
  "fst (admit_request x now w m hs remote st) = AuthAdmit \<longleftrightarrow>
     (\<exists>ip tk. remote = Some ip \<and> is_loopback ip \<and> au_admin st = Some tk
        \<and> header_str ADMIN_TOKEN_HEADER hs = Some tk)
     \<or> (if is_state_changing m \<or> is_ws_upgrade hs then origin_allows_headers hs else True)
       \<and> (\<exists>sid. extract_sid hs = Some sid \<and> session_passes x now w sid st)"
proof -
  have v: "fst (case validate_session x now w sid st of
        (Some _, st1) \<Rightarrow> (AuthAdmit, st1) | (None, st1) \<Rightarrow> (AuthUnauthorized, st1)) = AuthAdmit
      \<longleftrightarrow> session_passes x now w sid st" for sid
    unfolding validate_passes_iff [symmetric] by (auto split: prod.splits option.splits)
  show ?thesis
    unfolding admit_request_def token_admits_iff
    by (cases "extract_sid hs") (auto simp: v)
qed

section \<open>Witnesses\<close>

definition bad_try :: login_try where
  "bad_try = \<lparr>lt_user = ''admin'', lt_pass = ''guess'', lt_ip = ''a'', lt_remember = False, lt_sid = ''s2'',
     lt_ms = 0, lt_written = True\<rparr>"

text \<open>One failure allowed: the second guess is refused, after a sweep too.\<close>

definition strict_auth :: auth_state where
  "strict_auth = sample_auth\<lparr>au_sessions := (\<lambda>_. None), au_stored := False,
     au_live := Some (sample_settings\<lparr>as_max_fails := 1\<rparr>)\<rparr>"

definition sample_guesses :: "(nat \<times> auth_op) list" where
  "sample_guesses = [(0, Guess bad_try), (2, Swept 0 True), (3, Guess bad_try)]"

definition with_fails :: "(login_key \<times> nat list) list \<Rightarrow> auth_state" where
  "with_fails fs = strict_auth\<lparr>au_fails := fs\<rparr>"

lemma with_fails_fields:
  "au_fails (with_fails fs) = fs" "au_user (with_fails fs) = ''admin''"
  "as_max_fails (login_settings (with_fails fs)) = 1"
  "window_nanos (with_fails fs) = 300000000000"
  "au_credential (with_fails fs) = Argon2 ''#original'' FromConfig"
  "(with_fails fs)\<lparr>au_fails := gs\<rparr> = with_fails gs"
  by (simp_all add: with_fails_def strict_auth_def login_settings_def window_nanos_def sample_auth_defs)

lemma with_fails_start: "strict_auth = with_fails []"
  by (simp add: with_fails_def strict_auth_def sample_auth_def new_with_setup_def)

lemma with_fails_sweep: "sweep now ms w (with_fails fs) = prune_fails now (with_fails fs)"
proof -
  have "(with_fails fs)\<lparr>au_sessions := \<lambda>_. None\<rparr> = with_fails fs"
    by (simp add: with_fails_def strict_auth_def)
  moreover have "\<not> au_stored (with_fails fs)" "au_sessions (with_fails fs) = (\<lambda>_. None)"
    by (simp_all add: with_fails_def strict_auth_def)
  ultimately show ?thesis
    by (simp only: sweep_def Let_def persist_sessions_def option.case if_True not_False_eq_True snd_conv)
qed


text \<open>A table that is full, with the administrator's key locked.\<close>

definition flooded :: auth_state where
  "flooded = sample_auth\<lparr>au_fails := ((''a'', ''admin''), [0, 1, 2, 3, 4]) #
     map (\<lambda>n. ((''a'', replicate n CHR ''x''), [5])) [0..<9999]\<rparr>"

lemma flooded_fields:
  "au_fails flooded = ((''a'', ''admin''), [0, 1, 2, 3, 4]) #
     map (\<lambda>n. ((''a'', replicate n CHR ''x''), [5])) [0..<9999]"
  "login_settings flooded = sample_settings" "au_user flooded = ''admin''"
  by (simp_all only: flooded_def) (simp_all add: sample_auth_def new_with_setup_def login_settings_def)

lemma pruned_flood: "au_fails (prune_fails 6 flooded) = au_fails flooded"
  by (simp add: prune_fails_def flooded_fields window_nanos_def sample_settings_def
      filter_id_conv comp_def del: upt_rec_numeral upt_Suc)

lemma flood_locked: "over_limit (''a'', ''admin'') (prune_fails 6 flooded)"
proof -
  have "map_of (au_fails (prune_fails 6 flooded)) (''a'', ''admin'') = Some [0, 1, 2, 3, 4]"
    by (simp add: pruned_flood flooded_fields)
  moreover have "login_settings (prune_fails 6 flooded) = sample_settings"
    by (simp add: same_loginD(1) [OF same_login_prune] flooded_fields)
  ultimately show ?thesis by (simp add: over_limit_def attempts_of_def sample_settings_def)
qed

theorem flood_clears_lockout_witness:
  "over_limit (''a'', ''admin'') (prune_fails 6 flooded)
   \<and> \<not> over_limit (''a'', ''admin'') (snd (attempt_login_remember sample_crypto 6 0 ''s2'' True
        ''nobody'' ''guess'' ''a'' False flooded))"
proof (intro conjI)
  show "over_limit (''a'', ''admin'') (prune_fails 6 flooded)" by (rule flood_locked)
  show "\<not> over_limit (''a'', ''admin'') (snd (attempt_login_remember sample_crypto 6 0 ''s2'' True
        ''nobody'' ''guess'' ''a'' False flooded))"
  proof (rule flood_clears_lockout)
    show "length (au_fails (prune_fails 6 flooded)) = MAX_TRACKED_LOGIN_KEYS"
      by (simp add: pruned_flood flooded_fields MAX_TRACKED_LOGIN_KEYS_def del: upt_rec_numeral upt_Suc)
    have "''nobody'' \<noteq> replicate n CHR ''x''" for n
      by (cases n) simp_all
    then show "(''a'', ''nobody'') \<notin> fst ` set (au_fails (prune_fails 6 flooded))"
      by (auto simp: pruned_flood flooded_fields)
  qed (simp_all add: flooded_fields sample_settings_def)
qed

theorem locked_key_refused_witness:
  "\<exists>s. attempt_login_remember sample_crypto 6 0 ''s2'' True ''admin'' ''original'' ''a'' False flooded
      = (Inl (LoginLimited s), prune_fails 6 flooded)
    \<and> 1 \<le> s \<and> s \<le> max (as_window_secs (login_settings flooded)) 1"
  by (rule locked_key_refused [OF flood_locked])

section \<open>Where a promise does not hold\<close>

text \<open>
  The first password is written into the wrong table when the header after \<^verbatim>\<open>[auth]\<close> has
  a comment behind it: the line ends up last in the table of that header. The process goes
  on with the new password; the next one finds none.
\<close>

definition NL :: string where "NL = [CHR 0x0A]"

lemma first_password_in_other_table:
  "replace_password_hash (''[auth]'' @ NL @ ''[log] # verbose'' @ NL @ ''level = 1'' @ NL) ''H''
   = ''[auth]'' @ NL @ ''[log] # verbose'' @ NL @ ''level = 1'' @ NL @ hash_line ''H'' @ NL"
  by code_simp

text \<open>And a header \<^verbatim>\<open>[auth]\<close> with a comment is not found: the text gets a second one.\<close>

lemma first_password_second_table:
  "replace_password_hash (''[auth] # login'' @ NL) ''H''
   = ''[auth] # login'' @ NL @ NL @ ''[auth]'' @ NL @ hash_line ''H'' @ NL"
  by code_simp

text \<open>
  A development password with white space around it loses every session at a restart: the
  credential is made from the trimmed text, the check of the session file takes the text as
  it is.
\<close>

lemma padded_password_loses_sessions:
  assumes "\<not> verify_credentials x (Argon2 e FromDevEnv) p" "sx_schema f = 1"
    "open_session_store x now w (Some p) (Some f) st = Some st'" "au_credential st = Argon2 e FromDevEnv"
  shows "au_sessions st' = au_sessions st"
  using assms
  by (auto simp: open_session_store_def same_credential_def persist_sessions_def split: if_splits)

end
