(* ===== verification/McpCredentials.thy ===== *)
theory McpCredentials
  imports Json ActivationGate
begin

text \<open>
  Credentials of the tool interface (\<^verbatim>\<open>server/src/mcp/credentials.rs\<close>, and the errors of
  \<^verbatim>\<open>mcp/types.rs\<close>): grants, tokens, and the store with the file behind it. The digest of
  a secret, its encryption, fresh ids, the clock and the outcome of a write are arguments.
\<close>

section \<open>Errors\<close>

datatype mcp_kind = KUnauthorized | KForbidden | KInvalidParams | KNotFound | KConflict | KUnavailable
  | KInternal

record mcp_error =
  me_kind :: mcp_kind
  me_code :: string
  me_message :: string
  me_retryable :: bool

definition mcp_err :: "mcp_kind \<Rightarrow> string \<Rightarrow> string \<Rightarrow> mcp_error" where
  "mcp_err k code msg = \<lparr>me_kind = k, me_code = code, me_message = msg, me_retryable = False\<rparr>"

definition err_unauthorized :: mcp_error where
  "err_unauthorized =
     mcp_err KUnauthorized ''credential_invalid'' ''MCP credential is invalid, expired or revoked''"

definition err_forbidden :: "string \<Rightarrow> mcp_error" where
  "err_forbidden msg = mcp_err KForbidden ''scope_denied'' msg"

definition err_invalid :: "string \<Rightarrow> mcp_error" where
  "err_invalid msg = mcp_err KInvalidParams ''invalid_arguments'' msg"

definition err_internal :: "string \<Rightarrow> mcp_error" where
  "err_internal msg = mcp_err KInternal ''internal_error'' msg"

definition err_unknown_operation :: mcp_error where
  "err_unknown_operation = mcp_err KConflict ''operation_status_unknown''
     ''The operation may already have executed; do not replay it. Inspect its existing result or ask the user to reconcile it''"

section \<open>Grants\<close>

record allowed_objects =
  al_devices :: "string set"
  al_packages :: "string set"
  al_plugins :: "string set"
  al_runners :: "string set"
  al_runs :: "string set"
  al_tasks :: "string set"
  al_media :: "string set"

definition allowed_sets :: "allowed_objects \<Rightarrow> string set list" where
  "allowed_sets a =
     [al_devices a, al_packages a, al_plugins a, al_runners a, al_runs a, al_tasks a, al_media a]"

definition is_unrestricted :: "allowed_objects \<Rightarrow> bool" where
  "is_unrestricted a \<longleftrightarrow> list_all (\<lambda>ids. card ids = 1 \<and> ''*'' \<in> ids) (allowed_sets a)"

definition allowed_of :: "string \<Rightarrow> allowed_objects \<Rightarrow> string set option" where
  "allowed_of kind a =
     (if kind = ''device'' then Some (al_devices a)
      else if kind = ''package'' then Some (al_packages a)
      else if kind = ''plugin'' then Some (al_plugins a)
      else if kind = ''runner'' then Some (al_runners a)
      else if kind = ''run'' then Some (al_runs a)
      else if kind = ''task'' then Some (al_tasks a)
      else if kind = ''media'' then Some (al_media a)
      else None)"

definition authorize :: "string \<Rightarrow> string \<Rightarrow> allowed_objects \<Rightarrow> (mcp_error, unit) result" where
  "authorize kind i a =
     (case allowed_of kind a of
        None \<Rightarrow> Inl (err_forbidden ''Unknown object kind'')
      | Some ids \<Rightarrow>
          if i \<noteq> [] \<and> (i \<in> ids \<or> ''*'' \<in> ids) then Inr ()
          else Inl (err_forbidden (kind @ '' is outside the credential'' @ [CHR 0x27]
                 @ ''s allowed objects'')))"

record principal =
  pr_id :: string
  pr_label :: string
  pr_scopes :: "string set"
  pr_allowed :: allowed_objects
  pr_expires :: int

definition principal_has_scope :: "string \<Rightarrow> principal \<Rightarrow> bool" where
  "principal_has_scope s p \<longleftrightarrow> ''*'' \<in> pr_scopes p \<or> s \<in> pr_scopes p"

definition has_scopes :: "string set \<Rightarrow> principal \<Rightarrow> bool" where
  "has_scopes req p \<longleftrightarrow> ''*'' \<in> pr_scopes p \<or> req \<subseteq> pr_scopes p"

record token_metadata =
  tm_id :: string
  tm_label :: string
  tm_scopes :: "string set"
  tm_allowed :: allowed_objects
  tm_created :: int
  tm_expires :: int
  tm_revoked :: bool
  tm_full :: "bool option"

definition is_full_access :: "token_metadata \<Rightarrow> bool" where
  "is_full_access m =
     (case tm_full m of
        Some b \<Rightarrow> b | None \<Rightarrow> is_unrestricted (tm_allowed m) \<and> ''control'' \<in> tm_scopes m)"

definition token_live :: "int \<Rightarrow> token_metadata \<Rightarrow> bool" where
  "token_live now m \<longleftrightarrow> \<not> (tm_revoked m \<or> tm_expires m \<noteq> 0 \<and> tm_expires m \<le> now)"

definition principal_of :: "int \<Rightarrow> token_metadata \<Rightarrow> (mcp_error, principal) result" where
  "principal_of now m =
     (if \<not> token_live now m then Inl err_unauthorized
      else Inr \<lparr>pr_id = tm_id m, pr_label = tm_label m,
             pr_scopes = (if is_full_access m then insert ''*'' (tm_scopes m) else tm_scopes m),
             pr_allowed = tm_allowed m, pr_expires = tm_expires m\<rparr>)"

section \<open>The store\<close>

record create_request =
  cq_label :: string
  cq_scopes :: "string set"
  cq_allowed :: allowed_objects
  cq_lifetime :: nat

record stored_token =
  st_meta :: token_metadata
  st_digest :: string
  st_encrypted :: "string option"

text \<open>A \<^verbatim>\<open>BTreeMap\<close> by token id; the file has what was last written.\<close>

type_synonym token_table = "(string \<times> stored_token) list"

record cred_state =
  cr_tokens :: token_table
  cr_disk :: "token_table option"

datatype cred_file = NoFile | Unreadable | TooLarge | NotJson | TokenFile nat token_table

definition valid_digest :: "string \<Rightarrow> bool" where
  "valid_digest d \<longleftrightarrow> length d = 64 \<and> list_all is_ascii_hexdigit d"

definition open_credentials :: "bool \<Rightarrow> cred_file \<Rightarrow> (mcp_error, cred_state) result" where
  "open_credentials dir_made f =
     (if \<not> dir_made then Inl (err_internal ''Cannot create MCP credential directory'')
      else (case f of
          NoFile \<Rightarrow> Inr \<lparr>cr_tokens = [], cr_disk = None\<rparr>
        | Unreadable \<Rightarrow> Inl (err_internal ''Cannot read MCP credentials'')
        | TooLarge \<Rightarrow> Inl (err_internal ''MCP credential file exceeds its size limit'')
        | NotJson \<Rightarrow> Inl (err_internal ''MCP credential file is invalid'')
        | TokenFile v ts \<Rightarrow>
            if v \<noteq> 1 then Inl (err_internal ''Unsupported MCP credential format'')
            else if \<not> list_all (\<lambda>(i, t). i = tm_id (st_meta t) \<and> valid_digest (st_digest t)) ts
            then Inl (err_internal ''MCP credential identity or digest is invalid'')
            else Inr \<lparr>cr_tokens = ts, cr_disk = Some ts\<rparr>))"

text \<open>What becomes of a write: it may not fit, or fail.\<close>

datatype write_verdict = Written | NotSerialized | OverSize | WriteFailed

definition persist_tokens :: "write_verdict \<Rightarrow> token_table \<Rightarrow> cred_state \<Rightarrow> (mcp_error, unit) result \<times> cred_state" where
  "persist_tokens w ts st =
     (case w of
        NotSerialized \<Rightarrow> (Inl (err_internal ''Cannot serialize MCP credentials''), st)
      | OverSize \<Rightarrow> (Inl (mcp_err KConflict ''credential_limit''
            ''MCP credential store exceeds its size limit''), st)
      | WriteFailed \<Rightarrow> (Inl (err_internal ''Cannot persist MCP credentials''), st)
      | Written \<Rightarrow> (Inr (), st\<lparr>cr_disk := Some ts\<rparr>))"

definition valid_label :: "string \<Rightarrow> bool" where
  "valid_label l \<longleftrightarrow> trim l \<noteq> [] \<and> chars_count l \<le> 80 \<and> \<not> any_control l"

definition token_scope_char :: "char \<Rightarrow> bool" where
  "token_scope_char c \<longleftrightarrow> is_ascii_alphanumeric c \<or> c \<in> set ''._-:''"

definition valid_token_scope :: "string \<Rightarrow> bool" where
  "valid_token_scope s \<longleftrightarrow> s \<noteq> [] \<and> length s \<le> 128 \<and> list_all token_scope_char s"

definition valid_scopes :: "string set \<Rightarrow> bool" where
  "valid_scopes ss \<longleftrightarrow> ss \<noteq> {} \<and> card ss \<le> 128 \<and> (\<forall>s \<in> ss. s = ''*'' \<or> valid_token_scope s)"

definition valid_allowlist :: "string set \<Rightarrow> bool" where
  "valid_allowlist ids \<longleftrightarrow>
     card ids \<le> 256 \<and> (\<forall>s \<in> ids. s \<noteq> [] \<and> length s \<le> 1024 \<and> \<not> any_control s)"

definition create_error :: "create_request \<Rightarrow> mcp_error option" where
  "create_error q =
     (if \<not> valid_label (cq_label q)
        then Some (err_invalid ''Credential label must contain 1 to 80 printable characters'')
      else if \<not> valid_scopes (cq_scopes q) then Some (err_invalid ''Invalid credential scopes'')
      else if \<not> list_all valid_allowlist (allowed_sets (cq_allowed q))
        then Some (err_invalid ''Invalid credential object allowlist'')
      else if 366 * 86400 < cq_lifetime q
        then Some (err_invalid ''Credential lifetime must be zero (no expiry) or at most 366 days'')
      else None)"

definition new_metadata :: "create_request \<Rightarrow> string \<Rightarrow> int \<Rightarrow> token_metadata" where
  "new_metadata q i now =
     \<lparr>tm_id = i, tm_label = trim (cq_label q), tm_scopes = cq_scopes q, tm_allowed = cq_allowed q,
      tm_created = now,
      tm_expires = (if cq_lifetime q = 0 then 0 else min (now + int (cq_lifetime q)) i64_max),
      tm_revoked = False, tm_full = Some (''*'' \<in> cq_scopes q)\<rparr>"

definition create_token ::
  "(string \<Rightarrow> string) \<Rightarrow> string \<Rightarrow> string \<Rightarrow> string option \<Rightarrow> int \<Rightarrow> write_verdict \<Rightarrow> create_request \<Rightarrow> cred_state
    \<Rightarrow> (mcp_error, string \<times> token_metadata) result \<times> cred_state" where
  "create_token dig secret i encrypted now w q st =
     (case create_error q of
        Some e \<Rightarrow> (Inl e, st)
      | None \<Rightarrow>
          if encrypted = None then (Inl (err_internal ''Cannot protect MCP credential''), st)
          else if 1024 \<le> length (cr_tokens st)
          then (Inl (mcp_err KConflict ''credential_limit'' ''MCP credential limit reached''), st)
          else
            let m = new_metadata q i now;
                next = ins_by str_cmp i
                  \<lparr>st_meta = m, st_digest = dig secret, st_encrypted = encrypted\<rparr> (cr_tokens st)
            in case persist_tokens w next st of
                 (Inl e, st1) \<Rightarrow> (Inl e, st1)
               | (Inr _, st1) \<Rightarrow> (Inr (secret, m), st1\<lparr>cr_tokens := next\<rparr>))"

definition valid_secret :: "string \<Rightarrow> bool" where
  "valid_secret s \<longleftrightarrow> length s = 64 \<and> list_all is_ascii_hexdigit s"

fun find_token :: "string \<Rightarrow> token_table \<Rightarrow> stored_token option" where
  "find_token d [] = None"
| "find_token d ((i, t) # ts) = (if constant_time_eq (st_digest t) d then Some t else find_token d ts)"

definition authenticate_at :: "(string \<Rightarrow> string) \<Rightarrow> string \<Rightarrow> int \<Rightarrow> cred_state \<Rightarrow> (mcp_error, principal) result" where
  "authenticate_at dig secret now st =
     (if \<not> valid_secret secret then Inl err_unauthorized
      else (case find_token (dig secret) (cr_tokens st) of
              None \<Rightarrow> Inl err_unauthorized
            | Some t \<Rightarrow> principal_of now (st_meta t)))"

definition by_token_id :: "string \<Rightarrow> cred_state \<Rightarrow> token_metadata option" where
  "by_token_id i st = map_option st_meta (map_of (cr_tokens st) i)"

definition can_reveal :: "string \<Rightarrow> cred_state \<Rightarrow> bool" where
  "can_reveal i st =
     (case map_of (cr_tokens st) i of
        None \<Rightarrow> False | Some t \<Rightarrow> \<not> tm_revoked (st_meta t) \<and> st_encrypted t \<noteq> None)"

text \<open>\<open>b64\<close> decodes, \<open>unprotect\<close> decrypts, \<open>utf8_ok\<close> tells whether bytes are a text.\<close>

definition reveal ::
  "(string \<Rightarrow> string) \<Rightarrow> (string \<Rightarrow> string option) \<Rightarrow> (string \<Rightarrow> string option) \<Rightarrow> (string \<Rightarrow> bool) \<Rightarrow> string
    \<Rightarrow> cred_state \<Rightarrow> (mcp_error, string) result" where
  "reveal dig b64 unprotect utf8_ok i st =
     (case map_of (cr_tokens st) i of
        None \<Rightarrow> Inl (mcp_err KNotFound ''token_not_found''
          (utf8 [228, 187, 164, 231, 137, 140, 228, 184, 141, 229, 173, 152, 229, 156, 168]))
      | Some t \<Rightarrow>
          if tm_revoked (st_meta t) then Inl err_unauthorized
          else (case st_encrypted t of
              None \<Rightarrow> Inl (mcp_err KConflict ''token_not_recoverable''
                (utf8 [230, 151, 167, 228, 187, 164, 231, 137, 140, 228, 187, 133, 228, 191, 157, 229, 173,
                  152, 228, 186, 134, 229, 147, 136, 229, 184, 140, 239, 188, 140, 230, 151, 160, 230, 179,
                  149, 230, 159, 165, 231, 156, 139, 229, 142, 159, 230, 150, 135, 239, 188, 155, 232, 175,
                  183, 229, 136, 155, 229, 187, 186, 230, 150, 176, 228, 187, 164, 231, 137, 140]))
            | Some enc \<Rightarrow>
                (case b64 enc of
                   None \<Rightarrow> Inl (err_internal ''Cannot read protected MCP credential'')
                 | Some bytes \<Rightarrow>
                     (case unprotect bytes of
                        None \<Rightarrow> Inl (err_internal
                          ''Cannot decrypt MCP credential; restore its original key'')
                      | Some plain \<Rightarrow>
                          if \<not> utf8_ok plain then Inl (err_internal ''Invalid protected MCP credential'')
                          else if \<not> constant_time_eq (dig plain) (st_digest t)
                          then Inl (err_internal ''Protected MCP credential does not match its digest'')
                          else Inr plain))))"

definition principal_for_id :: "string \<Rightarrow> int \<Rightarrow> cred_state \<Rightarrow> (mcp_error, principal) result" where
  "principal_for_id i now st =
     (case by_token_id i st of None \<Rightarrow> Inl err_unauthorized | Some m \<Rightarrow> principal_of now m)"

definition token_is_active :: "string \<Rightarrow> int \<Rightarrow> cred_state \<Rightarrow> bool" where
  "token_is_active i now st = is_ok (principal_for_id i now st)"

definition revoke :: "string \<Rightarrow> write_verdict \<Rightarrow> cred_state \<Rightarrow> (mcp_error, bool) result \<times> cred_state" where
  "revoke i w st =
     (case map_of (cr_tokens st) i of
        None \<Rightarrow> (Inr False, st)
      | Some t \<Rightarrow>
          if tm_revoked (st_meta t) then (Inr True, st)
          else
            let next = ins_by str_cmp i (t\<lparr>st_meta := (st_meta t)\<lparr>tm_revoked := True\<rparr>\<rparr>) (cr_tokens st)
            in case persist_tokens w next st of
                 (Inl e, st1) \<Rightarrow> (Inl e, st1)
               | (Inr _, st1) \<Rightarrow> (Inr True, st1\<lparr>cr_tokens := next\<rparr>))"

definition remove_revoked :: "string \<Rightarrow> write_verdict \<Rightarrow> cred_state \<Rightarrow> (mcp_error, unit) result \<times> cred_state" where
  "remove_revoked i w st =
     (case map_of (cr_tokens st) i of
        None \<Rightarrow> (Inr (), st)
      | Some t \<Rightarrow>
          if \<not> tm_revoked (st_meta t)
          then (Inl (err_internal ''Revoke MCP credential before deleting it''), st)
          else
            let next = del_by str_cmp i (cr_tokens st)
            in case persist_tokens w next st of
                 (Inl e, st1) \<Rightarrow> (Inl e, st1)
               | (Inr _, st1) \<Rightarrow> (Inr (), st1\<lparr>cr_tokens := next\<rparr>))"

end
