(* ===== verification/McpReceipts.thy ===== *)
theory McpReceipts
  imports McpCredentials
begin

text \<open>
  Receipts of tool calls and ownership of what they made (\<^verbatim>\<open>server/src/mcp/receipts.rs\<close>), with
  the tool results of \<^verbatim>\<open>mcp/types.rs\<close> they keep. Stored texts are the JSON values they are
  the texts of; which database statement fails is an argument.
\<close>

section \<open>Tool results\<close>

record tool_result =
  tr_content :: "json list"
  tr_structured :: "json option"
  tr_error :: bool

text \<open>\<open>print\<close> is \<^verbatim>\<open>Value::to_string\<close>.\<close>

definition text_content :: "(json \<Rightarrow> string) \<Rightarrow> json \<Rightarrow> json" where
  "text_content print v =
     json_object [(''type'', JString ''text''), (''text'', JString (print v))]"

definition result_of_value :: "(json \<Rightarrow> string) \<Rightarrow> json \<Rightarrow> tool_result" where
  "result_of_value print v =
     (let v' = (case as_object v of Some _ \<Rightarrow> v | None \<Rightarrow> json_object [(''value'', v)])
      in \<lparr>tr_content = [text_content print v'], tr_structured = Some v', tr_error = False\<rparr>)"

definition result_of_error :: "(json \<Rightarrow> string) \<Rightarrow> mcp_error \<Rightarrow> tool_result" where
  "result_of_error print e =
     (let v = json_object [(''code'', JString (me_code e)), (''message'', JString (me_message e)),
                (''retryable'', JBool (me_retryable e))]
      in \<lparr>tr_content = [text_content print v], tr_structured = Some v, tr_error = True\<rparr>)"

definition tool_result_json :: "tool_result \<Rightarrow> json" where
  "tool_result_json r =
     json_object ((''content'', JArray (tr_content r))
       # (case tr_structured r of Some v \<Rightarrow> [(''structuredContent'', v)] | None \<Rightarrow> [])
       @ [(''isError'', JBool (tr_error r))])"

definition tool_result_of_json :: "json \<Rightarrow> tool_result option" where
  "tool_result_of_json v =
     (case as_object v of
        None \<Rightarrow> None
      | Some _ \<Rightarrow>
          (case Option.bind (json_get ''content'' v) as_array of
             None \<Rightarrow> None
           | Some c \<Rightarrow>
               (case (case json_get ''isError'' v of None \<Rightarrow> Some False | Some b \<Rightarrow> as_bool b) of
                  None \<Rightarrow> None
                | Some e \<Rightarrow> Some \<lparr>tr_content = c,
                    tr_structured = (case json_get ''structuredContent'' v of
                        Some JNull \<Rightarrow> None | x \<Rightarrow> x),
                    tr_error = e\<rparr>)))"

section \<open>Receipts\<close>

record receipt_key =
  rk_token :: string
  rk_tool :: string
  rk_object :: string
  rk_operation :: string

record receipt_row =
  rr_fingerprint :: string
  rr_started :: int
  rr_result :: "json option"
  rr_finished :: "int option"

datatype object_kind = ObjRun | ObjTask

fun object_kind_str :: "object_kind \<Rightarrow> string" where
  "object_kind_str ObjRun = ''run''"
| "object_kind_str ObjTask = ''task''"

record object_scope =
  os_device :: "string option"
  os_package :: "string option"
  os_plugin :: "string option"
  os_runner :: "string option"

record ownership_row =
  ow_token :: string
  ow_scope :: json
  ow_created :: int

record receipt_store =
  rs_receipts :: "receipt_key \<rightharpoonup> receipt_row"
  rs_objects :: "(object_kind \<times> string) \<rightharpoonup> ownership_row"

datatype mcp_admission = AdmNew | AdmCompleted tool_result | AdmPending

datatype db_fault = BeginFails | ReadFails | InsertFails | CommitFails

text \<open>The file that is found: its format version, if it can be made out.\<close>

definition open_receipts ::
  "bool \<Rightarrow> bool \<Rightarrow> bool \<Rightarrow> int option \<Rightarrow> bool \<Rightarrow> receipt_store \<Rightarrow> (mcp_error, receipt_store) result" where
  "open_receipts dir_made opened configured version initialised found =
     (if \<not> dir_made then Inl (err_internal ''Cannot create MCP receipt directory'')
      else if \<not> opened then Inl (err_internal ''Cannot open MCP operation receipts'')
      else if \<not> configured then Inl (err_internal ''Cannot configure MCP operation receipts'')
      else (case version of
              None \<Rightarrow> Inl (err_internal ''Cannot read MCP receipt format'')
            | Some v \<Rightarrow>
                if \<not> (0 \<le> v \<and> v \<le> 1) then Inl (err_internal ''Unsupported MCP receipt format'')
                else if \<not> initialised
                then Inl (err_internal ''Cannot initialize MCP operation receipts'')
                else Inr found))"

definition reserve ::
  "db_fault option \<Rightarrow> int \<Rightarrow> receipt_key \<Rightarrow> string \<Rightarrow> receipt_store
    \<Rightarrow> (mcp_error, mcp_admission) result \<times> receipt_store" where
  "reserve fault now k fp st =
     (if fault = Some BeginFails then (Inl (err_internal ''Cannot reserve MCP operation''), st)
      else if fault = Some ReadFails then (Inl (err_internal ''Cannot read MCP operation receipt''), st)
      else (case rs_receipts st k of
          Some row \<Rightarrow>
            if rr_fingerprint row \<noteq> fp
            then (Inl (mcp_err KConflict ''operation_conflict''
                   ''The operation_id was already used with different arguments''), st)
            else (case rr_result row of
                    None \<Rightarrow> (Inr AdmPending, st)
                  | Some v \<Rightarrow>
                      (case tool_result_of_json v of
                         None \<Rightarrow> (Inl (err_internal ''MCP operation receipt is invalid''), st)
                       | Some r \<Rightarrow> (Inr (AdmCompleted r), st)))
        | None \<Rightarrow>
            if fault = Some InsertFails then (Inl (err_internal ''Cannot reserve MCP operation''), st)
            else if fault = Some CommitFails
            then (Inl (err_internal ''Cannot commit MCP operation reservation''), st)
            else (Inr AdmNew, st\<lparr>rs_receipts := (rs_receipts st)(k \<mapsto>
                   \<lparr>rr_fingerprint = fp, rr_started = now, rr_result = None, rr_finished = None\<rparr>)\<rparr>)))"

definition MAX_RESULT_BYTES :: nat where "MAX_RESULT_BYTES = 32 * 1024 * 1024"

definition complete ::
  "(json \<Rightarrow> string) \<Rightarrow> bool \<Rightarrow> int \<Rightarrow> receipt_key \<Rightarrow> string \<Rightarrow> tool_result \<Rightarrow> receipt_store
    \<Rightarrow> (mcp_error, unit) result \<times> receipt_store" where
  "complete print fails now k fp r st =
     (if MAX_RESULT_BYTES < length (print (tool_result_json r)) \<or> fails then (Inl err_unknown_operation, st)
      else (case rs_receipts st k of
              None \<Rightarrow> (Inl err_unknown_operation, st)
            | Some row \<Rightarrow>
                if rr_fingerprint row \<noteq> fp \<or> rr_result row \<noteq> None then (Inl err_unknown_operation, st)
                else (Inr (), st\<lparr>rs_receipts := (rs_receipts st)(k \<mapsto>
                       row\<lparr>rr_result := Some (tool_result_json r), rr_finished := Some now\<rparr>)\<rparr>)))"

section \<open>Ownership\<close>

definition scope_json :: "object_scope \<Rightarrow> json" where
  "scope_json s =
     json_object [(''device_id'', json_opt_str (os_device s)), (''package_id'', json_opt_str (os_package s)),
       (''plugin_id'', json_opt_str (os_plugin s)), (''runner_id'', json_opt_str (os_runner s))]"

text \<open>One optional text of a scope: absent and null read as none.\<close>

definition scope_field :: "string \<Rightarrow> json \<Rightarrow> string option option" where
  "scope_field f v =
     (case json_get f v of
        None \<Rightarrow> Some None
      | Some JNull \<Rightarrow> Some None
      | Some x \<Rightarrow> map_option Some (as_str x))"

definition scope_of_json :: "json \<Rightarrow> object_scope option" where
  "scope_of_json v =
     (case as_object v of
        None \<Rightarrow> None
      | Some m \<Rightarrow>
          if \<not> set (map fst m) \<subseteq> {''device_id'', ''package_id'', ''plugin_id'', ''runner_id''} then None
          else (case (scope_field ''device_id'' v, scope_field ''package_id'' v,
                      scope_field ''plugin_id'' v, scope_field ''runner_id'' v) of
                  (Some d, Some p, Some g, Some r) \<Rightarrow>
                    Some \<lparr>os_device = d, os_package = p, os_plugin = g, os_runner = r\<rparr>
                | _ \<Rightarrow> None))"

definition record_object ::
  "db_fault option \<Rightarrow> int \<Rightarrow> object_kind \<Rightarrow> string \<Rightarrow> string \<Rightarrow> object_scope \<Rightarrow> receipt_store
    \<Rightarrow> (mcp_error, unit) result \<times> receipt_store" where
  "record_object fault now kind i tok scope st =
     (if i = [] \<or> 1024 < length i then (Inl (err_invalid ''Invalid owned object ID''), st)
      else if fault = Some BeginFails then (Inl (err_internal ''Cannot record MCP object ownership''), st)
      else if fault = Some ReadFails then (Inl (err_internal ''Cannot read MCP object ownership''), st)
      else (case rs_objects st (kind, i) of
          Some row \<Rightarrow>
            if ow_token row \<noteq> tok \<or> ow_scope row \<noteq> scope_json scope
            then (Inl (mcp_err KConflict ''ownership_conflict''
                   ''Object ownership is already recorded with another identity or scope''), st)
            else (Inr (), st)
        | None \<Rightarrow>
            if fault = Some InsertFails
            then (Inl (err_internal ''Cannot record MCP object ownership''), st)
            else if fault = Some CommitFails
            then (Inl (err_internal ''Cannot commit MCP object ownership''), st)
            else (Inr (), st\<lparr>rs_objects := (rs_objects st)((kind, i) \<mapsto>
                   \<lparr>ow_token = tok, ow_scope = scope_json scope, ow_created = now\<rparr>)\<rparr>)))"

record owned_object =
  oo_token :: string
  oo_scope :: object_scope

definition object_of ::
  "bool \<Rightarrow> object_kind \<Rightarrow> string \<Rightarrow> receipt_store \<Rightarrow> (mcp_error, owned_object option) result" where
  "object_of fails kind i st =
     (if fails then Inl (err_internal ''Cannot read MCP object ownership'')
      else (case rs_objects st (kind, i) of
              None \<Rightarrow> Inr None
            | Some row \<Rightarrow>
                (case scope_of_json (ow_scope row) of
                   None \<Rightarrow> Inl (err_internal ''Invalid MCP owned object scope'')
                 | Some s \<Rightarrow> Inr (Some \<lparr>oo_token = ow_token row, oo_scope = s\<rparr>))))"

section \<open>Codecs\<close>

lemma result_reads_back:
  "tr_structured r \<noteq> Some JNull \<Longrightarrow> tool_result_of_json (tool_result_json r) = Some r"
proof -
  assume s: "tr_structured r \<noteq> Some JNull"
  obtain m where m: "tool_result_json r = JObject m"
    using json_object_sorted unfolding tool_result_json_def by metis
  have g: "json_get ''content'' (tool_result_json r) = Some (JArray (tr_content r))"
    "json_get ''isError'' (tool_result_json r) = Some (JBool (tr_error r))"
    "json_get ''structuredContent'' (tool_result_json r) = tr_structured r"
    by (auto simp: tool_result_json_def json_get_object split: option.splits)
  show ?thesis
    using s m g by (auto simp: tool_result_of_json_def split: option.splits json.splits)
qed

lemma scope_field_json: "json_get f v = Some (json_opt_str x) \<Longrightarrow> scope_field f v = Some x"
  by (cases x) (simp_all add: scope_field_def json_opt_str_def)

lemma scope_reads_back: "scope_of_json (scope_json s) = Some s"
proof -
  obtain m where m: "scope_json s = JObject m"
    using json_object_sorted unfolding scope_json_def by metis
  have get: "json_get f (scope_json s) = map_of (rev [(''device_id'', json_opt_str (os_device s)),
      (''package_id'', json_opt_str (os_package s)), (''plugin_id'', json_opt_str (os_plugin s)),
      (''runner_id'', json_opt_str (os_runner s))]) f" for f
    by (simp add: scope_json_def json_get_object)
  have fields: "scope_field ''device_id'' (scope_json s) = Some (os_device s)"
    "scope_field ''package_id'' (scope_json s) = Some (os_package s)"
    "scope_field ''plugin_id'' (scope_json s) = Some (os_plugin s)"
    "scope_field ''runner_id'' (scope_json s) = Some (os_runner s)"
    by (auto intro!: scope_field_json simp: get)
  have "f \<in> {''device_id'', ''package_id'', ''plugin_id'', ''runner_id''}" if f: "f \<in> set (map fst m)" for f
  proof -
    obtain v where "map_of m f = Some v"
      using f by (cases "map_of m f") (auto simp: map_of_eq_None_iff)
    then have "json_get f (scope_json s) = Some v" by (simp add: m)
    then show ?thesis unfolding get by (auto split: if_splits)
  qed
  then have "set (map fst m) \<subseteq> {''device_id'', ''package_id'', ''plugin_id'', ''runner_id''}" by blast
  then show ?thesis by (simp add: scope_of_json_def m fields [unfolded m])
qed

lemma owned_object_reads_back:
  assumes "record_object fault now kind i tok scope st = (Inr (), st')"
  shows "object_of False kind i st' = Inr (Some \<lparr>oo_token = tok, oo_scope = scope\<rparr>)"
  using assms
  by (auto simp: record_object_def object_of_def scope_reads_back split: if_splits option.splits)

section \<open>Receipts only move forward\<close>

text \<open>A row keeps its fingerprint, and its result once it has one.\<close>

definition receipts_grow :: "receipt_store \<Rightarrow> receipt_store \<Rightarrow> bool" where
  "receipts_grow a b \<longleftrightarrow>
     (\<forall>k row. rs_receipts a k = Some row \<longrightarrow>
        (\<exists>row'. rs_receipts b k = Some row' \<and> rr_fingerprint row' = rr_fingerprint row
           \<and> (rr_result row \<noteq> None \<longrightarrow> rr_result row' = rr_result row)))"

lemma receipts_grow_refl [simp]: "receipts_grow a a"
  by (simp add: receipts_grow_def)

lemma reserve_grows: "receipts_grow st (snd (reserve fault now k fp st))"
  by (auto simp: receipts_grow_def reserve_def split: option.splits)

lemma complete_grows: "receipts_grow st (snd (complete print fails now k fp r st))"
  by (auto simp: receipts_grow_def complete_def split: option.splits)

lemma reserve_new:
  assumes "reserve fault now k fp st = (Inr AdmNew, st')"
  shows "rs_receipts st k = None" "rs_receipts st' = (rs_receipts st)(k \<mapsto>
    \<lparr>rr_fingerprint = fp, rr_started = now, rr_result = None, rr_finished = None\<rparr>)"
  using assms by (auto simp: reserve_def split: if_splits option.splits)

lemma reserve_old:
  assumes "fst (reserve fault now k fp st) \<noteq> Inr AdmNew"
  shows "snd (reserve fault now k fp st) = st"
  using assms by (auto simp: reserve_def split: option.splits)

lemma reserve_completed:
  assumes "fst (reserve fault now k fp st) = Inr (AdmCompleted r)"
  shows "\<exists>row v. rs_receipts st k = Some row \<and> rr_fingerprint row = fp \<and> rr_result row = Some v
    \<and> tool_result_of_json v = Some r"
  using assms by (auto simp: reserve_def split: if_splits option.splits)

lemma complete_done:
  assumes "complete print fails now k fp r st = (Inr (), st')"
  shows "\<exists>row. rs_receipts st k = Some row \<and> rr_fingerprint row = fp \<and> rr_result row = None
    \<and> rs_receipts st' = (rs_receipts st)(k \<mapsto> row\<lparr>rr_result := Some (tool_result_json r), rr_finished := Some now\<rparr>)"
  using assms by (auto simp: complete_def split: if_splits option.splits)

lemma complete_failed:
  assumes "fst (complete print fails now k fp r st) \<noteq> Inr ()"
  shows "snd (complete print fails now k fp r st) = st"
  using assms by (auto simp: complete_def split: option.splits)

end
