(* ===== verification/McpCall.thy ===== *)
theory McpCall
  imports McpReceipts
begin

text \<open>
  Tools and their calls (\<^verbatim>\<open>server/src/mcp/mod.rs\<close>, \<^verbatim>\<open>types.rs\<close>, \<^verbatim>\<open>schema.rs\<close>): what a
  provider may offer, what a principal sees of it, and the admission of a call up to the
  reservation of its receipt. The schema crate, text and digest of a JSON value and the
  providers' own checks are arguments.
\<close>

section \<open>Descriptors\<close>

datatype tool_effect = EffRead | EffDraftWrite | EffResourceWrite | EffMediaWrite | EffInput
  | EffRunSubmit | EffTaskWrite | EffExternalSend

definition is_read_only :: "tool_effect \<Rightarrow> bool" where
  "is_read_only e \<longleftrightarrow> e = EffRead"

record context_fields =
  cf_device :: "string option"
  cf_package :: "string option"
  cf_plugin :: "string option"
  cf_runner :: "string option"
  cf_run :: "string option"
  cf_task :: "string option"
  cf_media :: "string option"
  cf_session :: "string option"

record tool_descriptor =
  td_name :: string
  td_description :: string
  td_input :: json
  td_output :: "json option"
  td_scopes :: "string set"
  td_effect :: tool_effect
  td_context :: context_fields

definition wire :: "tool_descriptor \<Rightarrow> json" where
  "wire d =
     json_object ([(''name'', JString (td_name d)), (''description'', JString (td_description d)),
        (''inputSchema'', td_input d),
        (''annotations'', json_object [(''readOnlyHint'', JBool (is_read_only (td_effect d)))])]
       @ (case td_output d of Some v \<Rightarrow> [(''outputSchema'', v)] | None \<Rightarrow> []))"

definition valid_tool_name :: "string \<Rightarrow> bool" where
  "valid_tool_name n \<longleftrightarrow> n \<noteq> [] \<and> length n \<le> 128
     \<and> list_all (\<lambda>c. is_ascii_alphanumeric c \<or> c \<in> set ''_-.'') n"

section \<open>Schemas\<close>

text \<open>
  References stay inside the schema. The depth is the nesting of the value; the fields of
  an object come before what is nested in them, as the code visits them.
\<close>

definition ref_error :: "string \<Rightarrow> json \<Rightarrow> mcp_error option" where
  "ref_error k v =
     (if k \<in> {''$ref'', ''$dynamicRef'', ''$recursiveRef''} then
        (case as_str v of
           None \<Rightarrow> Some (err_invalid ''Schema references must be strings'')
         | Some r \<Rightarrow> if starts_with r ''#'' then None
             else Some (err_invalid ''Only local JSON Schema references are allowed''))
      else if k = ''$id'' then
        (case as_str v of
           Some i \<Rightarrow> if i \<noteq> [] \<and> \<not> starts_with i ''#''
             then Some (err_invalid ''External schema identifiers are not allowed'') else None
         | None \<Rightarrow> None)
      else None)"

fun external_refs :: "nat \<Rightarrow> json \<Rightarrow> mcp_error option"
  and external_refs_fields :: "nat \<Rightarrow> (string \<times> json) list \<Rightarrow> mcp_error option"
  and external_refs_items :: "nat \<Rightarrow> json list \<Rightarrow> mcp_error option" where
  "external_refs depth v =
     (if 64 < depth then Some (err_invalid ''Tool JSON Schema exceeds its nesting limit'')
      else (case v of
          JObject m \<Rightarrow> external_refs_fields depth m
        | JArray xs \<Rightarrow> external_refs_items depth xs
        | _ \<Rightarrow> None))"
| "external_refs_fields depth [] = None"
| "external_refs_fields depth ((k, v) # m) =
     (case ref_error k v of
        Some e \<Rightarrow> Some e
      | None \<Rightarrow>
          (case external_refs (depth + 1) v of
             Some e \<Rightarrow> Some e
           | None \<Rightarrow> external_refs_fields depth m))"
| "external_refs_items depth [] = None"
| "external_refs_items depth (v # xs) =
     (case external_refs (depth + 1) v of
        Some e \<Rightarrow> Some e
      | None \<Rightarrow> external_refs_items depth xs)"

text \<open>
  The schema crate: whether it takes a schema, and the errors it finds in a value. \<open>print\<close>
  is the text of a value, \<open>hash\<close> the digest of a text. The cache of compiled schemas holds
  only what was accepted before and is left out.
\<close>

record mcp_crates =
  mc_print :: "json \<Rightarrow> string"
  mc_hash :: "string \<Rightarrow> string"
  mc_schema :: "json \<Rightarrow> string option"
  mc_errors :: "json \<Rightarrow> json \<Rightarrow> string list"

definition MAX_SCHEMA_BYTES :: nat where "MAX_SCHEMA_BYTES = 512 * 1024"

definition compile :: "mcp_crates \<Rightarrow> json \<Rightarrow> (mcp_error, unit) result" where
  "compile c schema =
     (if MAX_SCHEMA_BYTES < length (mc_print c schema)
        then Inl (err_invalid ''Tool schema exceeds its size limit'')
      else (case external_refs 0 schema of
              Some e \<Rightarrow> Inl e
            | None \<Rightarrow> (case mc_schema c schema of Some msg \<Rightarrow> Inl (err_invalid msg) | None \<Rightarrow> Inr ())))"

fun join_with :: "string \<Rightarrow> string list \<Rightarrow> string" where
  "join_with sep [] = []"
| "join_with sep [x] = x"
| "join_with sep (x # y # xs) = x @ sep @ join_with sep (y # xs)"

definition validate_schema :: "mcp_crates \<Rightarrow> json \<Rightarrow> json \<Rightarrow> (mcp_error, unit) result" where
  "validate_schema c schema v =
     (case compile c schema of
        Inl e \<Rightarrow> Inl e
      | Inr _ \<Rightarrow>
          (case take 6 (mc_errors c schema v) of
             [] \<Rightarrow> Inr ()
           | es \<Rightarrow> Inl (err_invalid (join_with ''; '' es))))"

definition operation_id_schema :: json where
  "operation_id_schema =
     json_object [(''type'', JString ''string''), (''minLength'', JNumber (PosInt 1)),
       (''maxLength'', JNumber (PosInt 128)),
       (''description'', JString ''Unique ID for this operation. Retry the same operation with the same ID and arguments; use a new ID for a new action.'')]"

text \<open>\<^verbatim>\<open>entry(k).or_insert(v)\<close>.\<close>

definition or_insert :: "string \<Rightarrow> json \<Rightarrow> (string \<times> json) list \<Rightarrow> (string \<times> json) list" where
  "or_insert k v m = (if map_of m k = None then obj_insert k v m else m)"

text \<open>A tool with effects gets an \<^verbatim>\<open>operation_id\<close>, required.\<close>

definition with_operation_id :: "(string \<times> json) list \<Rightarrow> (mcp_error, (string \<times> json) list) result" where
  "with_operation_id m =
     (let m1 = or_insert ''properties'' (json_object []) m
      in case map_of m1 ''properties'' of
           Some (JObject props) \<Rightarrow>
             (let m2 = or_insert ''required'' (JArray [])
                    (obj_insert ''properties'' (JObject (obj_insert ''operation_id'' operation_id_schema props)) m1)
              in case map_of m2 ''required'' of
                   Some (JArray req) \<Rightarrow>
                     Inr (if list_ex (\<lambda>v. as_str v = Some ''operation_id'') req then m2
                          else obj_insert ''required'' (JArray (req @ [JString ''operation_id''])) m2)
                 | _ \<Rightarrow> Inl (err_invalid ''Tool schema required must be an array''))
         | _ \<Rightarrow> Inl (err_invalid ''Tool schema properties must be an object''))"

text \<open>\<open>descriptor_bytes\<close> is the size of the descriptor as the crate writes it.\<close>

definition normalize_descriptor ::
  "mcp_crates \<Rightarrow> (tool_descriptor \<Rightarrow> nat) \<Rightarrow> tool_descriptor \<Rightarrow> (mcp_error, tool_descriptor) result" where
  "normalize_descriptor c descriptor_bytes d =
     (if \<not> valid_tool_name (td_name d) \<or> trim (td_description d) = []
         \<or> 16 * 1024 < length (td_description d)
        then Inl (err_invalid ''Invalid tool name or description'')
      else if td_scopes d = {}
        then Inl (err_invalid ''Every externally exposed tool must require at least one explicit scope'')
      else if \<exists>s \<in> td_scopes d. \<not> valid_token_scope s
        then Inl (err_invalid ''Invalid tool scope declaration'')
      else if Option.bind (json_get ''type'' (td_input d)) as_str \<noteq> Some ''object''
        then Inl (err_invalid ''Tool input schema must declare type: object'')
      else (case td_input d of
          JObject m \<Rightarrow>
            and_then
              (let m1 = or_insert ''additionalProperties'' (JBool False) m
               in if is_read_only (td_effect d) then Inr m1 else with_operation_id m1)
              (\<lambda>m2.
                let d2 = d\<lparr>td_input := JObject m2\<rparr>
                in if 512 * 1024 < descriptor_bytes d2
                   then Inl (err_invalid ''Tool declaration exceeds its size limit'')
                   else and_then (compile c (td_input d2))
                     (\<lambda>_. and_then (case td_output d2 of None \<Rightarrow> Inr () | Some v \<Rightarrow> compile c v)
                       (\<lambda>_. Inr d2)))
        | _ \<Rightarrow> Inl (err_invalid ''Tool input schema must be an object'')))"

section \<open>Providers and the catalogue\<close>

record provider =
  pv_id :: string
  pv_owner :: "string option"
  pv_tools :: "tool_descriptor list"
  pv_for :: "principal \<Rightarrow> tool_descriptor list"

definition names_of ::
  "mcp_crates \<Rightarrow> (tool_descriptor \<Rightarrow> nat) \<Rightarrow> tool_descriptor list \<Rightarrow> string set \<Rightarrow> (mcp_error, string set) result" where
  "names_of c sz ds names =
     foldl (\<lambda>acc d. and_then acc (\<lambda>ns. and_then (normalize_descriptor c sz d) (\<lambda>d'.
         if td_name d' \<in> ns then Inl (mcp_err KConflict ''tool_conflict'' ''Duplicate tool name'')
         else Inr (insert (td_name d') ns)))) (Inr names) ds"

text \<open>Providers are kept by id.\<close>

fun insert_provider :: "provider \<Rightarrow> provider list \<Rightarrow> provider list" where
  "insert_provider p [] = [p]"
| "insert_provider p (q # qs) =
     (if str_cmp (pv_id p) (pv_id q) = Less then p # q # qs else q # insert_provider p qs)"

definition register_provider ::
  "mcp_crates \<Rightarrow> (tool_descriptor \<Rightarrow> nat) \<Rightarrow> provider \<Rightarrow> provider list \<Rightarrow> (mcp_error, provider list) result" where
  "register_provider c sz p ps =
     (if \<not> valid_tool_name (pv_id p) then Inl (err_invalid ''Invalid tool provider ID'')
      else if \<exists>q \<in> set ps. pv_id q = pv_id p
        then Inl (mcp_err KConflict ''provider_conflict'' ''Tool provider is already registered'')
      else and_then (names_of c sz (concat (map pv_tools (ps @ [p]))) {}) (\<lambda>_. Inr (insert_provider p ps)))"

definition context_has_allowed_objects :: "context_fields \<Rightarrow> allowed_objects \<Rightarrow> bool" where
  "context_has_allowed_objects f a \<longleftrightarrow>
     list_all (\<lambda>(field, ids). field = None \<or> ids \<noteq> {})
       [(cf_device f, al_devices a), (cf_package f, al_packages a), (cf_plugin f, al_plugins a),
        (cf_runner f, al_runners a), (cf_media f, al_media a)]"

definition offered :: "principal \<Rightarrow> provider list \<Rightarrow> (tool_descriptor \<times> provider) list" where
  "offered p ps =
     concat (map (\<lambda>v. map (\<lambda>d. (d, v)) (pv_for v p))
       (filter (\<lambda>v. case pv_owner v of
            None \<Rightarrow> True | Some g \<Rightarrow> is_ok (authorize ''plugin'' g (pr_allowed p))) ps))"

definition visible_to :: "principal \<Rightarrow> tool_descriptor \<Rightarrow> bool" where
  "visible_to p d \<longleftrightarrow> has_scopes (td_scopes d) p \<and> context_has_allowed_objects (td_context d) (pr_allowed p)"

fun catalog_from ::
  "mcp_crates \<Rightarrow> (tool_descriptor \<Rightarrow> nat) \<Rightarrow> principal \<Rightarrow> string set \<Rightarrow> (tool_descriptor \<times> provider) list
    \<Rightarrow> (mcp_error, (string \<times> (tool_descriptor \<times> provider)) list) result" where
  "catalog_from c sz p names [] = Inr []"
| "catalog_from c sz p names ((d, v) # ds) =
     and_then (normalize_descriptor c sz d) (\<lambda>d'.
       if td_name d' \<in> names
       then Inl (mcp_err KConflict ''tool_conflict'' ''Dynamic tool providers returned conflicting names'')
       else and_then (catalog_from c sz p (insert (td_name d') names) ds) (\<lambda>m.
         Inr (if visible_to p d' then ins_by str_cmp (td_name d') (d', v) m else m)))"

definition catalog ::
  "mcp_crates \<Rightarrow> (tool_descriptor \<Rightarrow> nat) \<Rightarrow> principal \<Rightarrow> provider list
    \<Rightarrow> (mcp_error, (string \<times> (tool_descriptor \<times> provider)) list) result" where
  "catalog c sz p ps = catalog_from c sz p {} (offered p ps)"

section \<open>The context of a call\<close>

record call_context =
  cx_principal :: principal
  cx_tool :: string
  cx_operation :: "string option"
  cx_cancelled :: bool
  cx_session :: "string option"
  cx_device :: "string option"
  cx_package :: "string option"

definition new_context :: "principal \<Rightarrow> string \<Rightarrow> string option \<Rightarrow> call_context" where
  "new_context p tool op =
     \<lparr>cx_principal = p, cx_tool = tool, cx_operation = op, cx_cancelled = False, cx_session = None,
      cx_device = None, cx_package = None\<rparr>"

definition check_active :: "int \<Rightarrow> cred_state \<Rightarrow> call_context \<Rightarrow> (mcp_error, unit) result" where
  "check_active now creds cx =
     ensure (\<not> cx_cancelled cx \<and> token_is_active (pr_id (cx_principal cx)) now creds) err_unauthorized"

definition require_scope :: "int \<Rightarrow> cred_state \<Rightarrow> string \<Rightarrow> call_context \<Rightarrow> (mcp_error, unit) result" where
  "require_scope now creds s cx =
     and_then (check_active now creds cx)
       (\<lambda>_. ensure (principal_has_scope s (cx_principal cx)) (err_forbidden (''Required scope: '' @ s)))"

definition authorize_object :: "int \<Rightarrow> cred_state \<Rightarrow> string \<Rightarrow> string \<Rightarrow> call_context \<Rightarrow> (mcp_error, unit) result" where
  "authorize_object now creds kind i cx =
     and_then (check_active now creds cx) (\<lambda>_. authorize kind i (pr_allowed (cx_principal cx)))"

fun authorize_all ::
  "int \<Rightarrow> cred_state \<Rightarrow> (string \<times> string option) list \<Rightarrow> call_context \<Rightarrow> (mcp_error, unit) result" where
  "authorize_all now creds [] cx = Inr ()"
| "authorize_all now creds ((kind, None) # ks) cx = authorize_all now creds ks cx"
| "authorize_all now creds ((kind, Some i) # ks) cx =
     and_then (authorize_object now creds kind i cx) (\<lambda>_. authorize_all now creds ks cx)"

definition scope_ids :: "object_scope \<Rightarrow> (string \<times> string option) list" where
  "scope_ids s = [(''device'', os_device s), (''package'', os_package s), (''plugin'', os_plugin s),
     (''runner'', os_runner s)]"

definition authorize_object_scope :: "int \<Rightarrow> cred_state \<Rightarrow> object_scope \<Rightarrow> call_context \<Rightarrow> (mcp_error, unit) result" where
  "authorize_object_scope now creds s cx =
     and_then (authorize_all now creds (scope_ids s) cx) (\<lambda>_. check_active now creds cx)"

text \<open>\<open>fails\<close>: the database cannot be read.\<close>

definition authorize_owned ::
  "int \<Rightarrow> cred_state \<Rightarrow> bool \<Rightarrow> receipt_store \<Rightarrow> object_kind \<Rightarrow> string \<Rightarrow> call_context \<Rightarrow> (mcp_error, unit) result" where
  "authorize_owned now creds fails rs kind i cx =
     and_then (check_active now creds cx) (\<lambda>_.
       and_then (object_of fails kind i rs) (\<lambda>found.
         case found of
           None \<Rightarrow> authorize (object_kind_str kind) i (pr_allowed (cx_principal cx))
         | Some o' \<Rightarrow>
             if oo_token o' = pr_id (cx_principal cx) then authorize_object_scope now creds (oo_scope o') cx
             else and_then (authorize (object_kind_str kind) i (pr_allowed (cx_principal cx)))
               (\<lambda>_. authorize_object_scope now creds (oo_scope o') cx)))"

text \<open>What a provider records of an object it made: under its live grant, or the frozen one.\<close>

definition record_owned_object ::
  "db_fault option \<Rightarrow> int \<Rightarrow> cred_state \<Rightarrow> object_kind \<Rightarrow> string \<Rightarrow> object_scope \<Rightarrow> call_context \<Rightarrow> receipt_store
    \<Rightarrow> (mcp_error, unit) result \<times> receipt_store" where
  "record_owned_object fault now creds kind i scope cx rs =
     (case authorize_object_scope now creds scope cx of
        Inl e \<Rightarrow> (Inl e, rs)
      | Inr _ \<Rightarrow> record_object fault now kind i (pr_id (cx_principal cx)) scope rs)"

fun authorize_frozen :: "allowed_objects \<Rightarrow> (string \<times> string option) list \<Rightarrow> (mcp_error, unit) result" where
  "authorize_frozen a [] = Inr ()"
| "authorize_frozen a ((kind, None) # ks) = authorize_frozen a ks"
| "authorize_frozen a ((kind, Some i) # ks) = and_then (authorize kind i a) (\<lambda>_. authorize_frozen a ks)"

definition record_delegated_object ::
  "db_fault option \<Rightarrow> int \<Rightarrow> object_kind \<Rightarrow> string \<Rightarrow> object_scope \<Rightarrow> call_context \<Rightarrow> receipt_store
    \<Rightarrow> (mcp_error, unit) result \<times> receipt_store" where
  "record_delegated_object fault now kind i scope cx rs =
     (case authorize_frozen (pr_allowed (cx_principal cx)) (scope_ids scope) of
        Inl e \<Rightarrow> (Inl e, rs)
      | Inr _ \<Rightarrow> record_object fault now kind i (pr_id (cx_principal cx)) scope rs)"

section \<open>Selectors\<close>

datatype selector_kind = SelDevice | SelPackage | SelPlugin | SelRunner | SelRun | SelTask | SelMedia
  | SelSession

fun selector_name :: "selector_kind \<Rightarrow> string" where
  "selector_name SelDevice = ''device''"
| "selector_name SelPackage = ''package''"
| "selector_name SelPlugin = ''plugin''"
| "selector_name SelRunner = ''runner''"
| "selector_name SelRun = ''run''"
| "selector_name SelTask = ''task''"
| "selector_name SelMedia = ''media''"
| "selector_name SelSession = ''control_session''"

definition selector_fields :: "context_fields \<Rightarrow> (selector_kind \<times> string option) list" where
  "selector_fields f =
     [(SelDevice, cf_device f), (SelPackage, cf_package f), (SelPlugin, cf_plugin f),
      (SelRunner, cf_runner f), (SelRun, cf_run f), (SelTask, cf_task f), (SelMedia, cf_media f),
      (SelSession, cf_session f)]"

record authorizer =
  az_now :: int
  az_creds :: cred_state
  az_receipts :: receipt_store
  az_fails :: "object_kind \<Rightarrow> bool"

definition bind_selector ::
  "authorizer \<Rightarrow> selector_kind \<Rightarrow> string \<Rightarrow> call_context \<Rightarrow> (mcp_error, call_context) result" where
  "bind_selector z k i cx =
     (case k of
        SelDevice \<Rightarrow> and_then (authorize_object (az_now z) (az_creds z) ''device'' i cx)
          (\<lambda>_. Inr (cx\<lparr>cx_device := Some i\<rparr>))
      | SelPackage \<Rightarrow> and_then (authorize_object (az_now z) (az_creds z) ''package'' i cx)
          (\<lambda>_. Inr (cx\<lparr>cx_package := Some i\<rparr>))
      | SelPlugin \<Rightarrow> and_then (authorize_object (az_now z) (az_creds z) ''plugin'' i cx) (\<lambda>_. Inr cx)
      | SelRunner \<Rightarrow> and_then (authorize_object (az_now z) (az_creds z) ''runner'' i cx) (\<lambda>_. Inr cx)
      | SelRun \<Rightarrow> and_then (authorize_owned (az_now z) (az_creds z) (az_fails z ObjRun) (az_receipts z)
            ObjRun i cx) (\<lambda>_. Inr cx)
      | SelTask \<Rightarrow> and_then (authorize_owned (az_now z) (az_creds z) (az_fails z ObjTask) (az_receipts z)
            ObjTask i cx) (\<lambda>_. Inr cx)
      | SelMedia \<Rightarrow> and_then (authorize_object (az_now z) (az_creds z) ''media'' i cx) (\<lambda>_. Inr cx)
      | SelSession \<Rightarrow> Inr (cx\<lparr>cx_session := Some i\<rparr>))"

text \<open>The id a field of the arguments selects.\<close>

definition selected :: "json \<Rightarrow> string \<Rightarrow> string option" where
  "selected args field =
     (case Option.bind (json_get field args) as_str of
        Some [] \<Rightarrow> None | x \<Rightarrow> x)"

fun bind_all ::
  "authorizer \<Rightarrow> json \<Rightarrow> (selector_kind \<times> string option) list \<Rightarrow> call_context \<Rightarrow> (string \<times> json) list
    \<Rightarrow> (mcp_error, call_context \<times> (string \<times> json) list) result" where
  "bind_all z args [] cx sel = Inr (cx, sel)"
| "bind_all z args ((k, None) # ks) cx sel = bind_all z args ks cx sel"
| "bind_all z args ((k, Some field) # ks) cx sel =
     (case selected args field of
        None \<Rightarrow> Inl (err_invalid (''Required context selector: '' @ field))
      | Some i \<Rightarrow>
          and_then (bind_selector z k i cx)
            (\<lambda>cx'. bind_all z args ks cx' (obj_insert (selector_name k) (JString i) sel)))"

definition bind_context ::
  "mcp_crates \<Rightarrow> authorizer \<Rightarrow> context_fields \<Rightarrow> json \<Rightarrow> call_context
    \<Rightarrow> (mcp_error, call_context \<times> string) result" where
  "bind_context c z f args cx =
     and_then (bind_all z args (selector_fields f) cx [])
       (\<lambda>(cx', sel). Inr (cx', mc_print c (JObject sel)))"

section \<open>Admission of a call\<close>

fun canonical :: "json \<Rightarrow> json"
  and canonical_fields :: "(string \<times> json) list \<Rightarrow> (string \<times> json) list"
  and canonical_items :: "json list \<Rightarrow> json list" where
  "canonical v =
     (case v of
        JObject m \<Rightarrow> JObject (canonical_fields m)
      | JArray xs \<Rightarrow> JArray (canonical_items xs)
      | _ \<Rightarrow> v)"
| "canonical_fields [] = []"
| "canonical_fields ((k, v) # m) = obj_insert k (canonical v) (canonical_fields m)"
| "canonical_items [] = []"
| "canonical_items (v # xs) = canonical v # canonical_items xs"

definition hash_json :: "mcp_crates \<Rightarrow> json \<Rightarrow> string" where
  "hash_json c v = mc_hash c (mc_print c (canonical v))"

definition MAX_ARGUMENT_BYTES :: nat where "MAX_ARGUMENT_BYTES = 8 * 1024 * 1024"

definition operation_of :: "tool_effect \<Rightarrow> json \<Rightarrow> (mcp_error, string option) result" where
  "operation_of e args =
     (if is_read_only e then Inr None
      else (case Option.bind (json_get ''operation_id'' args) as_str of
              None \<Rightarrow> Inl (err_invalid ''operation_id is required for side effects'')
            | Some i \<Rightarrow>
                if trim i = [] \<or> 128 < length i \<or> any_control i
                then Inl (err_invalid ''operation_id must contain 1 to 128 printable bytes'')
                else Inr (Some i)))"

record bound_call =
  bc_context :: call_context
  bc_descriptor :: tool_descriptor
  bc_provider :: provider
  bc_key :: "receipt_key option"
  bc_fp :: string
  bc_args :: json

definition prepare_call ::
  "mcp_crates \<Rightarrow> (tool_descriptor \<Rightarrow> nat) \<Rightarrow> authorizer \<Rightarrow> provider list \<Rightarrow> string \<Rightarrow> string \<Rightarrow> json
    \<Rightarrow> (mcp_error, bound_call) result" where
  "prepare_call c sz z ps tid name args =
     and_then (principal_for_id tid (az_now z) (az_creds z)) (\<lambda>p.
     and_then (ensure (as_object args \<noteq> None) (err_invalid ''Tool arguments must be an object'')) (\<lambda>_.
     and_then (ensure (length (mc_print c args) \<le> MAX_ARGUMENT_BYTES)
       (err_invalid ''Tool arguments exceed the size limit'')) (\<lambda>_.
     and_then (catalog c sz p ps) (\<lambda>entries.
     case map_of entries name of
       None \<Rightarrow> Inl (err_forbidden
         (''Tool is unavailable or is outside the credential'' @ [CHR 0x27] @ ''s scopes''))
     | Some (d, v) \<Rightarrow>
         and_then (validate_schema c (td_input d) args) (\<lambda>_.
         and_then (operation_of (td_effect d) args) (\<lambda>op.
         and_then (bind_context c z (td_context d) args (new_context p name op)) (\<lambda>(cx, obj).
           Inr \<lparr>bc_context = cx, bc_descriptor = d, bc_provider = v,
             bc_key = map_option (\<lambda>i. \<lparr>rk_token = pr_id (cx_principal cx), rk_tool = name,
                 rk_object = obj, rk_operation = i\<rparr>) op,
             bc_fp = hash_json c args, bc_args = args\<rparr>)))))))"

text \<open>What becomes of a provider's answer.\<close>

definition settle_result :: "mcp_crates \<Rightarrow> bound_call \<Rightarrow> (mcp_error, tool_result) result \<Rightarrow> tool_result" where
  "settle_result c b answer =
     (let r = (case answer of Inl e \<Rightarrow> result_of_error (mc_print c) e | Inr r \<Rightarrow> r)
      in if tr_error r then r
         else (case td_output (bc_descriptor b) of
             None \<Rightarrow> r
           | Some schema \<Rightarrow>
               (if (case tr_structured r of
                      Some v \<Rightarrow> is_ok (validate_schema c schema v) | None \<Rightarrow> False) then r
                else result_of_error (mc_print c) (mcp_err KInternal ''result_contract_violation''
                  ''The tool executed but returned a result outside its declared schema; do not replay the operation''))))"

end
