(* ===== verification/McpTokens.thy ===== *)
theory McpTokens
  imports McpCredentials
begin

text \<open>
  The credential store over time: its table and file agree, and a revoked credential is dead
  for good.
\<close>

section \<open>The store as a system\<close>

lemmas tab_ins = str_ord.ins_get str_ord.ins_sorted str_ord.ins_keys
lemmas tab_del = str_ord.del_get str_ord.del_sorted str_ord.del_subset

text \<open>Sorted, every token under its own id, and the file as the memory.\<close>

definition table_ok :: "token_table \<Rightarrow> bool" where
  "table_ok ts \<longleftrightarrow> keys_sorted str_cmp ts \<and> (\<forall>(i, t) \<in> set ts. i = tm_id (st_meta t))"

definition cred_ok :: "cred_state \<Rightarrow> bool" where
  "cred_ok st \<longleftrightarrow> table_ok (cr_tokens st) \<and> length (cr_tokens st) \<le> 1024
     \<and> (case cr_disk st of None \<Rightarrow> cr_tokens st = [] | Some ts \<Rightarrow> ts = cr_tokens st)"

text \<open>
  One management operation, with whatever becomes of its write, or a new process over the
  file. Ids are drawn at random: \<open>tid\<close> is not drawn again.
\<close>

inductive cred_step :: "string \<Rightarrow> cred_state \<Rightarrow> cred_state \<Rightarrow> bool" for tid :: string where
  creates: "i \<noteq> tid \<Longrightarrow> cred_step tid st (snd (create_token dig secret i enc now w q st))"
| revokes: "cred_step tid st (snd (revoke i w st))"
| removes: "cred_step tid st (snd (remove_revoked i w st))"
| reopens: "open_credentials made (case cr_disk st of None \<Rightarrow> NoFile | Some ts \<Rightarrow> TokenFile 1 ts) = Inr st'
    \<Longrightarrow> cred_step tid st st'"

lemma persist_cases:
  obtains (written) "persist_tokens w ts st = (Inr (), st\<lparr>cr_disk := Some ts\<rparr>)"
    | (failed) e where "persist_tokens w ts st = (Inl e, st)"
  by (cases w) (auto simp: persist_tokens_def)

text \<open>Every write is of the whole nxt table, and either both memory and file take it or neither does.\<close>

lemma create_cases:
  obtains (same) e where "create_token dig secret i enc now w q st = (Inl e, st)"
    | (made) nxt where "create_token dig secret i enc now w q st
        = (Inr (secret, new_metadata q i now), \<lparr>cr_tokens = nxt, cr_disk = Some nxt\<rparr>)"
      "nxt = ins_by str_cmp i \<lparr>st_meta = new_metadata q i now, st_digest = dig secret, st_encrypted = enc\<rparr>
        (cr_tokens st)" "create_error q = None" "length (cr_tokens st) < 1024"
proof (cases "create_error q = None \<and> enc \<noteq> None \<and> length (cr_tokens st) < 1024")
  case True
  let ?nxt = "ins_by str_cmp i \<lparr>st_meta = new_metadata q i now, st_digest = dig secret, st_encrypted = enc\<rparr>
      (cr_tokens st)"
  show ?thesis
  proof (cases rule: persist_cases [of w ?nxt st])
    case written
    then show ?thesis using True by (intro made [of ?nxt]) (auto simp: create_token_def Let_def)
  next
    case (failed e)
    then show ?thesis using True by (intro same [of e]) (auto simp: create_token_def Let_def)
  qed
next
  case False
  then consider e where "create_error q = Some e" | "create_error q = None" "enc = None"
    | "create_error q = None" "enc \<noteq> None" "1024 \<le> length (cr_tokens st)"
    by fastforce
  then show ?thesis by cases (use same in \<open>auto simp: create_token_def\<close>)
qed

lemma revoke_cases:
  obtains (same) r where "revoke i w st = (r, st)"
      "r = Inr True \<Longrightarrow> \<exists>t. map_of (cr_tokens st) i = Some t \<and> tm_revoked (st_meta t)"
    | (done') t nxt where "map_of (cr_tokens st) i = Some t"
      "revoke i w st = (Inr True, \<lparr>cr_tokens = nxt, cr_disk = Some nxt\<rparr>)"
      "nxt = ins_by str_cmp i (t\<lparr>st_meta := (st_meta t)\<lparr>tm_revoked := True\<rparr>\<rparr>) (cr_tokens st)"
proof (cases "map_of (cr_tokens st) i")
  case None
  then show ?thesis by (intro same [of "Inr False"]) (simp_all add: revoke_def)
next
  case (Some t)
  let ?nxt = "ins_by str_cmp i (t\<lparr>st_meta := (st_meta t)\<lparr>tm_revoked := True\<rparr>\<rparr>) (cr_tokens st)"
  show ?thesis
  proof (cases "tm_revoked (st_meta t)")
    case True
    then show ?thesis using Some by (intro same [of "Inr True"]) (simp_all add: revoke_def)
  next
    case False
    show ?thesis
    proof (cases rule: persist_cases [of w ?nxt st])
      case written
      then show ?thesis using False Some by (intro done' [of t ?nxt]) (simp_all add: revoke_def Let_def)
    next
      case (failed e)
      then show ?thesis using False Some by (intro same [of "Inl e"]) (simp_all add: revoke_def Let_def)
    qed
  qed
qed

lemma remove_cases:
  obtains (same) r where "remove_revoked i w st = (r, st)"
    | (gone) nxt where "remove_revoked i w st = (Inr (), \<lparr>cr_tokens = nxt, cr_disk = Some nxt\<rparr>)"
      "nxt = del_by str_cmp i (cr_tokens st)"
proof (cases "map_of (cr_tokens st) i")
  case None
  then show ?thesis by (intro same) (simp add: remove_revoked_def)
next
  case (Some t)
  show ?thesis
  proof (cases "tm_revoked (st_meta t)")
    case True
    show ?thesis
    proof (cases rule: persist_cases [of w "del_by str_cmp i (cr_tokens st)" st])
      case written
      then show ?thesis using True Some by (intro gone) (simp_all add: remove_revoked_def Let_def)
    next
      case (failed e)
      then show ?thesis using True Some by (intro same [of "Inl e"]) (simp add: remove_revoked_def Let_def)
    qed
  next
    case False
    then show ?thesis
      using Some by (intro same [of "Inl (err_internal ''Revoke MCP credential before deleting it'')"])
        (simp add: remove_revoked_def)
  qed
qed

lemma table_get: "table_ok ts \<Longrightarrow> map_of ts i = Some t \<Longrightarrow> tm_id (st_meta t) = i"
  by (auto simp: table_ok_def dest: map_of_SomeD)

lemma ins_by_set: "set (ins_by c k v m) \<subseteq> insert (k, v) (set m)"
  by (induction m) (auto split: ordering.splits)

lemma table_insert: "table_ok ts \<Longrightarrow> tm_id (st_meta t) = i \<Longrightarrow> table_ok (ins_by str_cmp i t ts)"
  using ins_by_set [of str_cmp i t ts] by (auto simp: table_ok_def str_ord.ins_sorted)

lemma table_delete: "table_ok ts \<Longrightarrow> table_ok (del_by str_cmp i ts)"
  using str_ord.del_subset [of i ts] by (auto simp: table_ok_def str_ord.del_sorted)

lemma ins_by_length: "length (ins_by c k v m) \<le> Suc (length m)"
  by (induction m) (auto split: ordering.splits)

lemma ins_by_length_old: "keys_sorted str_cmp m \<Longrightarrow> map_of m k \<noteq> None \<Longrightarrow> length (ins_by str_cmp k v m) = length m"
proof (induction m)
  case (Cons p m)
  obtain j u where p: "p = (j, u)" by (cases p)
  show ?case
  proof (cases "str_cmp k j")
    case Less
    have "map_of m k = None"
      using Less Cons.prems(1) p str_ord.cmp_Less_trans str_ord.cmp_refl
      by (fastforce simp: map_of_eq_None_iff)
    then show ?thesis using Less Cons.prems(2) p by (auto simp: str_ord.cmp_refl split: if_splits)
  next
    case Equal
    then show ?thesis using p by simp
  next
    case Greater
    then have "k \<noteq> j" by (auto simp: str_ord.cmp_refl)
    then show ?thesis using Cons p Greater by auto
  qed
qed simp

lemma del_by_length: "length (del_by c k m) \<le> length m"
  by (induction m) auto

lemma cred_step_ok: "cred_step tid st st' \<Longrightarrow> cred_ok st \<Longrightarrow> cred_ok st'"
proof (induction rule: cred_step.induct)
  case (creates i st dig secret enc now w q)
  show ?case
  proof (cases rule: create_cases [of dig secret i enc now w q st])
    case (made nxt)
    have "length nxt \<le> 1024"
      using made(4) ins_by_length [of str_cmp i _ "cr_tokens st"] unfolding made(2)
      by (meson Suc_leI order_trans)
    moreover have "table_ok nxt"
      unfolding made(2) by (rule table_insert)
        (use creates.prems in \<open>simp_all add: cred_ok_def new_metadata_def\<close>)
    ultimately show ?thesis using made(1) by (simp add: cred_ok_def)
  qed (use creates in simp)
next
  case (revokes st i w)
  show ?case
  proof (cases rule: revoke_cases [of i w st])
    case (done' t nxt)
    then show ?thesis
      using revokes table_get [of "cr_tokens st" i t]
      by (auto simp: cred_ok_def table_insert ins_by_length_old table_ok_def [of "cr_tokens st"])
  qed (use revokes in simp)
next
  case (removes st i w)
  show ?case
  proof (cases rule: remove_cases [of i w st])
    case (gone nxt)
    then show ?thesis
      using removes del_by_length [of str_cmp i "cr_tokens st"]
      by (auto simp: cred_ok_def table_delete)
  qed (use removes in simp)
next
  case (reopens made st st')
  then show ?case
    by (auto simp: open_credentials_def cred_ok_def split: if_splits option.splits)
qed

interpretation creds: guarded_system "\<lambda>st. st = \<lparr>cr_tokens = [], cr_disk = None\<rparr>" "cred_step tid" cred_ok
  by unfold_locales (auto simp: table_ok_def intro: cred_step_ok, simp add: cred_ok_def table_ok_def)

section \<open>Revocation\<close>

definition token_dead :: "string \<Rightarrow> cred_state \<Rightarrow> bool" where
  "token_dead tid st \<longleftrightarrow>
     (case map_of (cr_tokens st) tid of None \<Rightarrow> True | Some t \<Rightarrow> tm_revoked (st_meta t))"

lemma dead_step: "cred_step tid st st' \<Longrightarrow> cred_ok st \<Longrightarrow> token_dead tid st \<Longrightarrow> token_dead tid st'"
proof (induction rule: cred_step.induct)
  case (creates i st dig secret enc now w q)
  show ?case
  proof (cases rule: create_cases [of dig secret i enc now w q st])
    case (made nxt)
    then show ?thesis
      using creates by (simp add: token_dead_def str_ord.ins_get cred_ok_def table_ok_def)
  qed (use creates in simp)
next
  case (revokes st i w)
  show ?case
  proof (cases rule: revoke_cases [of i w st])
    case (done' t nxt)
    then show ?thesis
      using revokes by (auto simp: token_dead_def str_ord.ins_get cred_ok_def table_ok_def split: option.splits)
  qed (use revokes in simp)
next
  case (removes st i w)
  show ?case
  proof (cases rule: remove_cases [of i w st])
    case (gone nxt)
    then show ?thesis
      using removes by (auto simp: token_dead_def str_ord.del_get cred_ok_def table_ok_def split: option.splits)
  qed (use removes in simp)
next
  case (reopens made st st')
  then show ?case
    by (auto simp: open_credentials_def cred_ok_def token_dead_def split: if_splits option.splits)
qed

lemma dead_steps:
  "(cred_step tid)\<^sup>*\<^sup>* st st' \<Longrightarrow> cred_ok st \<Longrightarrow> token_dead tid st \<Longrightarrow> cred_ok st' \<and> token_dead tid st'"
  by (induction rule: rtranclp_induct) (auto intro: dead_step cred_step_ok)

lemma dead_not_active: "token_dead tid st \<Longrightarrow> \<not> token_is_active tid now st"
  by (auto simp: token_dead_def token_is_active_def principal_for_id_def by_token_id_def principal_of_def
      token_live_def split: option.splits)

lemma find_token_in: "find_token d ts = Some t \<Longrightarrow> \<exists>i. (i, t) \<in> set ts"
  by (induction ts) (auto split: if_splits)

lemma dead_not_admitted:
  assumes "token_dead tid st" "cred_ok st" "authenticate_at dig secret now st = Inr p"
  shows "pr_id p \<noteq> tid"
proof
  assume p: "pr_id p = tid"
  obtain t where t: "find_token (dig secret) (cr_tokens st) = Some t" "principal_of now (st_meta t) = Inr p"
    using assms(3) by (auto simp: authenticate_at_def split: if_splits option.splits)
  obtain i where i: "(i, t) \<in> set (cr_tokens st)" using find_token_in [OF t(1)] by blast
  have id: "tm_id (st_meta t) = tid" "\<not> tm_revoked (st_meta t)"
    using t(2) p by (auto simp: principal_of_def token_live_def split: if_splits)
  then have "i = tid" using i assms(2) by (auto simp: cred_ok_def table_ok_def)
  moreover have "distinct (map fst (cr_tokens st))"
    using assms(2) by (simp add: cred_ok_def table_ok_def str_ord.sorted_distinct)
  ultimately have "map_of (cr_tokens st) tid = Some t" using i by simp
  then show False using assms(1) id(2) by (simp add: token_dead_def)
qed

lemma revoked_dead:
  assumes "revoke tid w st = (Inr True, st0)" "cred_ok st"
  shows "token_dead tid st0"
proof (cases rule: revoke_cases [of tid w st])
  case (same r)
  then show ?thesis using assms(1) by (auto simp: token_dead_def)
next
  case (done' t nxt)
  then show ?thesis
    using assms by (simp add: token_dead_def str_ord.ins_get cred_ok_def table_ok_def)
qed

lemma revoke_ok: "cred_ok st \<Longrightarrow> cred_ok (snd (revoke i w st))"
  by (rule cred_step_ok [OF revokes])

end
