(* ===== verification/McpSystem.thy ===== *)
theory McpSystem
  imports McpCall McpTokens
begin

text \<open>
  Calls side by side (\<^verbatim>\<open>McpService::call_tool\<close>): every stretch between two places where a
  call may be suspended, or where it takes the lock of the receipts, is a step. Calls, the
  management of credentials, drops of a call and crashes come in any order.
\<close>

section \<open>Phases of a call\<close>

datatype call_phase = CBound bound_call | CReserved bound_call | CRunning bound_call
  | CFinished bound_call tool_result

record mcp_state =
  ms_creds :: cred_state
  ms_receipts :: receipt_store
  ms_calls :: "nat \<rightharpoonup> call_phase"
  ms_log :: "(nat \<times> bound_call) list"
  ms_answers :: "(nat \<times> bound_call \<times> tool_result) list"

definition put_call :: "nat \<Rightarrow> call_phase \<Rightarrow> mcp_state \<Rightarrow> mcp_state" where
  "put_call i ph s = s\<lparr>ms_calls := (ms_calls s)(i \<mapsto> ph)\<rparr>"

definition end_call :: "nat \<Rightarrow> mcp_state \<Rightarrow> mcp_state" where
  "end_call i s = s\<lparr>ms_calls := (ms_calls s)(i := None)\<rparr>"

text \<open>The reservation, once the provider has agreed.\<close>

definition reserve_step :: "db_fault option \<Rightarrow> int \<Rightarrow> nat \<Rightarrow> bound_call \<Rightarrow> mcp_state \<Rightarrow> mcp_state" where
  "reserve_step fault now i b s =
     (case bc_key b of
        None \<Rightarrow> put_call i (CReserved b) s
      | Some k \<Rightarrow>
          (case reserve fault now k (bc_fp b) (ms_receipts s) of
             (Inr AdmNew, rs) \<Rightarrow> put_call i (CReserved b) (s\<lparr>ms_receipts := rs\<rparr>)
           | (Inr (AdmCompleted r), rs) \<Rightarrow> put_call i (CFinished b r) (s\<lparr>ms_receipts := rs\<rparr>)
           | (_, rs) \<Rightarrow> end_call i (s\<lparr>ms_receipts := rs\<rparr>)))"

text \<open>The check that the credential still lives, and the call of the provider.\<close>

definition invoke_step :: "int \<Rightarrow> nat \<Rightarrow> bound_call \<Rightarrow> mcp_state \<Rightarrow> mcp_state" where
  "invoke_step now i b s =
     (if is_ok (check_active now (ms_creds s) (bc_context b))
      then put_call i (CRunning b) (s\<lparr>ms_log := (i, b) # ms_log s\<rparr>)
      else end_call i s)"

definition complete_step ::
  "mcp_crates \<Rightarrow> bool \<Rightarrow> int \<Rightarrow> nat \<Rightarrow> bound_call \<Rightarrow> (mcp_error, tool_result) result \<Rightarrow> mcp_state \<Rightarrow> mcp_state" where
  "complete_step c fails now i b answer s =
     (let r = settle_result c b answer
      in case bc_key b of
           None \<Rightarrow> put_call i (CFinished b r) s
         | Some k \<Rightarrow>
             (case complete (mc_print c) fails now k (bc_fp b) r (ms_receipts s) of
                (Inr _, rs) \<Rightarrow> put_call i (CFinished b r) (s\<lparr>ms_receipts := rs\<rparr>)
              | (Inl _, rs) \<Rightarrow> end_call i (s\<lparr>ms_receipts := rs\<rparr>)))"

text \<open>The last check, and the answer to the caller.\<close>

definition answer_step :: "int \<Rightarrow> nat \<Rightarrow> bound_call \<Rightarrow> tool_result \<Rightarrow> mcp_state \<Rightarrow> mcp_state" where
  "answer_step now i b r s =
     (if is_ok (check_active now (ms_creds s) (bc_context b))
      then end_call i (s\<lparr>ms_answers := (i, b, r) # ms_answers s\<rparr>)
      else end_call i s)"

text \<open>
  A crash ends every call; receipts and the credential file stay. The tokens in memory are
  those of the file (\<open>cred_ok\<close>).
\<close>

inductive mcp_step :: "mcp_crates \<Rightarrow> (tool_descriptor \<Rightarrow> nat) \<Rightarrow> string \<Rightarrow> mcp_state \<Rightarrow> mcp_state \<Rightarrow> bool"
  for c :: mcp_crates and sz :: "tool_descriptor \<Rightarrow> nat" and tid :: string where
  call_arrives: "ms_calls s i = None \<Longrightarrow> az_creds z = ms_creds s \<Longrightarrow> az_receipts z = ms_receipts s \<Longrightarrow>
    prepare_call c sz z ps t name args = Inr b \<Longrightarrow>
    mcp_step c sz tid s (put_call i (CBound b) s)"
| call_reserves: "ms_calls s i = Some (CBound b) \<Longrightarrow> mcp_step c sz tid s (reserve_step fault now i b s)"
| call_invokes: "ms_calls s i = Some (CReserved b) \<Longrightarrow> mcp_step c sz tid s (invoke_step now i b s)"
| call_completes: "ms_calls s i = Some (CRunning b) \<Longrightarrow>
    mcp_step c sz tid s (complete_step c fails now i b answer s)"
| call_answers: "ms_calls s i = Some (CFinished b r) \<Longrightarrow> mcp_step c sz tid s (answer_step now i b r s)"
| call_drops: "mcp_step c sz tid s (end_call i s)"
| object_made: "mcp_step c sz tid s (s\<lparr>ms_receipts := snd (record_object fault now kind j t scope (ms_receipts s))\<rparr>)"
| credential_managed: "cred_step tid (ms_creds s) cr \<Longrightarrow> mcp_step c sz tid s (s\<lparr>ms_creds := cr\<rparr>)"
| crashes: "cred_step tid (ms_creds s) cr \<Longrightarrow>
    mcp_step c sz tid s (s\<lparr>ms_calls := (\<lambda>_. None), ms_creds := cr\<rparr>)"

definition mcp_start :: "mcp_state \<Rightarrow> bool" where
  "mcp_start s \<longleftrightarrow> cred_ok (ms_creds s) \<and> ms_calls s = (\<lambda>_. None) \<and> ms_log s = [] \<and> ms_answers s = []
     \<and> rs_receipts (ms_receipts s) = (\<lambda>_. None)"

section \<open>At most once\<close>

text \<open>How often a key was handed to a provider.\<close>

definition runs_of :: "receipt_key \<Rightarrow> mcp_state \<Rightarrow> nat" where
  "runs_of k s = length (filter (\<lambda>(i, b). bc_key b = Some k) (ms_log s))"

text \<open>The stretch in which a call has its reservation and the provider is not called yet.\<close>

definition reserved_by :: "nat \<Rightarrow> receipt_key \<Rightarrow> mcp_state \<Rightarrow> bool" where
  "reserved_by i k s \<longleftrightarrow> (\<exists>b. ms_calls s i = Some (CReserved b) \<and> bc_key b = Some k)"

definition once :: "mcp_state \<Rightarrow> bool" where
  "once s \<longleftrightarrow> (\<forall>k.
     runs_of k s \<le> 1
     \<and> (\<forall>i. reserved_by i k s \<longrightarrow> runs_of k s = 0 \<and> (\<forall>j. reserved_by j k s \<longrightarrow> j = i))
     \<and> (rs_receipts (ms_receipts s) k = None \<longrightarrow> runs_of k s = 0 \<and> (\<forall>i. \<not> reserved_by i k s)))"

lemma onceD:
  assumes "once s"
  shows "runs_of k s \<le> 1" "reserved_by i k s \<Longrightarrow> runs_of k s = 0"
    "reserved_by i k s \<Longrightarrow> reserved_by j k s \<Longrightarrow> j = i"
    "rs_receipts (ms_receipts s) k = None \<Longrightarrow> runs_of k s = 0"
    "rs_receipts (ms_receipts s) k = None \<Longrightarrow> \<not> reserved_by i k s"
  using assms unfolding once_def by blast+

text \<open>What neither logs, reserves nor drops a receipt keeps the invariant.\<close>

lemma once_kept:
  assumes "once s" "ms_log s' = ms_log s"
    "\<And>i k. reserved_by i k s' \<Longrightarrow> reserved_by i k s"
    "receipts_grow (ms_receipts s) (ms_receipts s')"
  shows "once s'"
proof -
  have r: "runs_of k s' = runs_of k s" for k using assms(2) by (simp add: runs_of_def)
  have n: "rs_receipts (ms_receipts s) k = None" if "rs_receipts (ms_receipts s') k = None" for k
    using assms(4) that unfolding receipts_grow_def by (metis not_None_eq)
  show ?thesis
    using assms(1,3) n unfolding once_def r by blast
qed

lemma reserved_put: "(\<And>b. ph \<noteq> CReserved b) \<Longrightarrow> reserved_by j k (put_call i ph s) \<Longrightarrow> reserved_by j k s"
  by (auto simp: reserved_by_def put_call_def split: if_splits)

lemma reserved_end: "reserved_by j k (end_call i s) \<Longrightarrow> reserved_by j k s"
  by (auto simp: reserved_by_def end_call_def split: if_splits)

lemma reserved_simps [simp]:
  "reserved_by j k (s\<lparr>ms_answers := a\<rparr>) = reserved_by j k s"
  "reserved_by j k (s\<lparr>ms_receipts := rs\<rparr>) = reserved_by j k s"
  "reserved_by j k (s\<lparr>ms_creds := cr\<rparr>) = reserved_by j k s"
  "\<not> reserved_by j k (s\<lparr>ms_calls := (\<lambda>_. None)\<rparr>)"
  by (simp_all add: reserved_by_def)

lemma put_end_fields [simp]:
  "ms_log (put_call i ph s) = ms_log s" "ms_log (end_call i s) = ms_log s"
  "ms_receipts (put_call i ph s) = ms_receipts s" "ms_receipts (end_call i s) = ms_receipts s"
  "ms_answers (put_call i ph s) = ms_answers s" "ms_answers (end_call i s) = ms_answers s"
  "ms_creds (put_call i ph s) = ms_creds s" "ms_creds (end_call i s) = ms_creds s"
  by (simp_all add: put_call_def end_call_def)

lemma receipts_grow_None: "receipts_grow a b \<Longrightarrow> rs_receipts b k = None \<Longrightarrow> rs_receipts a k = None"
  unfolding receipts_grow_def by (metis not_None_eq)

lemma grow_objects: "receipts_grow rs (snd (record_object fault now kind i t scope rs))"
  by (auto simp: record_object_def receipts_grow_def split: option.splits)

lemma once_reserve:
  assumes "once s" "ms_calls s i = Some (CBound b)"
  shows "once (reserve_step fault now i b s)"
proof (cases "bc_key b")
  case None
  then have "reserved_by j k (reserve_step fault now i b s) \<Longrightarrow> reserved_by j k s" for j k
    by (auto simp: reserve_step_def reserved_by_def put_call_def split: if_splits)
  then show ?thesis
    by (rule once_kept [OF assms(1), rotated]) (use None in \<open>simp_all add: reserve_step_def put_call_def\<close>)
next
  case (Some k)
  obtain r rs where r: "reserve fault now k (bc_fp b) (ms_receipts s) = (r, rs)" by fastforce
  have g: "receipts_grow (ms_receipts s) rs" using reserve_grows [of "ms_receipts s" fault now k "bc_fp b"] r by simp
  show ?thesis
  proof (cases "r = Inr AdmNew")
    case True
    have new: "rs_receipts (ms_receipts s) k = None" "rs_receipts rs k \<noteq> None"
      using reserve_new [of fault now k "bc_fp b" "ms_receipts s" rs] r True by auto
    have s': "reserve_step fault now i b s = put_call i (CReserved b) (s\<lparr>ms_receipts := rs\<rparr>)"
      using Some r True by (simp add: reserve_step_def)
    have runs: "runs_of k' (reserve_step fault now i b s) = runs_of k' s" for k'
      by (simp add: s' runs_of_def put_call_def)
    have res: "reserved_by j k' (reserve_step fault now i b s) \<longleftrightarrow> (if j = i then k' = k else reserved_by j k' s)"
      for j k' using Some by (auto simp: s' reserved_by_def put_call_def)
    have none: "rs_receipts (ms_receipts s) k' = None"
      if "rs_receipts (ms_receipts (reserve_step fault now i b s)) k' = None" for k'
      using receipts_grow_None [OF g] that unfolding s' by simp
    show ?thesis
      using assms(1) new none unfolding once_def runs res
      by (auto simp: s' put_call_def split: if_splits)
  next
    case False
    have "reserved_by j k' (reserve_step fault now i b s) \<Longrightarrow> reserved_by j k' s" for j k'
      using Some r False
      by (auto simp: reserve_step_def reserved_by_def put_call_def end_call_def
          split: sum.splits mcp_admission.splits if_splits)
    moreover have "ms_log (reserve_step fault now i b s) = ms_log s"
      "ms_receipts (reserve_step fault now i b s) = rs"
      using Some r False
      by (auto simp: reserve_step_def put_call_def end_call_def split: sum.splits mcp_admission.splits)
    ultimately show ?thesis using g by (intro once_kept [OF assms(1)]) simp_all
  qed
qed

lemma once_invoke:
  assumes "once s" "ms_calls s i = Some (CReserved b)"
  shows "once (invoke_step now i b s)"
proof (cases "is_ok (check_active now (ms_creds s) (bc_context b))")
  case True
  then have s': "invoke_step now i b s = put_call i (CRunning b) (s\<lparr>ms_log := (i, b) # ms_log s\<rparr>)"
    by (simp add: invoke_step_def)
  have runs: "runs_of k (invoke_step now i b s) = (if bc_key b = Some k then Suc (runs_of k s) else runs_of k s)" for k
    by (simp add: s' runs_of_def put_call_def)
  have res: "reserved_by j k (invoke_step now i b s) \<longleftrightarrow> j \<noteq> i \<and> reserved_by j k s" for j k
    by (auto simp: s' reserved_by_def put_call_def)
  have mine: "bc_key b = Some k \<Longrightarrow> reserved_by i k s" for k using assms(2) by (simp add: reserved_by_def)
  have rec: "ms_receipts (invoke_step now i b s) = ms_receipts s" by (simp add: s' put_call_def)
  show ?thesis
    using assms(1) mine unfolding once_def runs res rec by (auto split: if_splits)
next
  case False
  then show ?thesis
    by (intro once_kept [OF assms(1)])
      (auto simp: invoke_step_def dest: reserved_end)
qed

lemma once_complete:
  assumes "once s" "ms_calls s i = Some (CRunning b)"
  shows "once (complete_step c fails now i b answer s)"
proof (cases "bc_key b")
  case None
  then show ?thesis
    by (intro once_kept [OF assms(1)])
      (auto simp: complete_step_def dest: reserved_put [rotated])
next
  case (Some k)
  obtain r rs where r: "complete (mc_print c) fails now k (bc_fp b) (settle_result c b answer) (ms_receipts s) = (r, rs)"
    by fastforce
  have g: "receipts_grow (ms_receipts s) rs"
    using complete_grows [of "ms_receipts s" "mc_print c" fails now k "bc_fp b" "settle_result c b answer"] r by simp
  have "reserved_by j k' (complete_step c fails now i b answer s) \<Longrightarrow> reserved_by j k' s" for j k'
    using Some r by (auto simp: complete_step_def Let_def reserved_by_def put_call_def end_call_def
        split: sum.splits if_splits)
  moreover have "ms_log (complete_step c fails now i b answer s) = ms_log s"
    "ms_receipts (complete_step c fails now i b answer s) = rs"
    using Some r by (auto simp: complete_step_def Let_def put_call_def end_call_def split: sum.splits)
  ultimately show ?thesis using g by (intro once_kept [OF assms(1)]) simp_all
qed

lemma once_step: "mcp_step c sz tid s t \<Longrightarrow> once s \<Longrightarrow> once t"
proof (induction rule: mcp_step.induct)
  case (call_arrives s i z ps t name args b)
  show ?case by (rule once_kept [OF call_arrives.prems]) (auto dest: reserved_put [rotated])
next
  case (call_reserves s i b fault now)
  then show ?case by (intro once_reserve)
next
  case (call_invokes s i b now)
  then show ?case by (intro once_invoke)
next
  case (call_completes s i b fails now answer)
  then show ?case by (intro once_complete)
next
  case (call_answers s i b r now)
  show ?case
    by (rule once_kept [OF call_answers.prems])
      (auto simp: answer_step_def dest: reserved_end split: if_splits)
next
  case (call_drops s i)
  show ?case by (rule once_kept [OF call_drops.prems]) (auto dest: reserved_end)
next
  case (object_made s fault now kind j t scope)
  show ?case by (rule once_kept [OF object_made.prems]) (auto simp: grow_objects)
next
  case (credential_managed s cr)
  show ?case by (rule once_kept [OF credential_managed.prems]) auto
next
  case (crashes s cr)
  show ?case by (rule once_kept [OF crashes.prems]) auto
qed

lemma once_start: "mcp_start s \<Longrightarrow> once s"
  by (simp add: once_def mcp_start_def runs_of_def reserved_by_def)

interpretation calls: guarded_system mcp_start "mcp_step c sz tid" once
  by unfold_locales (auto intro: once_start once_step)

section \<open>Answers\<close>

text \<open>What a result reads back as from its receipt: a null structure is none.\<close>

definition as_stored :: "tool_result \<Rightarrow> tool_result" where
  "as_stored r = r\<lparr>tr_structured := (case tr_structured r of Some JNull \<Rightarrow> None | x \<Rightarrow> x)\<rparr>"

lemma result_reads_as_stored: "tool_result_of_json (tool_result_json r) = Some (as_stored r)"
proof -
  obtain m where m: "tool_result_json r = JObject m"
    using json_object_sorted unfolding tool_result_json_def by metis
  have g: "json_get ''content'' (tool_result_json r) = Some (JArray (tr_content r))"
    "json_get ''isError'' (tool_result_json r) = Some (JBool (tr_error r))"
    "json_get ''structuredContent'' (tool_result_json r) = tr_structured r"
    by (auto simp: tool_result_json_def json_get_object split: option.splits)
  show ?thesis
    using m g by (simp add: tool_result_of_json_def as_stored_def split: option.splits json.splits)
qed

definition receipted :: "bound_call \<Rightarrow> mcp_state \<Rightarrow> bool" where
  "receipted b s \<longleftrightarrow> (\<forall>k. bc_key b = Some k \<longrightarrow>
     (\<exists>row. rs_receipts (ms_receipts s) k = Some row \<and> rr_fingerprint row = bc_fp b))"

definition call_settled :: "bound_call \<Rightarrow> tool_result \<Rightarrow> mcp_state \<Rightarrow> bool" where
  "call_settled b r s \<longleftrightarrow> (\<forall>k. bc_key b = Some k \<longrightarrow>
     (\<exists>row v. rs_receipts (ms_receipts s) k = Some row \<and> rr_fingerprint row = bc_fp b
        \<and> rr_result row = Some v \<and> tool_result_of_json v = Some (as_stored r)))"

definition answered :: "mcp_state \<Rightarrow> bool" where
  "answered s \<longleftrightarrow>
     (\<forall>i b. ms_calls s i = Some (CReserved b) \<longrightarrow> receipted b s)
     \<and> (\<forall>i b. ms_calls s i = Some (CRunning b) \<longrightarrow> receipted b s)
     \<and> (\<forall>i b r. ms_calls s i = Some (CFinished b r) \<longrightarrow> call_settled b r s)
     \<and> (\<forall>(i, b) \<in> set (ms_log s). receipted b s)
     \<and> (\<forall>(i, b, r) \<in> set (ms_answers s). call_settled b r s)"

lemma receipted_grow: "receipts_grow (ms_receipts s) (ms_receipts t) \<Longrightarrow> receipted b s \<Longrightarrow> receipted b t"
  unfolding receipts_grow_def receipted_def by metis

lemma settled_grow:
  assumes "receipts_grow (ms_receipts s) (ms_receipts t)" "call_settled b r s"
  shows "call_settled b r t"
proof -
  have "\<exists>row' v. rs_receipts (ms_receipts t) k = Some row' \<and> rr_fingerprint row' = bc_fp b
      \<and> rr_result row' = Some v \<and> tool_result_of_json v = Some (as_stored r)" if k: "bc_key b = Some k" for k
  proof -
    obtain row v where row: "rs_receipts (ms_receipts s) k = Some row" "rr_fingerprint row = bc_fp b"
        "rr_result row = Some v" "tool_result_of_json v = Some (as_stored r)"
      using assms(2) k unfolding call_settled_def by blast
    obtain row' where "rs_receipts (ms_receipts t) k = Some row'" "rr_fingerprint row' = rr_fingerprint row"
        "rr_result row' = rr_result row"
      using assms(1) row(1,3) unfolding receipts_grow_def by (metis option.distinct(1))
    then show ?thesis using row by auto
  qed
  then show ?thesis unfolding call_settled_def by blast
qed

text \<open>A step that at most puts one call into a phase, and adds to the log or the answers what is accounted for.\<close>

lemma answered_kept:
  assumes "answered s" "receipts_grow (ms_receipts s) (ms_receipts t)"
    and calls: "\<And>i ph. ms_calls t i = Some ph \<Longrightarrow> ms_calls s i = Some ph \<or>
      (case ph of CBound b \<Rightarrow> True | CReserved b \<Rightarrow> receipted b t | CRunning b \<Rightarrow> receipted b t
        | CFinished b r \<Rightarrow> call_settled b r t)"
    and log: "\<And>i b. (i, b) \<in> set (ms_log t) \<Longrightarrow> (i, b) \<in> set (ms_log s) \<or> receipted b t"
    and answers: "\<And>i b r. (i, b, r) \<in> set (ms_answers t) \<Longrightarrow> (i, b, r) \<in> set (ms_answers s) \<or> call_settled b r t"
  shows "answered t"
proof -
  note g = receipted_grow [OF assms(2)] settled_grow [OF assms(2)]
  show ?thesis
    unfolding answered_def
  proof (intro conjI allI impI ballI)
    fix i b assume "ms_calls t i = Some (CReserved b)"
    from calls [OF this] show "receipted b t" using assms(1) g(1) unfolding answered_def by auto
  next
    fix i b assume "ms_calls t i = Some (CRunning b)"
    from calls [OF this] show "receipted b t" using assms(1) g(1) unfolding answered_def by auto
  next
    fix i b r assume "ms_calls t i = Some (CFinished b r)"
    from calls [OF this] show "call_settled b r t" using assms(1) g(2) unfolding answered_def by auto
  next
    fix x assume x: "x \<in> set (ms_log t)"
    obtain i b where ib: "x = (i, b)" by (cases x)
    have old: "(i, b) \<in> set (ms_log s) \<Longrightarrow> receipted b s" using assms(1) unfolding answered_def by blast
    from x have "(i, b) \<in> set (ms_log s) \<or> receipted b t" unfolding ib by (rule log)
    with old g(1) show "case x of (i, b) \<Rightarrow> receipted b t" unfolding ib by simp blast
  next
    fix x assume x: "x \<in> set (ms_answers t)"
    obtain i b r where ib: "x = (i, b, r)" by (cases x)
    have old: "(i, b, r) \<in> set (ms_answers s) \<Longrightarrow> call_settled b r s" using assms(1) unfolding answered_def by blast
    from x have "(i, b, r) \<in> set (ms_answers s) \<or> call_settled b r t" unfolding ib by (rule answers)
    with old g(2) show "case x of (i, b, r) \<Rightarrow> call_settled b r t" unfolding ib by simp blast
  qed
qed

lemma calls_put: "ms_calls (put_call i ph s) j = Some ph' \<Longrightarrow> ms_calls s j = Some ph' \<or> j = i \<and> ph' = ph"
  by (auto simp: put_call_def split: if_splits)

lemma calls_end: "ms_calls (end_call i s) j = Some ph \<Longrightarrow> ms_calls s j = Some ph"
  by (auto simp: end_call_def split: if_splits)

lemma answered_reserve:
  assumes "answered s" "ms_calls s i = Some (CBound b)"
  shows "answered (reserve_step fault now i b s)"
proof (cases "bc_key b")
  case None
  then show ?thesis
    by (intro answered_kept [OF assms(1)])
      (auto simp: reserve_step_def receipted_def dest!: calls_put)
next
  case (Some k)
  obtain r rs where r: "reserve fault now k (bc_fp b) (ms_receipts s) = (r, rs)" by fastforce
  have g: "receipts_grow (ms_receipts s) rs" using reserve_grows [of "ms_receipts s" fault now k "bc_fp b"] r by simp
  let ?t = "reserve_step fault now i b s"
  consider (new) "r = Inr AdmNew" | (old) res where "r = Inr (AdmCompleted res)"
    | (no) "r \<noteq> Inr AdmNew" "\<forall>res. r \<noteq> Inr (AdmCompleted res)"
    by blast
  then show ?thesis
  proof cases
    case new
    then have t: "?t = put_call i (CReserved b) (s\<lparr>ms_receipts := rs\<rparr>)"
      using Some r by (simp add: reserve_step_def)
    have "receipted b ?t"
      using reserve_new(2) [of fault now k "bc_fp b" "ms_receipts s" rs] r new Some
      by (simp add: t receipted_def)
    then show ?thesis
      by (intro answered_kept [OF assms(1)]) (auto simp: t g dest!: calls_put)
  next
    case (old res)
    then have t: "?t = put_call i (CFinished b res) (s\<lparr>ms_receipts := rs\<rparr>)"
      using Some r by (simp add: reserve_step_def)
    have rs: "rs = ms_receipts s" using reserve_old [of fault now k "bc_fp b" "ms_receipts s"] r old by simp
    obtain row v where row: "rs_receipts (ms_receipts s) k = Some row" "rr_fingerprint row = bc_fp b"
        "rr_result row = Some v" "tool_result_of_json v = Some res"
      using reserve_completed [of fault now k "bc_fp b" "ms_receipts s" res] r old by auto
    have "as_stored res = res"
      using row(4) by (auto simp: tool_result_of_json_def as_stored_def split: option.splits json.splits)
    then have "call_settled b res ?t" using row Some by (simp add: t rs call_settled_def)
    then show ?thesis
      by (intro answered_kept [OF assms(1)]) (auto simp: t rs dest!: calls_put)
  next
    case no
    then have t: "?t = end_call i (s\<lparr>ms_receipts := rs\<rparr>)"
      using Some r by (auto simp: reserve_step_def split: sum.splits mcp_admission.splits)
    show ?thesis
      by (intro answered_kept [OF assms(1)]) (auto simp: t g dest!: calls_end)
  qed
qed

lemma answered_complete:
  assumes "answered s" "ms_calls s i = Some (CRunning b)"
  shows "answered (complete_step c fails now i b answer s)"
proof (cases "bc_key b")
  case None
  then show ?thesis
    by (intro answered_kept [OF assms(1)])
      (auto simp: complete_step_def call_settled_def Let_def dest!: calls_put)
next
  case (Some k)
  let ?r = "settle_result c b answer"
  let ?t = "complete_step c fails now i b answer s"
  obtain x rs where r: "complete (mc_print c) fails now k (bc_fp b) ?r (ms_receipts s) = (x, rs)" by fastforce
  have g: "receipts_grow (ms_receipts s) rs"
    using complete_grows [of "ms_receipts s" "mc_print c" fails now k "bc_fp b" ?r] r by simp
  show ?thesis
  proof (cases x)
    case (Inr u)
    then have t: "?t = put_call i (CFinished b ?r) (s\<lparr>ms_receipts := rs\<rparr>)"
      using Some r by (simp add: complete_step_def)
    have "call_settled b ?r ?t"
      using complete_done [of "mc_print c" fails now k "bc_fp b" ?r "ms_receipts s" rs] r Inr Some
      by (auto simp: t call_settled_def result_reads_as_stored)
    then show ?thesis
      by (intro answered_kept [OF assms(1)]) (auto simp: t g dest!: calls_put)
  next
    case (Inl e)
    then have t: "?t = end_call i (s\<lparr>ms_receipts := rs\<rparr>)"
      using Some r by (simp add: complete_step_def)
    show ?thesis
      by (intro answered_kept [OF assms(1)]) (auto simp: t g dest!: calls_end)
  qed
qed

lemma answered_step: "mcp_step c sz tid s t \<Longrightarrow> answered s \<Longrightarrow> answered t"
proof (induction rule: mcp_step.induct)
  case (call_arrives s i z ps t name args b)
  show ?case by (rule answered_kept [OF call_arrives.prems]) (auto dest!: calls_put)
next
  case (call_reserves s i b fault now)
  then show ?case by (intro answered_reserve)
next
  case (call_invokes s i b now)
  have "receipted b s" using call_invokes unfolding answered_def by blast
  then have "receipted b (invoke_step now i b s)" by (simp add: invoke_step_def receipted_def)
  then show ?case
    by (intro answered_kept [OF call_invokes.prems])
      (auto simp: invoke_step_def dest!: calls_put calls_end split: if_splits)
next
  case (call_completes s i b fails now answer)
  then show ?case by (intro answered_complete)
next
  case (call_answers s i b r now)
  have "call_settled b r s" using call_answers unfolding answered_def by blast
  then have "call_settled b r (answer_step now i b r s)" by (simp add: answer_step_def call_settled_def)
  then show ?case
    by (intro answered_kept [OF call_answers.prems])
      (auto simp: answer_step_def dest!: calls_end split: if_splits)
next
  case (call_drops s i)
  show ?case by (rule answered_kept [OF call_drops.prems]) (auto dest!: calls_end)
next
  case (object_made s fault now kind j t scope)
  show ?case by (rule answered_kept [OF object_made.prems]) (auto simp: grow_objects)
next
  case (credential_managed s cr)
  show ?case by (rule answered_kept [OF credential_managed.prems]) auto
next
  case (crashes s cr)
  show ?case by (rule answered_kept [OF crashes.prems]) auto
qed

interpretation replies: guarded_system mcp_start "mcp_step c sz tid" answered
  by unfold_locales (auto intro: answered_step, simp add: answered_def mcp_start_def)

end
