(* ===== verification/McpTheorems.thy ===== *)
theory McpTheorems
  imports McpSystem
begin

text \<open>
  What the tool interface promises: an operation runs at most once and is always answered
  alike, a provider is called under a live grant only, and a revoked credential is dead.
\<close>

section \<open>Grants\<close>

text \<open>
  The grant behind a call: the scopes of the tool, an operation id of its own where the tool
  has effects, and every device, package, plugin, runner and media it selects.
\<close>

definition granted :: "bound_call \<Rightarrow> bool" where
  "granted b \<longleftrightarrow>
     (let p = cx_principal (bc_context b); d = bc_descriptor b; f = td_context d
      in has_scopes (td_scopes d) p
         \<and> (is_read_only (td_effect d) \<or> (\<exists>k. bc_key b = Some k \<and> rk_token k = pr_id p))
         \<and> (\<forall>(kind, field) \<in> {(''device'', cf_device f), (''package'', cf_package f),
                (''plugin'', cf_plugin f), (''runner'', cf_runner f), (''media'', cf_media f)}.
             case field of
               None \<Rightarrow> True
             | Some x \<Rightarrow> (\<exists>i. selected (bc_args b) x = Some i \<and> authorize kind i (pr_allowed p) = Inr ())))"

lemma catalog_visible:
  "catalog_from c sz p names ds = Inr m \<Longrightarrow> (n, (d, v)) \<in> set m \<Longrightarrow> visible_to p d"
proof (induction c sz p names ds arbitrary: m rule: catalog_from.induct)
  case (2 c sz p names d0 v0 ds)
  from "2.prems"(1) obtain d' m' where
      n: "normalize_descriptor c sz d0 = Inr d'" "td_name d' \<notin> names"
      "catalog_from c sz p (insert (td_name d') names) ds = Inr m'"
    and m: "m = (if visible_to p d' then ins_by str_cmp (td_name d') (d', v0) m' else m')"
    by (auto simp: and_then_eq_Inr split: if_splits)
  show ?case
  proof (cases "(n, (d, v)) \<in> set m'")
    case True
    then show ?thesis using "2.IH" [OF n(2,3)] n by blast
  next
    case False
    then show ?thesis
      using "2.prems"(2) ins_by_set [of str_cmp "td_name d'" "(d', v0)" m'] by (auto simp: m split: if_splits)
  qed
qed simp

lemma bind_selector_principal:
  "bind_selector z k i cx = Inr cx' \<Longrightarrow> cx_principal cx' = cx_principal cx"
  by (cases k) (auto simp: bind_selector_def and_then_eq_Inr)

lemma bind_all_authorized:
  "bind_all z args ks cx sel = Inr (cx', sel') \<Longrightarrow>
    cx_principal cx' = cx_principal cx
    \<and> (\<forall>k f. (k, Some f) \<in> set ks \<longrightarrow> (\<exists>i cx1 cx2. selected args f = Some i
        \<and> cx_principal cx1 = cx_principal cx \<and> bind_selector z k i cx1 = Inr cx2))"
proof (induction z args ks cx sel rule: bind_all.induct)
  case (3 z args k f ks cx sel)
  from "3.prems" obtain i cx2 where i: "selected args f = Some i" "bind_selector z k i cx = Inr cx2"
    and rest: "bind_all z args ks cx2 (obj_insert (selector_name k) (JString i) sel) = Inr (cx', sel')"
    by (auto simp: and_then_eq_Inr split: option.splits)
  have "cx_principal cx2 = cx_principal cx" using i(2) by (rule bind_selector_principal)
  then show ?case using "3.IH" [OF i(1) rest] i by (metis (no_types) option.inject prod.inject set_ConsD)
qed auto

lemma authorized_kind:
  assumes "bind_selector z k i cx = Inr cx'" "k \<in> {SelDevice, SelPackage, SelPlugin, SelRunner, SelMedia}"
  shows "authorize (selector_name k) i (pr_allowed (cx_principal cx)) = Inr ()"
  using assms by (auto simp: bind_selector_def authorize_object_def and_then_eq_Inr)

lemma operation_of_some:
  assumes "operation_of e args = Inr op"
  shows "is_read_only e \<or> op \<noteq> None"
proof (cases "is_read_only e")
  case False
  then obtain i where "Option.bind (json_get ''operation_id'' args) as_str = Some i"
    using assms by (cases "Option.bind (json_get ''operation_id'' args) as_str") (simp_all add: operation_of_def)
  then show ?thesis using assms False by (simp add: operation_of_def split: if_splits) metis
qed simp

lemma context_principal: "cx_principal (new_context p name op) = p"
  by (simp add: new_context_def)

lemma prepared_granted:
  assumes "prepare_call c sz z ps tid name args = Inr b"
  shows "granted b"
proof -
  from assms obtain p entries d v op cx obj where
      cat: "catalog c sz p ps = Inr entries" "map_of entries name = Some (d, v)"
    and op: "operation_of (td_effect d) args = Inr op"
    and cx: "bind_context c z (td_context d) args (new_context p name op) = Inr (cx, obj)"
    and b: "b = \<lparr>bc_context = cx, bc_descriptor = d, bc_provider = v,
             bc_key = map_option (\<lambda>i. \<lparr>rk_token = pr_id (cx_principal cx), rk_tool = name,
                 rk_object = obj, rk_operation = i\<rparr>) op,
             bc_fp = hash_json c args, bc_args = args\<rparr>"
    by (auto simp: prepare_call_def and_then_eq_Inr split: option.splits prod.splits)
  obtain sel where sel: "bind_all z args (selector_fields (td_context d)) (new_context p name op) [] = Inr (cx, sel)"
    using cx by (auto simp: bind_context_def and_then_eq_Inr)
  note all = bind_all_authorized [OF sel]
  have p: "cx_principal cx = p" using all by (simp add: new_context_def)
  have "visible_to p d"
    using catalog_visible cat map_of_SomeD unfolding catalog_def by metis
  then have scopes: "has_scopes (td_scopes d) p" by (simp add: visible_to_def)
  have ro: "is_read_only (td_effect d) \<or> op \<noteq> None"
    by (rule operation_of_some [OF op])
  have sel_ok: "case field of None \<Rightarrow> True
      | Some f \<Rightarrow> (\<exists>i. selected args f = Some i \<and> authorize (selector_name k) i (pr_allowed p) = Inr ())"
    if "(k, field) \<in> set (selector_fields (td_context d))" "k \<in> {SelDevice, SelPackage, SelPlugin, SelRunner, SelMedia}"
    for k field
  proof (cases field)
    case (Some f)
    from all that(1) obtain i cx1 cx2 where "selected args f = Some i" "cx_principal cx1 = p"
        "bind_selector z k i cx1 = Inr cx2"
      unfolding Some using context_principal [of p name op] by metis
    then show ?thesis using authorized_kind [OF _ that(2)] Some by auto
  qed simp
  have key: "is_read_only (td_effect d) \<or> (\<exists>k. bc_key b = Some k \<and> rk_token k = pr_id p)"
    using ro by (cases op) (simp_all add: b p)
  show ?thesis
    using scopes key sel_ok [of SelDevice, unfolded selector_name.simps] sel_ok [of SelPackage, unfolded selector_name.simps]
      sel_ok [of SelPlugin, unfolded selector_name.simps] sel_ok [of SelRunner, unfolded selector_name.simps]
      sel_ok [of SelMedia, unfolded selector_name.simps]
    unfolding granted_def Let_def by (simp add: b p selector_fields_def)
qed

definition phase_call :: "call_phase \<Rightarrow> bound_call" where
  "phase_call ph = (case ph of CBound b \<Rightarrow> b | CReserved b \<Rightarrow> b | CRunning b \<Rightarrow> b | CFinished b r \<Rightarrow> b)"

definition all_granted :: "mcp_state \<Rightarrow> bool" where
  "all_granted s \<longleftrightarrow> (\<forall>i ph. ms_calls s i = Some ph \<longrightarrow> granted (phase_call ph))
     \<and> (\<forall>i b. (i, b) \<in> set (ms_log s) \<longrightarrow> granted b)"

lemma granted_kept:
  assumes "all_granted s"
    "\<And>i ph. ms_calls t i = Some ph \<Longrightarrow> (\<exists>j ph'. ms_calls s j = Some ph' \<and> phase_call ph = phase_call ph')
       \<or> granted (phase_call ph)"
    "\<And>i b. (i, b) \<in> set (ms_log t) \<Longrightarrow> (i, b) \<in> set (ms_log s) \<or> granted b"
  shows "all_granted t"
  using assms unfolding all_granted_def by metis

text \<open>Every step leaves the calls it finds, or moves one of them on.\<close>

lemma step_calls:
  assumes "mcp_step c sz tid s t" "ms_calls t j = Some ph"
  shows "(\<exists>ph'. ms_calls s j = Some ph' \<and> phase_call ph = phase_call ph') \<or> granted (phase_call ph)"
  using assms
proof (induction rule: mcp_step.induct)
  case (call_arrives s i z ps t name args b)
  then show ?case using prepared_granted [OF call_arrives(4)] by (auto simp: phase_call_def dest!: calls_put)
next
  case (call_reserves s i b fault now)
  then show ?case
    by (auto simp: reserve_step_def phase_call_def dest!: calls_put calls_end
        split: option.splits prod.splits sum.splits mcp_admission.splits)
next
  case (call_invokes s i b now)
  then show ?case
    by (auto simp: invoke_step_def phase_call_def dest!: calls_put calls_end split: if_splits)
next
  case (call_completes s i b fails now answer)
  then show ?case
    by (auto simp: complete_step_def phase_call_def Let_def dest!: calls_put calls_end
        split: option.splits prod.splits sum.splits)
next
  case (call_answers s i b r now)
  then show ?case by (auto simp: answer_step_def dest!: calls_end split: if_splits)
next
  case (call_drops s i)
  then show ?case by (auto dest!: calls_end)
qed auto

lemma step_log:
  assumes "mcp_step c sz tid s t"
  shows "ms_log t = ms_log s \<or> (\<exists>i b now. ms_calls s i = Some (CReserved b) \<and> ms_log t = (i, b) # ms_log s
    \<and> is_ok (check_active now (ms_creds s) (bc_context b)))"
  using assms
proof (induction rule: mcp_step.induct)
  case (call_reserves s i b fault now)
  show ?case
    by (simp add: reserve_step_def split: option.splits prod.splits sum.splits mcp_admission.splits)
next
  case (call_invokes s i b now)
  then show ?case by (auto simp: invoke_step_def)
next
  case (call_completes s i b fails now answer)
  show ?case by (simp add: complete_step_def Let_def split: option.splits prod.splits sum.splits)
qed (simp_all add: answer_step_def)

lemma granted_step: "all_granted s \<Longrightarrow> mcp_step c sz tid s t \<Longrightarrow> all_granted t"
proof (rule granted_kept)
  assume g: "all_granted s" and st: "mcp_step c sz tid s t"
  show "(\<exists>j ph'. ms_calls s j = Some ph' \<and> phase_call ph = phase_call ph') \<or> granted (phase_call ph)"
    if "ms_calls t i = Some ph" for i ph
    using step_calls [OF st that] by blast
  show "(i, b) \<in> set (ms_log s) \<or> granted b" if "(i, b) \<in> set (ms_log t)" for i b
  proof -
    from step_log [OF st] that consider "(i, b) \<in> set (ms_log s)"
      | "ms_calls s i = Some (CReserved b)" by auto
    then show ?thesis
    proof cases
      case 2
      then have "granted (phase_call (CReserved b))" using g unfolding all_granted_def by blast
      then show ?thesis by (simp add: phase_call_def)
    qed simp
  qed
qed simp

interpretation grants: guarded_system mcp_start "mcp_step c sz tid" all_granted
  by unfold_locales (auto intro: granted_step, simp add: all_granted_def mcp_start_def)

section \<open>Dead credentials\<close>

lemma step_creds: "mcp_step c sz tid s t \<Longrightarrow> ms_creds t = ms_creds s \<or> cred_step tid (ms_creds s) (ms_creds t)"
proof (induction rule: mcp_step.induct)
  case (call_reserves s i b fault now)
  show ?case
    by (simp add: reserve_step_def split: option.splits prod.splits sum.splits mcp_admission.splits)
next
  case (call_completes s i b fails now answer)
  show ?case by (simp add: complete_step_def Let_def split: option.splits prod.splits sum.splits)
qed (simp_all add: invoke_step_def answer_step_def)

lemma creds_ok_step: "cred_ok (ms_creds s) \<Longrightarrow> mcp_step c sz tid s t \<Longrightarrow> cred_ok (ms_creds t)"
  using step_creds cred_step_ok by metis

interpretation stores: guarded_system mcp_start "mcp_step c sz tid" "\<lambda>s. cred_ok (ms_creds s)"
  by unfold_locales (auto intro: creds_ok_step, simp add: mcp_start_def)

lemma step_answers:
  assumes "mcp_step c sz tid s t"
  shows "ms_answers t = ms_answers s \<or> (\<exists>i b r now. ms_answers t = (i, b, r) # ms_answers s
    \<and> is_ok (check_active now (ms_creds s) (bc_context b)))"
  using assms
proof (induction rule: mcp_step.induct)
  case (call_reserves s i b fault now)
  show ?case
    by (simp add: reserve_step_def split: option.splits prod.splits sum.splits mcp_admission.splits)
next
  case (call_completes s i b fails now answer)
  show ?case by (simp add: complete_step_def Let_def split: option.splits prod.splits sum.splits)
next
  case (call_answers s i b r now)
  show ?case by (auto simp: answer_step_def)
qed (simp_all add: invoke_step_def)

definition calls_by :: "string \<Rightarrow> mcp_state \<Rightarrow> (nat \<times> bound_call) list" where
  "calls_by tid s = filter (\<lambda>(i, b). pr_id (cx_principal (bc_context b)) = tid) (ms_log s)"

definition answers_to :: "string \<Rightarrow> mcp_state \<Rightarrow> (nat \<times> bound_call \<times> tool_result) list" where
  "answers_to tid s = filter (\<lambda>(i, b, r). pr_id (cx_principal (bc_context b)) = tid) (ms_answers s)"

lemma dead_call_step:
  assumes "mcp_step c sz tid s t" "token_dead tid (ms_creds s)" "cred_ok (ms_creds s)"
  shows "calls_by tid t = calls_by tid s" "answers_to tid t = answers_to tid s" "token_dead tid (ms_creds t)"
proof -
  have no: "\<not> is_ok (check_active now (ms_creds s) cx)" if "pr_id (cx_principal cx) = tid" for now cx
    using dead_not_active [OF assms(2)] that by (simp add: check_active_def is_ok_def ensure_def split: if_splits)
  show "calls_by tid t = calls_by tid s" using step_log [OF assms(1)] no by (auto simp: calls_by_def)
  show "answers_to tid t = answers_to tid s" using step_answers [OF assms(1)] no by (auto simp: answers_to_def)
  show "token_dead tid (ms_creds t)" using step_creds [OF assms(1)] dead_step assms(2,3) by metis
qed

lemma dead_call_steps:
  assumes "(mcp_step c sz tid)\<^sup>*\<^sup>* s t" "token_dead tid (ms_creds s)" "cred_ok (ms_creds s)"
  shows "calls_by tid t = calls_by tid s \<and> answers_to tid t = answers_to tid s
    \<and> token_dead tid (ms_creds t) \<and> cred_ok (ms_creds t)"
  using assms
proof (induction rule: rtranclp_induct)
  case (step t u)
  then show ?case using dead_call_step [OF step(2)] creds_ok_step [OF _ step(2)] by simp
qed simp

section \<open>The promises\<close>

text \<open>
  C11. Whatever calls, retries, cancellations, credential changes and crashes come in whatever
  order, one operation - a token, a tool, the objects it selects, an operation id - is handed
  to a provider at most once.
\<close>

theorem operation_runs_at_most_once:
  assumes "reach mcp_start (mcp_step c sz tid) s"
  shows "runs_of k s \<le> 1"
  using calls.reach_inv [OF assms] by (rule onceD(1))

text \<open>
  C27. Two callers that were answered for the same operation got the same result, as it reads
  back from the receipt, and had sent the same arguments (as far as their digest tells):
  an operation id cannot be used for a second action.
\<close>

theorem same_operation_same_answer:
  assumes "reach mcp_start (mcp_step c sz tid) s"
    "(i, b, r) \<in> set (ms_answers s)" "(j, b', r') \<in> set (ms_answers s)"
    "bc_key b = Some k" "bc_key b' = Some k"
  shows "as_stored r = as_stored r' \<and> bc_fp b = bc_fp b'"
proof -
  have a: "answered s" using replies.reach_inv [OF assms(1)] .
  have "call_settled b r s" "call_settled b' r' s" using a assms(2,3) unfolding answered_def by blast+
  then show ?thesis using assms(4,5) unfolding call_settled_def by fastforce
qed



text \<open>
  C30. A credential that was created lets its secret in, with exactly the scopes and objects
  asked for, until its lifetime is over - or for ever when that is zero. The secret is a
  fresh one: no other credential has its digest.
\<close>

theorem created_token_authenticates:
  assumes "cred_ok st" "create_token dig secret i enc now w q st = (Inr (shown, m), st')"
    "valid_secret secret" "\<forall>(j, t) \<in> set (cr_tokens st). st_digest t \<noteq> dig secret" "0 \<le> now" "now < i64_max"
  shows "authenticate_at dig shown later st' =
    (if cq_lifetime q = 0 \<or> later < min (now + int (cq_lifetime q)) i64_max
     then Inr \<lparr>pr_id = i, pr_label = trim (cq_label q), pr_scopes = cq_scopes q, pr_allowed = cq_allowed q,
       pr_expires = (if cq_lifetime q = 0 then 0 else min (now + int (cq_lifetime q)) i64_max)\<rparr>
     else Inl err_unauthorized)"
proof (cases rule: create_cases [of dig secret i enc now w q st])
  case (made nxt)
  let ?t = "\<lparr>st_meta = new_metadata q i now, st_digest = dig secret, st_encrypted = enc\<rparr>"
  have eqs: "shown = secret" "m = new_metadata q i now" "cr_tokens st' = nxt" using assms(2) made(1) by auto
  have "map_of nxt i = Some ?t"
    using assms(1) by (simp add: made(2) str_ord.ins_get cred_ok_def table_ok_def)
  then have there: "(i, ?t) \<in> set nxt" by (rule map_of_SomeD)
  have others: "\<forall>(j, t) \<in> set nxt. st_digest t = dig secret \<longrightarrow> t = ?t"
    using assms(4) ins_by_set [of str_cmp i ?t "cr_tokens st"] by (auto simp: made(2))
  have "find_token (dig secret) ts = Some ?t"
    if "(i, ?t) \<in> set ts" "\<forall>(j, t) \<in> set ts. st_digest t = dig secret \<longrightarrow> t = ?t" for ts
    using that by (induction ts) (auto simp: constant_time_eq_iff)
  then have "find_token (dig secret) (cr_tokens st') = Some ?t" using there others eqs(3) by blast
  moreover have "0 < i64_max" by (simp add: i64_max_def)
  ultimately show ?thesis
    using assms(3,5,6)
    by (auto simp: authenticate_at_def eqs(1) principal_of_def token_live_def new_metadata_def
        is_full_access_def insert_absorb)
qed (use assms(2) in simp)

text \<open>
  Whatever becomes of its writes, the store and its file agree after any operation, no
  credential is filed under another's id, and there are never more than 1024.
\<close>

theorem credential_store_is_its_file:
  assumes "reach (\<lambda>st. st = \<lparr>cr_tokens = [], cr_disk = None\<rparr>) (cred_step tid) st"
  shows "cred_ok st"
  by (rule creds.reach_inv [OF assms])

text \<open>
  A recorded object reads back with its owner and scope, and a second record of it under
  another owner or scope is refused without a change.
\<close>

theorem ownership_recorded_once:
  assumes "record_object fault now kind i tok scope st = (Inr (), st')"
  shows "object_of False kind i st' = Inr (Some \<lparr>oo_token = tok, oo_scope = scope\<rparr>)
    \<and> (if tok' = tok \<and> scope' = scope then True
       else is_ok (fst (record_object fault' now' kind i tok' scope' st')) = False
         \<and> snd (record_object fault' now' kind i tok' scope' st') = st')"
proof (intro conjI)
  show "object_of False kind i st' = Inr (Some \<lparr>oo_token = tok, oo_scope = scope\<rparr>)"
    by (rule owned_object_reads_back [OF assms])
  have inj: "scope_json a = scope_json b \<longleftrightarrow> a = b" for a b
    using scope_reads_back [of a] scope_reads_back [of b] by (metis option.inject)
  obtain row where "rs_objects st' (kind, i) = Some row" "ow_token row = tok" "ow_scope row = scope_json scope"
    using assms by (auto simp: record_object_def split: if_splits option.splits)
  then show "if tok' = tok \<and> scope' = scope then True
       else is_ok (fst (record_object fault' now' kind i tok' scope' st')) = False
         \<and> snd (record_object fault' now' kind i tok' scope' st') = st'"
    by (auto simp: record_object_def is_ok_def inj)
qed

section \<open>A sample\<close>

definition sample_crates :: mcp_crates where
  "sample_crates = \<lparr>mc_print = (\<lambda>_. ''x''), mc_hash = (\<lambda>s. s), mc_schema = (\<lambda>_. None), mc_errors = (\<lambda>_ _. [])\<rparr>"

definition sample_size :: "tool_descriptor \<Rightarrow> nat" where "sample_size d = 0"

definition no_objects :: allowed_objects where
  "no_objects = \<lparr>al_devices = {}, al_packages = {}, al_plugins = {}, al_runners = {}, al_runs = {},
     al_tasks = {}, al_media = {}\<rparr>"

definition sample_token :: stored_token where
  "sample_token = \<lparr>st_meta = \<lparr>tm_id = ''t'', tm_label = ''agent'', tm_scopes = {''run''},
      tm_allowed = no_objects\<lparr>al_devices := {''d''}\<rparr>, tm_created = 0, tm_expires = 0, tm_revoked = False,
      tm_full = Some False\<rparr>, st_digest = ''digest'', st_encrypted = None\<rparr>"

definition sample_tool :: tool_descriptor where
  "sample_tool = \<lparr>td_name = ''go'', td_description = ''go'', td_input = JObject [(''type'', JString ''object'')],
     td_output = None, td_scopes = {''run''}, td_effect = EffRunSubmit,
     td_context = \<lparr>cf_device = Some ''device'', cf_package = None, cf_plugin = None, cf_runner = None,
       cf_run = None, cf_task = None, cf_media = None, cf_session = None\<rparr>\<rparr>"

definition sample_provider :: provider where
  "sample_provider = \<lparr>pv_id = ''core'', pv_owner = None, pv_tools = [sample_tool], pv_for = (\<lambda>_. [sample_tool])\<rparr>"

definition sample_arguments :: json where
  "sample_arguments = JObject [(''device'', JString ''d''), (''operation_id'', JString ''1'')]"

definition sample_state :: mcp_state where
  "sample_state = \<lparr>ms_creds = \<lparr>cr_tokens = [(''t'', sample_token)], cr_disk = Some [(''t'', sample_token)]\<rparr>,
     ms_receipts = \<lparr>rs_receipts = (\<lambda>_. None), rs_objects = (\<lambda>_. None)\<rparr>, ms_calls = (\<lambda>_. None),
     ms_log = [], ms_answers = []\<rparr>"

definition sample_authorizer :: "mcp_state \<Rightarrow> authorizer" where
  "sample_authorizer s = \<lparr>az_now = 0, az_creds = ms_creds s, az_receipts = ms_receipts s, az_fails = (\<lambda>_. False)\<rparr>"

definition sample_key :: receipt_key where
  "sample_key = \<lparr>rk_token = ''t'', rk_tool = ''go'', rk_object = ''x'', rk_operation = ''1''\<rparr>"

lemma sample_start: "mcp_start sample_state"
  by (simp add: mcp_start_def sample_state_def cred_ok_def table_ok_def sample_token_def)

definition sample_schema :: "(string \<times> json) list" where
  "sample_schema = (case with_operation_id (or_insert ''additionalProperties'' (JBool False) [(''type'', JString ''object'')]) of Inr m \<Rightarrow> m | Inl _ \<Rightarrow> [])"

lemma sample_schema_ok: "with_operation_id (or_insert ''additionalProperties'' (JBool False) [(''type'', JString ''object'')]) = Inr sample_schema \<and> external_refs_fields 0 sample_schema = None"
  by code_simp

lemma sample_normal: "normalize_descriptor sample_crates sample_size sample_tool = Inr (sample_tool\<lparr>td_input := JObject sample_schema\<rparr>)"
  using sample_schema_ok by (simp add: normalize_descriptor_def sample_tool_def sample_crates_def sample_size_def valid_tool_name_def ascii_defs
    trim_def trim_start_bytes.simps trim_end_rev.simps valid_token_scope_def token_scope_char_def is_read_only_def
     Let_def compile_def MAX_SCHEMA_BYTES_def)


lemma sample_valid: "validate_schema sample_crates (JObject sample_schema) v = Inr ()"
  using sample_schema_ok by (simp add: validate_schema_def compile_def MAX_SCHEMA_BYTES_def sample_crates_def)

lemma sample_operation: "operation_of EffRunSubmit sample_arguments = Inr (Some ''1'')"
  by (simp add: operation_of_def sample_arguments_def is_read_only_def trim_def trim_start_bytes.simps
    trim_end_rev.simps)

lemma sample_tool_fields: "td_name sample_tool = ''go''" "td_scopes sample_tool = {''run''}"
  "td_effect sample_tool = EffRunSubmit" "td_output sample_tool = None"
  "cf_device (td_context sample_tool) = Some ''device''" "cf_package (td_context sample_tool) = None"
  "cf_plugin (td_context sample_tool) = None" "cf_runner (td_context sample_tool) = None"
  "cf_run (td_context sample_tool) = None" "cf_task (td_context sample_tool) = None"
  "cf_media (td_context sample_tool) = None" "cf_session (td_context sample_tool) = None"
  by (simp_all add: sample_tool_def)

definition sample_principal :: principal where
  "sample_principal = \<lparr>pr_id = ''t'', pr_label = ''agent'', pr_scopes = {''run''},
    pr_allowed = no_objects\<lparr>al_devices := {''d''}\<rparr>, pr_expires = 0\<rparr>"

lemma sample_live: "principal_for_id ''t'' now (ms_creds sample_state) = Inr sample_principal"
  by (simp add: sample_state_def principal_for_id_def by_token_id_def principal_of_def
    token_live_def sample_token_def is_full_access_def sample_principal_def)

lemma sample_catalog: "catalog sample_crates sample_size sample_principal [sample_provider]
   = Inr [(''go'', (sample_tool\<lparr>td_input := JObject sample_schema\<rparr>, sample_provider))]"
  by (simp add: catalog_def offered_def sample_provider_def sample_normal visible_to_def has_scopes_def
    context_has_allowed_objects_def sample_tool_fields sample_principal_def)

lemma sample_bound: "\<exists>cx. bind_context sample_crates (sample_authorizer sample_state) (td_context sample_tool)
    sample_arguments (new_context sample_principal ''go'' (Some ''1'')) = Inr (cx, ''x'')
    \<and> pr_id (cx_principal cx) = ''t'' \<and> \<not> cx_cancelled cx"
  by (simp add: bind_context_def selector_fields_def sample_tool_fields selected_def sample_arguments_def
    bind_selector_def authorize_object_def check_active_def token_is_active_def new_context_def sample_authorizer_def
    sample_live authorize_def allowed_of_def sample_principal_def [THEN arg_cong [where f = pr_id]]
     sample_principal_def [THEN arg_cong [where f = pr_allowed]] sample_crates_def)

lemma sample_prepared: "\<exists>b. prepare_call sample_crates sample_size (sample_authorizer sample_state) [sample_provider] ''t'' ''go''
      sample_arguments = Inr b
    \<and> bc_key b = Some sample_key \<and> pr_id (cx_principal (bc_context b)) = ''t'' \<and> bc_fp b = ''x''
    \<and> \<not> cx_cancelled (bc_context b) \<and> td_output (bc_descriptor b) = None"
proof -
  obtain cx where cx: "bind_context sample_crates (sample_authorizer sample_state) (td_context sample_tool)
    sample_arguments (new_context sample_principal ''go'' (Some ''1'')) = Inr (cx, ''x'')"
    "pr_id (cx_principal cx) = ''t''" "\<not> cx_cancelled cx" using sample_bound by blast
  have args: "as_object sample_arguments \<noteq> None" "hash_json sample_crates sample_arguments = ''x''"
    "length (mc_print sample_crates sample_arguments) \<le> MAX_ARGUMENT_BYTES"
    by (simp_all add: sample_arguments_def hash_json_def sample_crates_def MAX_ARGUMENT_BYTES_def)
  show ?thesis
    using cx args(1,3)
    by (simp add: prepare_call_def sample_authorizer_def sample_live sample_catalog sample_valid
      sample_tool_fields sample_operation args(2) sample_key_def)
qed

text \<open>One call, from its arrival to its answer.\<close>

definition sample_result :: tool_result where
  "sample_result = \<lparr>tr_content = [], tr_structured = None, tr_error = False\<rparr>"

lemma sample_active:
  "pr_id (cx_principal cx) = ''t'' \<Longrightarrow> \<not> cx_cancelled cx \<Longrightarrow> ms_creds s = ms_creds sample_state
    \<Longrightarrow> is_ok (check_active 0 (ms_creds s) cx)"
  by (simp add: check_active_def token_is_active_def sample_live)

lemma mcp_sample_run:
  "\<exists>b s. reach mcp_start (mcp_step sample_crates sample_size tid) s \<and> ms_log s = [(0, b)]
     \<and> ms_answers s = [(0, b, sample_result)] \<and> bc_key b = Some sample_key
     \<and> pr_id (cx_principal (bc_context b)) = ''t'' \<and> ms_creds s = ms_creds sample_state"
proof -
  let ?step = "mcp_step sample_crates sample_size tid"
  obtain b where b: "prepare_call sample_crates sample_size (sample_authorizer sample_state) [sample_provider]
      ''t'' ''go'' sample_arguments = Inr b" "bc_key b = Some sample_key"
      "pr_id (cx_principal (bc_context b)) = ''t''" "bc_fp b = ''x''" "\<not> cx_cancelled (bc_context b)"
      "td_output (bc_descriptor b) = None"
    using sample_prepared by blast
  define s1 where "s1 = put_call 0 (CBound b) sample_state"
  define s2 where "s2 = reserve_step None 0 0 b s1"
  define s3 where "s3 = invoke_step 0 0 b s2"
  define s4 where "s4 = complete_step sample_crates False 0 0 b (Inr sample_result) s3"
  define s5 where "s5 = answer_step 0 0 b sample_result s4"
  have r1: "reach mcp_start ?step s1"
    unfolding s1_def
    by (rule reach_step [OF reach_init [where init = mcp_start]], rule sample_start, rule call_arrives)
      (use b(1) in \<open>simp_all add: sample_authorizer_def sample_state_def\<close>)
  have c1: "ms_calls s1 0 = Some (CBound b)" "ms_creds s1 = ms_creds sample_state" "ms_log s1 = []"
      "ms_answers s1 = []" "rs_receipts (ms_receipts s1) sample_key = None"
    by (simp_all add: s1_def put_call_def sample_state_def)
  have r2: "reach mcp_start ?step s2"
    unfolding s2_def by (rule reach_step [OF r1 call_reserves [OF c1(1)]])
  have c2: "ms_calls s2 0 = Some (CReserved b)" "ms_creds s2 = ms_creds sample_state" "ms_log s2 = []"
      "ms_answers s2 = []" "\<exists>row. rs_receipts (ms_receipts s2) sample_key = Some row
        \<and> rr_fingerprint row = ''x'' \<and> rr_result row = None"
    using c1 b(2,4) by (simp_all add: s2_def reserve_step_def reserve_def put_call_def)
  have r3: "reach mcp_start ?step s3"
    unfolding s3_def by (rule reach_step [OF r2 call_invokes [OF c2(1)]])
  have c3: "ms_calls s3 0 = Some (CRunning b)" "ms_creds s3 = ms_creds sample_state" "ms_log s3 = [(0, b)]"
      "ms_answers s3 = []" "\<exists>row. rs_receipts (ms_receipts s3) sample_key = Some row
        \<and> rr_fingerprint row = ''x'' \<and> rr_result row = None"
    using c2 sample_active [OF b(3,5) c2(2)] by (simp_all add: s3_def invoke_step_def put_call_def)
  have r4: "reach mcp_start ?step s4"
    unfolding s4_def by (rule reach_step [OF r3 call_completes [OF c3(1)]])
  have settle: "settle_result sample_crates b (Inr sample_result) = sample_result"
    using b(6) by (simp add: settle_result_def sample_result_def)
  have small: "\<not> MAX_RESULT_BYTES < length (mc_print sample_crates (tool_result_json sample_result))"
    by (simp add: sample_crates_def MAX_RESULT_BYTES_def)
  have c4: "ms_calls s4 0 = Some (CFinished b sample_result)" "ms_creds s4 = ms_creds sample_state"
      "ms_log s4 = [(0, b)]" "ms_answers s4 = []"
    using c3 b(2,4) small
    by (auto simp: s4_def complete_step_def settle complete_def put_call_def)
  have r5: "reach mcp_start ?step s5"
    unfolding s5_def by (rule reach_step [OF r4 call_answers [OF c4(1)]])
  have "ms_log s5 = [(0, b)] \<and> ms_answers s5 = [(0, b, sample_result)] \<and> ms_creds s5 = ms_creds sample_state"
    using c4 sample_active [OF b(3,5) c4(2)] by (simp add: s5_def answer_step_def)
  then show ?thesis using r5 b(2,3) by blast
qed

section \<open>Witnesses\<close>

theorem operation_runs_at_most_once_witness:
  "\<exists>s. reach mcp_start (mcp_step sample_crates sample_size []) s \<and> runs_of sample_key s = 1
     \<and> runs_of sample_key s \<le> 1"
proof -
  obtain b s where s: "reach mcp_start (mcp_step sample_crates sample_size []) s" "ms_log s = [(0, b)]"
      "bc_key b = Some sample_key"
    using mcp_sample_run by blast
  then show ?thesis
    using operation_runs_at_most_once [OF s(1), of sample_key] by (auto simp: runs_of_def)
qed

theorem same_operation_same_answer_witness:
  "\<exists>s b. reach mcp_start (mcp_step sample_crates sample_size []) s
     \<and> (0, b, sample_result) \<in> set (ms_answers s) \<and> bc_key b = Some sample_key
     \<and> as_stored sample_result = as_stored sample_result \<and> bc_fp b = bc_fp b"
proof -
  obtain b s where s: "reach mcp_start (mcp_step sample_crates sample_size []) s"
      "ms_answers s = [(0, b, sample_result)]" "bc_key b = Some sample_key"
    using mcp_sample_run by blast
  have "(0, b, sample_result) \<in> set (ms_answers s)" using s(2) by simp
  from same_operation_same_answer [OF s(1) this this s(3,3)] this s(1,3) show ?thesis by blast
qed


text \<open>The credential of the sample is revoked after its call; a restart follows.\<close>

definition revoked_creds :: cred_state where
  "revoked_creds = snd (revoke ''t'' Written (ms_creds sample_state))"

lemma sample_revoked: "revoke ''t'' Written (ms_creds sample_state) = (Inr True, revoked_creds)"
  by (simp add: revoked_creds_def revoke_def sample_state_def sample_token_def persist_tokens_def
      str_ord.cmp_refl Let_def)


text \<open>A credential made in an empty store.\<close>

definition sample_request :: create_request where
  "sample_request = \<lparr>cq_label = ''agent'', cq_scopes = {''run''}, cq_allowed = no_objects, cq_lifetime = 60\<rparr>"

definition sample_secret :: string where "sample_secret = replicate 64 CHR ''a''"

lemma sample_request_ok: "create_error sample_request = None"
  by (simp add: create_error_def sample_request_def valid_label_def valid_scopes_def valid_token_scope_def
      token_scope_char_def ascii_defs valid_allowlist_def allowed_sets_def no_objects_def chars_count_def
      is_continuation_def trim_def trim_start_bytes.simps trim_end_rev.simps)

lemma sample_created:
  "\<exists>st'. create_token (\<lambda>s. s) sample_secret ''t'' (Some []) 1000 Written sample_request
      \<lparr>cr_tokens = [], cr_disk = None\<rparr>
    = (Inr (sample_secret, new_metadata sample_request ''t'' 1000), st')"
  by (simp add: create_token_def sample_request_ok persist_tokens_def Let_def)

theorem created_token_authenticates_witness:
  "\<exists>st'. authenticate_at (\<lambda>s. s) sample_secret 1059 st' = Inr \<lparr>pr_id = ''t'', pr_label = trim ''agent'',
       pr_scopes = {''run''}, pr_allowed = no_objects, pr_expires = 1060\<rparr>
     \<and> authenticate_at (\<lambda>s. s) sample_secret 1060 st' = Inl err_unauthorized"
proof -
  obtain st' where c: "create_token (\<lambda>s. s) sample_secret ''t'' (Some []) 1000 Written sample_request
      \<lparr>cr_tokens = [], cr_disk = None\<rparr>
    = (Inr (sample_secret, new_metadata sample_request ''t'' 1000), st')"
    using sample_created by blast
  have hyps: "cred_ok \<lparr>cr_tokens = [], cr_disk = None\<rparr>" "valid_secret sample_secret"
    by (simp_all add: cred_ok_def table_ok_def valid_secret_def sample_secret_def is_ascii_hexdigit_def
        ascii_defs list_all_iff)
  have "authenticate_at (\<lambda>s. s) sample_secret later st' =
    (if later < 1060 then Inr \<lparr>pr_id = ''t'', pr_label = trim ''agent'', pr_scopes = {''run''},
       pr_allowed = no_objects, pr_expires = 1060\<rparr> else Inl err_unauthorized)" for later
    using created_token_authenticates [OF hyps(1) c hyps(2), of later]
    by (simp add: sample_request_def i64_max_def)
  then show ?thesis by (intro exI [of _ st']) simp
qed

theorem credential_store_is_its_file_witness:
  "\<exists>st. cr_tokens st \<noteq> [] \<and> cred_ok st"
proof -
  obtain st' where c: "create_token (\<lambda>s. s) sample_secret ''t'' (Some []) 1000 Written sample_request
      \<lparr>cr_tokens = [], cr_disk = None\<rparr>
    = (Inr (sample_secret, new_metadata sample_request ''t'' 1000), st')"
    using sample_created by blast
  have "cred_step [] \<lparr>cr_tokens = [], cr_disk = None\<rparr> st'"
    using creates [where i = "''t''" and tid = "[]" and dig = "\<lambda>s. s" and secret = sample_secret
        and enc = "Some []" and now = 1000 and w = Written and q = sample_request
        and st = "\<lparr>cr_tokens = [], cr_disk = None\<rparr>"] c by simp
  then have "reach (\<lambda>st. st = \<lparr>cr_tokens = [], cr_disk = None\<rparr>) (cred_step []) st'"
    by (intro reach_step [OF reach_init]) simp_all
  then have "cred_ok st'" by (rule credential_store_is_its_file)
  moreover have "cr_tokens st' \<noteq> []"
    using c by (auto simp: create_token_def sample_request_ok persist_tokens_def Let_def)
  ultimately show ?thesis by blast
qed

theorem ownership_recorded_once_witness:
  "\<exists>st'. record_object None 0 ObjRun ''r'' ''t'' \<lparr>os_device = Some ''d'', os_package = None, os_plugin = None,
       os_runner = None\<rparr> \<lparr>rs_receipts = (\<lambda>_. None), rs_objects = (\<lambda>_. None)\<rparr> = (Inr (), st')
     \<and> object_of False ObjRun ''r'' st' = Inr (Some \<lparr>oo_token = ''t'', oo_scope = \<lparr>os_device = Some ''d'',
         os_package = None, os_plugin = None, os_runner = None\<rparr>\<rparr>)"
proof -
  let ?sc = "\<lparr>os_device = Some ''d'', os_package = None, os_plugin = None, os_runner = None\<rparr>"
  let ?st = "\<lparr>rs_receipts = (\<lambda>_. None), rs_objects = (\<lambda>_. None)\<rparr>"
  have "\<exists>st'. record_object None 0 ObjRun ''r'' ''t'' ?sc ?st = (Inr (), st')"
    by (simp add: record_object_def)
  then obtain st' where "record_object None 0 ObjRun ''r'' ''t'' ?sc ?st = (Inr (), st')" by blast
  then show ?thesis using ownership_recorded_once [of None 0 ObjRun "''r''" "''t''" ?sc ?st st'] by blast
qed

end
