(* ===== verification/McpProtocol.thy ===== *)
theory McpProtocol
  imports McpTheorems "HOL-Library.Char_ord" "HOL-Library.List_Lexorder"
begin

text \<open>
  The messages of the external tools' protocol (server \<^verbatim>\<open>mcp/protocol.rs\<close>, and
  \<^verbatim>\<open>McpService::handle\<close> and \<^verbatim>\<open>list_tools\<close> in \<^verbatim>\<open>mcp/mod.rs\<close>): parsing of a JSON-RPC
  request, the answers, and the pages of the catalogue with their cursors.
\<close>

section \<open>Requests\<close>

datatype rpc_request =
    RpcInitialize json
  | RpcPing json
  | RpcToolsList json "string option"
  | RpcToolsCall json string json
  | RpcNotification
  | RpcError json

definition rpc_error :: "json \<Rightarrow> int \<Rightarrow> string \<Rightarrow> json" where
  "rpc_error i code msg =
     json_object [(''jsonrpc'', JString ''2.0''), (''id'', i),
       (''error'', json_object [(''code'', json_int code), (''message'', JString msg)])]"

definition rpc_success :: "json \<Rightarrow> json \<Rightarrow> json" where
  "rpc_success i v = json_object [(''jsonrpc'', JString ''2.0''), (''id'', i), (''result'', v)]"

definition rpc_invalid :: rpc_request where
  "rpc_invalid = RpcError (rpc_error JNull (- 32600) ''invalid JSON-RPC request'')"

text \<open>The id of a request: none for a notification; a float, a long text or a structure is refused.\<close>

datatype rpc_id = IdRefused | IdAbsent | IdGiven json

definition request_id :: "json \<Rightarrow> rpc_id" where
  "request_id v =
     (case json_get ''id'' v of
        None \<Rightarrow> IdAbsent
      | Some i \<Rightarrow>
          (case i of
             JString s \<Rightarrow> if length s \<le> 256 then IdGiven i else IdRefused
           | JNumber n \<Rightarrow> (case n of FloatBits w \<Rightarrow> IdRefused | _ \<Rightarrow> IdGiven i)
           | JNull \<Rightarrow> IdGiven JNull
           | _ \<Rightarrow> IdRefused))"

text \<open>The parameters of a request, absent ones as none.\<close>

definition request_params :: "json \<Rightarrow> (string, (string \<times> json) list) result" where
  "request_params v =
     and_then (case json_get ''params'' v of
         Some (JObject m) \<Rightarrow> Inr m
       | None \<Rightarrow> Inr []
       | _ \<Rightarrow> Inl ''params must be an object'')
     (\<lambda>m. if (case map_of m ''_meta'' of None \<Rightarrow> False | Some x \<Rightarrow> as_object x = None)
          then Inl ''_meta must be an object'' else Inr m)"

definition text_of :: "string \<Rightarrow> (string \<times> json) list \<Rightarrow> string option" where
  "text_of k m = Option.bind (map_of m k) as_str"

definition valid_client :: "(string \<times> json) list \<Rightarrow> bool" where
  "valid_client m \<longleftrightarrow>
     (case Option.bind (map_of m ''clientInfo'') as_object of
        None \<Rightarrow> False
      | Some client \<Rightarrow>
          (case text_of ''name'' client of None \<Rightarrow> False | Some n \<Rightarrow> n \<noteq> [] \<and> length n \<le> 256)
          \<and> (case text_of ''version'' client of None \<Rightarrow> False | Some w \<Rightarrow> length w \<le> 128))"

definition valid_initialize :: "(string \<times> json) list \<Rightarrow> bool" where
  "valid_initialize m \<longleftrightarrow>
     (case text_of ''protocolVersion'' m of None \<Rightarrow> False | Some w \<Rightarrow> w \<noteq> [] \<and> length w \<le> 64)
     \<and> Option.bind (map_of m ''capabilities'') as_object \<noteq> None \<and> valid_client m"

definition only_keys :: "string list \<Rightarrow> (string \<times> json) list \<Rightarrow> bool" where
  "only_keys ks m \<longleftrightarrow> list_all (\<lambda>(k, _). k \<in> set ks) m"

definition tools_cursor :: "(string \<times> json) list \<Rightarrow> (string, string option) result" where
  "tools_cursor m =
     (case map_of m ''cursor'' of
        None \<Rightarrow> Inr None
      | Some (JString s) \<Rightarrow> if length s \<le> 4096 then Inr (Some s) else Inl ''invalid tools cursor''
      | _ \<Rightarrow> Inl ''invalid tools cursor'')"

definition parse_tools_list :: "json \<Rightarrow> (string \<times> json) list \<Rightarrow> rpc_request" where
  "parse_tools_list i m =
     (if \<not> only_keys [''cursor'', ''_meta''] m
      then RpcError (rpc_error i (- 32602) ''unsupported tools/list parameter'')
      else (case tools_cursor m of
              Inl e \<Rightarrow> RpcError (rpc_error i (- 32602) e)
            | Inr c \<Rightarrow> RpcToolsList i c))"

definition parse_tools_call :: "json \<Rightarrow> (string \<times> json) list \<Rightarrow> rpc_request" where
  "parse_tools_call i m =
     (if \<not> only_keys [''name'', ''arguments'', ''_meta''] m
      then RpcError (rpc_error i (- 32602) ''unsupported tools/call parameter'')
      else (case text_of ''name'' m of
              None \<Rightarrow> RpcError (rpc_error i (- 32602) ''tool name is required'')
            | Some n \<Rightarrow>
                if \<not> valid_tool_name n then RpcError (rpc_error i (- 32602) ''invalid tool name'')
                else (let args = (case map_of m ''arguments'' of None \<Rightarrow> json_object [] | Some a \<Rightarrow> a)
                      in if as_object args = None
                         then RpcError (rpc_error i (- 32602) ''tool arguments must be an object'')
                         else RpcToolsCall i n args)))"

text \<open>The field that names the operation asked for.\<close>

definition dispatch_message :: "string \<Rightarrow> json \<Rightarrow> (string \<times> json) list \<Rightarrow> rpc_request" where
  "dispatch_message what i m =
     (if what = ''initialize'' then
        (if valid_initialize m then RpcInitialize i
         else RpcError (rpc_error i (- 32602) ''invalid initialize parameters''))
      else if what = ''ping'' \<and> only_keys [''_meta''] m then RpcPing i
      else if what = ''tools/list'' then parse_tools_list i m
      else if what = ''tools/call'' then parse_tools_call i m
      else if what = ''ping'' then RpcError (rpc_error i (- 32602) ''ping does not accept parameters'')
      else RpcError (rpc_error i (- 32601) ''method not found''))"

definition parse_rpc :: "json \<Rightarrow> rpc_request" where
  "parse_rpc v =
     (if as_object v = None then rpc_invalid
      else if Option.bind (json_get ''jsonrpc'' v) as_str \<noteq> Some ''2.0'' then rpc_invalid
      else (case Option.bind (json_get ''method'' v) as_str of
              None \<Rightarrow> rpc_invalid
            | Some what \<Rightarrow>
                (case request_id v of
                   IdRefused \<Rightarrow> rpc_invalid
                 | IdAbsent \<Rightarrow> RpcNotification
                 | IdGiven i \<Rightarrow>
                     (case request_params v of
                        Inl e \<Rightarrow> RpcError (rpc_error i (- 32602) e)
                      | Inr m \<Rightarrow> dispatch_message what i m))))"

section \<open>Pages of the catalogue\<close>

definition PAGE_SIZE :: nat where "PAGE_SIZE = 50"

record tool_cursor =
  cu_token :: string
  cu_revision :: string
  cu_offset :: nat

text \<open>The text of a cursor: JSON in URL-safe base64, which the crates write and read.\<close>

record cursor_codec =
  cc_encode :: "tool_cursor \<Rightarrow> string"
  cc_decode :: "string \<Rightarrow> tool_cursor option"

definition json_texts :: "string set \<Rightarrow> json" where
  "json_texts xs = JArray (map JString (sorted_list_of_set xs))"

definition allowed_json :: "allowed_objects \<Rightarrow> json" where
  "allowed_json a =
     json_object [(''devices'', json_texts (al_devices a)), (''packages'', json_texts (al_packages a)),
       (''plugins'', json_texts (al_plugins a)), (''runners'', json_texts (al_runners a)),
       (''runs'', json_texts (al_runs a)), (''tasks'', json_texts (al_tasks a)),
       (''media'', json_texts (al_media a))]"

definition principal_json :: "principal \<Rightarrow> json" where
  "principal_json p =
     json_object [(''token_id'', JString (pr_id p)), (''label'', JString (pr_label p)),
       (''scopes'', json_texts (pr_scopes p)), (''allowed'', allowed_json (pr_allowed p)),
       (''expires_at'', json_int (pr_expires p))]"

text \<open>The whole grant and the whole catalogue go into the revision.\<close>

definition revision_of :: "mcp_crates \<Rightarrow> principal \<Rightarrow> json list \<Rightarrow> string" where
  "revision_of c p ds = hash_json c (JArray [principal_json p, JArray ds])"

definition cursor_offset ::
  "cursor_codec \<Rightarrow> string \<Rightarrow> string \<Rightarrow> nat \<Rightarrow> string option \<Rightarrow> (mcp_error, nat) result" where
  "cursor_offset cc tid stamp n cursor =
     (case cursor of
        None \<Rightarrow> Inr 0
      | Some raw \<Rightarrow>
          if raw = [] then Inr 0
          else (case cc_decode cc raw of
                  None \<Rightarrow> Inl (err_invalid ''Invalid tool cursor'')
                | Some k \<Rightarrow>
                    if cu_token k \<noteq> tid \<or> cu_revision k \<noteq> stamp
                    then Inl (mcp_err KInvalidParams ''catalog_changed''
                      ''Tool catalogue or authorization changed; list tools again without a cursor'')
                    else if n < cu_offset k
                    then Inl (err_invalid ''Tool cursor offset is out of range'')
                    else Inr (cu_offset k)))"

definition page_from :: "cursor_codec \<Rightarrow> string \<Rightarrow> string \<Rightarrow> json list \<Rightarrow> nat \<Rightarrow> json" where
  "page_from cc tid stamp ds offset =
     (let e = min (offset + PAGE_SIZE) (length ds)
      in json_object ((''tools'', JArray (take (e - offset) (drop offset ds)))
           # (if e < length ds
              then [(''nextCursor'', JString (cc_encode cc
                       \<lparr>cu_token = tid, cu_revision = stamp, cu_offset = e\<rparr>))]
              else [])))"

definition list_tools ::
  "mcp_crates \<Rightarrow> cursor_codec \<Rightarrow> (tool_descriptor \<Rightarrow> nat) \<Rightarrow> int \<Rightarrow> cred_state \<Rightarrow> provider list \<Rightarrow> principal
    \<Rightarrow> string option \<Rightarrow> (mcp_error, json) result" where
  "list_tools c cc sz now creds ps p0 cursor =
     and_then (principal_for_id (pr_id p0) now creds) (\<lambda>p.
     and_then (catalog c sz p ps) (\<lambda>entries.
       let ds = map (\<lambda>(_, d, _). wire d) entries;
           stamp = revision_of c p ds
       in and_then (cursor_offset cc (pr_id p) stamp (length ds) cursor)
            (\<lambda>offset. Inr (page_from cc (pr_id p) stamp ds offset))))"

section \<open>Handling of a message\<close>

record server_info =
  si_name :: string
  si_version :: string

definition MCP_PROTOCOL_VERSION :: string where "MCP_PROTOCOL_VERSION = ''2025-11-25''"

definition instructions :: string where
  "instructions = ''Use the declared tool schemas. Device control must first be started and resumed by the user in Gamer. Side effects require a distinct operation_id; retry the same operation with the same arguments.''"

definition initialize_result :: "server_info \<Rightarrow> json" where
  "initialize_result info =
     json_object [(''protocolVersion'', JString MCP_PROTOCOL_VERSION),
       (''serverInfo'', json_object [(''name'', JString (si_name info)), (''version'', JString (si_version info))]),
       (''capabilities'', json_object [(''tools'', json_object [(''listChanged'', JBool False)])]),
       (''instructions'', JString instructions)]"

text \<open>
  What handling comes to before a tool is called; the call itself is a run of steps. The
  credential is looked up again for a listing, when the clock and the store may have moved.
\<close>

datatype handled = Silent | Answers json | Calls json principal string json

definition listing_error :: "json \<Rightarrow> mcp_error \<Rightarrow> json" where
  "listing_error i e = rpc_error i (if me_kind e = KInvalidParams then - 32602 else - 32603) (me_message e)"

definition handle_rpc ::
  "mcp_crates \<Rightarrow> cursor_codec \<Rightarrow> (tool_descriptor \<Rightarrow> nat) \<Rightarrow> server_info \<Rightarrow> int \<Rightarrow> cred_state \<Rightarrow> int \<Rightarrow> cred_state
    \<Rightarrow> provider list \<Rightarrow> json \<Rightarrow> string \<Rightarrow> (mcp_error, handled) result" where
  "handle_rpc c cc sz info now creds now' creds' ps req bearer =
     and_then (authenticate_at (mc_hash c) bearer now creds) (\<lambda>p.
       Inr (case parse_rpc req of
              RpcNotification \<Rightarrow> Silent
            | RpcError resp \<Rightarrow> Answers resp
            | RpcInitialize i \<Rightarrow> Answers (rpc_success i (initialize_result info))
            | RpcPing i \<Rightarrow> Answers (rpc_success i (json_object []))
            | RpcToolsList i cursor \<Rightarrow>
                (case list_tools c cc sz now' creds' ps p cursor of
                   Inr page \<Rightarrow> Answers (rpc_success i page)
                 | Inl e \<Rightarrow> Answers (listing_error i e))
            | RpcToolsCall i n args \<Rightarrow> Calls i p n args))"

text \<open>The answer to a call of a tool: an error of the call is a result too.\<close>

definition call_answer :: "mcp_crates \<Rightarrow> json \<Rightarrow> (mcp_error, tool_result) result \<Rightarrow> json" where
  "call_answer c i r =
     rpc_success i (tool_result_json (case r of Inl e \<Rightarrow> result_of_error (mc_print c) e | Inr v \<Rightarrow> v))"

section \<open>The catalogue for administrators\<close>

definition management_catalog ::
  "mcp_crates \<Rightarrow> (tool_descriptor \<Rightarrow> nat) \<Rightarrow> provider list \<Rightarrow> (mcp_error, tool_descriptor list) result" where
  "management_catalog c sz ps =
     and_then (foldl (\<lambda>acc d. and_then acc (\<lambda>m. and_then (normalize_descriptor c sz d) (\<lambda>d'.
           if map_of m (td_name d') \<noteq> None
           then Inl (mcp_err KConflict ''tool_conflict'' ''Duplicate tool name'')
           else Inr (ins_by str_cmp (td_name d') d' m))))
         (Inr []) (concat (map pv_tools ps)))
       (\<lambda>m. Inr (map snd m))"

section \<open>What the pages hold\<close>

text \<open>A client that follows the cursors, with a bound on its requests.\<close>

definition page_tools :: "json \<Rightarrow> json list" where
  "page_tools page = (case Option.bind (json_get ''tools'' page) as_array of None \<Rightarrow> [] | Some ts \<Rightarrow> ts)"

definition next_cursor :: "json \<Rightarrow> string option" where
  "next_cursor page = Option.bind (json_get ''nextCursor'' page) as_str"

fun collect_pages ::
  "(string option \<Rightarrow> (mcp_error, json) result) \<Rightarrow> nat \<Rightarrow> string option \<Rightarrow> (mcp_error, json list) result option" where
  "collect_pages lst 0 cursor = None"
| "collect_pages lst (Suc n) cursor =
     (case lst cursor of
        Inl e \<Rightarrow> Some (Inl e)
      | Inr page \<Rightarrow>
          (case next_cursor page of
             None \<Rightarrow> Some (Inr (page_tools page))
           | Some k \<Rightarrow>
               map_option (\<lambda>r. and_then r (\<lambda>rest. Inr (page_tools page @ rest)))
                 (collect_pages lst n (Some k))))"

definition codec_reads_back :: "cursor_codec \<Rightarrow> bool" where
  "codec_reads_back cc \<longleftrightarrow> (\<forall>k. cc_encode cc k \<noteq> [] \<and> cc_decode cc (cc_encode cc k) = Some k)"

lemma page_tools_from [simp]:
  "page_tools (page_from cc tid stamp ds off) = take PAGE_SIZE (drop off ds)"
proof -
  have "take (min (off + PAGE_SIZE) (length ds) - off) (drop off ds) = take PAGE_SIZE (drop off ds)"
    by (cases "off + PAGE_SIZE \<le> length ds") (simp_all add: min_def)
  then show ?thesis by (simp add: page_tools_def page_from_def Let_def json_get_object)
qed

lemma next_cursor_from [simp]:
  "next_cursor (page_from cc tid stamp ds off) =
    (if off + PAGE_SIZE < length ds
     then Some (cc_encode cc \<lparr>cu_token = tid, cu_revision = stamp, cu_offset = off + PAGE_SIZE\<rparr>) else None)"
  by (simp add: next_cursor_def page_from_def Let_def json_get_object)

lemma collect_pages_from:
  assumes step: "\<And>k. k \<le> length ds \<Longrightarrow>
      lst (Some (cc_encode cc \<lparr>cu_token = tid, cu_revision = stamp, cu_offset = k\<rparr>)) = Inr (page_from cc tid stamp ds k)"
  shows "lst cursor = Inr (page_from cc tid stamp ds off) \<Longrightarrow> off \<le> length ds \<Longrightarrow>
    length ds - off \<le> PAGE_SIZE * n \<Longrightarrow> 0 < n \<Longrightarrow> collect_pages lst n cursor = Some (Inr (drop off ds))"
proof (induction n arbitrary: cursor off)
  case (Suc n)
  show ?case
  proof (cases "off + PAGE_SIZE < length ds")
    case True
    let ?k = "off + PAGE_SIZE"
    have "0 < n" using Suc.prems(3) True by (cases n) simp_all
    moreover have "length ds - ?k \<le> PAGE_SIZE * n" using Suc.prems(3) by simp
    ultimately have "collect_pages lst n (Some (cc_encode cc \<lparr>cu_token = tid, cu_revision = stamp,
        cu_offset = ?k\<rparr>)) = Some (Inr (drop ?k ds))"
      using True step [of ?k] by (intro Suc.IH) simp_all
    moreover have "take PAGE_SIZE (drop off ds) @ drop ?k ds = drop off ds"
      using append_take_drop_id [of PAGE_SIZE "drop off ds"] by (simp add: add.commute)
    ultimately show ?thesis using Suc.prems(1) True by simp
  qed (use Suc.prems(1) in simp)
qed simp

lemma catalog_from_sorted: "catalog_from c sz p names ds = Inr m \<Longrightarrow> keys_sorted str_cmp m"
proof (induction c sz p names ds arbitrary: m rule: catalog_from.induct)
  case (2 c sz p names d v ds)
  then show ?case
    by (auto simp: and_then_eq_Inr str_ord.ins_sorted split: if_splits)
qed simp

lemma list_tools_page:
  assumes "principal_for_id (pr_id p0) now creds = Inr p" "catalog c sz p ps = Inr entries"
  shows "list_tools c cc sz now creds ps p0 cursor =
    (let ds = map (\<lambda>(_, d, _). wire d) entries; stamp = revision_of c p ds
     in and_then (cursor_offset cc (pr_id p) stamp (length entries) cursor)
          (\<lambda>off. Inr (page_from cc (pr_id p) stamp ds off)))"
  using assms by (simp add: list_tools_def Let_def)

lemma cursor_offset_bound: "cursor_offset cc tid stamp n cursor = Inr off \<Longrightarrow> off \<le> n"
  by (auto simp: cursor_offset_def split: option.splits if_splits)

section \<open>What leads to a call\<close>

lemma as_str_Some: "as_str v = Some s \<longleftrightarrow> v = JString s"
  by (cases v) simp_all

lemma as_object_Some: "as_object v = Some m \<longleftrightarrow> v = JObject m"
  by (cases v) simp_all

lemma parse_tools_call_call:
  "parse_tools_call i m = RpcToolsCall j n args \<Longrightarrow> j = i \<and> valid_tool_name n \<and> (\<exists>f. args = JObject f)"
  by (auto simp: parse_tools_call_def Let_def as_object_Some split: if_splits option.splits)

lemma parse_tools_list_call: "parse_tools_list i m \<noteq> RpcToolsCall j n args"
  by (auto simp: parse_tools_list_def split: sum.splits)

lemma dispatch_call:
  "dispatch_message what i m = RpcToolsCall j n args \<Longrightarrow>
    what = ''tools/call'' \<and> parse_tools_call i m = RpcToolsCall j n args"
  by (auto simp: dispatch_message_def parse_tools_list_call split: if_splits)

lemma parse_rpc_call:
  assumes "parse_rpc v = RpcToolsCall i n args"
  shows "request_id v = IdGiven i \<and> json_get ''method'' v = Some (JString ''tools/call'')
    \<and> valid_tool_name n \<and> (\<exists>f. args = JObject f)"
proof -
  obtain what j m where w: "Option.bind (json_get ''method'' v) as_str = Some what"
      "request_id v = IdGiven j" "dispatch_message what j m = RpcToolsCall i n args"
    using assms
    by (auto simp: parse_rpc_def rpc_invalid_def split: if_splits option.splits rpc_id.splits sum.splits)
  then show ?thesis
    using dispatch_call [OF w(3)] parse_tools_call_call [of j m i n args]
    by (auto simp: bind_eq_Some_conv as_str_Some)
qed

section \<open>The promises\<close>

text \<open>
  C29. A client that starts without a cursor and follows those it is given has, after as many
  requests as there are pages, the whole catalogue its grant shows: every tool once, in the
  order of their names.
\<close>

theorem catalogue_listed_once:
  assumes "codec_reads_back cc" "principal_for_id (pr_id p0) now creds = Inr p"
    "catalog c sz p ps = Inr entries"
  shows "collect_pages (list_tools c cc sz now creds ps p0) (length entries div PAGE_SIZE + 1) None
      = Some (Inr (map (\<lambda>(_, d, _). wire d) entries)) \<and> keys_sorted str_cmp entries"
proof -
  let ?ds = "map (\<lambda>(_, d, _). wire d) entries" and ?l = "list_tools c cc sz now creds ps p0"
  note page = list_tools_page [OF assms(2,3), of cc]
  have "length ?ds - 0 \<le> PAGE_SIZE * (length entries div PAGE_SIZE + 1)"
    by (simp add: PAGE_SIZE_def)
  then have "collect_pages ?l (length entries div PAGE_SIZE + 1) None = Some (Inr (drop 0 ?ds))"
    using assms(1)
    by (intro collect_pages_from [where cc = cc and tid = "pr_id p" and stamp = "revision_of c p ?ds"])
      (simp_all add: page cursor_offset_def codec_reads_back_def Let_def)
  then show ?thesis using assms(3) catalog_from_sorted by (simp add: catalog_def)
qed

text \<open>
  Whatever text is sent as a cursor, a page that is answered holds at most fifty tools, a
  stretch of the caller's own catalogue, and it names a next cursor exactly when tools are
  left behind it.
\<close>

theorem page_is_bounded_stretch:
  assumes "principal_for_id (pr_id p0) now creds = Inr p" "catalog c sz p ps = Inr entries"
    "list_tools c cc sz now creds ps p0 cursor = Inr page"
  shows "\<exists>off. off \<le> length entries \<and> length (page_tools page) \<le> 50
    \<and> page_tools page = take 50 (drop off (map (\<lambda>(_, d, _). wire d) entries))
    \<and> (next_cursor page = None) = (length entries \<le> off + 50)"
proof -
  obtain off where off: "cursor_offset cc (pr_id p) (revision_of c p (map (\<lambda>(_, d, _). wire d) entries))
        (length entries) cursor = Inr off"
      "page = page_from cc (pr_id p) (revision_of c p (map (\<lambda>(_, d, _). wire d) entries))
        (map (\<lambda>(_, d, _). wire d) entries) off"
    using assms(3) by (auto simp: list_tools_page [OF assms(1,2)] Let_def and_then_eq_Inr)
  then show ?thesis
    using cursor_offset_bound [OF off(1)]
    by (intro exI [of _ off]) (simp add: PAGE_SIZE_def linorder_not_less)
qed

text \<open>
  A message leads to a call of a tool only as a request of its own: the bearer
  authenticates, an id is there for the answer, the name is well formed and the arguments
  are an object. A notification never does, whatever it asks for.
\<close>

theorem only_requests_call_tools:
  assumes "handle_rpc c cc sz info now creds now' creds' ps req bearer = Inr (Calls i p n args)"
  shows "authenticate_at (mc_hash c) bearer now creds = Inr p \<and> request_id req = IdGiven i
    \<and> json_get ''method'' req = Some (JString ''tools/call'') \<and> valid_tool_name n
    \<and> (\<exists>m. args = JObject m)"
proof -
  have "parse_rpc req = RpcToolsCall i n args \<and> authenticate_at (mc_hash c) bearer now creds = Inr p"
    using assms
    by (cases "parse_rpc req")
      (auto simp: handle_rpc_def and_then_eq_Inr split: sum.splits, metis sum.exhaust)
  then show ?thesis using parse_rpc_call by blast
qed

section \<open>Witnesses\<close>

text \<open>A codec that writes lengths in front of the texts.\<close>

definition tally :: "nat \<Rightarrow> string" where
  "tally n = replicate n CHR ''a'' @ ''b''"

definition tally_of :: "string \<Rightarrow> nat" where
  "tally_of s = length (takeWhile (\<lambda>x. x = CHR ''a'') s)"

definition cursor_sample :: cursor_codec where
  "cursor_sample = \<lparr>cc_encode = (\<lambda>k. tally (cu_offset k) @ tally (length (cu_token k)) @ cu_token k @ cu_revision k),
     cc_decode = (\<lambda>s. let n = tally_of s; s1 = drop (Suc n) s; l = tally_of s1; s2 = drop (Suc l) s1
       in Some \<lparr>cu_token = take l s2, cu_revision = drop l s2, cu_offset = n\<rparr>)\<rparr>"

lemma tally_reads [simp]: "tally_of (tally n @ s) = n" "drop (Suc n) (tally n @ s) = s"
proof -
  have "takeWhile (\<lambda>x. x = CHR ''a'') (tally n @ s) = replicate n CHR ''a''"
    by (induction n) (simp_all add: tally_def)
  then show "tally_of (tally n @ s) = n" by (simp add: tally_of_def)
  show "drop (Suc n) (tally n @ s) = s" by (simp add: tally_def)
qed

lemma drop_length_append: "drop (length xs) (xs @ ys) = ys"
  by simp

lemma cursor_sample_ok: "codec_reads_back cursor_sample"
proof -
  have "tally n \<noteq> []" for n by (simp add: tally_def)
  then show ?thesis
    by (simp add: codec_reads_back_def cursor_sample_def Let_def drop_length_append
        del: drop_drop drop_append)
qed

lemma sample_listed:
  "principal_for_id (pr_id sample_principal) 0 (ms_creds sample_state) = Inr sample_principal"
  using sample_live by (simp add: sample_principal_def)

theorem catalogue_listed_once_witness:
  "\<exists>d. collect_pages (list_tools sample_crates cursor_sample sample_size 0 (ms_creds sample_state)
      [sample_provider] sample_principal) 1 None = Some (Inr [wire d]) \<and> td_name d = ''go''"
  using catalogue_listed_once [OF cursor_sample_ok sample_listed sample_catalog]
  by (intro exI [of _ "sample_tool\<lparr>td_input := JObject sample_schema\<rparr>"])
    (simp add: PAGE_SIZE_def sample_tool_def)

theorem page_is_bounded_stretch_witness:
  "\<exists>page off. list_tools sample_crates cursor_sample sample_size 0 (ms_creds sample_state)
      [sample_provider] sample_principal None = Inr page \<and> off \<le> (1 :: nat) \<and> length (page_tools page) \<le> 50"
proof -
  have "\<exists>page. list_tools sample_crates cursor_sample sample_size 0 (ms_creds sample_state)
      [sample_provider] sample_principal None = Inr page"
    by (simp add: list_tools_page [OF sample_listed sample_catalog] cursor_offset_def Let_def)
  then obtain page where p: "list_tools sample_crates cursor_sample sample_size 0 (ms_creds sample_state)
      [sample_provider] sample_principal None = Inr page" by blast
  show ?thesis using page_is_bounded_stretch [OF sample_listed sample_catalog p] p by auto
qed

text \<open>A call of the tool with a credential whose digest is its secret.\<close>

definition sample_bearer :: string where "sample_bearer = replicate 64 CHR ''a''"

definition sample_message :: json where
  "sample_message = JObject [(''id'', JNumber (PosInt 7)), (''jsonrpc'', JString ''2.0''),
     (''method'', JString ''tools/call''), (''params'', JObject [(''name'', JString ''go'')])]"

definition bearer_creds :: cred_state where
  "bearer_creds = \<lparr>cr_tokens = [(''t'', sample_token\<lparr>st_digest := sample_bearer\<rparr>)], cr_disk = None\<rparr>"

lemma sample_message_parsed: "parse_rpc sample_message = RpcToolsCall (JNumber (PosInt 7)) ''go'' (json_object [])"
  by code_simp

lemma sample_bearer_admitted: "authenticate_at (mc_hash sample_crates) sample_bearer 0 bearer_creds = Inr sample_principal"
  by (simp add: authenticate_at_def sample_crates_def valid_secret_def sample_bearer_def bearer_creds_def
      constant_time_eq_iff sample_token_def principal_of_def token_live_def is_full_access_def
      sample_principal_def list_all_iff ascii_defs)

theorem only_requests_call_tools_witness:
  "handle_rpc sample_crates cursor_sample sample_size \<lparr>si_name = [], si_version = []\<rparr> 0 bearer_creds 0 bearer_creds
      [] sample_message sample_bearer = Inr (Calls (JNumber (PosInt 7)) sample_principal ''go'' (json_object []))
    \<and> valid_tool_name ''go''"
proof -
  have h: "handle_rpc sample_crates cursor_sample sample_size \<lparr>si_name = [], si_version = []\<rparr> 0 bearer_creds 0
      bearer_creds [] sample_message sample_bearer
    = Inr (Calls (JNumber (PosInt 7)) sample_principal ''go'' (json_object []))"
    by (simp add: handle_rpc_def sample_bearer_admitted sample_message_parsed)
  show ?thesis using only_requests_call_tools [OF h] h by blast
qed

end
