(* ===== verification/McpWork.thy ===== *)
theory McpWork
  imports McpCredentials
begin

text \<open>
  Temporary work tied to a credential (\<^verbatim>\<open>server/src/mcp/work.rs\<close>): its registration, its lease,
  the watcher of each entry, and the draining after a revocation, interleaved.
\<close>

section \<open>The registry\<close>

text \<open>
  Entries are shared: a number stands for one. \<open>we_cancels\<close> counts the calls of
  \<^verbatim>\<open>cancel_and_wait\<close>, which the cell makes once.
\<close>

record work_entry =
  we_token :: string
  we_work :: string
  we_released :: bool
  we_cancels :: nat

record work_state =
  wk_active :: "string \<Rightarrow> bool"
  wk_entries :: "nat \<rightharpoonup> work_entry"
  wk_table :: "(string \<times> string) \<rightharpoonup> nat"
  wk_drains :: "nat \<rightharpoonup> string \<times> nat set"
  wk_drained :: "string set"

definition work_size :: "work_state \<Rightarrow> nat" where
  "work_size s = card (dom (wk_table s))"

definition entry_key :: "work_entry \<Rightarrow> string \<times> string" where
  "entry_key e = (we_token e, we_work e)"

text \<open>
  \<open>seen\<close> is what the first look at the credential, before the lock, made of it; \<open>fresh\<close> is
  the new entry; \<open>runtime\<close> tells whether there is one to spawn the watcher on.
\<close>

definition register_work ::
  "bool \<Rightarrow> bool \<Rightarrow> nat \<Rightarrow> string \<Rightarrow> string \<Rightarrow> work_state \<Rightarrow> (mcp_error, unit) result \<times> work_state" where
  "register_work seen runtime fresh t w s =
     (if \<not> seen then (Inl err_unauthorized, s)
      else if w = [] \<or> 256 < length w then (Inl (err_invalid ''Invalid temporary work ID''), s)
      else if \<not> runtime
        then (Inl (err_internal ''Temporary work requires an asynchronous runtime''), s)
      else if \<not> wk_active s t then (Inl err_unauthorized, s)
      else if 1024 \<le> work_size s \<or> wk_table s (t, w) \<noteq> None
        then (Inl (mcp_err KConflict ''temporary_work_conflict''
               ''Temporary work is already registered or at capacity''), s)
      else (Inr (), s\<lparr>wk_table := (wk_table s)((t, w) \<mapsto> fresh),
             wk_entries := (wk_entries s)(fresh \<mapsto>
               \<lparr>we_token = t, we_work = w, we_released = False, we_cancels = 0\<rparr>)\<rparr>))"

text \<open>The cell runs the cancellation once; later drains only wait for it.\<close>

definition drain_entry :: "nat \<Rightarrow> work_state \<Rightarrow> work_state" where
  "drain_entry i s =
     (case wk_entries s i of
        None \<Rightarrow> s
      | Some e \<Rightarrow> if we_cancels e = 0
          then s\<lparr>wk_entries := (wk_entries s)(i \<mapsto> e\<lparr>we_cancels := Suc (we_cancels e)\<rparr>)\<rparr> else s)"

definition drop_lease :: "nat \<Rightarrow> work_state \<Rightarrow> work_state" where
  "drop_lease i s =
     (case wk_entries s i of
        None \<Rightarrow> s
      | Some e \<Rightarrow> s\<lparr>wk_entries := (wk_entries s)(i \<mapsto> e\<lparr>we_released := True\<rparr>),
             wk_table := (wk_table s)(entry_key e := None)\<rparr>)"

definition drain_snapshot :: "nat \<Rightarrow> string \<Rightarrow> work_state \<Rightarrow> work_state" where
  "drain_snapshot d t s = s\<lparr>wk_drains := (wk_drains s)(d \<mapsto> (t, {i. \<exists>w. wk_table s (t, w) = Some i}))\<rparr>"

definition all_cancelled :: "nat set \<Rightarrow> work_state \<Rightarrow> bool" where
  "all_cancelled is s \<longleftrightarrow> (\<forall>i \<in> is. \<forall>e. wk_entries s i = Some e \<longrightarrow> 0 < we_cancels e)"

text \<open>
  Steps: \<open>wk_drained\<close> collects the tokens of which a drain that began after the credential
  was dead has come to its end. A dead credential stays dead.
\<close>

inductive work_step :: "work_state \<Rightarrow> work_state \<Rightarrow> bool" where
  registers: "wk_entries s fresh = None \<Longrightarrow> work_step s (snd (register_work seen runtime fresh t w s))"
| watches: "wk_entries s i = Some e \<Longrightarrow> \<not> we_released e \<Longrightarrow> \<not> wk_active s (we_token e) \<Longrightarrow>
    work_step s (drain_entry i s)"
| drops: "wk_entries s i = Some e \<Longrightarrow> \<not> we_released e \<Longrightarrow> work_step s (drop_lease i s)"
| dies: "work_step s (s\<lparr>wk_active := (wk_active s)(t := False)\<rparr>)"
| drain_begins: "wk_drains s d = None \<Longrightarrow> \<not> wk_active s t \<Longrightarrow> work_step s (drain_snapshot d t s)"
| drain_goes_on: "wk_drains s d = Some (t, is) \<Longrightarrow> i \<in> is \<Longrightarrow> work_step s (drain_entry i s)"
| drain_ends: "wk_drains s d = Some (t, is) \<Longrightarrow> all_cancelled is s \<Longrightarrow>
    work_step s (s\<lparr>wk_drains := (wk_drains s)(d := None), wk_drained := insert t (wk_drained s)\<rparr>)"

definition work_start :: "work_state \<Rightarrow> bool" where
  "work_start s \<longleftrightarrow> wk_entries s = (\<lambda>_. None) \<and> wk_table s = (\<lambda>_. None) \<and> wk_drains s = (\<lambda>_. None)
     \<and> wk_drained s = {}"

section \<open>The invariant\<close>

text \<open>
  An entry is cancelled at most once; those with a lease, and only those, are in the table;
  the drains under way have all of their token's; a drained token has none left.
\<close>

definition work_inv :: "work_state \<Rightarrow> bool" where
  "work_inv s \<longleftrightarrow>
     (\<forall>i e. wk_entries s i = Some e \<longrightarrow> we_cancels e \<le> 1
        \<and> (\<not> we_released e \<longrightarrow> wk_table s (entry_key e) = Some i))
     \<and> (\<forall>k i. wk_table s k = Some i \<longrightarrow> (\<exists>e. wk_entries s i = Some e \<and> entry_key e = k \<and> \<not> we_released e))
     \<and> (\<forall>d t is. wk_drains s d = Some (t, is) \<longrightarrow> \<not> wk_active s t
          \<and> (\<forall>i e. wk_entries s i = Some e \<and> we_token e = t \<and> \<not> we_released e \<longrightarrow> i \<in> is))
     \<and> (\<forall>t \<in> wk_drained s. \<not> wk_active s t
          \<and> (\<forall>i e. wk_entries s i = Some e \<and> we_token e = t \<longrightarrow> we_released e \<or> we_cancels e = 1))"

lemma work_invD:
  assumes "work_inv s"
  shows "wk_entries s i = Some e \<Longrightarrow> we_cancels e \<le> 1"
    "wk_entries s i = Some e \<Longrightarrow> \<not> we_released e \<Longrightarrow> wk_table s (entry_key e) = Some i"
    "wk_table s k = Some i \<Longrightarrow> \<exists>e. wk_entries s i = Some e \<and> entry_key e = k \<and> \<not> we_released e"
    "wk_drains s d = Some (t, is) \<Longrightarrow> \<not> wk_active s t"
    "wk_drains s d = Some (t, is) \<Longrightarrow> wk_entries s i = Some e \<Longrightarrow> we_token e = t \<Longrightarrow> \<not> we_released e \<Longrightarrow> i \<in> is"
    "t \<in> wk_drained s \<Longrightarrow> \<not> wk_active s t"
    "t \<in> wk_drained s \<Longrightarrow> wk_entries s i = Some e \<Longrightarrow> we_token e = t \<Longrightarrow> we_released e \<or> we_cancels e = 1"
  using assms unfolding work_inv_def by blast+

lemma work_invI:
  assumes "\<And>i e. wk_entries s i = Some e \<Longrightarrow> we_cancels e \<le> 1"
    "\<And>i e. wk_entries s i = Some e \<Longrightarrow> \<not> we_released e \<Longrightarrow> wk_table s (entry_key e) = Some i"
    "\<And>k i. wk_table s k = Some i \<Longrightarrow> \<exists>e. wk_entries s i = Some e \<and> entry_key e = k \<and> \<not> we_released e"
    "\<And>d t is. wk_drains s d = Some (t, is) \<Longrightarrow> \<not> wk_active s t"
    "\<And>d t is i e. wk_drains s d = Some (t, is) \<Longrightarrow> wk_entries s i = Some e \<Longrightarrow> we_token e = t \<Longrightarrow>
      \<not> we_released e \<Longrightarrow> i \<in> is"
    "\<And>t. t \<in> wk_drained s \<Longrightarrow> \<not> wk_active s t"
    "\<And>t i e. t \<in> wk_drained s \<Longrightarrow> wk_entries s i = Some e \<Longrightarrow> we_token e = t \<Longrightarrow>
      we_released e \<or> we_cancels e = 1"
  shows "work_inv s"
  unfolding work_inv_def using assms by blast

lemma inv_register:
  assumes inv: "work_inv s" and fresh: "wk_entries s fresh = None"
  shows "work_inv (snd (register_work seen runtime fresh t w s))"
proof (cases "snd (register_work seen runtime fresh t w s) = s")
  case False
  let ?e = "\<lparr>we_token = t, we_work = w, we_released = False, we_cancels = 0\<rparr>"
  let ?s = "snd (register_work seen runtime fresh t w s)"
  have s': "wk_table ?s = (wk_table s)((t, w) \<mapsto> fresh)" "wk_entries ?s = (wk_entries s)(fresh \<mapsto> ?e)"
    "wk_active ?s = wk_active s" "wk_drains ?s = wk_drains s" "wk_drained ?s = wk_drained s"
    and act: "wk_active s t" and free: "wk_table s (t, w) = None"
    using False by (auto simp: register_work_def split: if_splits)
  note old = work_invD [OF inv]
  show ?thesis
  proof (rule work_invI)
    show "wk_entries ?s i = Some e \<Longrightarrow> we_cancels e \<le> 1" for i e
      using old(1) by (auto simp: s' split: if_splits)
    show "wk_entries ?s i = Some e \<Longrightarrow> \<not> we_released e \<Longrightarrow> wk_table ?s (entry_key e) = Some i" for i e
      using old(2) [of i e] free by (auto simp: s' entry_key_def split: if_splits)
    show "wk_table ?s k = Some i \<Longrightarrow> \<exists>e. wk_entries ?s i = Some e \<and> entry_key e = k \<and> \<not> we_released e" for k i
      using old(3) [of k i] fresh by (auto simp: s' entry_key_def split: if_splits)
    show "wk_drains ?s d = Some (u, is) \<Longrightarrow> \<not> wk_active ?s u" for d u "is"
      using old(4) [of d u "is"] by (simp add: s')
    show "wk_drains ?s d = Some (u, is) \<Longrightarrow> wk_entries ?s i = Some e \<Longrightarrow> we_token e = u \<Longrightarrow>
        \<not> we_released e \<Longrightarrow> i \<in> is" for d u "is" i e
      using old(4,5) [of d u "is"] act by (auto simp: s' split: if_splits)
    show "u \<in> wk_drained ?s \<Longrightarrow> \<not> wk_active ?s u" for u using old(6) [of u] by (simp add: s')
    show "u \<in> wk_drained ?s \<Longrightarrow> wk_entries ?s i = Some e \<Longrightarrow> we_token e = u \<Longrightarrow>
        we_released e \<or> we_cancels e = 1" for u i e
      using old(6,7) [of u] act by (auto simp: s' split: if_splits)
  qed
qed (use inv in simp)

lemma inv_drain:
  assumes inv: "work_inv s"
  shows "work_inv (drain_entry i s)"
proof (cases "drain_entry i s = s")
  case False
  let ?s = "drain_entry i s"
  obtain e where e: "wk_entries s i = Some e" "we_cancels e = 0"
      and s': "wk_entries ?s = (wk_entries s)(i \<mapsto> e\<lparr>we_cancels := 1\<rparr>)" "wk_table ?s = wk_table s"
        "wk_active ?s = wk_active s" "wk_drains ?s = wk_drains s" "wk_drained ?s = wk_drained s"
    using False by (auto simp: drain_entry_def split: option.splits if_splits)
  have shadow: "\<exists>g. wk_entries s j = Some g \<and> entry_key f = entry_key g \<and> we_token f = we_token g
      \<and> we_released f = we_released g \<and> (we_cancels f = we_cancels g \<or> we_cancels f = 1)"
    if "wk_entries ?s j = Some f" for j f
    using that e by (auto simp: s'(1) entry_key_def split: if_splits)
  note old = work_invD [OF inv]
  show ?thesis
  proof (rule work_invI)
    show "we_cancels f \<le> 1" if "wk_entries ?s j = Some f" for j f
      using shadow [OF that] old(1) by force
    show "wk_table ?s (entry_key f) = Some j" if "wk_entries ?s j = Some f" "\<not> we_released f" for j f
      using shadow [OF that(1)] old(2) that(2) by (force simp: s')
    show "\<exists>f. wk_entries ?s j = Some f \<and> entry_key f = k \<and> \<not> we_released f" if "wk_table ?s k = Some j" for k j
      using old(3) [of k j] that e by (auto simp: s' entry_key_def)
    show "\<not> wk_active ?s u" if "wk_drains ?s d = Some (u, is)" for d u "is"
      using old(4) [of d u "is"] that by (simp add: s')
    show "j \<in> is" if "wk_drains ?s d = Some (u, is)" "wk_entries ?s j = Some f" "we_token f = u" "\<not> we_released f"
      for d u "is" j f
      using shadow [OF that(2)] old(5) [of d u "is" j] that(1,3,4) by (auto simp: s')
    show "\<not> wk_active ?s u" if "u \<in> wk_drained ?s" for u using old(6) [of u] that by (simp add: s')
    show "we_released f \<or> we_cancels f = 1" if "u \<in> wk_drained ?s" "wk_entries ?s j = Some f" "we_token f = u"
      for u j f
      using shadow [OF that(2)] old(7) [of u j] that(1,3) by (auto simp: s')
  qed
qed (use inv in simp)

lemma inv_drop:
  assumes inv: "work_inv s" and e: "wk_entries s i = Some e" "\<not> we_released e"
  shows "work_inv (drop_lease i s)"
proof -
  let ?s = "drop_lease i s"
  have s': "wk_entries ?s = (wk_entries s)(i \<mapsto> e\<lparr>we_released := True\<rparr>)"
      "wk_table ?s = (wk_table s)(entry_key e := None)"
      "wk_active ?s = wk_active s" "wk_drains ?s = wk_drains s" "wk_drained ?s = wk_drained s"
    using e(1) by (simp_all add: drop_lease_def)
  note old = work_invD [OF inv]
  have own: "wk_table s (entry_key e) = Some i" by (rule old(2) [OF e])
  have same: "wk_entries s j = Some f \<and> j \<noteq> i" if "wk_entries ?s j = Some f" "\<not> we_released f" for j f
    using that by (auto simp: s' split: if_splits)
  have shadow: "\<exists>g. wk_entries s j = Some g \<and> we_token f = we_token g \<and> we_cancels f = we_cancels g
      \<and> (we_released g \<longrightarrow> we_released f)" if "wk_entries ?s j = Some f" for j f
    using that e by (auto simp: s'(1) split: if_splits)
  show ?thesis
  proof (rule work_invI)
    show "we_cancels f \<le> 1" if "wk_entries ?s j = Some f" for j f
      using shadow [OF that] old(1) by force
    show "wk_table ?s (entry_key f) = Some j" if "wk_entries ?s j = Some f" "\<not> we_released f" for j f
    proof -
      have "wk_table s (entry_key f) = Some j" "j \<noteq> i" using same [OF that] old(2) that(2) by auto
      then show ?thesis using own by (auto simp: s')
    qed
    show "\<exists>f. wk_entries ?s j = Some f \<and> entry_key f = k \<and> \<not> we_released f" if "wk_table ?s k = Some j" for k j
      using old(3) [of k j] that e(1) by (auto simp: s' split: if_splits)
    show "\<not> wk_active ?s u" if "wk_drains ?s d = Some (u, is)" for d u "is"
      using old(4) [of d u "is"] that by (simp add: s')
    show "j \<in> is" if "wk_drains ?s d = Some (u, is)" "wk_entries ?s j = Some f" "we_token f = u" "\<not> we_released f"
      for d u "is" j f
      using same [OF that(2,4)] old(5) [of d u "is" j f] that(1,3,4) by (simp add: s')
    show "\<not> wk_active ?s u" if "u \<in> wk_drained ?s" for u using old(6) [of u] that by (simp add: s')
    show "we_released f \<or> we_cancels f = 1" if "u \<in> wk_drained ?s" "wk_entries ?s j = Some f" "we_token f = u"
      for u j f
      using shadow [OF that(2)] old(7) [of u j] that(1,3) by (auto simp: s')
  qed
qed

lemma inv_snapshot:
  assumes inv: "work_inv s" and dead: "\<not> wk_active s t"
  shows "work_inv (drain_snapshot d t s)"
proof -
  note old = work_invD [OF inv]
  have mine: "\<exists>w. wk_table s (t, w) = Some i"
    if "wk_entries s i = Some e" "we_token e = t" "\<not> we_released e" for i e
    using old(2) [OF that(1,3)] that(2) by (auto simp: entry_key_def)
  show ?thesis
  proof (rule work_invI)
    show "j \<in> is" if "wk_drains (drain_snapshot d t s) c = Some (u, is)" "wk_entries (drain_snapshot d t s) j = Some f"
      "we_token f = u" "\<not> we_released f" for c u "is" j f
      using that mine old(5) [of c u "is" j f] by (auto simp: drain_snapshot_def split: if_splits)
    show "\<not> wk_active (drain_snapshot d t s) u" if "wk_drains (drain_snapshot d t s) c = Some (u, is)" for c u "is"
      using that dead old(4) [of c u "is"] by (auto simp: drain_snapshot_def split: if_splits)
  qed (use old in \<open>auto simp: drain_snapshot_def\<close>)
qed

lemma inv_drain_ends:
  assumes inv: "work_inv s" and d: "wk_drains s d = Some (t, is)" and all: "all_cancelled is s"
  shows "work_inv (s\<lparr>wk_drains := (wk_drains s)(d := None), wk_drained := insert t (wk_drained s)\<rparr>)"
proof -
  note old = work_invD [OF inv]
  have left: "we_released e \<or> we_cancels e = 1" if "wk_entries s i = Some e" "we_token e = t" for i e
  proof (cases "we_released e")
    case False
    then have "i \<in> is" using old(5) [OF d that] by simp
    then have "0 < we_cancels e" using all that(1) by (auto simp: all_cancelled_def)
    then show ?thesis using old(1) [OF that(1)] by simp
  qed simp
  let ?s = "s\<lparr>wk_drains := (wk_drains s)(d := None), wk_drained := insert t (wk_drained s)\<rparr>"
  show ?thesis
  proof (rule work_invI)
    show "\<not> wk_active ?s u" if "wk_drains ?s c = Some (u, js)" for c u js
      using that old(4) [of c u js] by (simp split: if_splits)
    show "j \<in> js" if "wk_drains ?s c = Some (u, js)" "wk_entries ?s j = Some f" "we_token f = u"
      "\<not> we_released f" for c u js j f
      using that old(5) [of c u js j f] by (simp split: if_splits)
    show "\<not> wk_active ?s u" if "u \<in> wk_drained ?s" for u
      using that old(6) [of u] old(4) [OF d] by auto
    show "we_released f \<or> we_cancels f = 1" if "u \<in> wk_drained ?s" "wk_entries ?s j = Some f" "we_token f = u"
      for u j f
      using that left old(7) [of u j f] by auto
  qed (use old(1-3) in simp_all)
qed

lemma inv_dies:
  assumes "work_inv s"
  shows "work_inv (s\<lparr>wk_active := (wk_active s)(t := False)\<rparr>)"
  using work_invD [OF assms] by (intro work_invI) simp_all

lemma work_step_inv: "work_inv s \<Longrightarrow> work_step s s' \<Longrightarrow> work_inv s'"
  by (erule work_step.cases)
    (simp_all add: inv_register inv_drain inv_drop inv_dies inv_snapshot inv_drain_ends)

interpretation work: guarded_system work_start work_step work_inv
  by unfold_locales (auto intro: work_step_inv, simp add: work_start_def work_inv_def)

text \<open>
  C28. Once a drain that began after the revocation has ended, no work of the credential is
  left: each has been cancelled, exactly once, or has given up its lease - also work whose
  registration raced the revocation.
\<close>

theorem drained_credential_leaves_no_work:
  assumes "reach work_start work_step s" "t \<in> wk_drained s" "wk_entries s i = Some e" "we_token e = t"
  shows "we_released e \<or> we_cancels e = 1"
  using work_invD(7) [OF work.reach_inv [OF assms(1)] assms(2,3,4)] .

text \<open>One work, registered while the credential lives, revoked and drained.\<close>

theorem drained_credential_leaves_no_work_witness:
  "\<exists>s e. reach work_start work_step s \<and> ''t'' \<in> wk_drained s \<and> wk_entries s 0 = Some e \<and> we_token e = ''t''
     \<and> \<not> we_released e \<and> (we_released e \<or> we_cancels e = 1)"
proof -
  define s0 :: work_state where "s0 = \<lparr>wk_active = (\<lambda>_. True), wk_entries = (\<lambda>_. None), wk_table = (\<lambda>_. None),
    wk_drains = (\<lambda>_. None), wk_drained = {}\<rparr>"
  define s1 where "s1 = snd (register_work True True 0 ''t'' ''w'' s0)"
  define s2 where "s2 = s1\<lparr>wk_active := (wk_active s1)(''t'' := False)\<rparr>"
  define s3 where "s3 = drain_snapshot 0 ''t'' s2"
  define s4 where "s4 = drain_entry 0 s3"
  define s5 where "s5 = s4\<lparr>wk_drains := (wk_drains s4)(0 := None), wk_drained := insert ''t'' (wk_drained s4)\<rparr>"
  note defs = s5_def s4_def s3_def s2_def s1_def s0_def register_work_def work_size_def drain_snapshot_def drain_entry_def
  have r0: "reach work_start work_step s0"
    by (rule reach_init) (simp add: work_start_def s0_def)
  have st1: "work_step s0 s1" unfolding s1_def by (rule registers) (simp_all add: s0_def)
  have r1: "reach work_start work_step s1" by (rule reach_step [OF r0 st1])
  have r2: "reach work_start work_step s2" unfolding s2_def by (rule reach_step [OF r1 dies])
  have r3: "reach work_start work_step s3" unfolding s3_def
    by (rule reach_step [OF r2 drain_begins]) (simp_all add: defs)
  have d3: "wk_drains s3 0 = Some (''t'', {0})" by (simp add: defs)
  have r4: "reach work_start work_step s4" unfolding s4_def
    by (rule reach_step [OF r3 drain_goes_on [OF d3]]) simp
  have e4: "wk_entries s4 0 = Some \<lparr>we_token = ''t'', we_work = ''w'', we_released = False, we_cancels = 1\<rparr>"
      "wk_drains s4 0 = Some (''t'', {0})"
    by (simp_all add: defs)
  have r5: "reach work_start work_step s5" unfolding s5_def
    by (rule reach_step [OF r4 drain_ends [OF e4(2)]]) (simp add: all_cancelled_def e4)
  have e5: "''t'' \<in> wk_drained s5" "wk_entries s5 0 = wk_entries s4 0" by (simp_all add: s5_def)
  show ?thesis
    using r5 e5 e4 drained_credential_leaves_no_work [OF r5 e5(1), of 0] by (intro exI [of _ s5]) simp
qed

end
