(* ===== verification/Archive.thy ===== *)
theory Archive
  imports PathSafe
begin

text \<open>
  Unpacking of a downloaded archive (updater \<^verbatim>\<open>archive.rs\<close>, \<^verbatim>\<open>digest.rs\<close>): the count of the
  central directory, the checks of every entry before a byte is written, the writing with its
  limits, and the comparison of what was written with the declared files.

  The files below the staging directory are a map from names, as the file system tells them
  apart (\<open>fs_name\<close>), to contents. The zip crate is the list of entries it yields.
\<close>

section \<open>Errors and options\<close>

datatype archive_error =
    ArchiveOpen
  | ZipFormat
  | DangerousEntry string manifest_code
  | SymlinkEntry string
  | CaseCollision string string
  | DuplicateEntry string
  | UnexpectedEntry string
  | BombTotal nat nat
  | BombFile string nat nat
  | SizeCorrupt string nat nat
  | ReparsePoint
  | RequiredFileMissing string
  | RequiredFileSize string nat nat
  | RequiredFileHash string string string
  | StagingInvalid
  | TargetExists
  | ArchiveIo

record extract_options =
  xo_total :: nat
  xo_file :: nat

definition default_extract_options :: extract_options where
  "default_extract_options = \<lparr>xo_total = 2147483648, xo_file = 1073741824\<rparr>"

record required_file =
  rf_path :: string
  rf_size :: int
  rf_sha256 :: string

section \<open>The central directory\<close>

definition read_u16 :: "string \<Rightarrow> nat \<Rightarrow> nat" where
  "read_u16 bs i = byte (bs ! i) + 256 * byte (bs ! (i + 1))"

definition read_u32 :: "string \<Rightarrow> nat \<Rightarrow> nat" where
  "read_u32 bs i = read_u16 bs i + 65536 * read_u16 bs (i + 2)"

definition EOCD_SIG :: string where "EOCD_SIG = [CHR ''P'', CHR ''K'', CHR 0x05, CHR 0x06]"

definition CDH_SIG :: string where "CDH_SIG = [CHR ''P'', CHR ''K'', CHR 0x01, CHR 0x02]"

text \<open>The last position at which a signature stands.\<close>

fun last_window :: "string \<Rightarrow> string \<Rightarrow> nat option" where
  "last_window sig [] = None"
| "last_window sig (c # cs) =
     (case last_window sig cs of
        Some i \<Rightarrow> Some (Suc i)
      | None \<Rightarrow> if take (length sig) (c # cs) = sig then Some 0 else None)"

definition header_length :: "string \<Rightarrow> nat" where
  "header_length cd = 46 + read_u16 cd 28 + read_u16 cd 30 + read_u16 cd 32"

function count_headers :: "string \<Rightarrow> nat option" where
  "count_headers cd =
     (if length cd < 46 then (if cd = [] then Some 0 else None)
      else if take 4 cd \<noteq> CDH_SIG then None
      else if length cd < header_length cd then None
      else map_option Suc (count_headers (drop (header_length cd) cd)))"
  by auto

termination
  by (relation "measure length") (auto simp: header_length_def)

declare count_headers.simps [simp del]

text \<open>\<open>None\<close> as a result leaves the matter to the crate; a directory beyond the end of the file fails.\<close>

definition raw_central_entry_count :: "string \<Rightarrow> (archive_error, nat option) result" where
  "raw_central_entry_count file =
     (let tail = drop (length file - min (length file) 66000) file
      in case last_window EOCD_SIG tail of
           None \<Rightarrow> Inr None
         | Some pos \<Rightarrow>
             if length tail < pos + 22 then Inr None
             else if pos + 22 + read_u16 tail (pos + 20) \<noteq> length tail then Inr None
             else (let cd_size = read_u32 tail (pos + 12); cd_offset = read_u32 tail (pos + 16)
               in if cd_offset = 2 ^ 32 - 1 \<or> cd_size = 2 ^ 32 - 1 then Inr None
                  else if length file < cd_offset + cd_size then Inl ArchiveIo
                  else Inr (count_headers (take cd_size (drop cd_offset file)))))"

section \<open>Entries\<close>

text \<open>
  An entry as the crate yields it: no name when it cannot be read; whether its file or
  directory could be made; the reads of its content, and whether they end or fail; whether
  the removal of a file that grew too large works.
\<close>

datatype stream_end = EndOfEntry | StreamFails

record zip_entry =
  ze_name :: "string option"
  ze_symlink :: bool
  ze_dir :: bool
  ze_size :: nat
  ze_made :: bool
  ze_chunks :: "string list"
  ze_end :: stream_end
  ze_removes :: bool

definition trim_slashes :: "string \<Rightarrow> string" where
  "trim_slashes s = rev (dropWhile (\<lambda>c. c = CHR ''/'') (rev s))"

text \<open>What an entry adds to the declared total.\<close>

definition entry_declared ::
  "required_file list option \<Rightarrow> extract_options \<Rightarrow> string \<Rightarrow> zip_entry \<Rightarrow> (archive_error, nat) result" where
  "entry_declared required opts name e =
     (let clean = trim_slashes name
      in if ze_dir e then
           (case required of
              None \<Rightarrow> Inr 0
            | Some rfs \<Rightarrow>
                if list_ex (\<lambda>rf. starts_with (rf_path rf) (clean @ ''/'')) rfs then Inr 0
                else Inl (UnexpectedEntry name))
         else if (case required of None \<Rightarrow> False | Some rfs \<Rightarrow> \<not> list_ex (\<lambda>rf. rf_path rf = clean) rfs)
         then Inl (UnexpectedEntry name)
         else if xo_file opts < ze_size e then Inl (BombFile name (ze_size e) (xo_file opts))
         else Inr (ze_size e))"

fun check_entries ::
  "(string \<Rightarrow> string) \<Rightarrow> required_file list option \<Rightarrow> extract_options \<Rightarrow> (string \<rightharpoonup> string) \<Rightarrow> nat \<Rightarrow> zip_entry list
    \<Rightarrow> (archive_error, nat) result" where
  "check_entries lower required opts seen acc [] = Inr acc"
| "check_entries lower required opts seen acc (e # es) =
     (case ze_name e of
        None \<Rightarrow> Inl ZipFormat
      | Some name \<Rightarrow>
          (let clean = trim_slashes name
           in case check_single_path clean of
                Some reason \<Rightarrow> Inl (DangerousEntry name reason)
              | None \<Rightarrow>
                  if ze_symlink e then Inl (SymlinkEntry name)
                  else (case seen (lower clean) of
                      Some prev \<Rightarrow> Inl (if prev = clean then DuplicateEntry name else CaseCollision prev name)
                    | None \<Rightarrow>
                        and_then (entry_declared required opts name e)
                          (\<lambda>n. check_entries lower required opts (seen(lower clean \<mapsto> clean)) (acc + n) es))))"

section \<open>Writing\<close>

datatype entry_result = WroteAll string | OverLimit string nat | Broken string

text \<open>The read loop: \<open>actual\<close> counts over all entries, \<open>got\<close> is what the file holds so far.\<close>

fun read_entry :: "extract_options \<Rightarrow> nat \<Rightarrow> string \<Rightarrow> stream_end \<Rightarrow> string list \<Rightarrow> entry_result" where
  "read_entry opts actual got fin [] = (case fin of EndOfEntry \<Rightarrow> WroteAll got | StreamFails \<Rightarrow> Broken got)"
| "read_entry opts actual got fin (ch # chs) =
     (if ch = [] then WroteAll got
      else if xo_file opts < length got + length ch \<or> xo_total opts < actual + length ch
      then OverLimit got (length got + length ch)
      else read_entry opts (actual + length ch) (got @ ch) fin chs)"

type_synonym file_tree = "string \<rightharpoonup> string"

fun write_entries ::
  "(string \<Rightarrow> string) \<Rightarrow> extract_options \<Rightarrow> nat \<Rightarrow> file_tree \<Rightarrow> zip_entry list
    \<Rightarrow> (archive_error, unit) result \<times> file_tree" where
  "write_entries fs_name opts actual t [] = (Inr (), t)"
| "write_entries fs_name opts actual t (e # es) =
     (case ze_name e of
        None \<Rightarrow> (Inl ZipFormat, t)
      | Some name \<Rightarrow>
          if \<not> ze_made e then (Inl ArchiveIo, t)
          else if ze_dir e then write_entries fs_name opts actual t es
          else (case read_entry opts actual [] (ze_end e) (ze_chunks e) of
              Broken got \<Rightarrow> (Inl ArchiveIo, t(fs_name name \<mapsto> got))
            | OverLimit got written \<Rightarrow>
                (Inl (BombFile name written (xo_file opts)),
                 t(fs_name name := (if ze_removes e then None else Some got)))
            | WroteAll got \<Rightarrow>
                (let t' = t(fs_name name \<mapsto> got)
                 in if length got \<noteq> ze_size e then (Inl (SizeCorrupt name (ze_size e) (length got)), t')
                    else write_entries fs_name opts (actual + length got) t' es)))"

section \<open>Comparison with the declared files\<close>

definition to_ascii_lowercase :: "string \<Rightarrow> string" where
  "to_ascii_lowercase s = map (\<lambda>c. if is_ascii_uppercase c then char_of (byte c + 32) else c) s"

datatype verify_error = VNotFound | VSize nat nat | VHash string string | VIo

text \<open>\<open>found\<close> is the file that is there: none, or its content; \<open>readable\<close> whether it can be read.\<close>

definition verify_file ::
  "(string \<Rightarrow> string) \<Rightarrow> bool \<Rightarrow> string option \<Rightarrow> string \<Rightarrow> nat \<Rightarrow> (verify_error, unit) result" where
  "verify_file sha readable found hash sz =
     (case found of
        None \<Rightarrow> Inl VNotFound
      | Some c \<Rightarrow>
          if length c \<noteq> sz then Inl (VSize (length c) sz)
          else if \<not> readable then Inl VIo
          else if sha c \<noteq> to_ascii_lowercase hash then Inl (VHash (sha c) hash)
          else Inr ())"

fun verify_required ::
  "(string \<Rightarrow> string) \<Rightarrow> (string \<Rightarrow> string) \<Rightarrow> (string \<Rightarrow> bool) \<Rightarrow> file_tree \<Rightarrow> required_file list
    \<Rightarrow> (archive_error, unit) result" where
  "verify_required fs_name sha readable t [] = Inr ()"
| "verify_required fs_name sha readable t (rf # rfs) =
     (if rf_size rf < 0 then Inl (RequiredFileSize (rf_path rf) 0 u64_max)
      else (case verify_file sha (readable (rf_path rf)) (t (fs_name (rf_path rf))) (rf_sha256 rf)
                   (nat (rf_size rf)) of
          Inr _ \<Rightarrow> verify_required fs_name sha readable t rfs
        | Inl VNotFound \<Rightarrow> Inl (RequiredFileMissing (rf_path rf))
        | Inl (VSize a x) \<Rightarrow> Inl (RequiredFileSize (rf_path rf) a x)
        | Inl (VHash a x) \<Rightarrow> Inl (RequiredFileHash (rf_path rf) a x)
        | Inl VIo \<Rightarrow> Inl ArchiveIo))"

section \<open>Extraction\<close>

text \<open>What stands where the staging directory goes.\<close>

datatype staging_place = StagingAbsent bool | StagingFile | StagingDir "bool option"

definition prepare_fresh_staging :: "staging_place \<Rightarrow> (archive_error, unit) result" where
  "prepare_fresh_staging p =
     (case p of
        StagingAbsent made \<Rightarrow> ensure made ArchiveIo
      | StagingFile \<Rightarrow> Inl StagingInvalid
      | StagingDir None \<Rightarrow> Inl ArchiveIo
      | StagingDir (Some blank) \<Rightarrow> ensure blank StagingInvalid)"

record extract_env =
  ee_place :: staging_place
  ee_file :: "string option"
  ee_entries :: "zip_entry list option"
  ee_free :: "nat option"
  ee_scan :: "archive_error option"
  ee_readable :: "string \<Rightarrow> bool"
  ee_lower :: "string \<Rightarrow> string"
  ee_fs_name :: "string \<Rightarrow> string"
  ee_sha :: "string \<Rightarrow> string"

text \<open>The entries the crate yields, once their number agrees with the directory's.\<close>

definition listed_entries :: "extract_env \<Rightarrow> (archive_error, zip_entry list) result" where
  "listed_entries v =
     (case ee_file v of
        None \<Rightarrow> Inl ArchiveOpen
      | Some file \<Rightarrow>
          and_then (raw_central_entry_count file) (\<lambda>raw.
          case ee_entries v of
            None \<Rightarrow> Inl ZipFormat
          | Some es \<Rightarrow>
              if (case raw of None \<Rightarrow> False | Some n \<Rightarrow> n \<noteq> length es)
              then Inl (DuplicateEntry ''<central directory>'') else Inr es))"

definition archive_fits :: "extract_options \<Rightarrow> nat option \<Rightarrow> nat \<Rightarrow> (archive_error, unit) result" where
  "archive_fits opts free acc =
     (if xo_total opts < acc then Inl (BombTotal acc (xo_total opts))
      else (case free of
              None \<Rightarrow> Inl ArchiveIo
            | Some n \<Rightarrow> ensure (min (acc + 16 * 1024 * 1024) u64_max \<le> n) ArchiveIo))"

text \<open>Everything before the first byte is written.\<close>

definition check_archive ::
  "extract_env \<Rightarrow> required_file list option \<Rightarrow> extract_options \<Rightarrow> (archive_error, zip_entry list) result" where
  "check_archive v required opts =
     and_then (prepare_fresh_staging (ee_place v)) (\<lambda>_.
     and_then (listed_entries v) (\<lambda>es.
     and_then (check_entries (ee_lower v) required opts (\<lambda>_. None) 0 es) (\<lambda>acc.
     and_then (archive_fits opts (ee_free v) acc) (\<lambda>_. Inr es))))"

definition extract_zip_checked ::
  "extract_env \<Rightarrow> required_file list option \<Rightarrow> extract_options \<Rightarrow> (archive_error, unit) result \<times> file_tree" where
  "extract_zip_checked v required opts =
     (case check_archive v required opts of
        Inl e \<Rightarrow> (Inl e, \<lambda>_. None)
      | Inr es \<Rightarrow>
          (case write_entries (ee_fs_name v) opts 0 (\<lambda>_. None) es of
             (Inl e, t) \<Rightarrow> (Inl e, t)
           | (Inr _, t) \<Rightarrow>
               (case ee_scan v of
                  Some e \<Rightarrow> (Inl e, t)
                | None \<Rightarrow>
                    (verify_required (ee_fs_name v) (ee_sha v) (ee_readable v) t
                       (case required of None \<Rightarrow> [] | Some rfs \<Rightarrow> rfs), t))))"

definition extract_component_zip ::
  "extract_env \<Rightarrow> required_file list \<Rightarrow> extract_options \<Rightarrow> (archive_error, unit) result \<times> file_tree" where
  "extract_component_zip v rfs opts = extract_zip_checked v (Some rfs) opts"

definition extract_app_zip ::
  "extract_env \<Rightarrow> extract_options \<Rightarrow> (archive_error, unit) result \<times> file_tree" where
  "extract_app_zip v opts = extract_zip_checked v None opts"

text \<open>Moving into place: never over something that is there.\<close>

definition move_staged :: "bool \<Rightarrow> bool \<Rightarrow> (archive_error, unit) result" where
  "move_staged exists renamed =
     (if exists then Inl TargetExists else ensure renamed ArchiveIo)"

section \<open>What the checks admit\<close>

definition entry_clean :: "zip_entry \<Rightarrow> string" where
  "entry_clean e = trim_slashes (the (ze_name e))"

definition entry_content :: "zip_entry \<Rightarrow> string" where
  "entry_content e = concat (takeWhile (\<lambda>ch. ch \<noteq> []) (ze_chunks e))"

definition file_entries :: "zip_entry list \<Rightarrow> zip_entry list" where
  "file_entries es = filter (\<lambda>e. \<not> ze_dir e) es"

text \<open>The crate calls an entry a directory when its name ends in a slash.\<close>

definition dirs_marked :: "zip_entry list \<Rightarrow> bool" where
  "dirs_marked es \<longleftrightarrow> (\<forall>e \<in> set (file_entries es). entry_clean e = the (ze_name e))"

definition admitted :: "required_file list option \<Rightarrow> zip_entry \<Rightarrow> bool" where
  "admitted required e \<longleftrightarrow> ze_name e \<noteq> None \<and> check_single_path (entry_clean e) = None
     \<and> (case required of None \<Rightarrow> True | Some rfs \<Rightarrow> ze_dir e \<or> entry_clean e \<in> rf_path ` set rfs)"

lemma declared_required:
  "entry_declared required opts name e = Inr n \<Longrightarrow>
    (case required of None \<Rightarrow> True | Some rfs \<Rightarrow> ze_dir e \<or> trim_slashes name \<in> rf_path ` set rfs)"
  by (auto simp: entry_declared_def Let_def list_ex_iff split: option.splits if_splits intro: rev_image_eqI)

lemma check_entries_ok:
  "check_entries lower required opts seen acc es = Inr n \<Longrightarrow>
    (\<forall>e \<in> set es. admitted required e \<and> seen (lower (entry_clean e)) = None)
    \<and> distinct (map (\<lambda>e. lower (entry_clean e)) es)"
proof (induction es arbitrary: seen acc)
  case (Cons e es)
  obtain name m where e: "ze_name e = Some name" "check_single_path (trim_slashes name) = None"
      "seen (lower (trim_slashes name)) = None" "entry_declared required opts name e = Inr m"
      "check_entries lower required opts (seen(lower (trim_slashes name) \<mapsto> trim_slashes name)) (acc + m) es = Inr n"
    using Cons.prems by (auto simp: Let_def and_then_eq_Inr split: option.splits if_splits)
  have rest: "\<forall>e' \<in> set es. admitted required e'
        \<and> (seen(lower (trim_slashes name) \<mapsto> trim_slashes name)) (lower (entry_clean e')) = None"
      "distinct (map (\<lambda>e. lower (entry_clean e)) es)"
    using Cons.IH [OF e(5)] by auto
  have c: "trim_slashes name = entry_clean e" using e(1) by (simp add: entry_clean_def)
  have "\<forall>e' \<in> set es. lower (entry_clean e) \<noteq> lower (entry_clean e') \<and> seen (lower (entry_clean e')) = None"
    using rest(1) by (auto simp: c split: if_splits)
  moreover have "admitted required e"
    using e(1,2) declared_required [OF e(4), unfolded c] by (simp add: admitted_def c)
  ultimately show ?case using rest e(3) by (auto simp: c)
qed simp

lemma check_archive_entries:
  assumes "check_archive v required opts = Inr es"
  shows "\<forall>e \<in> set es. admitted required e"
    "distinct (map (\<lambda>e. ee_lower v (entry_clean e)) es)"
proof -
  obtain acc where "check_entries (ee_lower v) required opts (\<lambda>_. None) 0 es = Inr acc"
    using assms by (auto simp: check_archive_def and_then_eq_Inr)
  from check_entries_ok [OF this] show "\<forall>e \<in> set es. admitted required e"
    "distinct (map (\<lambda>e. ee_lower v (entry_clean e)) es)" by auto
qed

section \<open>What is written\<close>

lemma read_entry_all: "read_entry opts actual got fin chs = WroteAll c \<Longrightarrow>
    c = got @ concat (takeWhile (\<lambda>ch. ch \<noteq> []) chs)"
  by (induction opts actual got fin chs rule: read_entry.induct) (auto split: stream_end.splits if_splits)

definition entry_files :: "(string \<Rightarrow> string) \<Rightarrow> zip_entry list \<Rightarrow> (string \<times> string) list" where
  "entry_files fs_name es = map (\<lambda>e. (fs_name (the (ze_name e)), entry_content e)) (file_entries es)"

lemma write_entries_ok:
  "write_entries fs_name opts actual t es = (Inr (), t') \<Longrightarrow> t' = t ++ map_of (rev (entry_files fs_name es))"
proof (induction es arbitrary: actual t)
  case (Cons e es)
  then show ?case
    by (auto simp: entry_files_def file_entries_def entry_content_def Let_def map_add_assoc [symmetric]
        split: option.splits if_splits entry_result.splits dest!: read_entry_all)
qed (simp add: entry_files_def file_entries_def)

text \<open>The bytes below the staging directory.\<close>

definition tree_bytes :: "file_tree \<Rightarrow> nat" where
  "tree_bytes t = (\<Sum>k \<in> dom t. length (the (t k)))"

definition fits_within :: "extract_options \<Rightarrow> nat \<Rightarrow> file_tree \<Rightarrow> bool" where
  "fits_within opts n t \<longleftrightarrow> finite (dom t) \<and> tree_bytes t \<le> n \<and> (\<forall>c \<in> ran t. length c \<le> xo_file opts)"

lemma within_more: "fits_within opts n t \<Longrightarrow> n \<le> m \<Longrightarrow> fits_within opts m t"
  by (simp add: fits_within_def)

lemma tree_bytes_remove: "finite (dom t) \<Longrightarrow> tree_bytes (t(k := None)) \<le> tree_bytes t"
proof -
  assume f: "finite (dom t)"
  have "tree_bytes (t(k := None)) = (\<Sum>j \<in> dom t - {k}. length (the (t j)))"
    unfolding tree_bytes_def by (rule sum.cong) auto
  also have "\<dots> \<le> tree_bytes t" unfolding tree_bytes_def using f by (intro sum_mono2) auto
  finally show ?thesis .
qed

lemma tree_bytes_put: "finite (dom t) \<Longrightarrow> tree_bytes (t(k \<mapsto> c)) \<le> tree_bytes t + length c"
proof -
  assume f: "finite (dom t)"
  have "tree_bytes (t(k \<mapsto> c)) = length c + (\<Sum>j \<in> dom t - {k}. length (the ((t(k \<mapsto> c)) j)))"
    unfolding tree_bytes_def using f by (simp add: sum.insert_remove)
  also have "(\<Sum>j \<in> dom t - {k}. length (the ((t(k \<mapsto> c)) j))) = tree_bytes (t(k := None))"
    unfolding tree_bytes_def by (rule sum.cong) auto
  finally have "tree_bytes (t(k \<mapsto> c)) = length c + tree_bytes (t(k := None))" .
  then show ?thesis using tree_bytes_remove [OF f, of k] by (simp del: fun_upd_apply)
qed

lemma within_remove: "fits_within opts n t \<Longrightarrow> fits_within opts n (t(k := None))"
  using tree_bytes_remove [of t k] by (auto simp: fits_within_def ran_def split: if_splits)

lemma within_put: "fits_within opts n t \<Longrightarrow> length c \<le> xo_file opts \<Longrightarrow> fits_within opts (n + length c) (t(k \<mapsto> c))"
  using tree_bytes_put [of t k c] by (auto simp: fits_within_def ran_def split: if_splits)

definition got_of :: "entry_result \<Rightarrow> string" where
  "got_of r = (case r of WroteAll c \<Rightarrow> c | OverLimit c n \<Rightarrow> c | Broken c \<Rightarrow> c)"

lemma read_entry_bounds:
  "length got \<le> xo_file opts \<Longrightarrow> actual \<le> xo_total opts \<Longrightarrow>
    length got \<le> length (got_of (read_entry opts actual got fin chs))
    \<and> length (got_of (read_entry opts actual got fin chs)) \<le> xo_file opts
    \<and> actual + length (got_of (read_entry opts actual got fin chs)) \<le> xo_total opts + length got"
proof (induction opts actual got fin chs rule: read_entry.induct)
  case (2 opts actual got fin ch chs)
  then show ?case by (fastforce simp: got_of_def)
qed (auto simp: got_of_def split: stream_end.splits)

lemma write_entries_within:
  "fits_within opts actual t \<Longrightarrow> actual \<le> xo_total opts \<Longrightarrow>
    fits_within opts (xo_total opts) (snd (write_entries fs_name opts actual t es))"
proof (induction es arbitrary: actual t)
  case (Cons e es)
  let ?r = "read_entry opts actual [] (ze_end e) (ze_chunks e)"
  have b: "length (got_of ?r) \<le> xo_file opts" "actual + length (got_of ?r) \<le> xo_total opts"
    using read_entry_bounds [of "[]" opts actual] Cons.prems(2) by auto
  have put: "fits_within opts (xo_total opts) (t(k \<mapsto> got_of ?r))" "fits_within opts (actual + length (got_of ?r)) (t(k \<mapsto> got_of ?r))"
      "fits_within opts (xo_total opts) (t(k := None))" "fits_within opts (xo_total opts) t" for k
    using within_put [OF Cons.prems(1) b(1), of k] within_remove within_more Cons.prems b(2) by blast+
  show ?case
    using put b Cons.IH Cons.prems
    by (auto simp: Let_def got_of_def split: option.splits entry_result.splits)
qed (use within_more in auto)

lemma verify_required_ok:
  "verify_required fs_name sha readable t rfs = Inr () \<Longrightarrow> rf \<in> set rfs \<Longrightarrow>
    \<exists>c. t (fs_name (rf_path rf)) = Some c \<and> int (length c) = rf_size rf
      \<and> sha c = to_ascii_lowercase (rf_sha256 rf)"
  by (induction rfs) (auto simp: verify_file_def split: if_splits sum.splits verify_error.splits option.splits)

lemma extract_written:
  assumes "extract_zip_checked v required opts = (Inr (), t)"
  shows "\<exists>es. check_archive v required opts = Inr es \<and> t = map_of (rev (entry_files (ee_fs_name v) es))
    \<and> verify_required (ee_fs_name v) (ee_sha v) (ee_readable v) t (case required of None \<Rightarrow> [] | Some rfs \<Rightarrow> rfs) = Inr ()"
proof -
  obtain es where es: "check_archive v required opts = Inr es"
      "write_entries (ee_fs_name v) opts 0 (\<lambda>_. None) es = (Inr (), t)"
      "verify_required (ee_fs_name v) (ee_sha v) (ee_readable v) t (case required of None \<Rightarrow> [] | Some rfs \<Rightarrow> rfs) = Inr ()"
    using assms
    by (auto simp: extract_zip_checked_def split: sum.splits prod.splits option.splits)
  show ?thesis using es write_entries_ok [OF es(2)] by auto
qed

lemma extracted_declared:
  assumes "extract_component_zip v rfs opts = (Inr (), t)"
    "\<And>es. ee_entries v = Some es \<Longrightarrow> dirs_marked es"
  shows "dom t = ee_fs_name v ` rf_path ` set rfs
    \<and> (\<forall>rf \<in> set rfs. \<exists>c. t (ee_fs_name v (rf_path rf)) = Some c \<and> int (length c) = rf_size rf
         \<and> ee_sha v c = to_ascii_lowercase (rf_sha256 rf))"
proof -
  obtain es where es: "check_archive v (Some rfs) opts = Inr es"
      "t = map_of (rev (entry_files (ee_fs_name v) es))"
      "verify_required (ee_fs_name v) (ee_sha v) (ee_readable v) t rfs = Inr ()"
    using extract_written assms(1) unfolding extract_component_zip_def by fastforce
  have "ee_entries v = Some es"
    using es(1) by (auto simp: check_archive_def listed_entries_def and_then_eq_Inr split: option.splits if_splits)
  then have marked: "dirs_marked es" by (rule assms(2))
  have "ee_fs_name v (the (ze_name e)) \<in> ee_fs_name v ` rf_path ` set rfs"
    if "e \<in> set (file_entries es)" for e
  proof -
    have "entry_clean e = the (ze_name e)" using marked that by (simp add: dirs_marked_def)
    moreover have "entry_clean e \<in> rf_path ` set rfs"
      using check_archive_entries(1) [OF es(1)] that by (auto simp: admitted_def file_entries_def)
    ultimately show ?thesis by simp
  qed
  then have "dom t \<subseteq> ee_fs_name v ` rf_path ` set rfs"
    by (auto simp: es(2) dom_map_of_conv_image_fst entry_files_def)
  moreover have "\<forall>rf \<in> set rfs. \<exists>c. t (ee_fs_name v (rf_path rf)) = Some c \<and> int (length c) = rf_size rf
         \<and> ee_sha v c = to_ascii_lowercase (rf_sha256 rf)"
    using verify_required_ok [OF es(3)] by blast
  ultimately show ?thesis by blast
qed

section \<open>The promises\<close>

text \<open>
  C20. A component that was unpacked is exactly what its manifest declares: every declared
  file is there with its size and digest, and nothing else is.
\<close>

theorem extracted_component_is_declared:
  assumes "extract_component_zip v rfs opts = (Inr (), t)"
    "\<And>es. ee_entries v = Some es \<Longrightarrow> dirs_marked es"
  shows "dom t = ee_fs_name v ` rf_path ` set rfs
    \<and> (\<forall>rf \<in> set rfs. \<exists>c. t (ee_fs_name v (rf_path rf)) = Some c \<and> int (length c) = rf_size rf
         \<and> ee_sha v c = to_ascii_lowercase (rf_sha256 rf))"
  by (rule extracted_declared [OF assms])

text \<open>
  C23. Whatever an archive holds and however its extraction ends, the files below the staging
  directory never take more than the limits: in all, and each of them.
\<close>

theorem extraction_bounded:
  assumes "extract_zip_checked v required opts = (r, t)"
  shows "tree_bytes t \<le> xo_total opts \<and> (\<forall>c \<in> ran t. length c \<le> xo_file opts)"
proof -
  have none: "fits_within opts (xo_total opts) (\<lambda>_. None)" by (simp add: fits_within_def tree_bytes_def)
  have "fits_within opts (xo_total opts) (snd (write_entries (ee_fs_name v) opts 0 (\<lambda>_. None) es))" for es
    by (rule write_entries_within) (simp_all add: fits_within_def tree_bytes_def)
  then have "fits_within opts (xo_total opts) t"
    using assms none
    by (auto simp: extract_zip_checked_def split: sum.splits prod.splits option.splits)
      (metis snd_conv)+
  then show ?thesis by (simp add: fits_within_def)
qed

text \<open>
  An application that was unpacked is its archive: each entry with its own content, under
  a name that does not leave the directory, no two of them in one file - as long as names the
  file system takes for one are also one in lower case.
\<close>

theorem extracted_app_is_the_archive:
  assumes "extract_app_zip v opts = (Inr (), t)" "ee_entries v = Some es" "dirs_marked es"
    "\<And>a b. ee_fs_name v a = ee_fs_name v b \<Longrightarrow> ee_lower v a = ee_lower v b"
  shows "dom t = (\<lambda>e. ee_fs_name v (the (ze_name e))) ` set (file_entries es)
    \<and> (\<forall>e \<in> set (file_entries es). t (ee_fs_name v (the (ze_name e))) = Some (entry_content e)
         \<and> check_single_path (the (ze_name e)) = None)"
proof -
  obtain es' where es': "check_archive v None opts = Inr es'"
      "t = map_of (rev (entry_files (ee_fs_name v) es'))"
    using extract_written assms(1) unfolding extract_app_zip_def by fastforce
  have same: "es' = es"
    using es'(1) assms(2)
    by (auto simp: check_archive_def listed_entries_def and_then_eq_Inr split: option.splits if_splits)
  have clean: "the (ze_name e) = entry_clean e" if "e \<in> set (file_entries es)" for e
    using assms(3) that by (simp add: dirs_marked_def)
  have ok: "check_single_path (the (ze_name e)) = None" if "e \<in> set (file_entries es)" for e
    using check_archive_entries(1) [OF es'(1)] that clean
    by (auto simp: same admitted_def file_entries_def)
  have "distinct (map (\<lambda>e. ee_lower v (entry_clean e)) (file_entries es))"
    using check_archive_entries(2) [OF es'(1)] unfolding same file_entries_def by (rule distinct_map_filter)
  then have dl: "distinct (file_entries es)" "inj_on (\<lambda>e. ee_lower v (entry_clean e)) (set (file_entries es))"
    by (simp_all add: distinct_map)
  have "inj_on (\<lambda>e. ee_fs_name v (the (ze_name e))) (set (file_entries es))"
  proof (rule inj_onI)
    fix e e' assume e: "e \<in> set (file_entries es)" "e' \<in> set (file_entries es)"
      "ee_fs_name v (the (ze_name e)) = ee_fs_name v (the (ze_name e'))"
    have "ee_lower v (entry_clean e) = ee_lower v (entry_clean e')"
      using assms(4) [OF e(3)] clean [OF e(1)] clean [OF e(2)] by simp
    then show "e = e'" using inj_onD [OF dl(2)] e(1,2) by blast
  qed
  then have "distinct (map (\<lambda>e. ee_fs_name v (the (ze_name e))) (file_entries es))"
    using dl(1) by (simp add: distinct_map)
  then have d: "distinct (map fst (rev (entry_files (ee_fs_name v) es)))"
    by (simp add: entry_files_def rev_map [symmetric] comp_def)
  have "t (ee_fs_name v (the (ze_name e))) = Some (entry_content e)" if "e \<in> set (file_entries es)" for e
    using that unfolding es'(2) same
    by (intro map_of_is_SomeI [OF d]) (auto simp: entry_files_def)
  moreover have "dom t = (\<lambda>e. ee_fs_name v (the (ze_name e))) ` set (file_entries es)"
    unfolding es'(2) same by (auto simp: dom_map_of_conv_image_fst entry_files_def image_image)
  ultimately show ?thesis using ok by blast
qed

section \<open>Witnesses\<close>

definition sample_entry :: zip_entry where
  "sample_entry = \<lparr>ze_name = Some ''a.txt'', ze_symlink = False, ze_dir = False, ze_size = 2, ze_made = True,
     ze_chunks = [''h'', ''i''], ze_end = EndOfEntry, ze_removes = True\<rparr>"

definition sample_archive :: extract_env where
  "sample_archive = \<lparr>ee_place = StagingAbsent True, ee_file = Some [], ee_entries = Some [sample_entry],
     ee_free = Some (2 ^ 30), ee_scan = None, ee_readable = (\<lambda>_. True), ee_lower = (\<lambda>s. s),
     ee_fs_name = (\<lambda>s. s), ee_sha = (\<lambda>s. s)\<rparr>"

definition sample_required :: required_file where
  "sample_required = \<lparr>rf_path = ''a.txt'', rf_size = 2, rf_sha256 = ''hi''\<rparr>"

definition sample_limits :: extract_options where "sample_limits = \<lparr>xo_total = 2, xo_file = 2\<rparr>"

lemma sample_path: "trim_slashes ''a.txt'' = ''a.txt''" "check_single_path ''a.txt'' = None"
  by code_simp+

lemma sample_raw: "raw_central_entry_count [] = Inr None"
  by (simp add: raw_central_entry_count_def Let_def)

lemma sample_marked: "dirs_marked [sample_entry]"
  by (simp add: dirs_marked_def file_entries_def sample_entry_def entry_clean_def sample_path)

lemma sample_extracted:
  "extract_component_zip sample_archive [sample_required] sample_limits = (Inr (), [''a.txt'' \<mapsto> ''hi''])"
  "extract_app_zip sample_archive sample_limits = (Inr (), [''a.txt'' \<mapsto> ''hi''])"
  by (simp_all add: extract_component_zip_def extract_app_zip_def extract_zip_checked_def check_archive_def
      listed_entries_def sample_archive_def prepare_fresh_staging_def sample_raw sample_entry_def
      sample_path Let_def entry_declared_def sample_required_def sample_limits_def archive_fits_def
      verify_file_def to_ascii_lowercase_def ascii_defs u64_max_def)

theorem extracted_component_is_declared_witness:
  "dom [''a.txt'' \<mapsto> ''hi''] = {''a.txt''} \<and> ee_sha sample_archive ''hi'' = ''hi''"
proof -
  have "dirs_marked es" if "ee_entries sample_archive = Some es" for es
    using that sample_marked by (simp add: sample_archive_def)
  from extracted_component_is_declared [OF sample_extracted(1) this]
  show ?thesis
    by (simp add: sample_archive_def sample_required_def to_ascii_lowercase_def ascii_defs)
qed

theorem extraction_bounded_witness:
  "tree_bytes [''a.txt'' \<mapsto> ''hi''] \<le> 2"
  using extraction_bounded [of sample_archive None sample_limits "Inr ()" "[''a.txt'' \<mapsto> ''hi'']"] sample_extracted(2)
  by (simp add: extract_app_zip_def sample_limits_def)

theorem extracted_app_is_the_archive_witness:
  "\<exists>t. extract_app_zip sample_archive sample_limits = (Inr (), t) \<and> t ''a.txt'' = Some (entry_content sample_entry)"
proof -
  have e: "ee_entries sample_archive = Some [sample_entry]" by (simp add: sample_archive_def)
  have f: "ee_lower sample_archive a = ee_lower sample_archive b"
    if "ee_fs_name sample_archive a = ee_fs_name sample_archive b" for a b
    using that by (simp add: sample_archive_def)
  have "\<forall>x \<in> set (file_entries [sample_entry]).
      [''a.txt'' \<mapsto> ''hi''] (ee_fs_name sample_archive (the (ze_name x))) = Some (entry_content x)"
    using extracted_app_is_the_archive [OF sample_extracted(2) e sample_marked f] by blast
  then show ?thesis
    using sample_extracted(2) by (simp add: file_entries_def sample_entry_def sample_archive_def)
qed

section \<open>A comment that hides the directory\<close>

text \<open>Two entries of one name: a directory of 94 bytes, at the start of the file.\<close>

definition sample_header :: string where
  "sample_header = CDH_SIG @ replicate 24 CHR 0x00 @ CHR 0x01 # replicate 17 CHR 0x00 @ ''a''"

definition end_record :: "string \<Rightarrow> string" where
  "end_record comment = EOCD_SIG @ replicate 8 CHR 0x00 @ [CHR 0x5E, CHR 0x00, CHR 0x00, CHR 0x00]
     @ replicate 4 CHR 0x00 @ [if comment = [] then CHR 0x00 else CHR 0x04, CHR 0x00] @ comment"

definition zip_with_comment :: "string \<Rightarrow> string" where
  "zip_with_comment comment = (sample_header @ sample_header) @ end_record comment"

lemma last_window_later: "last_window sig ys = Some i \<Longrightarrow> last_window sig (xs @ ys) = Some (length xs + i)"
  by (induction xs) simp_all

lemma end_records: "last_window EOCD_SIG (end_record []) = Some 0" "last_window EOCD_SIG (end_record EOCD_SIG) = Some 22"
  by (simp_all add: end_record_def EOCD_SIG_def numeral_eq_Suc)

lemma end_record_fields:
  "length (end_record []) = 22" "length (end_record EOCD_SIG) = 26" "read_u16 (end_record []) 20 = 0"
  "read_u32 (end_record []) 12 = 94" "read_u32 (end_record []) 16 = 0"
  by (simp_all add: end_record_def EOCD_SIG_def read_u32_def read_u16_def nth_append)

lemma header_fields: "length sample_header = 47" "take 4 sample_header = CDH_SIG"
  "read_u16 sample_header 28 = 1" "read_u16 sample_header 30 = 0" "read_u16 sample_header 32 = 0"
  by (simp_all add: sample_header_def CDH_SIG_def read_u16_def nth_append nth_Cons')

lemma read_u16_append: "i + 1 < length xs \<Longrightarrow> read_u16 (xs @ ys) i = read_u16 xs i"
  "read_u16 (xs @ ys) (length xs + i) = read_u16 ys i"
  by (simp_all add: read_u16_def nth_append)

lemma headers_counted: "count_headers (sample_header @ sample_header) = Some 2"
proof -
  have len: "header_length (sample_header @ r) = 47" for r
    by (simp add: header_length_def read_u16_append(1) header_fields)
  have one: "count_headers (sample_header @ r) = map_option Suc (count_headers r)" for r
    by (subst count_headers.simps) (simp add: len header_fields)
  show ?thesis using one [of sample_header] one [of "[]"] by (simp add: count_headers.simps [of "[]"])
qed

text \<open>
  The count of the directory, which is there to find names that occur twice, is not made
  when the comment of the archive holds the signature of the end record: two entries of one
  name are then left to the crate, which keeps one.
\<close>

theorem comment_hides_duplicates:
  "raw_central_entry_count (zip_with_comment []) = Inr (Some 2)
    \<and> raw_central_entry_count (zip_with_comment EOCD_SIG) = Inr None"
proof
  have w: "last_window EOCD_SIG (zip_with_comment []) = Some 94"
      "last_window EOCD_SIG (zip_with_comment EOCD_SIG) = Some 116"
    unfolding zip_with_comment_def
    using last_window_later [OF end_records(1), of "sample_header @ sample_header"]
      last_window_later [OF end_records(2), of "sample_header @ sample_header"]
    by (simp_all add: header_fields)
  have l: "length (zip_with_comment []) = 116" "length (zip_with_comment EOCD_SIG) = 120"
    by (simp_all add: zip_with_comment_def header_fields end_record_fields)
  have u: "read_u16 (zip_with_comment []) (94 + i) = read_u16 (end_record []) i" for i
    using read_u16_append(2) [of "sample_header @ sample_header" "end_record []" i]
    by (simp add: zip_with_comment_def header_fields)
  have f: "read_u16 (zip_with_comment []) 114 = 0" "read_u32 (zip_with_comment []) 106 = 94"
      "read_u32 (zip_with_comment []) 110 = 0"
    using u [of 20] u [of 12] u [of 14] u [of 16] u [of 18] end_record_fields
    by (simp_all add: read_u32_def)
  have t: "take 94 (zip_with_comment []) = sample_header @ sample_header"
    by (simp add: zip_with_comment_def header_fields)
  show "raw_central_entry_count (zip_with_comment []) = Inr (Some 2)"
    by (simp add: raw_central_entry_count_def Let_def w l f t headers_counted)
  show "raw_central_entry_count (zip_with_comment EOCD_SIG) = Inr None"
    by (simp add: raw_central_entry_count_def Let_def w l)
qed

end
