(* ===== verification/Download.thy ===== *)
theory Download
  imports Archive Probe "HOL-Library.Sublist"
begin

text \<open>
  Downloads (updater \<^verbatim>\<open>transfer.rs\<close>, \<^verbatim>\<open>fetch.rs\<close>): the download that is taken up again where it
  was cut, the bounded one, and the search of an artifact among the seeds, the cache and the
  network. What the server sends, the clock and the disk answer are arguments.
\<close>

section \<open>Errors and files\<close>

datatype download_error =
    Paused
  | InvalidRange
  | InvalidUrl string
  | HttpStatus nat
  | OversizedContentLength nat nat
  | OversizedBody nat
  | Truncated nat nat
  | DlHashMismatch string string
  | DlTimeout
  | DlIo
  | Transport

record part_receipt =
  pc_url :: string
  pc_sha :: string
  pc_size :: nat
  pc_etag :: "string option"

text \<open>The file that is being filled and, beside it, what it is part of (when that can be read).\<close>

record part_state =
  pt_file :: "string option"
  pt_meta :: "part_receipt option"

text \<open>
  What one turn of the read loop meets: a pause or the deadline before it reads, a failing
  read, bytes that are written, or bytes of which only some are written before a failure.
\<close>

datatype transfer_event = SeesPause | SeesDeadline | ReadFails | Reads string | WriteStops string nat

record response =
  hr_status :: nat
  hr_range :: "string option"
  hr_length :: "nat option"
  hr_etag :: "string option"
  hr_events :: "transfer_event list"

datatype http_outcome = HttpFails download_error | Responds response

section \<open>The download that resumes\<close>

definition valid_url :: "string \<Rightarrow> bool" where
  "valid_url url \<longleftrightarrow> starts_with url ''https://'' \<or> starts_with url ''http://''"

definition same_hex :: "string \<Rightarrow> string \<Rightarrow> bool" where
  "same_hex a b \<longleftrightarrow> to_ascii_lowercase a = to_ascii_lowercase b"

definition receipt_fits :: "string \<Rightarrow> string \<Rightarrow> nat \<Rightarrow> part_receipt \<Rightarrow> bool" where
  "receipt_fits url hash sz r \<longleftrightarrow> pc_url r = url \<and> pc_sha r = hash \<and> pc_size r = sz"

definition resume_offset :: "string \<Rightarrow> string \<Rightarrow> nat \<Rightarrow> part_state \<Rightarrow> nat" where
  "resume_offset url hash sz p =
     (case pt_meta p of
        None \<Rightarrow> 0
      | Some r \<Rightarrow>
          if \<not> receipt_fits url hash sz r then 0
          else (case pt_file p of None \<Rightarrow> 0 | Some c \<Rightarrow> if length c \<le> sz then length c else 0))"

definition content_range :: "nat \<Rightarrow> nat \<Rightarrow> string" where
  "content_range offset sz =
     ''bytes '' @ dec_digits offset @ ''-'' @ dec_digits (sz - 1) @ ''/'' @ dec_digits sz"

text \<open>Where writing goes on after the answer: at the start for a whole one.\<close>

definition response_offset :: "nat \<Rightarrow> nat \<Rightarrow> string option \<Rightarrow> response \<Rightarrow> (download_error, nat) result" where
  "response_offset sz offset etag r =
     (if hr_status r = 200 then Inr 0
      else if hr_status r = 206 \<and> 0 < offset then
        (if hr_range r \<noteq> Some (content_range offset sz) then Inl InvalidRange
         else (case (etag, hr_etag r) of
                 (Some old, Some new) \<Rightarrow> if old \<noteq> new then Inl InvalidRange else Inr offset
               | _ \<Rightarrow> Inr offset))
      else Inl InvalidRange)"

definition length_fits :: "nat \<Rightarrow> nat \<Rightarrow> response \<Rightarrow> (download_error, unit) result" where
  "length_fits sz offset r =
     (case hr_length r of
        None \<Rightarrow> Inr ()
      | Some n \<Rightarrow>
          if sz - offset < n then Inl (OversizedContentLength n (sz - offset))
          else if n < sz - offset then Inl (Truncated (offset + n) sz)
          else Inr ())"

fun transfer_loop :: "nat \<Rightarrow> string \<Rightarrow> transfer_event list \<Rightarrow> (download_error, nat) result \<times> string" where
  "transfer_loop sz got [] = ((if length got = sz then Inr sz else Inl (Truncated (length got) sz)), got)"
| "transfer_loop sz got (e # es) =
     (case e of
        SeesPause \<Rightarrow> (Inl Paused, got)
      | SeesDeadline \<Rightarrow> (Inl DlTimeout, got)
      | ReadFails \<Rightarrow> (Inl DlIo, got)
      | WriteStops bs n \<Rightarrow>
          if bs = [] then ((if length got = sz then Inr sz else Inl (Truncated (length got) sz)), got)
          else if sz - length got < length bs then (Inl (OversizedBody sz), got)
          else (Inl DlIo, got @ take n bs)
      | Reads bs \<Rightarrow>
          if bs = [] then ((if length got = sz then Inr sz else Inl (Truncated (length got) sz)), got)
          else if sz - length got < length bs then (Inl (OversizedBody sz), got)
          else transfer_loop sz (got @ bs) es)"

text \<open>
  The surroundings of one attempt: whether it is paused from the start, the answer to a request
  (from an offset on, if the entity tag still holds), and whether the disk does as told.
\<close>

record transfer_env =
  te_paused :: bool
  te_http :: "(nat \<times> string option) option \<Rightarrow> http_outcome"
  te_opens :: bool
  te_notes :: bool
  te_syncs :: bool
  te_hashes :: bool
  te_removes :: bool
  te_sha :: "string \<Rightarrow> string"

definition remove_file :: "transfer_env \<Rightarrow> part_state \<Rightarrow> part_state" where
  "remove_file v p = (if te_removes v then p\<lparr>pt_file := None\<rparr> else p)"

definition remove_meta :: "transfer_env \<Rightarrow> part_state \<Rightarrow> part_state" where
  "remove_meta v p = (if te_removes v then p\<lparr>pt_meta := None\<rparr> else p)"

text \<open>The end: the digest decides.\<close>

definition check_download ::
  "transfer_env \<Rightarrow> string \<Rightarrow> nat \<Rightarrow> string \<Rightarrow> part_state \<Rightarrow> (download_error, nat) result \<times> part_state" where
  "check_download v hash sz got p =
     (if \<not> te_hashes v then (Inl DlIo, p)
      else if \<not> same_hex (te_sha v got) hash
      then (Inl (DlHashMismatch (te_sha v got) hash), remove_meta v (remove_file v p))
      else (Inr sz, remove_meta v p))"

text \<open>After the loop: a file that grew too large goes, what was cut stays, the rest is checked.\<close>

definition conclude ::
  "transfer_env \<Rightarrow> string \<Rightarrow> nat \<Rightarrow> (download_error, nat) result \<Rightarrow> string \<Rightarrow> part_state
    \<Rightarrow> (download_error, nat) result \<times> part_state" where
  "conclude v hash sz res got p =
     (if \<not> te_syncs v then (Inl DlIo, p)
      else (case res of
          Inl (OversizedBody n) \<Rightarrow> (Inl (OversizedBody n), remove_meta v (remove_file v p))
        | Inl e \<Rightarrow> (Inl e, p)
        | Inr _ \<Rightarrow> check_download v hash sz got p))"

definition kept_bytes :: "nat \<Rightarrow> part_state \<Rightarrow> string" where
  "kept_bytes offset p = (if offset = 0 then [] else case pt_file p of None \<Rightarrow> [] | Some c \<Rightarrow> c)"

definition receive ::
  "transfer_env \<Rightarrow> string \<Rightarrow> string \<Rightarrow> nat \<Rightarrow> nat \<Rightarrow> response \<Rightarrow> part_state
    \<Rightarrow> (download_error, nat) result \<times> part_state" where
  "receive v url hash sz offset r p =
     (let old = kept_bytes offset p
      in if \<not> te_opens v then (Inl DlIo, p)
         else (let p1 = p\<lparr>pt_file := Some old\<rparr>
           in if \<not> te_notes v then (Inl DlIo, p1)
              else (let etag = (case hr_etag r of Some s \<Rightarrow> if starts_with s ''W/'' then None else Some s
                                                | None \<Rightarrow> None);
                        p2 = p1\<lparr>pt_meta := Some \<lparr>pc_url = url, pc_sha = hash, pc_size = sz, pc_etag = etag\<rparr>\<rparr>
                in case transfer_loop sz old (hr_events r) of
                     (res, got) \<Rightarrow> conclude v hash sz res got (p2\<lparr>pt_file := Some got\<rparr>))))"

definition request_from ::
  "transfer_env \<Rightarrow> string \<Rightarrow> string \<Rightarrow> nat \<Rightarrow> nat \<Rightarrow> part_state \<Rightarrow> (download_error, nat) result \<times> part_state" where
  "request_from v url hash sz offset p =
     (let etag = Option.bind (pt_meta p) pc_etag
      in case te_http v (if 0 < offset then Some (offset, etag) else None) of
           HttpFails e \<Rightarrow> (Inl e, p)
         | Responds r \<Rightarrow>
             (case response_offset sz offset etag r of
                Inl e \<Rightarrow> (Inl e, p)
              | Inr off \<Rightarrow>
                  (case length_fits sz off r of
                     Inl e \<Rightarrow> (Inl e, p)
                   | Inr _ \<Rightarrow> receive v url hash sz off r p)))"

definition download ::
  "transfer_env \<Rightarrow> string \<Rightarrow> string \<Rightarrow> nat \<Rightarrow> part_state \<Rightarrow> (download_error, nat) result \<times> part_state" where
  "download v url hash sz p =
     (if \<not> valid_url url then (Inl (InvalidUrl url), p)
      else if te_paused v then (Inl Paused, p)
      else (let offset = resume_offset url hash sz p
        in if offset = sz \<and> pt_file p \<noteq> None then
             (if is_ok (verify_file (te_sha v) (te_hashes v) (pt_file p) hash sz)
              then (Inr sz, remove_meta v p)
              else request_from v url hash sz 0 p)
           else request_from v url hash sz offset p))"

section \<open>What a finished download is\<close>

lemma loop_done: "transfer_loop sz got es = (Inr n, c) \<Longrightarrow> n = sz \<and> length c = sz"
  by (induction sz got es rule: transfer_loop.induct) (auto split: transfer_event.splits if_splits)

lemma conclude_done:
  assumes "conclude v hash sz res got p = (Inr n, p')" "\<And>m. res = Inr m \<Longrightarrow> length got = sz" "pt_file p = Some got"
  shows "n = sz \<and> (\<exists>c. pt_file p' = Some c \<and> length c = sz \<and> same_hex (te_sha v c) hash)"
proof (cases res)
  case (Inl e)
  then show ?thesis using assms(1) by (cases e) (simp_all add: conclude_def split: if_splits)
next
  case (Inr m)
  then show ?thesis
    using assms by (auto simp: conclude_def check_download_def remove_meta_def split: if_splits)
qed

lemma receive_concludes:
  assumes "te_opens v" "te_notes v" "transfer_loop sz (kept_bytes off p) (hr_events r) = (res, got)"
  shows "\<exists>m. receive v url hash sz off r p = conclude v hash sz res got \<lparr>pt_file = Some got, pt_meta = Some m\<rparr>
    \<and> receipt_fits url hash sz m \<and> (pc_etag m = None \<or> pc_etag m = hr_etag r)"
  unfolding receive_def Let_def assms(3) prod.case using assms(1,2)
  by (cases p) (auto simp: receipt_fits_def split: option.split)

lemma receive_stops:
  "\<not> te_opens v \<Longrightarrow> receive v url hash sz off r p = (Inl DlIo, p)"
  "te_opens v \<Longrightarrow> \<not> te_notes v \<Longrightarrow> receive v url hash sz off r p = (Inl DlIo, p\<lparr>pt_file := Some (kept_bytes off p)\<rparr>)"
  by (simp_all add: receive_def Let_def)

lemma receive_done:
  assumes "receive v url hash sz off r p = (Inr n, p')"
  shows "n = sz \<and> (\<exists>c. pt_file p' = Some c \<and> length c = sz \<and> same_hex (te_sha v c) hash)"
proof -
  obtain res got where l: "transfer_loop sz (kept_bytes off p) (hr_events r) = (res, got)" by fastforce
  have "te_opens v \<and> te_notes v" using assms receive_stops [of v url hash sz off r p] by (cases "te_opens v") auto
  then obtain m where c: "conclude v hash sz res got \<lparr>pt_file = Some got, pt_meta = Some m\<rparr> = (Inr n, p')"
    using receive_concludes [of v sz off p r res got url hash] l assms by metis
  have "length got = sz" if "res = Inr k" for k using loop_done l that by blast
  from conclude_done [OF c this] show ?thesis by simp
qed

lemma request_done:
  "request_from v url hash sz off p = (Inr n, p') \<Longrightarrow>
    n = sz \<and> (\<exists>c. pt_file p' = Some c \<and> length c = sz \<and> same_hex (te_sha v c) hash)"
  by (auto simp: request_from_def Let_def split: http_outcome.splits sum.splits dest!: receive_done)

lemma verified_content:
  "is_ok (verify_file sha readable found hash sz) \<Longrightarrow>
    \<exists>c. found = Some c \<and> length c = sz \<and> sha c = to_ascii_lowercase hash"
  by (auto simp: verify_file_def split: option.splits if_splits)

lemma lower_byte: "is_ascii_uppercase c \<Longrightarrow> \<not> is_ascii_uppercase (char_of (byte c + 32))"
  by (auto simp: is_ascii_uppercase_def)

lemma lower_idem [simp]: "to_ascii_lowercase (to_ascii_lowercase s) = to_ascii_lowercase s"
  using lower_byte by (simp add: to_ascii_lowercase_def)

section \<open>Servers that send the artifact\<close>

text \<open>
  \<open>serves\<close>: the events bring the bytes in order, up to wherever they stop. An honest server
  always has the same entity tag, answers whole or from the offset on, and may break off.
\<close>

fun serves :: "string \<Rightarrow> transfer_event list \<Rightarrow> bool" where
  "serves bs [] = True"
| "serves bs (e # es) =
     (case e of
        Reads cs \<Rightarrow> prefix cs bs \<and> serves (drop (length cs) bs) es
      | WriteStops cs n \<Rightarrow> prefix cs bs
      | _ \<Rightarrow> True)"

definition honest :: "string \<Rightarrow> string option \<Rightarrow> transfer_env \<Rightarrow> bool" where
  "honest a etag v \<longleftrightarrow>
     (\<forall>q r. te_http v q = Responds r \<longrightarrow> hr_etag r = etag
        \<and> (hr_status r = 200 \<longrightarrow> serves a (hr_events r))
        \<and> (hr_status r = 206 \<longrightarrow> (\<exists>off t. q = Some (off, t) \<and> serves (drop off a) (hr_events r))))"

text \<open>An attempt nothing interrupts.\<close>

definition undisturbed :: "string \<Rightarrow> transfer_env \<Rightarrow> bool" where
  "undisturbed a v \<longleftrightarrow>
     \<not> te_paused v \<and> te_opens v \<and> te_notes v \<and> te_syncs v \<and> te_hashes v
     \<and> (\<forall>q. \<exists>r cs. te_http v q = Responds r \<and> hr_length r = None
          \<and> hr_events r = map Reads cs \<and> [] \<notin> set cs
          \<and> (case q of None \<Rightarrow> hr_status r = 200 \<and> concat cs = a
                | Some (off, t) \<Rightarrow> hr_status r = 206 \<and> concat cs = drop off a
                    \<and> hr_range r = Some (content_range off (length a))))"

definition part_ok :: "string \<Rightarrow> string \<Rightarrow> string \<Rightarrow> string option \<Rightarrow> part_state \<Rightarrow> bool" where
  "part_ok url hash a etag p \<longleftrightarrow>
     (\<forall>r. pt_meta p = Some r \<and> receipt_fits url hash (length a) r \<longrightarrow>
        (pc_etag r = None \<or> pc_etag r = etag) \<and> (\<forall>c. pt_file p = Some c \<longrightarrow> prefix c a))"

lemma part_ok_file: "part_ok url hash a etag p \<Longrightarrow> prefix c a \<Longrightarrow> part_ok url hash a etag (p\<lparr>pt_file := Some c\<rparr>)"
  by (auto simp: part_ok_def)

lemma part_ok_gone [simp]: "part_ok url hash a etag p \<Longrightarrow> part_ok url hash a etag (remove_file v p)"
  "part_ok url hash a etag p \<Longrightarrow> part_ok url hash a etag (remove_meta v p)"
  by (auto simp: part_ok_def remove_file_def remove_meta_def)

lemma loop_prefix:
  "sz = length a \<Longrightarrow> prefix got a \<Longrightarrow> serves (drop (length got) a) es \<Longrightarrow>
    prefix (snd (transfer_loop sz got es)) a"
proof (induction sz got es rule: transfer_loop.induct)
  case (2 sz got e es)
  show ?case
  proof (cases e)
    case (Reads bs)
    then have "prefix (got @ bs) a" "serves (drop (length (got @ bs)) a) es"
      using "2.prems" by (auto simp: prefix_def add.commute)
    then show ?thesis using "2.IH" "2.prems" Reads by simp
  next
    case (WriteStops bs n)
    then have "prefix (got @ take n bs) a"
      using "2.prems" by (auto simp: prefix_def) (metis append_take_drop_id append.assoc)
    then show ?thesis using "2.prems" WriteStops by simp
  qed (use "2.prems" in simp_all)
qed simp

lemma loop_complete:
  "[] \<notin> set cs \<Longrightarrow> transfer_loop (length (got @ concat cs)) got (map Reads cs)
    = (Inr (length (got @ concat cs)), got @ concat cs)"
proof (induction cs arbitrary: got)
  case (Cons c cs)
  then show ?case using Cons.IH [of "got @ c"] by auto
qed simp

section \<open>An attempt keeps what it has\<close>

lemma conclude_ok:
  assumes "part_ok url hash a etag p"
  shows "part_ok url hash a etag (snd (conclude v hash sz res got p))"
  using assms
  by (cases res) (auto simp: conclude_def check_download_def split: download_error.splits)

lemma receive_ok:
  assumes "part_ok url hash a etag p" "sz = length a" "prefix (kept_bytes off p) a"
    "serves (drop (length (kept_bytes off p)) a) (hr_events r)" "hr_etag r = etag"
  shows "part_ok url hash a etag (snd (receive v url hash sz off r p))"
proof (cases "te_opens v \<and> te_notes v")
  case True
  obtain res got where l: "transfer_loop sz (kept_bytes off p) (hr_events r) = (res, got)" by fastforce
  have "prefix got a" using loop_prefix [OF assms(2-4)] l by simp
  then have "part_ok url hash a etag \<lparr>pt_file = Some got, pt_meta = Some m\<rparr>"
    if "pc_etag m = None \<or> pc_etag m = hr_etag r" for m
    using that assms(5) by (simp add: part_ok_def)
  then show ?thesis
    using receive_concludes [of v sz off p r res got url hash] True l conclude_ok by metis
next
  case False
  then show ?thesis
    using receive_stops [of v url hash sz off r p] part_ok_file [OF assms(1,3)] assms(1)
    by (cases "te_opens v") simp_all
qed

lemma kept_prefix: "part_ok url hash a etag p \<Longrightarrow> off = 0 \<or> off = resume_offset url hash (length a) p \<Longrightarrow>
    prefix (kept_bytes off p) a \<and> length (kept_bytes off p) = off"
  by (auto simp: kept_bytes_def resume_offset_def part_ok_def split: option.splits if_splits)

lemma request_ok:
  assumes "part_ok url hash a etag p" "honest a etag v" "off = 0 \<or> off = resume_offset url hash (length a) p"
  shows "part_ok url hash a etag (snd (request_from v url hash (length a) off p))"
proof (cases "te_http v (if 0 < off then Some (off, Option.bind (pt_meta p) pc_etag) else None)")
  case (Responds r)
  note h = assms(2) [unfolded honest_def, rule_format, OF Responds]
  have "part_ok url hash a etag (snd (receive v url hash (length a) o' r p))"
    if o: "response_offset (length a) off (Option.bind (pt_meta p) pc_etag) r = Inr o'" for o'
  proof (rule receive_ok [OF assms(1) refl])
    have o': "o' = 0 \<and> hr_status r = 200 \<or> o' = off \<and> hr_status r = 206 \<and> 0 < off"
      using o by (auto simp: response_offset_def split: if_splits option.splits)
    have k: "prefix (kept_bytes o' p) a \<and> length (kept_bytes o' p) = o'"
      using kept_prefix [OF assms(1)] o' assms(3) by blast
    then show "prefix (kept_bytes o' p) a" by simp
    show "serves (drop (length (kept_bytes o' p)) a) (hr_events r)"
      using o' k h by auto
    show "hr_etag r = etag" using h by simp
  qed
  then show ?thesis
    using Responds assms(1) by (auto simp: request_from_def Let_def split: sum.splits)
qed (use assms(1) in \<open>simp add: request_from_def Let_def\<close>)

lemma download_ok:
  assumes "part_ok url hash a etag p" "honest a etag v"
  shows "part_ok url hash a etag (snd (download v url hash (length a) p))"
  using assms(1) request_ok [OF assms] by (simp add: download_def Let_def)

section \<open>An attempt nothing interrupts\<close>

lemma receive_completes:
  assumes "undisturbed a v" "hr_events r = map Reads cs" "[] \<notin> set cs" "kept_bytes off p @ concat cs = a"
    "te_sha v a = to_ascii_lowercase hash"
  shows "\<exists>q. receive v url hash (length a) off r p = (Inr (length a), q) \<and> pt_file q = Some a"
proof -
  have u: "te_opens v" "te_notes v" "te_syncs v" "te_hashes v" using assms(1) by (simp_all add: undisturbed_def)
  have "transfer_loop (length a) (kept_bytes off p) (hr_events r) = (Inr (length a), a)"
    using loop_complete [OF assms(3), of "kept_bytes off p"] assms(2,4) by simp
  then obtain m where "receive v url hash (length a) off r p
      = conclude v hash (length a) (Inr (length a)) a \<lparr>pt_file = Some a, pt_meta = Some m\<rparr>"
    using receive_concludes [OF u(1,2)] by metis
  then show ?thesis
    using u assms(5) by (simp add: conclude_def check_download_def same_hex_def remove_meta_def)
qed

lemma resume_positive:
  "0 < resume_offset url hash sz p \<Longrightarrow> \<exists>m. pt_meta p = Some m \<and> receipt_fits url hash sz m"
  by (auto simp: resume_offset_def split: option.splits if_splits)

lemma request_completes:
  assumes "part_ok url hash a etag p" "honest a etag v" "undisturbed a v"
    "off = 0 \<or> off = resume_offset url hash (length a) p" "te_sha v a = to_ascii_lowercase hash"
  shows "\<exists>q. request_from v url hash (length a) off p = (Inr (length a), q) \<and> pt_file q = Some a"
proof -
  let ?t = "Option.bind (pt_meta p) pc_etag" and ?q = "if 0 < off then Some (off, Option.bind (pt_meta p) pc_etag) else None"
  obtain r cs where r: "te_http v ?q = Responds r" "hr_length r = None" "hr_events r = map Reads cs" "[] \<notin> set cs"
      "case ?q of None \<Rightarrow> hr_status r = 200 \<and> concat cs = a
       | Some (o', t) \<Rightarrow> hr_status r = 206 \<and> concat cs = drop o' a \<and> hr_range r = Some (content_range o' (length a))"
    using assms(3) unfolding undisturbed_def by meson
  have e: "hr_etag r = etag" using assms(2) r(1) unfolding honest_def by blast
  have k: "prefix (kept_bytes off p) a" "length (kept_bytes off p) = off"
    using kept_prefix [OF assms(1,4)] by simp_all
  have cs: "concat cs = drop off a" using r(5) by (auto split: if_splits)
  have "?t = None \<or> ?t = etag" if "0 < off"
    using that assms(1,4) resume_positive [of url hash "length a" p] by (auto simp: part_ok_def)
  then have "response_offset (length a) off ?t r = Inr off"
    using r(5) e by (auto simp: response_offset_def split: if_splits option.splits)
  moreover have "kept_bytes off p @ concat cs = a"
    using k cs by (auto simp: prefix_def)
  ultimately show ?thesis
    using receive_completes [OF assms(3) r(3,4) _ assms(5)] r(1,2)
    by (simp add: request_from_def Let_def length_fits_def)
qed

lemma attempts_ok:
  "part_ok url hash a etag p \<Longrightarrow> \<forall>w \<in> set vs. honest a etag w \<Longrightarrow>
    part_ok url hash a etag (foldl (\<lambda>p w. snd (download w url hash (length a) p)) p vs)"
proof (induction vs arbitrary: p)
  case (Cons w vs)
  then show ?case using download_ok [OF Cons.prems(1), of w] by simp
qed simp

lemma download_done:
  assumes "download v url hash sz p = (Inr n, p')"
  shows "n = sz \<and> (\<exists>c. pt_file p' = Some c \<and> length c = sz \<and> same_hex (te_sha v c) hash)"
proof (cases "resume_offset url hash sz p = sz \<and> pt_file p \<noteq> None
    \<and> is_ok (verify_file (te_sha v) (te_hashes v) (pt_file p) hash sz)")
  case True
  then have "n = sz \<and> pt_file p' = pt_file p"
    using assms by (auto simp: download_def Let_def remove_meta_def split: if_splits)
  then show ?thesis using verified_content True by (fastforce simp: same_hex_def)
next
  case False
  then have "\<exists>off. request_from v url hash sz off p = (Inr n, p')"
    using assms by (auto simp: download_def Let_def split: if_splits)
  then show ?thesis using request_done by blast
qed

section \<open>The promises\<close>

text \<open>
  Whatever a server sends and wherever earlier attempts were cut, a download that reports
  success has left a file of the declared size whose digest is the declared one.
\<close>

theorem download_delivers_the_artifact:
  assumes "download v url hash sz p = (Inr n, p')"
  shows "n = sz \<and> (\<exists>c. pt_file p' = Some c \<and> length c = sz \<and> same_hex (te_sha v c) hash)"
  by (rule download_done [OF assms])


section \<open>Witnesses\<close>

text \<open>An artifact of two bytes that is its own digest: one transfer breaks off, the other goes on.\<close>

definition sample_url :: string where "sample_url = ''https://x/a.zip''"

definition broken_transfer :: transfer_env where
  "broken_transfer = \<lparr>te_paused = False, te_http = (\<lambda>_. Responds \<lparr>hr_status = 200, hr_range = None, hr_length = None,
       hr_etag = None, hr_events = [Reads ''a'', ReadFails]\<rparr>),
     te_opens = True, te_notes = True, te_syncs = True, te_hashes = True, te_removes = True, te_sha = (\<lambda>s. s)\<rparr>"

definition whole_transfer :: transfer_env where
  "whole_transfer = broken_transfer\<lparr>te_http := (\<lambda>q. case q of
       None \<Rightarrow> Responds \<lparr>hr_status = 200, hr_range = None, hr_length = None, hr_etag = None, hr_events = [Reads ''ab'']\<rparr>
     | Some (off, t) \<Rightarrow> Responds \<lparr>hr_status = 206, hr_range = Some (content_range off 2), hr_length = None,
         hr_etag = None, hr_events = (if drop off ''ab'' = [] then [] else [Reads (drop off ''ab'')])\<rparr>)\<rparr>"

lemma sample_honest: "honest ''ab'' None broken_transfer" "honest ''ab'' None whole_transfer"
proof -
  show "honest ''ab'' None broken_transfer"
    by (simp add: honest_def broken_transfer_def)
  show "honest ''ab'' None whole_transfer"
    by (auto simp: honest_def whole_transfer_def split: option.splits if_splits)
qed

lemma sample_undisturbed: "undisturbed ''ab'' whole_transfer"
proof -
  have "\<exists>r cs. te_http whole_transfer q = Responds r \<and> hr_length r = None
          \<and> hr_events r = map Reads cs \<and> [] \<notin> set cs
          \<and> (case q of None \<Rightarrow> hr_status r = 200 \<and> concat cs = ''ab''
                | Some (off, t) \<Rightarrow> hr_status r = 206 \<and> concat cs = drop off ''ab''
                    \<and> hr_range r = Some (content_range off (length ''ab'')))" for q
  proof (cases q)
    case None
    then show ?thesis by (simp add: whole_transfer_def) (intro exI [of _ "[''ab'']"], simp)
  next
    case (Some x)
    obtain off t where x: "x = (off, t)" by fastforce
    show ?thesis
    proof (cases "drop off ''ab'' = []")
      case True
      then show ?thesis by (simp add: Some x whole_transfer_def numeral_2_eq_2)
    next
      case False
      then show ?thesis
        by (simp add: Some x whole_transfer_def numeral_2_eq_2) (intro exI [of _ "[drop off ''ab'']"], simp)
    qed
  qed
  then show ?thesis by (simp add: undisturbed_def whole_transfer_def broken_transfer_def)
qed

definition sample_part :: part_state where
  "sample_part = snd (download broken_transfer sample_url ''ab'' 2 \<lparr>pt_file = None, pt_meta = None\<rparr>)"

lemma sample_url_ok: "valid_url sample_url"
  by (simp add: valid_url_def sample_url_def starts_with_def)

lemma sample_broken: "pt_file sample_part = Some ''a''"
  by (simp add: sample_part_def download_def sample_url_ok broken_transfer_def resume_offset_def request_from_def
      response_offset_def length_fits_def receive_def kept_bytes_def conclude_def Let_def)


theorem download_delivers_the_artifact_witness:
  "\<exists>q c. download whole_transfer sample_url ''ab'' 2 \<lparr>pt_file = None, pt_meta = None\<rparr> = (Inr 2, q)
     \<and> pt_file q = Some c \<and> length c = 2"
proof -
  have "\<exists>q. download whole_transfer sample_url ''ab'' 2 \<lparr>pt_file = None, pt_meta = None\<rparr> = (Inr 2, q)"
    by (simp add: download_def sample_url_ok whole_transfer_def broken_transfer_def resume_offset_def request_from_def
        response_offset_def length_fits_def receive_def kept_bytes_def conclude_def check_download_def same_hex_def
        Let_def)
  then obtain q where q: "download whole_transfer sample_url ''ab'' 2 \<lparr>pt_file = None, pt_meta = None\<rparr> = (Inr 2, q)"
    by blast
  then show ?thesis using download_delivers_the_artifact [OF q] by blast
qed

end
