(* ===== verification/Fetch.thy ===== *)
theory Fetch
  imports Download
begin

text \<open>
  Where an artifact comes from (updater \<^verbatim>\<open>fetch.rs\<close>, \<^verbatim>\<open>verification.rs\<close>): the seeds of the
  package, the cache, the network; the download in one go; and the checks of a file that may
  be skipped when a record of an earlier success still fits.
\<close>

section \<open>Checks that are remembered\<close>

text \<open>
  \<open>known\<close>: a record with this digest bears the stamp the file has now; \<open>stable\<close>: the stamp is
  the same after the check.
\<close>

record file_trust =
  ft_known :: bool
  ft_readable :: bool
  ft_stable :: bool

definition verify_cached ::
  "(string \<Rightarrow> string) \<Rightarrow> file_trust \<Rightarrow> string option \<Rightarrow> string \<Rightarrow> nat \<Rightarrow> (verify_error, bool) result" where
  "verify_cached sha k found hash sz =
     (case found of
        None \<Rightarrow> Inl VIo
      | Some c \<Rightarrow>
          if length c \<noteq> sz then Inl (VSize (length c) sz)
          else if ft_known k then Inr True
          else and_then (verify_file sha (ft_readable k) found (to_ascii_lowercase hash) sz)
                 (\<lambda>_. if ft_stable k then Inr False else Inl VIo))"

text \<open>What a record promises: the file has the digest it was written for.\<close>

definition trust_sound :: "(string \<Rightarrow> string) \<Rightarrow> file_trust \<Rightarrow> string option \<Rightarrow> string \<Rightarrow> bool" where
  "trust_sound sha k found hash \<longleftrightarrow>
     (ft_known k \<longrightarrow> (\<forall>c. found = Some c \<longrightarrow> sha c = to_ascii_lowercase hash))"

lemma verify_cached_ok:
  "is_ok (verify_cached sha k found hash sz) \<Longrightarrow> trust_sound sha k found hash \<Longrightarrow>
    \<exists>c. found = Some c \<and> length c = sz \<and> sha c = to_ascii_lowercase hash"
  by (auto simp: verify_cached_def trust_sound_def verify_file_def and_then_def split: option.splits if_splits sum.splits)

section \<open>The download in one go\<close>

fun bounded_loop :: "nat \<Rightarrow> string \<Rightarrow> transfer_event list \<Rightarrow> (download_error, unit) result \<times> string" where
  "bounded_loop sz got [] = (Inr (), got)"
| "bounded_loop sz got (e # es) =
     (case e of
        SeesPause \<Rightarrow> bounded_loop sz got es
      | SeesDeadline \<Rightarrow> (Inl DlTimeout, got)
      | ReadFails \<Rightarrow> (Inl DlIo, got)
      | WriteStops bs n \<Rightarrow>
          if bs = [] then (Inr (), got)
          else if sz < length got + length bs then (Inl (OversizedBody sz), got)
          else (Inl DlIo, got @ take n bs)
      | Reads bs \<Rightarrow>
          if bs = [] then (Inr (), got)
          else if sz < length got + length bs then (Inl (OversizedBody sz), got)
          else bounded_loop sz (got @ bs) es)"

definition finish_download :: "transfer_env \<Rightarrow> string \<Rightarrow> nat \<Rightarrow> string \<Rightarrow> (download_error, nat) result" where
  "finish_download v hash sz got =
     (if length got \<noteq> sz then Inl (Truncated (length got) sz)
      else if te_sha v got \<noteq> hash then Inl (DlHashMismatch (te_sha v got) hash)
      else if \<not> te_syncs v then Inl DlIo
      else Inr sz)"

definition length_is :: "nat \<Rightarrow> response \<Rightarrow> (download_error, unit) result" where
  "length_is sz r =
     (case hr_length r of
        None \<Rightarrow> Inr ()
      | Some n \<Rightarrow>
          if sz < n then Inl (OversizedContentLength n sz)
          else if n < sz then Inl (Truncated n sz)
          else Inr ())"

definition download_bounded ::
  "transfer_env \<Rightarrow> string \<Rightarrow> string \<Rightarrow> nat \<Rightarrow> part_state \<Rightarrow> (download_error, nat) result \<times> part_state" where
  "download_bounded v url hash sz p =
     (if \<not> valid_url url then (Inl (InvalidUrl url), p)
      else (case te_http v None of
          HttpFails e \<Rightarrow> (Inl e, p)
        | Responds r \<Rightarrow>
            (case length_is sz r of
               Inl e \<Rightarrow> (Inl e, p)
             | Inr _ \<Rightarrow>
                 if \<not> te_opens v then (Inl DlIo, p)
                 else (case bounded_loop sz [] (hr_events r) of
                     (Inl e, got) \<Rightarrow> (Inl e, remove_file v (p\<lparr>pt_file := Some got\<rparr>))
                   | (Inr _, got) \<Rightarrow>
                       (case finish_download v (to_ascii_lowercase hash) sz got of
                          Inl e \<Rightarrow> (Inl e, remove_file v (p\<lparr>pt_file := Some got\<rparr>))
                        | Inr n \<Rightarrow> (Inr n, p\<lparr>pt_file := Some got\<rparr>))))))"

section \<open>The search\<close>

text \<open>One artifact's places: among the seeds, in the cache, and the download under way.\<close>

record artifact_place =
  ap_seed :: "string option"
  ap_cache :: "string option"
  ap_part :: part_state

datatype obtained = ObtSeed string | ObtCache string | ObtDownloaded string

fun obtained_content :: "obtained \<Rightarrow> string" where
  "obtained_content (ObtSeed c) = c"
| "obtained_content (ObtCache c) = c"
| "obtained_content (ObtDownloaded c) = c"

fun source_label :: "obtained \<Rightarrow> string" where
  "source_label (ObtSeed c) = ''seed''"
| "source_label (ObtCache c) = ''cache''"
| "source_label (ObtDownloaded c) = ''remote''"

datatype fetch_error = InvalidName string | AllSourcesExhausted | FetchDownload download_error

text \<open>A name that is its own last component, in Windows' eyes; colons are refused by the check.\<close>

definition is_plain_file_name :: "string \<Rightarrow> bool" where
  "is_plain_file_name n \<longleftrightarrow> n \<noteq> [] \<and> length n \<le> 255
     \<and> CHR ''/'' \<notin> set n \<and> CHR 0x5C \<notin> set n \<and> n \<noteq> ''.'' \<and> n \<noteq> ''..''
     \<and> check_single_path n = None"

record fetch_env =
  fe_resumable :: bool
  fe_seed_trust :: file_trust
  fe_cache_trust :: file_trust
  fe_cache_removed :: bool
  fe_dir_made :: bool
  fe_renamed :: bool
  fe_transfer :: transfer_env

definition from_remote ::
  "fetch_env \<Rightarrow> string \<Rightarrow> nat \<Rightarrow> string option \<Rightarrow> artifact_place \<Rightarrow> (fetch_error, obtained) result \<times> artifact_place" where
  "from_remote v hash sz url a =
     (case url of
        None \<Rightarrow> (Inl AllSourcesExhausted, a)
      | Some u \<Rightarrow>
          if \<not> fe_dir_made v then (Inl (FetchDownload DlIo), a)
          else (case (if fe_resumable v then download (fe_transfer v) u hash sz (ap_part a)
                      else download_bounded (fe_transfer v) u hash sz (ap_part a)) of
              (Inl e, p) \<Rightarrow> (Inl AllSourcesExhausted, a\<lparr>ap_part := p\<rparr>)
            | (Inr _, p) \<Rightarrow>
                (case pt_file p of
                   None \<Rightarrow> (Inl (FetchDownload DlIo), a\<lparr>ap_part := p\<rparr>)
                 | Some c \<Rightarrow>
                     if fe_renamed v
                     then (Inr (ObtDownloaded c), a\<lparr>ap_cache := Some c, ap_part := p\<lparr>pt_file := None\<rparr>\<rparr>)
                     else (Inl (FetchDownload DlIo), a\<lparr>ap_part := p\<rparr>))))"

definition from_cache ::
  "fetch_env \<Rightarrow> string \<Rightarrow> nat \<Rightarrow> string option \<Rightarrow> artifact_place \<Rightarrow> (fetch_error, obtained) result \<times> artifact_place" where
  "from_cache v hash sz url a =
     (case ap_cache a of
        None \<Rightarrow> from_remote v hash sz url a
      | Some c \<Rightarrow>
          if is_ok (verify_cached (te_sha (fe_transfer v)) (fe_cache_trust v) (Some c) hash sz)
          then (Inr (ObtCache c), a)
          else from_remote v hash sz url (if fe_cache_removed v then a\<lparr>ap_cache := None\<rparr> else a))"

definition obtain_artifact ::
  "fetch_env \<Rightarrow> string \<Rightarrow> string \<Rightarrow> nat \<Rightarrow> string option \<Rightarrow> artifact_place
    \<Rightarrow> (fetch_error, obtained) result \<times> artifact_place" where
  "obtain_artifact v name hash0 sz url a =
     (if \<not> is_plain_file_name name then (Inl (InvalidName name), a)
      else (let hash = to_ascii_lowercase hash0
        in case ap_seed a of
             None \<Rightarrow> from_cache v hash sz url a
           | Some c \<Rightarrow>
               if is_ok (verify_cached (te_sha (fe_transfer v)) (fe_seed_trust v) (Some c) hash sz)
               then (Inr (ObtSeed c), a)
               else from_cache v hash sz url a))"

section \<open>What is obtained\<close>

lemma bounded_done:
  assumes "download_bounded v url hash sz p = (Inr n, q)"
  shows "\<exists>c. pt_file q = Some c \<and> length c = sz \<and> te_sha v c = to_ascii_lowercase hash"
  using assms
  by (auto simp: download_bounded_def finish_download_def
      split: if_splits http_outcome.splits sum.splits prod.splits)

text \<open>The digest the crate prints is in lower case.\<close>

definition prints_lower :: "(string \<Rightarrow> string) \<Rightarrow> bool" where
  "prints_lower sha \<longleftrightarrow> (\<forall>c. to_ascii_lowercase (sha c) = sha c)"

definition records_hold :: "fetch_env \<Rightarrow> string \<Rightarrow> artifact_place \<Rightarrow> bool" where
  "records_hold v hash a \<longleftrightarrow>
     trust_sound (te_sha (fe_transfer v)) (fe_seed_trust v) (ap_seed a) hash
     \<and> trust_sound (te_sha (fe_transfer v)) (fe_cache_trust v) (ap_cache a) hash"

lemma remote_verified:
  assumes "from_remote v hash sz url a = (Inr o', a')" "prints_lower (te_sha (fe_transfer v))"
  shows "length (obtained_content o') = sz \<and> te_sha (fe_transfer v) (obtained_content o') = to_ascii_lowercase hash"
proof -
  obtain u p n where d: "(if fe_resumable v then download (fe_transfer v) u hash sz (ap_part a)
      else download_bounded (fe_transfer v) u hash sz (ap_part a)) = (Inr n, p)"
      "pt_file p = Some (obtained_content o')"
    using assms(1)
    by (auto simp: from_remote_def split: option.splits if_splits prod.splits sum.splits)
  show ?thesis
  proof (cases "fe_resumable v")
    case True
    then have "length (obtained_content o') = sz \<and> same_hex (te_sha (fe_transfer v) (obtained_content o')) hash"
      using d download_done [of "fe_transfer v" u hash sz "ap_part a" n p] by simp
    then show ?thesis using assms(2) by (simp add: same_hex_def prints_lower_def)
  next
    case False
    then show ?thesis using d bounded_done [of "fe_transfer v" u hash sz "ap_part a" n p] by simp
  qed
qed

lemma obtained_verified:
  assumes "obtain_artifact v name hash sz url a = (Inr o', a')" "records_hold v hash a"
    "prints_lower (te_sha (fe_transfer v))"
  shows "length (obtained_content o') = sz \<and> te_sha (fe_transfer v) (obtained_content o') = to_ascii_lowercase hash"
proof -
  let ?h = "to_ascii_lowercase hash" and ?sha = "te_sha (fe_transfer v)"
  have cached: "length c = sz \<and> ?sha c = ?h"
    if "is_ok (verify_cached ?sha k (Some c) ?h sz)" "trust_sound ?sha k (Some c) hash" for k c
    using verify_cached_ok [OF that(1)] that(2) by (auto simp: trust_sound_def)
  have from_c: "length (obtained_content o') = sz \<and> ?sha (obtained_content o') = ?h"
    if "from_cache v ?h sz url a = (Inr o', a')"
    using that cached [of "fe_cache_trust v"] remote_verified [of v ?h sz url _ o' a'] assms(2,3)
    by (auto simp: from_cache_def records_hold_def split: option.splits if_splits)
  show ?thesis
    using assms(1) from_c cached [of "fe_seed_trust v"] assms(2)
    by (auto simp: obtain_artifact_def Let_def records_hold_def split: option.splits if_splits)
qed


definition sample_trust :: file_trust where
  "sample_trust = \<lparr>ft_known = False, ft_readable = True, ft_stable = True\<rparr>"

definition sample_fetch :: fetch_env where
  "sample_fetch = \<lparr>fe_resumable = True, fe_seed_trust = sample_trust, fe_cache_trust = sample_trust,
     fe_cache_removed = True, fe_dir_made = True, fe_renamed = True,
     fe_transfer = whole_transfer\<lparr>te_sha := to_ascii_lowercase\<rparr>\<rparr>"

definition sample_place :: "string option \<Rightarrow> artifact_place" where
  "sample_place seed = \<lparr>ap_seed = seed, ap_cache = Some ''xy'', ap_part = \<lparr>pt_file = None, pt_meta = None\<rparr>\<rparr>"

lemma sample_name: "is_plain_file_name ''a.zip''"
  by code_simp

lemma sample_records: "records_hold sample_fetch ''AB'' (sample_place seed)" "prints_lower (te_sha (fe_transfer sample_fetch))"
  by (simp_all add: records_hold_def trust_sound_def sample_fetch_def sample_trust_def prints_lower_def)

lemma sample_lower: "to_ascii_lowercase ''AB'' = ''ab''" "to_ascii_lowercase ''ab'' = ''ab''"
  "to_ascii_lowercase ''zz'' = ''zz''" "to_ascii_lowercase ''xy'' = ''xy''"
  by code_simp+


end
