(* ===== verification/Repair.thy ===== *)
theory Repair
  imports Fetch
begin

text \<open>
  Repair of an installation (updater \<^verbatim>\<open>inventory.rs\<close>, \<^verbatim>\<open>app_inventory.rs\<close>, \<^verbatim>\<open>repair.rs\<close>):
  the check of a component against its declared files, and the exchange of a damaged directory
  for a fresh one. Directories are maps from names to contents; each call of the system takes
  its outcome from the surroundings. What is left behind in the staging area is not kept.
\<close>

section \<open>Components\<close>

record file_spec =
  fs_path :: string
  fs_size :: nat
  fs_sha :: string

record component_spec =
  cs_id :: string
  cs_version :: string
  cs_files :: "file_spec list"
  cs_artifact :: string
  cs_sha :: string
  cs_size :: nat
  cs_url :: string

definition total_declared_bytes :: "component_spec \<Rightarrow> nat" where
  "total_declared_bytes spec = sum_list (map fs_size (cs_files spec))"

datatype file_check = FcOk | FcMissing | FcSize nat nat | FcHash string string | FcIo

datatype probe_check = PcMatch string | PcMismatch string | PcFailed | PcUnsupported

text \<open>One file of a directory that is there; without \<open>deep\<close> only its size counts.\<close>

definition check_file :: "(string \<Rightarrow> string) \<Rightarrow> bool \<Rightarrow> bool \<Rightarrow> string option \<Rightarrow> file_spec \<Rightarrow> file_check" where
  "check_file sha deep readable found f =
     (case found of
        None \<Rightarrow> FcMissing
      | Some c \<Rightarrow>
          if length c \<noteq> fs_size f then FcSize (length c) (fs_size f)
          else if \<not> deep then FcOk
          else if \<not> readable then FcIo
          else if sha c = fs_sha f then FcOk
          else FcHash (sha c) (fs_sha f))"

record component_finding =
  cf_ok :: bool
  cf_files :: "(string \<times> file_check) list"
  cf_probe :: "probe_check option"

text \<open>How a directory is looked at: names and digests, and which files can be read.\<close>

record dir_view =
  dv_name :: "string \<Rightarrow> string"
  dv_sha :: "string \<Rightarrow> string"
  dv_readable :: "string \<Rightarrow> bool"

definition check_component ::
  "dir_view \<Rightarrow> bool \<Rightarrow> probe_check option \<Rightarrow> component_spec \<Rightarrow> file_tree option \<Rightarrow> component_finding" where
  "check_component dv deep probe spec dir =
     (let files = map (\<lambda>f. (fs_path f, case dir of
             None \<Rightarrow> FcMissing
           | Some t \<Rightarrow> check_file (dv_sha dv) deep (dv_readable dv (fs_path f)) (t (dv_name dv (fs_path f))) f))
           (cs_files spec)
      in \<lparr>cf_ok = dir \<noteq> None \<and> list_all (\<lambda>(_, r). r = FcOk) files
            \<and> (case probe of Some (PcMismatch s) \<Rightarrow> False | _ \<Rightarrow> True),
          cf_files = files, cf_probe = probe\<rparr>)"

definition version_matches :: "string \<Rightarrow> string \<Rightarrow> bool" where
  "version_matches reported expected \<longleftrightarrow> reported = expected \<or> starts_with reported (expected @ ''-'')"

text \<open>\<open>output\<close> is what the program printed, \<open>version_of\<close> the version found in it.\<close>

definition probe_component ::
  "string \<Rightarrow> bool \<Rightarrow> string option \<Rightarrow> (string \<Rightarrow> string option) \<Rightarrow> string \<Rightarrow> probe_check" where
  "probe_component i exe_there output version_of expected =
     (if i \<noteq> ''adb'' \<and> i \<noteq> ''ffmpeg'' then PcUnsupported
      else if \<not> exe_there then PcFailed
      else (case Option.bind output version_of of
              None \<Rightarrow> PcFailed
            | Some s \<Rightarrow> if version_matches s expected then PcMatch s else PcMismatch s))"

section \<open>The exchange of a directory\<close>

text \<open>
  The old directory goes to the quarantine, the new one takes its place; when that fails the
  old one is moved back, if it can be.
\<close>

record swap_env =
  sw_aside :: bool
  sw_moved :: bool
  sw_back :: bool

datatype swap_result = SwapRefused | SwapFailed bool bool | SwapDone

definition swap_in ::
  "swap_env \<Rightarrow> file_tree \<Rightarrow> file_tree option \<times> file_tree list
    \<Rightarrow> swap_result \<times> file_tree option \<times> file_tree list" where
  "swap_in e fresh p =
     (case p of (dir, quarantine) \<Rightarrow>
        (case dir of
           None \<Rightarrow> if sw_moved e then (SwapDone, Some fresh, quarantine) else (SwapFailed False True, None, quarantine)
         | Some old \<Rightarrow>
             if \<not> sw_aside e then (SwapRefused, dir, quarantine)
             else if sw_moved e then (SwapDone, Some fresh, old # quarantine)
             else if sw_back e then (SwapFailed True True, dir, quarantine)
             else (SwapFailed True False, None, old # quarantine)))"

section \<open>One component\<close>

record install_world =
  iw_components :: "string \<times> string \<rightharpoonup> file_tree"
  iw_versions :: "string \<rightharpoonup> file_tree"
  iw_quarantine :: "file_tree list"
  iw_pointer :: "current_state load_outcome"
  iw_artifacts :: "string \<Rightarrow> artifact_place"
  iw_inventory :: "string \<rightharpoonup> string \<times> file_spec list"

datatype repair_failure =
    FailPaused
  | FailFetch fetch_error
  | FailStaging
  | FailAside
  | FailMove bool bool
  | FailRecheck
  | FailPointer
  | FailDependencies

datatype component_outcome = Healthy | Repaired string | RepairFailed repair_failure

text \<open>
  \<open>rv_before\<close>, \<open>rv_after\<close>: what the version probe says, when one is asked for;
  \<open>rv_extract\<close>: how an artifact of this content unpacks.
\<close>

record repair_env =
  rv_paused :: bool
  rv_probing :: bool
  rv_before :: probe_check
  rv_after :: probe_check
  rv_view :: dir_view
  rv_trust :: "string \<Rightarrow> file_trust"
  rv_fetch :: fetch_env
  rv_extract :: "string \<Rightarrow> extract_env"
  rv_swap :: swap_env

definition required_of :: "component_spec \<Rightarrow> required_file list" where
  "required_of spec =
     map (\<lambda>f. \<lparr>rf_path = fs_path f, rf_size = min (int (fs_size f)) i64_max, rf_sha256 = fs_sha f\<rparr>) (cs_files spec)"

definition extract_limits :: "component_spec \<Rightarrow> extract_options" where
  "extract_limits spec =
     (let n = max (total_declared_bytes spec) 1 in \<lparr>xo_total = n, xo_file = n\<rparr>)"

definition probe_of :: "repair_env \<Rightarrow> probe_check \<Rightarrow> probe_check option" where
  "probe_of v p = (if rv_probing v then Some p else None)"

text \<open>Whether everything declared is there by records of earlier checks.\<close>

definition known_healthy :: "repair_env \<Rightarrow> component_spec \<Rightarrow> file_tree option \<Rightarrow> bool" where
  "known_healthy v spec dir \<longleftrightarrow> \<not> rv_probing v \<and> cs_files spec \<noteq> []
     \<and> list_all (\<lambda>f. is_ok (verify_cached (dv_sha (rv_view v)) (rv_trust v (fs_path f))
           (Option.bind dir (\<lambda>t. t (dv_name (rv_view v) (fs_path f)))) (fs_sha f) (fs_size f))) (cs_files spec)"

text \<open>Unpacking into the staging area, and the second look at it.\<close>

definition stage_component :: "repair_env \<Rightarrow> component_spec \<Rightarrow> string \<Rightarrow> file_tree option" where
  "stage_component v spec artifact =
     (case extract_component_zip (rv_extract v artifact) (required_of spec) (extract_limits spec) of
        (Inl e, t) \<Rightarrow> None
      | (Inr _, t) \<Rightarrow>
          if cf_ok (check_component (rv_view v) True None spec (Some t)) then Some t else None)"

definition install_component ::
  "repair_env \<Rightarrow> component_spec \<Rightarrow> obtained \<Rightarrow> file_tree \<Rightarrow> install_world \<Rightarrow> component_outcome \<times> install_world" where
  "install_component v spec o' fresh w =
     (let key = (cs_id spec, cs_version spec)
      in case swap_in (rv_swap v) fresh (iw_components w key, iw_quarantine w) of
           (res, dir, q) \<Rightarrow>
             (let w' = w\<lparr>iw_components := (iw_components w)(key := dir), iw_quarantine := q\<rparr>
              in case res of
                   SwapRefused \<Rightarrow> (RepairFailed FailAside, w')
                 | SwapFailed had back \<Rightarrow> (RepairFailed (FailMove had back), w')
                 | SwapDone \<Rightarrow>
                     if cf_ok (check_component (rv_view v) True (probe_of v (rv_after v)) spec dir)
                     then (Repaired (source_label o'), w')
                     else (RepairFailed FailRecheck, w')))"

definition repair_one ::
  "repair_env \<Rightarrow> component_spec \<Rightarrow> install_world \<Rightarrow> component_outcome \<times> install_world" where
  "repair_one v spec w =
     (let dir = iw_components w (cs_id spec, cs_version spec)
      in if rv_paused v then (RepairFailed FailPaused, w)
         else if known_healthy v spec dir then (Healthy, w)
         else if cf_ok (check_component (rv_view v) True (probe_of v (rv_before v)) spec dir) then (Healthy, w)
         else (case obtain_artifact (rv_fetch v) (cs_artifact spec) (cs_sha spec) (cs_size spec)
                      (Some (cs_url spec)) (iw_artifacts w (cs_artifact spec)) of
             (r, place) \<Rightarrow>
               (let w1 = w\<lparr>iw_artifacts := (iw_artifacts w)(cs_artifact spec := place)\<rparr>
                in case r of
                     Inl e \<Rightarrow> (RepairFailed (FailFetch e), w1)
                   | Inr o' \<Rightarrow>
                       (case stage_component v spec (obtained_content o') of
                          None \<Rightarrow> (RepairFailed FailStaging, w1)
                        | Some fresh \<Rightarrow> install_component v spec o' fresh w1))))"

section \<open>The application\<close>

record app_spec =
  as_version :: string
  as_entrypoint :: string
  as_artifact :: string
  as_sha :: string
  as_size :: nat
  as_url :: string
  as_scrcpy_path :: string
  as_scrcpy_sha :: string

definition verify_app_dir :: "dir_view \<Rightarrow> app_spec \<Rightarrow> file_tree option \<Rightarrow> bool" where
  "verify_app_dir dv app dir =
     (case dir of
        None \<Rightarrow> False
      | Some t \<Rightarrow>
          t (dv_name dv (as_entrypoint app)) \<noteq> None
          \<and> (case t (dv_name dv (as_scrcpy_path app)) of
               None \<Rightarrow> False
             | Some jar \<Rightarrow> dv_readable dv (as_scrcpy_path app) \<and> dv_sha dv jar = as_scrcpy_sha app))"

text \<open>
  The list of an application's files, made from its archive, and the check against it;
  \<open>deep\<close> does without the records of earlier checks.
\<close>

definition inventory_of :: "(string \<Rightarrow> string) \<Rightarrow> app_spec \<Rightarrow> zip_entry list \<Rightarrow> string \<times> file_spec list" where
  "inventory_of sha app es =
     (as_sha app, map (\<lambda>e. \<lparr>fs_path = the (ze_name e), fs_size = ze_size e, fs_sha = sha (entry_content e)\<rparr>)
        (file_entries es))"

definition inventory_file_ok ::
  "dir_view \<Rightarrow> (string \<Rightarrow> file_trust) \<Rightarrow> bool \<Rightarrow> file_tree \<Rightarrow> file_spec \<Rightarrow> bool" where
  "inventory_file_ok dv trust deep t f \<longleftrightarrow>
     check_single_path (fs_path f) = None
     \<and> (if deep then is_ok (verify_file (dv_sha dv) (dv_readable dv (fs_path f)) (t (dv_name dv (fs_path f)))
                         (fs_sha f) (fs_size f))
        else is_ok (verify_cached (dv_sha dv) (trust (fs_path f)) (t (dv_name dv (fs_path f))) (fs_sha f) (fs_size f)))"

definition verify_inventory ::
  "dir_view \<Rightarrow> (string \<Rightarrow> file_trust) \<Rightarrow> bool \<Rightarrow> app_spec \<Rightarrow> (string \<times> file_spec list) option \<Rightarrow> file_tree \<Rightarrow> bool" where
  "verify_inventory dv trust deep app listed t =
     (case listed of
        None \<Rightarrow> False
      | Some (artifact, files) \<Rightarrow>
          artifact = as_sha app \<and> files \<noteq> [] \<and> list_all (inventory_file_ok dv trust deep t) files)"

datatype app_outcome = AppHealthy | AppInstalled string | AppFailed repair_failure

text \<open>Reading and writing of the pointer, and of the list of files.\<close>

record app_env =
  ae_repair :: repair_env
  ae_pointer_reads :: bool
  ae_pointer_writes :: bool
  ae_records :: bool

definition ensure_current_pointer :: "app_env \<Rightarrow> string \<Rightarrow> install_world \<Rightarrow> bool \<times> install_world" where
  "ensure_current_pointer v version w =
     (let put = (\<lambda>p. if ae_pointer_writes v then (True, w\<lparr>iw_pointer := Present (current_state_new version p)\<rparr>)
                     else (False, w))
      in if \<not> ae_pointer_reads v then (False, w)
         else (case iw_pointer w of
             Present c \<Rightarrow> if cur_current c = version then (True, w) else put (Some (cur_current c))
           | Missing \<Rightarrow> put None
           | Corrupted \<Rightarrow>
               (case put None of (ok, w') \<Rightarrow> (ok, if ok then w' else w'\<lparr>iw_pointer := Missing\<rparr>))))"

text \<open>The staged application, and the list of files, which is written before the last checks.\<close>

definition stage_app ::
  "app_env \<Rightarrow> app_spec \<Rightarrow> string \<Rightarrow> install_world \<Rightarrow> file_tree option \<times> install_world" where
  "stage_app v app artifact w =
     (let r = ae_repair v; x = rv_extract r artifact
      in case extract_app_zip x default_extract_options of
           (Inl e, t) \<Rightarrow> (None, w)
         | (Inr _, t) \<Rightarrow>
             (case ee_entries x of
                None \<Rightarrow> (None, w)
              | Some es \<Rightarrow>
                  if \<not> ae_records v then (None, w)
                  else (let w' = w\<lparr>iw_inventory := (iw_inventory w)(as_version app \<mapsto> inventory_of (dv_sha (rv_view r)) app es)\<rparr>
                    in (if verify_inventory (rv_view r) (rv_trust r) False app (iw_inventory w' (as_version app)) t
                           \<and> verify_app_dir (rv_view r) app (Some t) then Some t else None, w'))))"

definition install_app ::
  "app_env \<Rightarrow> app_spec \<Rightarrow> obtained \<Rightarrow> file_tree \<Rightarrow> install_world \<Rightarrow> app_outcome \<times> install_world" where
  "install_app v app o' fresh w =
     (case swap_in (rv_swap (ae_repair v)) fresh (iw_versions w (as_version app), iw_quarantine w) of
        (res, dir, q) \<Rightarrow>
          (let w' = w\<lparr>iw_versions := (iw_versions w)(as_version app := dir), iw_quarantine := q\<rparr>
           in case res of
                SwapRefused \<Rightarrow> (AppFailed FailAside, w')
              | SwapFailed had back \<Rightarrow> (AppFailed (FailMove had back), w')
              | SwapDone \<Rightarrow>
                  if \<not> verify_app_dir (rv_view (ae_repair v)) app dir then (AppFailed FailRecheck, w')
                  else (case ensure_current_pointer v (as_version app) w' of
                      (True, w2) \<Rightarrow> (AppInstalled (source_label o'), w2)
                    | (False, w2) \<Rightarrow> (AppFailed FailPointer, w2))))"

definition fetch_app :: "app_env \<Rightarrow> app_spec \<Rightarrow> install_world \<Rightarrow> app_outcome \<times> install_world" where
  "fetch_app v app w =
     (case obtain_artifact (rv_fetch (ae_repair v)) (as_artifact app) (as_sha app) (as_size app) (Some (as_url app))
             (iw_artifacts w (as_artifact app)) of
        (r, place) \<Rightarrow>
          (let w1 = w\<lparr>iw_artifacts := (iw_artifacts w)(as_artifact app := place)\<rparr>
           in case r of
                Inl e \<Rightarrow> (AppFailed (FailFetch e), w1)
              | Inr o' \<Rightarrow>
                  (case stage_app v app (obtained_content o') w1 of
                     (None, w2) \<Rightarrow> (AppFailed FailStaging, w2)
                   | (Some fresh, w2) \<Rightarrow> install_app v app o' fresh w2)))"

definition repair_app :: "app_env \<Rightarrow> app_spec \<Rightarrow> install_world \<Rightarrow> app_outcome \<times> install_world" where
  "repair_app v app w =
     (let r = ae_repair v; dir = iw_versions w (as_version app)
      in if rv_paused r then (AppFailed FailPaused, w)
         else if (case dir of None \<Rightarrow> False
                  | Some t \<Rightarrow> verify_inventory (rv_view r) (rv_trust r) (rv_probing r) app
                      (iw_inventory w (as_version app)) t)
         then (case ensure_current_pointer v (as_version app) w of
                 (True, w') \<Rightarrow> (AppHealthy, w') | (False, w') \<Rightarrow> (AppFailed FailPointer, w'))
         else fetch_app v app w)"

section \<open>The whole repair\<close>

fun repair_each ::
  "(repair_env \<times> component_spec) list \<Rightarrow> install_world \<Rightarrow> component_outcome list \<times> install_world" where
  "repair_each [] w = ([], w)"
| "repair_each ((v, spec) # rest) w =
     (case repair_one v spec w of
        (out, w1) \<Rightarrow> (case repair_each rest w1 of (outs, w2) \<Rightarrow> (out # outs, w2)))"

fun component_failed :: "component_outcome \<Rightarrow> bool" where
  "component_failed (RepairFailed e) = True"
| "component_failed _ = False"

definition repair_components ::
  "(repair_env \<times> component_spec) list \<Rightarrow> app_env \<Rightarrow> app_spec option \<Rightarrow> install_world
    \<Rightarrow> (component_outcome list \<times> app_outcome option) \<times> install_world" where
  "repair_components specs v app w =
     (case repair_each specs w of
        (outs, w1) \<Rightarrow>
          (case app of
             None \<Rightarrow> ((outs, None), w1)
           | Some a \<Rightarrow>
               if list_ex component_failed outs then ((outs, Some (AppFailed FailDependencies)), w1)
               else (case repair_app v a w1 of (out, w2) \<Rightarrow> ((outs, Some out), w2))))"

section \<open>What an exchange keeps\<close>

lemma swap_keeps:
  "swap_in e fresh (dir, q) = (res, dir', q') \<Longrightarrow>
    set q \<subseteq> set q' \<and> (case res of SwapDone \<Rightarrow> dir' = Some fresh | _ \<Rightarrow> dir' = dir \<or> dir' = None)
    \<and> (\<forall>t. dir = Some t \<longrightarrow> dir' = Some t \<or> t \<in> set q')"
  by (auto simp: swap_in_def split: option.splits if_splits)

text \<open>No directory of a component is lost: it is where it was or in the quarantine.\<close>

definition keeps_components :: "install_world \<Rightarrow> install_world \<Rightarrow> bool" where
  "keeps_components w w' \<longleftrightarrow> set (iw_quarantine w) \<subseteq> set (iw_quarantine w')
     \<and> iw_pointer w' = iw_pointer w \<and> iw_versions w' = iw_versions w
     \<and> (\<forall>k t. iw_components w k = Some t \<longrightarrow> iw_components w' k = Some t \<or> t \<in> set (iw_quarantine w'))"

lemma keeps_refl [simp]: "keeps_components w w" "keeps_components w (w\<lparr>iw_artifacts := f\<rparr>)"
  by (simp_all add: keeps_components_def)

lemma keeps_trans: "keeps_components w w1 \<Longrightarrow> keeps_components w1 w2 \<Longrightarrow> keeps_components w w2"
  unfolding keeps_components_def by (auto; blast)

lemma install_keeps: "keeps_components w (snd (install_component v spec o' fresh w))"
proof -
  let ?key = "(cs_id spec, cs_version spec)"
  obtain res dir q where s: "swap_in (rv_swap v) fresh (iw_components w ?key, iw_quarantine w) = (res, dir, q)"
    by (metis prod_cases3)
  have "snd (install_component v spec o' fresh w)
      = w\<lparr>iw_components := (iw_components w)(?key := dir), iw_quarantine := q\<rparr>"
    by (cases res) (simp_all add: install_component_def Let_def s)
  then show ?thesis using swap_keeps [OF s] by (auto simp: keeps_components_def)
qed

lemma repair_one_keeps: "keeps_components w (snd (repair_one v spec w))"
proof -
  obtain r place where o: "obtain_artifact (rv_fetch v) (cs_artifact spec) (cs_sha spec) (cs_size spec)
      (Some (cs_url spec)) (iw_artifacts w (cs_artifact spec)) = (r, place)" by fastforce
  have "keeps_components w (snd (install_component v spec x fresh (w\<lparr>iw_artifacts := f\<rparr>)))" for x fresh f
    by (rule keeps_trans [OF keeps_refl(2) install_keeps])
  then show ?thesis
    by (auto simp: repair_one_def o Let_def split: sum.splits option.splits)
qed

lemma repair_each_keeps: "keeps_components w (snd (repair_each specs w))"
proof (induction specs arbitrary: w)
  case (Cons x specs)
  obtain v spec where x: "x = (v, spec)" by fastforce
  obtain out w1 where o: "repair_one v spec w = (out, w1)" by fastforce
  have "keeps_components w w1" using repair_one_keeps [of w v spec] o by simp
  then show ?case
    using Cons.IH [of w1] keeps_trans by (auto simp: x o split: prod.splits)
qed simp

lemma checked_files:
  "cf_ok (check_component dv True probe spec (Some t)) \<Longrightarrow> f \<in> set (cs_files spec) \<Longrightarrow>
    \<exists>c. t (dv_name dv (fs_path f)) = Some c \<and> length c = fs_size f \<and> dv_sha dv c = fs_sha f"
  by (fastforce simp: check_component_def Let_def list_all_iff check_file_def split: option.splits if_splits)

lemma stage_declared:
  assumes "stage_component v spec c = Some t" "ee_fs_name (rv_extract v c) = dv_name (rv_view v)"
    "\<And>es. ee_entries (rv_extract v c) = Some es \<Longrightarrow> dirs_marked es"
  shows "dom t = dv_name (rv_view v) ` fs_path ` set (cs_files spec)"
proof -
  obtain u where "extract_component_zip (rv_extract v c) (required_of spec) (extract_limits spec) = (Inr u, t)"
    using assms(1) by (auto simp: stage_component_def split: prod.splits sum.splits if_splits)
  then have "dom t = ee_fs_name (rv_extract v c) ` rf_path ` set (required_of spec)"
    using extracted_declared [of "rv_extract v c" "required_of spec"] assms(3) by fastforce
  also have "rf_path ` set (required_of spec) = fs_path ` set (cs_files spec)"
    by (force simp: required_of_def)
  finally show ?thesis by (simp add: assms(2))
qed

lemma install_repaired:
  assumes "install_component v spec o' fresh w = (Repaired src, w')"
  shows "iw_components w' (cs_id spec, cs_version spec) = Some fresh
    \<and> cf_ok (check_component (rv_view v) True (probe_of v (rv_after v)) spec (Some fresh))"
proof -
  obtain res dir q where s: "swap_in (rv_swap v) fresh
      (iw_components w (cs_id spec, cs_version spec), iw_quarantine w) = (res, dir, q)"
    by (metis prod_cases3)
  show ?thesis
    using assms swap_keeps [OF s]
    by (cases res) (auto simp: install_component_def Let_def s split: if_splits)
qed

lemma repaired_cases:
  assumes "repair_one v spec w = (Repaired src, w')"
  shows "\<exists>o' fresh w1. stage_component v spec (obtained_content o') = Some fresh
    \<and> install_component v spec o' fresh w1 = (Repaired src, w')"
proof -
  obtain r place where o: "obtain_artifact (rv_fetch v) (cs_artifact spec) (cs_sha spec) (cs_size spec)
      (Some (cs_url spec)) (iw_artifacts w (cs_artifact spec)) = (r, place)" by fastforce
  show ?thesis
    using assms by (auto simp: repair_one_def o Let_def split: if_splits sum.splits option.splits)
qed

lemma pointer_kept_or_set:
  "ensure_current_pointer v version w = (ok, w') \<Longrightarrow>
    iw_versions w' = iw_versions w
    \<and> (ok \<longrightarrow> (\<exists>c. iw_pointer w' = Present c \<and> cur_current c = version))
    \<and> (\<not> ok \<longrightarrow> iw_pointer w' = iw_pointer w \<or> iw_pointer w = Corrupted \<and> iw_pointer w' = Missing)"
  by (auto simp: ensure_current_pointer_def Let_def current_state_new_def split: load_outcome.splits if_splits)

lemma installed_app:
  assumes "install_app v app o' fresh w = (out, w')" "\<And>e. out \<noteq> AppFailed e"
  shows "iw_versions w' (as_version app) = Some fresh \<and> (\<exists>c. iw_pointer w' = Present c \<and> cur_current c = as_version app)"
proof -
  obtain res dir q where s: "swap_in (rv_swap (ae_repair v)) fresh (iw_versions w (as_version app), iw_quarantine w)
      = (res, dir, q)" by (metis prod_cases3)
  let ?w = "w\<lparr>iw_versions := (iw_versions w)(as_version app := dir), iw_quarantine := q\<rparr>"
  have "res = SwapDone"
    using assms by (cases res) (auto simp: install_app_def s Let_def)
  moreover have "ensure_current_pointer v (as_version app) ?w = (True, w')"
    using assms calculation by (auto simp: install_app_def s Let_def split: if_splits prod.splits bool.splits)
  ultimately show ?thesis
    using pointer_kept_or_set [of v "as_version app" ?w] swap_keeps [OF s] by simp
qed

lemma repaired_app:
  assumes "repair_app v app w = (out, w')" "\<And>e. out \<noteq> AppFailed e"
  shows "iw_versions w' (as_version app) \<noteq> None \<and> (\<exists>c. iw_pointer w' = Present c \<and> cur_current c = as_version app)"
proof (cases "fetch_app v app w = (out, w')")
  case True
  then obtain o' fresh w1 where "install_app v app o' fresh w1 = (out, w')"
    using assms(2) by (auto simp: fetch_app_def Let_def split: prod.splits sum.splits option.splits)
  then show ?thesis using installed_app assms(2) by blast
next
  case False
  then have "iw_versions w (as_version app) \<noteq> None" "ensure_current_pointer v (as_version app) w = (True, w')"
    using assms by (auto simp: repair_app_def Let_def split: if_splits option.splits prod.splits bool.splits)
  then show ?thesis using pointer_kept_or_set by fastforce
qed

section \<open>The promises\<close>

text \<open>
  C19. However the repair of the components ends - a pause, a missing artifact, a bad archive,
  a directory that cannot be moved - no component's directory is lost: it is where it was, or
  it is in the quarantine, from which nothing is taken. The pointer and the versions of the
  application are not touched.
\<close>

theorem repair_loses_no_component:
  assumes "repair_each specs w = (outs, w')"
  shows "(\<forall>t. iw_components w k = Some t \<longrightarrow> iw_components w' k = Some t \<or> t \<in> set (iw_quarantine w'))
    \<and> set (iw_quarantine w) \<subseteq> set (iw_quarantine w')
    \<and> iw_pointer w' = iw_pointer w \<and> iw_versions w' = iw_versions w"
  using repair_each_keeps [of w specs] assms by (cases k) (auto simp: keeps_components_def)

text \<open>
  C24. A component that was repaired is what its manifest declares, and nothing besides: every
  file with its size and digest.
\<close>

theorem repaired_component_is_declared:
  assumes "repair_one v spec w = (Repaired src, w')"
    "\<And>c. ee_fs_name (rv_extract v c) = dv_name (rv_view v)"
    "\<And>c es. ee_entries (rv_extract v c) = Some es \<Longrightarrow> dirs_marked es"
  shows "\<exists>t. iw_components w' (cs_id spec, cs_version spec) = Some t
    \<and> dom t = dv_name (rv_view v) ` fs_path ` set (cs_files spec)
    \<and> (\<forall>f \<in> set (cs_files spec). \<exists>c. t (dv_name (rv_view v) (fs_path f)) = Some c
         \<and> length c = fs_size f \<and> dv_sha (rv_view v) c = fs_sha f)"
proof -
  obtain o' fresh w1 where f: "stage_component v spec (obtained_content o') = Some fresh"
      "install_component v spec o' fresh w1 = (Repaired src, w')"
    using repaired_cases [OF assms(1)] by blast
  have "dom fresh = dv_name (rv_view v) ` fs_path ` set (cs_files spec)"
    by (rule stage_declared [OF f(1) assms(2)]) (rule assms(3))
  then show ?thesis
    using install_repaired [OF f(2)] checked_files by (intro exI [of _ fresh]) blast
qed

text \<open>
  When a repair is reported to have left an application installed or found it healthy, no
  component had failed, and the pointer names the version, whose directory is there.
\<close>

theorem pointer_names_the_repaired_app:
  assumes "repair_components specs v (Some app) w = ((outs, Some out), w')" "\<And>e. out \<noteq> AppFailed e"
  shows "\<not> list_ex component_failed outs \<and> iw_versions w' (as_version app) \<noteq> None
    \<and> (\<exists>c. iw_pointer w' = Present c \<and> cur_current c = as_version app)"
proof -
  obtain outs' w1 where e: "repair_each specs w = (outs', w1)" by fastforce
  then have "\<not> list_ex component_failed outs" "repair_app v app w1 = (out, w')"
    using assms by (auto simp: repair_components_def split: if_splits prod.splits)
  then show ?thesis using repaired_app assms(2) by blast
qed

text \<open>
  When the last check of a component that has just been put in place fails, the new
  directory stays and the old one is left in the quarantine; it is not moved back.
\<close>

theorem failed_recheck_keeps_new_component:
  assumes "install_component v spec o' fresh w = (RepairFailed FailRecheck, w')"
    "iw_components w (cs_id spec, cs_version spec) = Some old"
  shows "iw_components w' (cs_id spec, cs_version spec) = Some fresh \<and> old \<in> set (iw_quarantine w')"
proof -
  obtain res dir q where s: "swap_in (rv_swap v) fresh
      (iw_components w (cs_id spec, cs_version spec), iw_quarantine w) = (res, dir, q)"
    by (metis prod_cases3)
  have "res = SwapDone"
    using assms(1) by (cases res) (auto simp: install_component_def Let_def s split: if_splits)
  then show ?thesis
    using assms s by (auto simp: install_component_def Let_def swap_in_def split: if_splits option.splits)
qed

section \<open>Witnesses\<close>

text \<open>A component of one file, damaged; its archive is the sample's, and every call works.\<close>

definition sample_view :: dir_view where
  "sample_view = \<lparr>dv_name = (\<lambda>s. s), dv_sha = (\<lambda>s. s), dv_readable = (\<lambda>_. True)\<rparr>"

definition sample_component :: component_spec where
  "sample_component = \<lparr>cs_id = ''adb'', cs_version = ''1'',
     cs_files = [\<lparr>fs_path = ''a.txt'', fs_size = 2, fs_sha = ''hi''\<rparr>], cs_artifact = ''a.zip'', cs_sha = ''zz'',
     cs_size = 2, cs_url = sample_url\<rparr>"

definition sample_repair :: "probe_check \<Rightarrow> repair_env" where
  "sample_repair p = \<lparr>rv_paused = False, rv_probing = True, rv_before = PcFailed, rv_after = p, rv_view = sample_view,
     rv_trust = (\<lambda>_. sample_trust), rv_fetch = sample_fetch, rv_extract = (\<lambda>_. sample_archive),
     rv_swap = \<lparr>sw_aside = True, sw_moved = True, sw_back = True\<rparr>\<rparr>"

definition damaged_world :: install_world where
  "damaged_world = \<lparr>iw_components = [(''adb'', ''1'') \<mapsto> [''a.txt'' \<mapsto> ''ho'']], iw_versions = (\<lambda>_. None),
     iw_quarantine = [], iw_pointer = Missing, iw_artifacts = (\<lambda>_. sample_place (Some ''zz'')),
     iw_inventory = (\<lambda>_. None)\<rparr>"

definition repaired_world :: install_world where
  "repaired_world = damaged_world\<lparr>iw_components := [(''adb'', ''1'') \<mapsto> [''a.txt'' \<mapsto> ''hi'']],
     iw_quarantine := [[''a.txt'' \<mapsto> ''ho'']]\<rparr>"

lemma sample_obtained:
  "obtain_artifact sample_fetch ''a.zip'' ''zz'' 2 (Some sample_url) (sample_place (Some ''zz''))
    = (Inr (ObtSeed ''zz''), sample_place (Some ''zz''))"
  by (simp add: obtain_artifact_def sample_name sample_place_def verify_cached_def verify_file_def sample_fetch_def
      sample_trust_def sample_lower Let_def)

lemma sample_staged: "stage_component (sample_repair p) sample_component c = Some [''a.txt'' \<mapsto> ''hi'']"
proof -
  have "extract_component_zip sample_archive (required_of sample_component) (extract_limits sample_component)
      = (Inr (), [''a.txt'' \<mapsto> ''hi''])"
    using sample_extracted(1)
    by (simp add: required_of_def sample_component_def extract_limits_def total_declared_bytes_def i64_max_def
        sample_required_def sample_limits_def Let_def numeral_2_eq_2)
  then show ?thesis
    by (simp add: stage_component_def sample_repair_def check_component_def sample_view_def sample_component_def
        check_file_def Let_def)
qed

lemma sample_world_put:
  "damaged_world\<lparr>iw_artifacts := (iw_artifacts damaged_world)(a := sample_place (Some ''zz''))\<rparr> = damaged_world"
  by (simp add: damaged_world_def fun_upd_def)

lemma sample_installed:
  "install_component (sample_repair p) sample_component (ObtSeed ''zz'') [''a.txt'' \<mapsto> ''hi''] damaged_world
    = ((case p of PcMismatch s \<Rightarrow> RepairFailed FailRecheck | _ \<Rightarrow> Repaired ''seed''), repaired_world)"
  by (simp add: install_component_def swap_in_def sample_repair_def sample_component_def damaged_world_def
      repaired_world_def check_component_def sample_view_def check_file_def probe_of_def Let_def
      split: probe_check.split)

lemma sample_repaired:
  "repair_one (sample_repair p) sample_component damaged_world
    = ((case p of PcMismatch s \<Rightarrow> RepairFailed FailRecheck | _ \<Rightarrow> Repaired ''seed''), repaired_world)"
proof -
  have d: "iw_components damaged_world (''adb'', ''1'') = Some [''a.txt'' \<mapsto> ''ho'']"
      "iw_artifacts damaged_world ''a.zip'' = sample_place (Some ''zz'')"
    by (simp_all add: damaged_world_def)
  have f: "cs_id sample_component = ''adb''" "cs_version sample_component = ''1''" "cs_artifact sample_component = ''a.zip''"
      "cs_sha sample_component = ''zz''" "cs_size sample_component = 2" "cs_url sample_component = sample_url"
    by (simp_all add: sample_component_def)
  have r: "\<not> rv_paused (sample_repair p)" "rv_fetch (sample_repair p) = sample_fetch" "rv_probing (sample_repair p)"
    by (simp_all add: sample_repair_def)
  have bad: "\<not> cf_ok (check_component (rv_view (sample_repair p)) True (probe_of (sample_repair p) (rv_before (sample_repair p)))
      sample_component (Some [''a.txt'' \<mapsto> ''ho'']))"
    by (simp add: check_component_def sample_repair_def sample_view_def check_file_def sample_component_def)
  have one: "\<not> known_healthy (sample_repair p) sample_component x" for x
    using r(3) by (simp add: known_healthy_def)
  show ?thesis
    by (simp add: repair_one_def d f r one bad sample_obtained sample_world_put sample_staged sample_installed Let_def
        del: fun_upd_apply)
qed

theorem repair_loses_no_component_witness:
  "repair_each [(sample_repair PcFailed, sample_component)] damaged_world = ([Repaired ''seed''], repaired_world)
    \<and> [''a.txt'' \<mapsto> ''ho''] \<in> set (iw_quarantine repaired_world) \<and> iw_pointer repaired_world = Missing"
proof -
  have e: "repair_each [(sample_repair PcFailed, sample_component)] damaged_world = ([Repaired ''seed''], repaired_world)"
    by (simp add: sample_repaired)
  have "iw_components damaged_world (''adb'', ''1'') = Some [''a.txt'' \<mapsto> ''ho'']"
      "iw_components repaired_world (''adb'', ''1'') = Some [''a.txt'' \<mapsto> ''hi'']" "iw_pointer damaged_world = Missing"
    by (simp_all add: damaged_world_def repaired_world_def)
  moreover have "[''a.txt'' \<mapsto> ''hi''] \<noteq> [''a.txt'' \<mapsto> ''ho'']" by (auto simp: fun_eq_iff)
  ultimately show ?thesis using repair_loses_no_component [OF e, of "(''adb'', ''1'')"] e by auto
qed

theorem repaired_component_is_declared_witness:
  "\<exists>t. iw_components repaired_world (''adb'', ''1'') = Some t \<and> dom t = {''a.txt''}"
proof -
  have r: "repair_one (sample_repair PcFailed) sample_component damaged_world = (Repaired ''seed'', repaired_world)"
    by (simp add: sample_repaired)
  have n: "ee_fs_name (rv_extract (sample_repair PcFailed) c) = dv_name (rv_view (sample_repair PcFailed))" for c
    by (simp add: sample_repair_def sample_archive_def sample_view_def)
  have m: "dirs_marked es" if "ee_entries (rv_extract (sample_repair PcFailed) c) = Some es" for c es
    using that sample_marked by (simp add: sample_repair_def sample_archive_def)
  from repaired_component_is_declared [OF r n m] show ?thesis
    by (auto simp: sample_component_def sample_repair_def sample_view_def)
qed

theorem failed_recheck_keeps_new_component_witness:
  "\<exists>w'. install_component (sample_repair (PcMismatch ''2'')) sample_component (ObtSeed ''zz'') [''a.txt'' \<mapsto> ''hi'']
      damaged_world = (RepairFailed FailRecheck, w') \<and> iw_components w' (''adb'', ''1'') = Some [''a.txt'' \<mapsto> ''hi'']"
proof -
  have i: "install_component (sample_repair (PcMismatch ''2'')) sample_component (ObtSeed ''zz'') [''a.txt'' \<mapsto> ''hi'']
      damaged_world = (RepairFailed FailRecheck, repaired_world)"
    by (simp add: sample_installed)
  have "iw_components damaged_world (cs_id sample_component, cs_version sample_component) = Some [''a.txt'' \<mapsto> ''ho'']"
    by (simp add: damaged_world_def sample_component_def)
  from failed_recheck_keeps_new_component [OF i this] show ?thesis
    using i by (auto simp: sample_component_def)
qed

text \<open>An application that is already there, as its list of files says.\<close>

definition sample_app :: app_spec where
  "sample_app = \<lparr>as_version = ''2'', as_entrypoint = ''a.txt'', as_artifact = ''b.zip'', as_sha = ''zz'', as_size = 2,
     as_url = sample_url, as_scrcpy_path = ''a.txt'', as_scrcpy_sha = ''hi''\<rparr>"

definition healthy_world :: install_world where
  "healthy_world = damaged_world\<lparr>iw_versions := [''2'' \<mapsto> [''a.txt'' \<mapsto> ''hi'']],
     iw_inventory := [''2'' \<mapsto> (''zz'', [\<lparr>fs_path = ''a.txt'', fs_size = 2, fs_sha = ''hi''\<rparr>])]\<rparr>"

definition sample_app_env :: app_env where
  "sample_app_env = \<lparr>ae_repair = sample_repair PcFailed, ae_pointer_reads = True, ae_pointer_writes = True,
     ae_records = True\<rparr>"

theorem pointer_names_the_repaired_app_witness:
  "\<exists>w'. repair_components [] sample_app_env (Some sample_app) healthy_world = (([], Some AppHealthy), w')
     \<and> (\<exists>c. iw_pointer w' = Present c \<and> cur_current c = ''2'')"
proof -
  have "\<exists>w'. repair_components [] sample_app_env (Some sample_app) healthy_world = (([], Some AppHealthy), w')"
    by (simp add: repair_components_def repair_app_def sample_app_env_def sample_repair_def healthy_world_def
        damaged_world_def sample_app_def verify_inventory_def inventory_file_ok_def sample_path sample_view_def
        verify_file_def to_ascii_lowercase_def ascii_defs ensure_current_pointer_def Let_def)
  then obtain w' where r: "repair_components [] sample_app_env (Some sample_app) healthy_world = (([], Some AppHealthy), w')"
    by blast
  show ?thesis using pointer_names_the_repaired_app [OF r] r by (auto simp: sample_app_def)
qed

end
