(* ===== verification/Spec2Isabelle.thy ===== *)
theory Spec2Isabelle
  imports Semver PathSafe UpdatePolicy ActivationGate LocalController EngineTheorems Control RunTheorems
    TimerScheduler AuthTheorems McpProtocol McpWork Repair
begin

text \<open>
  A verification library for the automation server (\<^verbatim>\<open>server/src\<close>) and its launcher
  (\<^verbatim>\<open>updater/src\<close>).

  The program. A server runs plugins' scripts on devices. A request to run something becomes
  a run of a device: the run manager admits it, drives an executor through prepare, acquire,
  execute and release, tells its hooks and archives a record. The timer starts runs of stored
  tasks at planned instants, through registries of schedules and runners that plugins fill.
  A person and an AI session share a device's input under leases. Every request passes a
  gate that takes a session or the token of the local host; external AI tools come with
  credentials of their own and call tools of providers, at most once per operation. The server is updated by
  its launcher: the server decides when (policy, maintenance window, idle workload, a pause
  barrier over all requests), asks over a framed pipe, and the launcher checks, downloads,
  snapshots the data, switches the version pointer, probes the candidate and either commits
  or rolls back; an interrupted installation is recovered at the next start.

  Which theory models what.
  \<^item> \<^verbatim>\<open>Prelude\<close>, \<^verbatim>\<open>RustStr\<close>, \<^verbatim>\<open>Json\<close>: results, three-way comparison, guarded transition
    systems (\<^verbatim>\<open>reach\<close> and the locale \<^verbatim>\<open>guarded_system\<close>, interpreted by each system below);
    strings as their UTF-8 bytes with trimming, splitting and number parsing; JSON values with
    sorted objects.
  \<^item> \<^verbatim>\<open>Semver\<close> (updater \<^verbatim>\<open>manifest/semver.rs\<close>) and \<^verbatim>\<open>PathSafe\<close> (\<^verbatim>\<open>manifest/pathsafe.rs\<close>):
    parsing against a grammar, precedence against its specification, and containment of
    accepted paths.
  \<^item> \<^verbatim>\<open>UpdateModel\<close>, \<^verbatim>\<open>UpdatePolicy\<close>, \<^verbatim>\<open>ActivationGate\<close>, \<^verbatim>\<open>UpdateService\<close> (server
    \<^verbatim>\<open>update/\<close>): states and the admission matrix, policy and window, the token gate and the
    barrier, the service's cache, transaction and background task.
  \<^item> \<^verbatim>\<open>Frames\<close>, \<^verbatim>\<open>Journal\<close>, \<^verbatim>\<open>Dispatch\<close>, \<^verbatim>\<open>LocalController\<close> (updater \<^verbatim>\<open>ipc/\<close>,
    \<^verbatim>\<open>state/\<close>; server \<^verbatim>\<open>update/local.rs\<close>): the pipe's frames, the journal, the dispatcher
    with its reply cache, and what the server makes of its answers.
  \<^item> \<^verbatim>\<open>Machine\<close>, \<^verbatim>\<open>Snapshot\<close>, \<^verbatim>\<open>Probe\<close>, \<^verbatim>\<open>Engine\<close>, \<^verbatim>\<open>Recovery\<close> (updater \<^verbatim>\<open>upgrade/\<close>):
    the installation as programs over a machine of live data, snapshots, pointer and journal;
    \<^verbatim>\<open>CrashSafety\<close>, \<^verbatim>\<open>RecoverySafety\<close>, \<^verbatim>\<open>InstallSafety\<close>, \<^verbatim>\<open>RecoveryLiveness\<close> hold the
    reasoning, \<^verbatim>\<open>CrashTheorems\<close> and \<^verbatim>\<open>EngineTheorems\<close> the results.
  \<^item> \<^verbatim>\<open>Control\<close> (server \<^verbatim>\<open>core/control.rs\<close>), \<^verbatim>\<open>Identity\<close> (\<^verbatim>\<open>core/models.rs\<close>).
  \<^item> \<^verbatim>\<open>RunManager\<close>, \<^verbatim>\<open>RunSafety\<close>, \<^verbatim>\<open>RunTheorems\<close> (\<^verbatim>\<open>run_manager.rs\<close>): the registry, the
    life of a run with every lock section a step of its own, and what holds of it.
  \<^item> \<^verbatim>\<open>TimerTask\<close>, \<^verbatim>\<open>TimerStore\<close>, \<^verbatim>\<open>TimerCore\<close>, \<^verbatim>\<open>TimerBatch\<close>, \<^verbatim>\<open>TimerSystem\<close>,
    \<^verbatim>\<open>TimerTheorems\<close>, \<^verbatim>\<open>TimerScheduler\<close> (\<^verbatim>\<open>timer_core.rs\<close>, the timer's part of
    \<^verbatim>\<open>store.rs\<close>, \<^verbatim>\<open>scheduler.rs\<close>): tasks and their rows, the statements on them, dispatch
    and settlement, batches of inputs, the whole as a system, and runner registration,
    presets and run-now.
  \<^item> \<^verbatim>\<open>AuthCore\<close>, \<^verbatim>\<open>AuthHttp\<close>, \<^verbatim>\<open>AuthSystem\<close>, \<^verbatim>\<open>AuthGuess\<close>, \<^verbatim>\<open>AuthTheorems\<close>
    (\<^verbatim>\<open>api/auth.rs\<close>, \<^verbatim>\<open>api/auth/\<close>): sessions, the login limit, the account and the files
    they live in; cookies, origins and admission of requests; the whole as a system of steps
    and restarts, and runs of guesses.
  \<^item> \<^verbatim>\<open>McpCredentials\<close>, \<^verbatim>\<open>McpTokens\<close>, \<^verbatim>\<open>McpReceipts\<close>, \<^verbatim>\<open>McpCall\<close>, \<^verbatim>\<open>McpSystem\<close>,
    \<^verbatim>\<open>McpTheorems\<close>, \<^verbatim>\<open>McpProtocol\<close>, \<^verbatim>\<open>McpWork\<close> (server \<^verbatim>\<open>mcp/\<close>): the credentials of
    external tools and their file, the receipts of operations and the ownership of objects,
    descriptors, the catalogue and the binding of a call, calls side by side with crashes, the
    messages of the protocol with the pages of the catalogue, and the temporary work a
    revocation drains.
  \<^item> \<^verbatim>\<open>Archive\<close>, \<^verbatim>\<open>Download\<close>, \<^verbatim>\<open>Fetch\<close>, \<^verbatim>\<open>Repair\<close> (updater \<^verbatim>\<open>archive.rs\<close>,
    \<^verbatim>\<open>digest.rs\<close>, \<^verbatim>\<open>transfer.rs\<close>, \<^verbatim>\<open>fetch.rs\<close>, \<^verbatim>\<open>verification.rs\<close>, \<^verbatim>\<open>inventory.rs\<close>,
    \<^verbatim>\<open>app_inventory.rs\<close>, \<^verbatim>\<open>repair.rs\<close>): unpacking with its limits, downloads that resume,
    the places an artifact may come from, and the exchange of damaged directories.

  How code becomes definitions. A struct is a record, an enum a datatype, a handler a
  function from state and arguments to result and new state, with the answers of whatever
  lies outside (executors, plugins, clocks, fresh ids, hashes, the JSON, TOML, zip, schema and
  time crates, the network) as arguments. Where threads or dropped futures interleave, each section between two
  suspension points is a step of an inductive relation. Where calls may fail or the process
  may stop (the installation), an effect takes its verdict from a list: work, fail, or stop;
  theorems quantify over the list. Database accesses of the timer take their faults from a
  list in the same way.

  Bounds and fuel. The polls of a candidate's readiness are the list of answers the prober
  gets, so the loop is structural in it; so are the reads of an archive and of a transfer. A
  client has the catalogue after one request per fifty tools. A run ends within fourteen of its own steps; the
  theorem counts them. A batch's rank is at most three per input. Generation counters are
  natural numbers where the code has 64-bit ones, which cannot wrap in the life of a process;
  instants are integers of nanoseconds. Lengths and sizes that the code checks are kept at
  their bounds.

  What the groups of lemmas show: that each invariant is kept by every step (the
  interpretations of \<^verbatim>\<open>guarded_system\<close>), that codecs read back what they write, that a gate
  accepts exactly what its specification says, that an interrupted installation is always
  accounted for, that runs and batches end and are reported once, and, where the code does
  something else than it says, the run that shows it.

  Not modelled, and why: the device, media, recording, webrtc, browser, vision and OCR
  subsystems (I/O around external programs, codecs and floating-point kernels); the extension
  host, package archives and the market (WebAssembly runtime, zip containers, downloads); the
  HTTP surface, the transport of MCP and its built-in tools (routing over the modelled services); traces, logs, metrics,
  configuration files and SQL migrations; the updater's process supervision
  and Windows calls; vendored code, tools, examples and the web console.
\<close>

end
